(* ===== verification/Prelude.thy ===== *)
theory Prelude
  imports "HOL-Library.Word" "HOL-Library.State_Monad" "HOL-Library.Signed_Division"
begin

unbundle bit_operations_syntax

text \<open>
  Shared vocabulary of the development: C integer conversions, the text formatting the
  native code does with \<open>snprintf\<close>, stores into a byte buffer, a weakest-precondition
  calculus for the state monad (one straight-line C function is one value of that monad)
  and the do-while loop with its rules for partial correctness, termination and divergence.
\<close>

named_theorems wp_simps \<open>weakest preconditions of the primitives of the model\<close>
named_theorems frame_intros \<open>what a function leaves as it is, by its construction\<close>
named_theorems bits_simps \<open>evaluation of masks and flags of the parameter bit set\<close>

type_synonym byte = "8 word"
type_synonym bytes = "byte list"
type_synonym jint = "32 word"

section \<open>C integer conversions\<close>

text \<open>\<open>int32\<close> is the cast \<open>(int32_t) x\<close>, \<open>uint32\<close> the cast \<open>(uint32_t) x\<close>.\<close>

definition int32 :: "int \<Rightarrow> int" where
  "int32 x = signed_take_bit 31 x"

definition uint32 :: "int \<Rightarrow> int" where
  "uint32 x = take_bit 32 x"

definition size_t :: "int \<Rightarrow> int" where
  "size_t x = take_bit 64 x"

lemma int32_id: "- (2 ^ 31) \<le> x \<Longrightarrow> x < 2 ^ 31 \<Longrightarrow> int32 x = x"
  by (simp add: int32_def signed_take_bit_int_eq_self)

lemma int32_small: "0 \<le> x \<Longrightarrow> x < 2147483648 \<Longrightarrow> int32 x = x"
  by (rule int32_id) auto

lemma int32_range: "- (2 ^ 31) \<le> int32 x \<and> int32 x < 2 ^ 31"
  using signed_take_bit_int_greater_eq_minus_exp [of 31 x] signed_take_bit_int_less_exp [of 31 x]
  by (simp add: int32_def)

lemma int32_minus_one [simp]: "int32 (- 1) = - 1"
  by (simp add: int32_def)

lemma uint32_id: "0 \<le> x \<Longrightarrow> x < 2 ^ 32 \<Longrightarrow> uint32 x = x"
  by (simp add: uint32_def take_bit_int_eq_self)

lemma size_t_id: "0 \<le> x \<Longrightarrow> x < 2 ^ 64 \<Longrightarrow> size_t x = x"
  by (simp add: size_t_def take_bit_int_eq_self)

section \<open>Formatted text\<close>

fun show_nat :: "nat \<Rightarrow> string" where
  "show_nat n = (if n < 10 then [char_of (48 + n)] else show_nat (n div 10) @ [char_of (48 + n mod 10)])"

declare show_nat.simps [simp del]

definition show_int :: "int \<Rightarrow> string" where
  "show_int i = (if i < 0 then CHR ''-'' # show_nat (nat (- i)) else show_nat (nat i))"

definition hex_digit :: "nat \<Rightarrow> char" where
  "hex_digit d = (if d < 10 then char_of (48 + d) else char_of (87 + d))"

text \<open>The conversion \<open>%08x\<close> of a 32-bit value: always eight lower-case digits.\<close>

definition show_hex8 :: "32 word \<Rightarrow> string" where
  "show_hex8 w = map (\<lambda>i. hex_digit (unat (drop_bit (4 * i) w AND 15))) [7, 6, 5, 4, 3, 2, 1, 0]"

text \<open>\<open>snprintf\<close> writes at most \<open>n - 1\<close> characters and the terminating zero.\<close>

definition snprintf :: "nat \<Rightarrow> string \<Rightarrow> string" where
  "snprintf n txt = take (n - 1) txt"

text \<open>A format with the one conversion \<open>%s\<close>, as the port messages have.\<close>

fun fmt_s :: "string \<Rightarrow> string \<Rightarrow> string" where
  "fmt_s [] arg = []"
| "fmt_s [c] arg = [c]"
| "fmt_s (c # d # cs) arg =
     (if c = CHR ''%'' \<and> d = CHR ''s'' then arg @ cs else c # fmt_s (d # cs) arg)"

lemma length_show_hex8: "length (show_hex8 w) = 8"
  by (simp add: show_hex8_def)

lemma length_snprintf: "0 < n \<Longrightarrow> length (snprintf n txt) < n"
  by (simp add: snprintf_def)

section \<open>Flags in words\<close>

lemma flag_clear_other: "m AND m' = 0 \<Longrightarrow> (x AND NOT m) AND m' = x AND m'"
  for x m m' :: "'a::len word"
  by (fastforce simp: bit_eq_iff bit_simps)

lemma flag_clear_same: "(x AND NOT m) AND m = 0" for x m :: "'a::len word"
  by (auto simp: bit_eq_iff bit_simps)

lemma flag_set_other: "v AND m = 0 \<Longrightarrow> (x OR v) AND m = x AND m" for x v m :: "'a::len word"
  by (simp add: bit.conj_disj_distrib2)

lemma flag_set_same: "v AND m = v \<Longrightarrow> (x OR v) AND m = (x AND m) OR v" for x v m :: "'a::len word"
  by (simp add: bit.conj_disj_distrib2)

lemma flag_sub_disjoint: "v AND m = v \<Longrightarrow> m AND m' = 0 \<Longrightarrow> v AND m' = 0"
  for v m m' :: "'a::len word"
  by (metis and.assoc and_zero_eq)

definition is_bit :: "'a::len word \<Rightarrow> bool" where
  "is_bit w \<longleftrightarrow> w \<in> set (map (\<lambda>k. push_bit k 1) [0..<LENGTH('a)])"

lemma is_bit_and: "is_bit b \<Longrightarrow> x AND b = 0 \<or> x AND b = b" for x b :: "'a::len word"
proof -
  assume "is_bit b"
  then obtain k where b: "b = push_bit k 1" by (auto simp: is_bit_def)
  have "x AND b = (if bit x k then b else 0)"
    unfolding b by (rule bit_word_eqI) (auto simp: bit_simps)
  then show ?thesis by simp
qed

lemma mask_restrict: "r AND m = 0 \<Longrightarrow> n AND m = n \<Longrightarrow> r AND NOT n = r" for r m n :: "'a::len word"
  by (fastforce simp: bit_eq_iff bit_simps)

fun disjoint_flags :: "'a::len word list \<Rightarrow> bool" where
  "disjoint_flags [] \<longleftrightarrow> True"
| "disjoint_flags (x # xs) \<longleftrightarrow> list_all (\<lambda>y. x AND y = 0 \<and> y AND x = 0) xs \<and> disjoint_flags xs"

lemma ucast_low_byte: "uint ch < 256 \<Longrightarrow> ucast (ucast ch :: byte) = ch" for ch :: "16 word"
proof -
  assume "uint ch < 256"
  then have "uint ch = take_bit 8 (uint ch)" by (simp add: take_bit_int_eq_self)
  then show ?thesis by (simp add: word_uint_eq_iff unsigned_ucast_eq unsigned_take_bit_eq)
qed

section \<open>Stores into a buffer\<close>

definition store :: "'a list \<Rightarrow> nat \<Rightarrow> 'a list \<Rightarrow> 'a list" where
  "store buf off d = take off buf @ d @ drop (off + length d) buf"

lemma store_Nil [simp]: "store buf off [] = buf"
  by (simp add: store_def)

lemma length_store: "off + length d \<le> length buf \<Longrightarrow> length (store buf off d) = length buf"
  by (simp add: store_def)

lemma store_append:
  assumes "length xs \<le> length buf"
  shows "store (xs @ drop (length xs) buf) (length xs) d = (xs @ d) @ drop (length xs + length d) buf"
  using assms by (simp add: store_def add.commute)

section \<open>Weakest preconditions of the state monad\<close>

text \<open>
  \<open>wp m Q s\<close>: running \<open>m\<close> from \<open>s\<close> gives a result and a state that satisfy \<open>Q\<close>.
  The equations below compute it through every construct the model is written with, so a
  property of a straight-line function is proved by simplification with \<open>wp_simps\<close>.
\<close>

definition wp :: "('s, 'a) state \<Rightarrow> ('a \<Rightarrow> 's \<Rightarrow> bool) \<Rightarrow> 's \<Rightarrow> bool" where
  "wp m Q s = (case run_state m s of (a, t) \<Rightarrow> Q a t)"

lemma wp_run: "wp m Q s \<longleftrightarrow> Q (fst (run_state m s)) (snd (run_state m s))"
  by (simp add: wp_def split: prod.splits)

lemma wpD: "wp m Q s \<Longrightarrow> run_state m s = (a, t) \<Longrightarrow> Q a t"
  by (simp add: wp_def)

lemma wpI: "(\<And>a t. run_state m s = (a, t) \<Longrightarrow> Q a t) \<Longrightarrow> wp m Q s"
  by (simp add: wp_def split: prod.splits)

lemma wp_mono: "wp m P s \<Longrightarrow> (\<And>a t. P a t \<Longrightarrow> Q a t) \<Longrightarrow> wp m Q s"
  by (simp add: wp_run)

lemma wp_conj: "wp m (\<lambda>a t. P a t \<and> Q a t) s \<longleftrightarrow> wp m P s \<and> wp m Q s"
  by (simp add: wp_run)

lemma wp_return [wp_simps]: "wp (State_Monad.return a) Q s \<longleftrightarrow> Q a s"
  by (simp add: wp_def)

lemma wp_get [wp_simps]: "wp State_Monad.get Q s \<longleftrightarrow> Q s s"
  by (simp add: wp_def)

lemma wp_set [wp_simps]: "wp (State_Monad.set t) Q s \<longleftrightarrow> Q () t"
  by (simp add: wp_def)

lemma wp_bind [wp_simps]: "wp (State_Monad.bind m f) Q s \<longleftrightarrow> wp m (\<lambda>a. wp (f a) Q) s"
  by (simp add: wp_def split: prod.splits)

lemma wp_if [wp_simps]: "wp (if b then m else n) Q s \<longleftrightarrow> (if b then wp m Q s else wp n Q s)"
  by simp

lemma wp_let [wp_simps]: "wp (let x = e in f x) Q s \<longleftrightarrow> wp (f e) Q s"
  by simp

lemma wp_case_option [wp_simps]:
  "wp (case x of None \<Rightarrow> m | Some y \<Rightarrow> f y) Q s
     \<longleftrightarrow> (case x of None \<Rightarrow> wp m Q s | Some y \<Rightarrow> wp (f y) Q s)"
  by (simp split: option.splits)

lemma wp_case_sum [wp_simps]:
  "wp (case x of Inl y \<Rightarrow> f y | Inr z \<Rightarrow> g z) Q s
     \<longleftrightarrow> (case x of Inl y \<Rightarrow> wp (f y) Q s | Inr z \<Rightarrow> wp (g z) Q s)"
  by (simp split: sum.splits)

lemma wp_case_prod [wp_simps]:
  "wp (case x of (y, z) \<Rightarrow> f y z) Q s \<longleftrightarrow> (case x of (y, z) \<Rightarrow> wp (f y z) Q s)"
  by (simp split: prod.splits)

text \<open>A step that only changes the state.\<close>

definition modify :: "('s \<Rightarrow> 's) \<Rightarrow> ('s, unit) state" where
  "modify f = State (\<lambda>s. ((), f s))"

definition gets :: "('s \<Rightarrow> 'a) \<Rightarrow> ('s, 'a) state" where
  "gets f = State (\<lambda>s. (f s, s))"

lemma run_modify [simp]: "run_state (modify f) s = ((), f s)"
  by (simp add: modify_def)

lemma run_gets [simp]: "run_state (gets f) s = (f s, s)"
  by (simp add: gets_def)

lemma wp_modify [wp_simps]: "wp (modify f) Q s \<longleftrightarrow> Q () (f s)"
  by (simp add: wp_def)

lemma wp_gets [wp_simps]: "wp (gets f) Q s \<longleftrightarrow> Q (f s) s"
  by (simp add: wp_def)

text \<open>\<open>frame f m\<close>: running \<open>m\<close> does not change what \<open>f\<close> observes.\<close>

definition frame :: "('s \<Rightarrow> 'x) \<Rightarrow> ('s, 'a) state \<Rightarrow> bool" where
  "frame f m \<longleftrightarrow> (\<forall>s. f (snd (run_state m s)) = f s)"

lemma frameD: "frame f m \<Longrightarrow> run_state m s = (a, t) \<Longrightarrow> f t = f s"
  unfolding frame_def by (metis snd_conv)

lemma frame_return [frame_intros]: "frame f (State_Monad.return a)"
  by (simp add: frame_def)

lemma frame_get [frame_intros]: "frame f State_Monad.get"
  by (simp add: frame_def)

lemma frame_gets [frame_intros]: "frame f (gets g)"
  by (simp add: frame_def)

lemma frame_modify: "(\<And>s. f (g s) = f s) \<Longrightarrow> frame f (modify g)"
  by (simp add: frame_def)

lemma frame_bind [frame_intros]: "frame f m \<Longrightarrow> (\<And>a. frame f (g a)) \<Longrightarrow> frame f (State_Monad.bind m g)"
  by (simp add: frame_def split: prod.splits) (metis snd_conv)

lemma frame_if [frame_intros]: "frame f m \<Longrightarrow> frame f n \<Longrightarrow> frame f (if b then m else n)"
  by simp

lemma frame_let [frame_intros]: "(\<And>x. frame f (g x)) \<Longrightarrow> frame f (let x = e in g x)"
  by simp

lemma frame_case_option [frame_intros]:
  "frame f m \<Longrightarrow> (\<And>y. frame f (g y)) \<Longrightarrow> frame f (case x of None \<Rightarrow> m | Some y \<Rightarrow> g y)"
  by (simp split: option.splits)

lemma frame_case_sum [frame_intros]:
  "(\<And>y. frame f (g y)) \<Longrightarrow> (\<And>z. frame f (h z)) \<Longrightarrow> frame f (case x of Inl y \<Rightarrow> g y | Inr z \<Rightarrow> h z)"
  by (simp split: sum.splits)

lemma frame_case_prod [frame_intros]:
  "(\<And>y z. frame f (g y z)) \<Longrightarrow> frame f (case x of (y, z) \<Rightarrow> g y z)"
  by (simp split: prod.splits)

section \<open>The do-while loop\<close>

text \<open>
  The body either leaves the loop with \<open>Inl r\<close> (a \<open>return\<close> inside it, or its
  condition failing at the end) or asks for another round with \<open>Inr a\<close>. A loop that
  never leaves has the value \<open>None\<close>.
\<close>

partial_function (option) do_while ::
  "('a \<Rightarrow> 's \<Rightarrow> ('r + 'a) \<times> 's) \<Rightarrow> 'a \<Rightarrow> 's \<Rightarrow> ('r \<times> 's) option" where
  "do_while body a s =
     (case body a s of (x, t) \<Rightarrow> (case x of Inl r \<Rightarrow> Some (r, t) | Inr b \<Rightarrow> do_while body b t))"

text \<open>Loops are evaluated by unfolding them.\<close>

declare do_while.simps [code]

lemma do_while_done: "body a s = (Inl r, t) \<Longrightarrow> do_while body a s = Some (r, t)"
  by (simp add: do_while.simps)

lemma do_while_more: "body a s = (Inr b, t) \<Longrightarrow> do_while body a s = do_while body b t"
  by (subst do_while.simps) simp

lemma do_while_partial:
  fixes body :: "'a \<Rightarrow> 'b \<Rightarrow> ('c + 'a) \<times> 'b"
  assumes ret: "do_while body a s = Some (r, t)" and init: "I a s"
    and step: "\<And>a s b t. I a s \<Longrightarrow> body a s = (Inr b, t) \<Longrightarrow> I b t"
    and stop: "\<And>a s r t. I a s \<Longrightarrow> body a s = (Inl r, t) \<Longrightarrow> Q r t"
  shows "Q r t"
proof -
  define P where "P = (\<lambda>body' a s (res :: 'c \<times> 'b). body' = body \<longrightarrow> I a s \<longrightarrow> Q (fst res) (snd res))"
  have "P body a s (r, t)"
  proof (rule do_while.raw_induct [OF _ ret])
    fix loop :: "('a \<Rightarrow> 'b \<Rightarrow> ('c + 'a) \<times> 'b) \<Rightarrow> 'a \<Rightarrow> 'b \<Rightarrow> ('c \<times> 'b) option" and body' a s res
    assume IH: "\<And>body' a s res. loop body' a s = Some res \<Longrightarrow> P body' a s res"
      and eq: "(case body' a s of (x, t) \<Rightarrow> (case x of Inl r \<Rightarrow> Some (r, t) | Inr b \<Rightarrow> loop body' b t)) = Some res"
    obtain x t where b: "body' a s = (x, t)" by fastforce
    show "P body' a s res"
    proof (cases x)
      case (Inl u)
      with eq b stop show ?thesis by (auto simp: P_def)
    next
      case (Inr c)
      with eq b have "loop body' c t = Some res" by simp
      from IH [OF this] Inr b step show ?thesis by (auto simp: P_def)
    qed
  qed
  then show ?thesis using init by (simp add: P_def)
qed

text \<open>
  Total correctness: under an invariant, every round either leaves with the postcondition or
  keeps the invariant and decreases a measure.
\<close>

lemma do_while_total:
  fixes m :: "'a \<Rightarrow> 's \<Rightarrow> nat"
  assumes init: "I a s"
    and body: "\<And>a s x t. I a s \<Longrightarrow> body a s = (x, t) \<Longrightarrow>
      (case x of Inl r \<Rightarrow> Q r t | Inr b \<Rightarrow> I b t \<and> m b t < m a s)"
  shows "\<exists>r t. do_while body a s = Some (r, t) \<and> Q r t"
  using init
proof (induction "m a s" arbitrary: a s rule: less_induct)
  case less
  obtain x t where eq: "body a s = (x, t)" by fastforce
  from body [OF less.prems eq] less.hyps show ?case
    by (cases x) (auto simp: eq do_while_done do_while_more)
qed

lemma do_while_total_wp:
  fixes m :: "'a \<Rightarrow> 's \<Rightarrow> nat"
  assumes "I a s"
    and "\<And>a s. I a s \<Longrightarrow> wp (body a)
      (\<lambda>x t. case x of Inl r \<Rightarrow> Q r t | Inr b \<Rightarrow> I b t \<and> m b t < m a s) s"
  shows "\<exists>r t. do_while (\<lambda>a. run_state (body a)) a s = Some (r, t) \<and> Q r t"
  using assms(1) by (rule do_while_total) (auto dest!: assms(2) dest: wpD)

lemma do_while_partial_wp:
  assumes ret: "do_while (\<lambda>a. run_state (body a)) a s = Some (r, t)" and init: "I a s"
    and step: "\<And>a s. I a s \<Longrightarrow> wp (body a) (\<lambda>x t. case x of Inl r \<Rightarrow> Q r t | Inr b \<Rightarrow> I b t) s"
  shows "Q r t"
  using ret init by (rule do_while_partial) (auto dest!: step dest: wpD)

text \<open>Divergence: an invariant under which the body always asks for another round.\<close>

lemma do_while_diverges:
  assumes init: "I a s"
    and body: "\<And>a s. I a s \<Longrightarrow> \<exists>b t. body a s = (Inr b, t) \<and> I b t"
  shows "do_while body a s = None"
proof (cases "do_while body a s")
  case (Some p)
  then obtain r t where "do_while body a s = Some (r, t)" by (cases p) simp
  then have False
    using init
  proof (rule do_while_partial [where Q = "\<lambda>_ _. False"])
    show "I b t" if "I a s" "body a s = (Inr b, t)" for a s b t
      using body [OF that(1)] that(2) by simp
    show False if "I a s" "body a s = (Inl r, t)" for a s r t
      using body [OF that(1)] that(2) by simp
  qed
  then show ?thesis ..
qed simp

text \<open>A loop leaves alone what its body leaves alone.\<close>

lemma do_while_frame:
  assumes "do_while (\<lambda>a. run_state (body a)) a s = Some (r, t)" and "\<And>a. frame f (body a)"
  shows "f t = f s"
  using assms(1)
  by (rule do_while_partial [where I = "\<lambda>_ s'. f s' = f s"]) (auto dest: frameD [OF assms(2)])

end
