(* ===== verification/JniEnv.thy ===== *)
theory JniEnv
  imports Prelude
begin

text \<open>
  The state the native code of the provider works on, and the functions of \<open>Exceptions.c\<close>
  that throw.

  A native method runs on one Java thread. Its state has the fields of the Java object
  \<open>sps\<close> that the C code reads and writes through cached field ids, the rest of the world
  (kernel, line, clock, other threads) as an abstract value, the \<open>errno\<close> of the C library
  and, on Windows, the value \<open>GetLastError\<close> gives, the exception that is pending on the
  thread, and three ghost fields: the calls made to the operating system so far with their answers, the number
  of native memory blocks that are allocated, and whether a C object was read before it had
  been initialised.
\<close>

section \<open>Java objects and exceptions\<close>

datatype throwable =
    IOException string
  | InterruptedIOException string int
  | TimeoutIOException string int
  | AsynchronousCloseException
  | IllegalArgumentException string
  | RuntimeException string
  | OutOfMemoryError string
  | NoClassDefFoundError string
  | NoSuchMethodError string
  | NoSuchFieldError string
  | ArrayIndexOutOfBoundsException

datatype platform = Termios | Windows

text \<open>
  The fields of \<open>GenericTermiosSerialPortSocket\<close>. The Windows class has only \<open>fd\<close>,
  a \<open>long\<close> that holds the \<open>HANDLE\<close>.
\<close>

record sps =
  spsw_fd :: int
  spsw_closeEventReadFd :: int
  spsw_closeEventWriteFd :: int
  spsw_interByteReadTimeout :: int
  spsw_pollReadTimeout :: int
  spsw_pollWriteTimeout :: int

text \<open>
  What the process offers and never changes during a call: the platform the library was
  built for, what the Java VM finds (classes by name, methods and fields by class, name and
  type), the classes it can make a global reference of, whether it has JNI version 10, the
  texts of \<open>strerror\<close> and the sizes \<open>malloc\<close> can serve.
\<close>

record vm =
  vm_platform :: platform
  vm_FindClass :: "string \<Rightarrow> bool"
  vm_GetMethodID :: "string \<Rightarrow> string \<Rightarrow> string \<Rightarrow> bool"
  vm_GetFieldID :: "string \<Rightarrow> string \<Rightarrow> string \<Rightarrow> bool"
  vm_NewGlobalRef :: "string \<Rightarrow> bool"
  vm_GetEnv :: bool
  vm_strerror :: "int \<Rightarrow> string"
  vm_malloc :: "int \<Rightarrow> bool"

record ('w, 'c) jni =
  sps :: sps
  world :: 'w
  errno :: int
  last_error :: int
  pending :: "throwable option"
  calls :: "'c list"
  native_blocks :: nat
  uninit_read :: bool
  vm :: vm

definition INVALID_FD :: int where
  "INVALID_FD = - 1"

definition IO_EXCEPTION :: string where
  "IO_EXCEPTION = ''java/io/IOException''"

definition TIMEOUT_IO_EXCEPTION :: string where
  "TIMEOUT_IO_EXCEPTION = ''de/ibapl/spsw/api/TimeoutIOException''"

definition RUNTIME_EXCEPTION :: string where
  "RUNTIME_EXCEPTION = ''java/lang/RuntimeException''"

definition ASYNCHRONOUS_CLOSE_EXCEPTION :: string where
  "ASYNCHRONOUS_CLOSE_EXCEPTION = ''java/nio/channels/AsynchronousCloseException''"

definition INTERRUPTED_IO_EXCEPTION :: string where
  "INTERRUPTED_IO_EXCEPTION = ''java/io/InterruptedIOException''"

definition PORT_IS_CLOSED :: string where
  "PORT_IS_CLOSED = ''Port is closed''"

definition PORT_FD_INVALID :: string where
  "PORT_FD_INVALID = ''File descriptor of serial port is invalid''"

section \<open>JNI primitives\<close>

definition GetField :: "(sps \<Rightarrow> 'a) \<Rightarrow> (('w, 'c) jni, 'a) state" where
  "GetField f = gets (\<lambda>s. f (sps s))"

definition SetField :: "(sps \<Rightarrow> sps) \<Rightarrow> (('w, 'c) jni, unit) state" where
  "SetField upd = modify (\<lambda>s. s\<lparr>sps := upd (sps s)\<rparr>)"

text \<open>
  \<open>Throw\<close> and \<open>ThrowNew\<close>: the exception becomes the pending one of the thread. An
  exception that was pending before is replaced.
\<close>

definition Throw :: "throwable \<Rightarrow> (('w, 'c) jni, unit) state" where
  "Throw e = modify (\<lambda>s. s\<lparr>pending := Some e\<rparr>)"

text \<open>Reading an uninitialised C object is recorded; the value is whatever was there.\<close>

definition mark_uninit :: "(('w, 'c) jni, unit) state" where
  "mark_uninit = modify (\<lambda>s. s\<lparr>uninit_read := True\<rparr>)"

lemma wp_GetField [wp_simps]: "wp (GetField f) Q s \<longleftrightarrow> Q (f (sps s)) s"
  by (simp add: GetField_def wp_simps)

lemma wp_SetField [wp_simps]: "wp (SetField upd) Q s \<longleftrightarrow> Q () (s\<lparr>sps := upd (sps s)\<rparr>)"
  by (simp add: SetField_def wp_simps)

lemma wp_Throw [wp_simps]: "wp (Throw e) Q s \<longleftrightarrow> Q () (s\<lparr>pending := Some e\<rparr>)"
  by (simp add: Throw_def wp_simps)

lemma wp_mark_uninit [wp_simps]: "wp mark_uninit Q s \<longleftrightarrow> Q () (s\<lparr>uninit_read := True\<rparr>)"
  by (simp add: mark_uninit_def wp_simps)

section \<open>Throwing functions of Exceptions.c\<close>

definition throw_RuntimeException :: "string \<Rightarrow> (('w, 'c) jni, unit) state" where
  "throw_RuntimeException msg = Throw (RuntimeException msg)"

definition throw_IOException :: "string \<Rightarrow> (('w, 'c) jni, unit) state" where
  "throw_IOException msg = Throw (IOException msg)"

definition throw_IOException_withPortName :: "string \<Rightarrow> string \<Rightarrow> (('w, 'c) jni, unit) state" where
  "throw_IOException_withPortName msg portName =
     Throw (IOException (snprintf 2048 (fmt_s msg portName)))"

definition native_error_text :: "vm \<Rightarrow> int \<Rightarrow> int \<Rightarrow> string \<Rightarrow> string" where
  "native_error_text v le e msg =
     (case vm_platform v of
        Windows \<Rightarrow> msg @ '': Unknown port error '' @ show_int (int32 le)
      | Termios \<Rightarrow> msg @ '': Unknown port error '' @ show_int e @ '': ('' @ vm_strerror v e @ '')'')"

definition throw_IOException_NativeError :: "string \<Rightarrow> (('w, 'c) jni, unit) state" where
  "throw_IOException_NativeError msg = do {
     s \<leftarrow> State_Monad.get;
     Throw (IOException (snprintf 2048 (native_error_text (vm s) (last_error s) (errno s) msg)))
   }"

definition throw_AsynchronousCloseException :: "(('w, 'c) jni, unit) state" where
  "throw_AsynchronousCloseException = Throw AsynchronousCloseException"

text \<open>
  The two functions that look their class up when they throw: where \<open>FindClass\<close> fails
  it has thrown already.
\<close>

definition FindClass :: "string \<Rightarrow> (('w, 'c) jni, bool) state" where
  "FindClass name = do {
     s \<leftarrow> State_Monad.get;
     if vm_FindClass (vm s) name then State_Monad.return True
     else do {
       Throw (NoClassDefFoundError name);
       State_Monad.return False
     }
   }"

text \<open>\<open>GetMethodID\<close> and \<open>GetFieldID\<close> of a class, given by its name: NULL means that they have thrown.\<close>

definition GetMethodID :: "string \<Rightarrow> string \<Rightarrow> string \<Rightarrow> (('w, 'c) jni, bool) state" where
  "GetMethodID className name signature = do {
     s \<leftarrow> State_Monad.get;
     if vm_GetMethodID (vm s) className name signature then State_Monad.return True
     else do {
       Throw (NoSuchMethodError name);
       State_Monad.return False
     }
   }"

definition GetFieldID :: "string \<Rightarrow> string \<Rightarrow> string \<Rightarrow> (('w, 'c) jni, bool) state" where
  "GetFieldID className name type = do {
     s \<leftarrow> State_Monad.get;
     if vm_GetFieldID (vm s) className name type then State_Monad.return True
     else do {
       Throw (NoSuchFieldError name);
       State_Monad.return False
     }
   }"

definition throw_IllegalArgumentException :: "string \<Rightarrow> (('w, 'c) jni, unit) state" where
  "throw_IllegalArgumentException msg = do {
     found \<leftarrow> FindClass ''java/lang/IllegalArgumentException'';
     if found then Throw (IllegalArgumentException msg) else State_Monad.return ()
   }"

definition throw_OutOfMemoryError :: "string \<Rightarrow> (('w, 'c) jni, unit) state" where
  "throw_OutOfMemoryError msg = do {
     found \<leftarrow> FindClass ''java/lang/OutOfMemoryError'';
     if found then Throw (OutOfMemoryError msg) else State_Monad.return ()
   }"

definition throw_IOException_Opend :: "(('w, 'c) jni, unit) state" where
  "throw_IOException_Opend = Throw (IOException ''Port is open'')"

definition throw_InterruptedIOExceptionWithError ::
  "int \<Rightarrow> string \<Rightarrow> (('w, 'c) jni, unit) state" where
  "throw_InterruptedIOExceptionWithError bytesTransferred msg = do {
     s \<leftarrow> State_Monad.get;
     Throw (InterruptedIOException
       (snprintf 2048 (msg @ '': Unknown port error '' @ show_int (errno s) @ '': (''
          @ vm_strerror (vm s) (errno s) @ '')''))
       (int32 bytesTransferred))
   }"

definition throw_TimeoutIOException :: "int \<Rightarrow> string \<Rightarrow> (('w, 'c) jni, unit) state" where
  "throw_TimeoutIOException bytesTransferred msg =
     Throw (TimeoutIOException msg (int32 bytesTransferred))"

text \<open>
  The descriptor is read again: another thread may have closed the port meanwhile. The
  Windows build reads the \<open>long\<close> field with \<open>GetIntField\<close>.
\<close>

definition throw_ClosedOrNativeException :: "string \<Rightarrow> (('w, 'c) jni, unit) state" where
  "throw_ClosedOrNativeException msg = do {
     s \<leftarrow> State_Monad.get;
     fd \<leftarrow> GetField spsw_fd;
     let closed = (case vm_platform (vm s) of
         Windows \<Rightarrow> int32 fd = INVALID_FD
       | Termios \<Rightarrow> fd = INVALID_FD);
     if closed then Throw (IOException PORT_IS_CLOSED)
     else throw_IOException_NativeError msg
   }"

text \<open>
  What every thrower guarantees: some exception is pending afterwards, and nothing else of
  the state has changed.
\<close>

definition throws :: "(('w, 'c) jni, unit) state \<Rightarrow> bool" where
  "throws m \<longleftrightarrow> (\<forall>s. \<exists>e. run_state m s = ((), s\<lparr>pending := Some e\<rparr>))"

lemma throwsI: "(\<And>s. \<exists>e. run_state m s = ((), s\<lparr>pending := Some e\<rparr>)) \<Longrightarrow> throws m"
  by (simp add: throws_def)

lemma throws_throw [simp, intro]:
  "throws (Throw e)"
  "throws (throw_RuntimeException msg)"
  "throws (throw_IOException msg)"
  "throws (throw_IOException_withPortName msg p)"
  "throws (throw_IOException_NativeError msg)"
  "throws throw_AsynchronousCloseException"
  "throws (throw_IllegalArgumentException msg)"
  "throws (throw_OutOfMemoryError msg)"
  "throws throw_IOException_Opend"
  "throws (throw_InterruptedIOExceptionWithError n msg)"
  "throws (throw_TimeoutIOException n msg)"
  "throws (throw_ClosedOrNativeException msg)"
  by (auto simp: throws_def Throw_def throw_RuntimeException_def throw_IOException_def
      throw_IOException_withPortName_def throw_IOException_NativeError_def
      throw_AsynchronousCloseException_def throw_IllegalArgumentException_def
      throw_OutOfMemoryError_def FindClass_def throw_IOException_Opend_def
      throw_InterruptedIOExceptionWithError_def throw_TimeoutIOException_def
      throw_ClosedOrNativeException_def GetField_def Let_def)

text \<open>
  The rule the component proofs use: behind a thrower, some exception is pending and the
  rest of the state is as before. Which exception it is, the equations of the throwers say.
\<close>

definition is_pending :: "('w, 'c) jni \<Rightarrow> bool" where
  "is_pending s \<longleftrightarrow> pending s \<noteq> None"

lemma throws_if: "throws m \<Longrightarrow> throws n \<Longrightarrow> throws (if b then m else n)"
  by simp

lemma throws_get: "(\<And>s. throws (f s)) \<Longrightarrow> throws (State_Monad.bind State_Monad.get f)"
  by (simp add: throws_def)

lemma is_pending_Some [simp]: "is_pending (s\<lparr>pending := Some e\<rparr>)"
  by (simp add: is_pending_def)

lemma wp_throws:
  assumes "throws m" and "\<And>e. Q () (s\<lparr>pending := Some e\<rparr>)"
  shows "wp m Q s"
  using assms by (metis throws_def wpI prod.inject)

text \<open>None of these touches native memory.\<close>

lemma frame_throws:
  assumes "throws m"
  shows "frame native_blocks m"
  unfolding frame_def
proof
  fix s
  obtain e where "run_state m s = ((), s\<lparr>pending := Some e\<rparr>)" using assms unfolding throws_def by blast
  then show "native_blocks (snd (run_state m s)) = native_blocks s" by simp
qed

lemmas frame_throw [frame_intros] = throws_throw [THEN frame_throws]

lemma frame_GetField [frame_intros]: "frame native_blocks (GetField g)"
  by (simp add: GetField_def frame_gets)

lemma frame_SetField [frame_intros]: "frame native_blocks (SetField g)"
  by (simp add: SetField_def frame_modify)

lemma frame_mark_uninit [frame_intros]: "frame native_blocks mark_uninit"
  by (simp add: mark_uninit_def frame_modify)

end
