(* ===== verification/ParamBits.thy ===== *)
theory ParamBits
  imports JniEnv
begin

text \<open>
  The bit set that carries speed, data bits, stop bits, parity and flow control between Java
  and the native code: the constants of \<open>spsw-jni.h\<close>, and the encoding and decoding
  functions of \<open>AbstractSerialPortSocket.java\<close>. Layout of the eight nibbles, from the
  highest: parity, stop bits, flow control (two), data bits, free, speed (two).
\<close>

section \<open>Constants\<close>

definition CAST_2_JINT :: "int \<Rightarrow> jint" where [bits_simps]:
  "CAST_2_JINT x = word_of_int x"

definition SPSW_SPEED_0_BPS :: jint where [bits_simps]:
  "SPSW_SPEED_0_BPS = CAST_2_JINT 1"

definition SPSW_SPEED_50_BPS :: jint where [bits_simps]:
  "SPSW_SPEED_50_BPS = CAST_2_JINT 2"

definition SPSW_SPEED_75_BPS :: jint where [bits_simps]:
  "SPSW_SPEED_75_BPS = CAST_2_JINT 3"

definition SPSW_SPEED_110_BPS :: jint where [bits_simps]:
  "SPSW_SPEED_110_BPS = CAST_2_JINT 4"

definition SPSW_SPEED_134_BPS :: jint where [bits_simps]:
  "SPSW_SPEED_134_BPS = CAST_2_JINT 5"

definition SPSW_SPEED_150_BPS :: jint where [bits_simps]:
  "SPSW_SPEED_150_BPS = CAST_2_JINT 6"

definition SPSW_SPEED_200_BPS :: jint where [bits_simps]:
  "SPSW_SPEED_200_BPS = CAST_2_JINT 7"

definition SPSW_SPEED_300_BPS :: jint where [bits_simps]:
  "SPSW_SPEED_300_BPS = CAST_2_JINT 8"

definition SPSW_SPEED_600_BPS :: jint where [bits_simps]:
  "SPSW_SPEED_600_BPS = CAST_2_JINT 9"

definition SPSW_SPEED_1200_BPS :: jint where [bits_simps]:
  "SPSW_SPEED_1200_BPS = CAST_2_JINT 10"

definition SPSW_SPEED_1800_BPS :: jint where [bits_simps]:
  "SPSW_SPEED_1800_BPS = CAST_2_JINT 11"

definition SPSW_SPEED_2400_BPS :: jint where [bits_simps]:
  "SPSW_SPEED_2400_BPS = CAST_2_JINT 12"

definition SPSW_SPEED_4800_BPS :: jint where [bits_simps]:
  "SPSW_SPEED_4800_BPS = CAST_2_JINT 13"

definition SPSW_SPEED_9600_BPS :: jint where [bits_simps]:
  "SPSW_SPEED_9600_BPS = CAST_2_JINT 14"

definition SPSW_SPEED_19200_BPS :: jint where [bits_simps]:
  "SPSW_SPEED_19200_BPS = CAST_2_JINT 15"

definition SPSW_SPEED_38400_BPS :: jint where [bits_simps]:
  "SPSW_SPEED_38400_BPS = CAST_2_JINT 16"

definition SPSW_SPEED_57600_BPS :: jint where [bits_simps]:
  "SPSW_SPEED_57600_BPS = CAST_2_JINT 17"

definition SPSW_SPEED_115200_BPS :: jint where [bits_simps]:
  "SPSW_SPEED_115200_BPS = CAST_2_JINT 18"

definition SPSW_SPEED_230400_BPS :: jint where [bits_simps]:
  "SPSW_SPEED_230400_BPS = CAST_2_JINT 19"

definition SPSW_SPEED_460800_BPS :: jint where [bits_simps]:
  "SPSW_SPEED_460800_BPS = CAST_2_JINT 20"

definition SPSW_SPEED_500000_BPS :: jint where [bits_simps]:
  "SPSW_SPEED_500000_BPS = CAST_2_JINT 21"

definition SPSW_SPEED_576000_BPS :: jint where [bits_simps]:
  "SPSW_SPEED_576000_BPS = CAST_2_JINT 22"

definition SPSW_SPEED_921600_BPS :: jint where [bits_simps]:
  "SPSW_SPEED_921600_BPS = CAST_2_JINT 23"

definition SPSW_SPEED_1000000_BPS :: jint where [bits_simps]:
  "SPSW_SPEED_1000000_BPS = CAST_2_JINT 24"

definition SPSW_SPEED_1152000_BPS :: jint where [bits_simps]:
  "SPSW_SPEED_1152000_BPS = CAST_2_JINT 25"

definition SPSW_SPEED_1500000_BPS :: jint where [bits_simps]:
  "SPSW_SPEED_1500000_BPS = CAST_2_JINT 26"

definition SPSW_SPEED_2000000_BPS :: jint where [bits_simps]:
  "SPSW_SPEED_2000000_BPS = CAST_2_JINT 27"

definition SPSW_SPEED_2500000_BPS :: jint where [bits_simps]:
  "SPSW_SPEED_2500000_BPS = CAST_2_JINT 28"

definition SPSW_SPEED_3000000_BPS :: jint where [bits_simps]:
  "SPSW_SPEED_3000000_BPS = CAST_2_JINT 29"

definition SPSW_SPEED_3500000_BPS :: jint where [bits_simps]:
  "SPSW_SPEED_3500000_BPS = CAST_2_JINT 30"

definition SPSW_SPEED_4000000_BPS :: jint where [bits_simps]:
  "SPSW_SPEED_4000000_BPS = CAST_2_JINT 31"

definition SPSW_SPEED_MASK :: jint where [bits_simps]:
  "SPSW_SPEED_MASK = CAST_2_JINT 255"

definition SPSW_DATA_BITS_DB5 :: jint where [bits_simps]:
  "SPSW_DATA_BITS_DB5 = CAST_2_JINT 4096"

definition SPSW_DATA_BITS_DB6 :: jint where [bits_simps]:
  "SPSW_DATA_BITS_DB6 = CAST_2_JINT 8192"

definition SPSW_DATA_BITS_DB7 :: jint where [bits_simps]:
  "SPSW_DATA_BITS_DB7 = CAST_2_JINT 12288"

definition SPSW_DATA_BITS_DB8 :: jint where [bits_simps]:
  "SPSW_DATA_BITS_DB8 = CAST_2_JINT 16384"

definition SPSW_DATA_BITS_MASK :: jint where [bits_simps]:
  "SPSW_DATA_BITS_MASK = CAST_2_JINT 61440"

definition SPSW_FLOW_CONTROL_NONE :: jint where [bits_simps]:
  "SPSW_FLOW_CONTROL_NONE = CAST_2_JINT 65536"

definition SPSW_FLOW_CONTROL_RTS_CTS_IN :: jint where [bits_simps]:
  "SPSW_FLOW_CONTROL_RTS_CTS_IN = CAST_2_JINT 1048576"

definition SPSW_FLOW_CONTROL_RTS_CTS_OUT :: jint where [bits_simps]:
  "SPSW_FLOW_CONTROL_RTS_CTS_OUT = CAST_2_JINT 2097152"

definition SPSW_FLOW_CONTROL_XON_XOFF_IN :: jint where [bits_simps]:
  "SPSW_FLOW_CONTROL_XON_XOFF_IN = CAST_2_JINT 4194304"

definition SPSW_FLOW_CONTROL_XON_XOFF_OUT :: jint where [bits_simps]:
  "SPSW_FLOW_CONTROL_XON_XOFF_OUT = CAST_2_JINT 8388608"

definition SPSW_FLOW_CONTROL_MASK :: jint where [bits_simps]:
  "SPSW_FLOW_CONTROL_MASK = CAST_2_JINT 16711680"

definition SPSW_STOP_BITS_1 :: jint where [bits_simps]:
  "SPSW_STOP_BITS_1 = CAST_2_JINT 16777216"

definition SPSW_STOP_BITS_1_5 :: jint where [bits_simps]:
  "SPSW_STOP_BITS_1_5 = CAST_2_JINT 33554432"

definition SPSW_STOP_BITS_2 :: jint where [bits_simps]:
  "SPSW_STOP_BITS_2 = CAST_2_JINT 50331648"

definition SPSW_STOP_BITS_MASK :: jint where [bits_simps]:
  "SPSW_STOP_BITS_MASK = CAST_2_JINT 251658240"

definition SPSW_PARITY_NONE :: jint where [bits_simps]:
  "SPSW_PARITY_NONE = CAST_2_JINT 268435456"

definition SPSW_PARITY_ODD :: jint where [bits_simps]:
  "SPSW_PARITY_ODD = CAST_2_JINT 536870912"

definition SPSW_PARITY_EVEN :: jint where [bits_simps]:
  "SPSW_PARITY_EVEN = CAST_2_JINT 805306368"

definition SPSW_PARITY_MARK :: jint where [bits_simps]:
  "SPSW_PARITY_MARK = CAST_2_JINT 1073741824"

definition SPSW_PARITY_SPACE :: jint where [bits_simps]:
  "SPSW_PARITY_SPACE = CAST_2_JINT 1342177280"

definition SPSW_PARITY_MASK :: jint where [bits_simps]:
  "SPSW_PARITY_MASK = CAST_2_JINT (- 268435456)"

definition SPSW_NO_PARAMS_TO_SET :: jint where [bits_simps]:
  "SPSW_NO_PARAMS_TO_SET = CAST_2_JINT 0"

section \<open>The Java enumerations\<close>

datatype Speed =
    BPS_0
  | BPS_50
  | BPS_75
  | BPS_110
  | BPS_134
  | BPS_150
  | BPS_200
  | BPS_300
  | BPS_600
  | BPS_1200
  | BPS_1800
  | BPS_2400
  | BPS_4800
  | BPS_9600
  | BPS_19200
  | BPS_38400
  | BPS_57600
  | BPS_115200
  | BPS_230400
  | BPS_460800
  | BPS_500000
  | BPS_576000
  | BPS_921600
  | BPS_1000000
  | BPS_1152000
  | BPS_1500000
  | BPS_2000000
  | BPS_2500000
  | BPS_3000000
  | BPS_3500000
  | BPS_4000000

datatype DataBits = DB_5 | DB_6 | DB_7 | DB_8

datatype StopBits = SB_1 | SB_1_5 | SB_2

datatype Parity = NONE | ODD | EVEN | MARK | SPACE

datatype FlowControl = RTS_CTS_IN | RTS_CTS_OUT | XON_XOFF_IN | XON_XOFF_OUT

section \<open>Encoding\<close>

fun toBitSet_Speed :: "Speed \<Rightarrow> jint" where
  "toBitSet_Speed BPS_0 = SPSW_SPEED_0_BPS"
| "toBitSet_Speed BPS_50 = SPSW_SPEED_50_BPS"
| "toBitSet_Speed BPS_75 = SPSW_SPEED_75_BPS"
| "toBitSet_Speed BPS_110 = SPSW_SPEED_110_BPS"
| "toBitSet_Speed BPS_134 = SPSW_SPEED_134_BPS"
| "toBitSet_Speed BPS_150 = SPSW_SPEED_150_BPS"
| "toBitSet_Speed BPS_200 = SPSW_SPEED_200_BPS"
| "toBitSet_Speed BPS_300 = SPSW_SPEED_300_BPS"
| "toBitSet_Speed BPS_600 = SPSW_SPEED_600_BPS"
| "toBitSet_Speed BPS_1200 = SPSW_SPEED_1200_BPS"
| "toBitSet_Speed BPS_1800 = SPSW_SPEED_1800_BPS"
| "toBitSet_Speed BPS_2400 = SPSW_SPEED_2400_BPS"
| "toBitSet_Speed BPS_4800 = SPSW_SPEED_4800_BPS"
| "toBitSet_Speed BPS_9600 = SPSW_SPEED_9600_BPS"
| "toBitSet_Speed BPS_19200 = SPSW_SPEED_19200_BPS"
| "toBitSet_Speed BPS_38400 = SPSW_SPEED_38400_BPS"
| "toBitSet_Speed BPS_57600 = SPSW_SPEED_57600_BPS"
| "toBitSet_Speed BPS_115200 = SPSW_SPEED_115200_BPS"
| "toBitSet_Speed BPS_230400 = SPSW_SPEED_230400_BPS"
| "toBitSet_Speed BPS_460800 = SPSW_SPEED_460800_BPS"
| "toBitSet_Speed BPS_500000 = SPSW_SPEED_500000_BPS"
| "toBitSet_Speed BPS_576000 = SPSW_SPEED_576000_BPS"
| "toBitSet_Speed BPS_921600 = SPSW_SPEED_921600_BPS"
| "toBitSet_Speed BPS_1000000 = SPSW_SPEED_1000000_BPS"
| "toBitSet_Speed BPS_1152000 = SPSW_SPEED_1152000_BPS"
| "toBitSet_Speed BPS_1500000 = SPSW_SPEED_1500000_BPS"
| "toBitSet_Speed BPS_2000000 = SPSW_SPEED_2000000_BPS"
| "toBitSet_Speed BPS_2500000 = SPSW_SPEED_2500000_BPS"
| "toBitSet_Speed BPS_3000000 = SPSW_SPEED_3000000_BPS"
| "toBitSet_Speed BPS_3500000 = SPSW_SPEED_3500000_BPS"
| "toBitSet_Speed BPS_4000000 = SPSW_SPEED_4000000_BPS"

fun toBitSet_DataBits :: "DataBits \<Rightarrow> jint" where
  "toBitSet_DataBits DB_5 = SPSW_DATA_BITS_DB5"
| "toBitSet_DataBits DB_6 = SPSW_DATA_BITS_DB6"
| "toBitSet_DataBits DB_7 = SPSW_DATA_BITS_DB7"
| "toBitSet_DataBits DB_8 = SPSW_DATA_BITS_DB8"

fun toBitSet_Parity :: "Parity \<Rightarrow> jint" where
  "toBitSet_Parity EVEN = SPSW_PARITY_EVEN"
| "toBitSet_Parity MARK = SPSW_PARITY_MARK"
| "toBitSet_Parity NONE = SPSW_PARITY_NONE"
| "toBitSet_Parity ODD = SPSW_PARITY_ODD"
| "toBitSet_Parity SPACE = SPSW_PARITY_SPACE"

fun flow_bit :: "FlowControl \<Rightarrow> jint" where
  "flow_bit RTS_CTS_IN = SPSW_FLOW_CONTROL_RTS_CTS_IN"
| "flow_bit RTS_CTS_OUT = SPSW_FLOW_CONTROL_RTS_CTS_OUT"
| "flow_bit XON_XOFF_IN = SPSW_FLOW_CONTROL_XON_XOFF_IN"
| "flow_bit XON_XOFF_OUT = SPSW_FLOW_CONTROL_XON_XOFF_OUT"

text \<open>The set is an \<open>EnumSet\<close>: it is walked in some order, each element once.\<close>

definition toBitSet_FlowControl :: "FlowControl list \<Rightarrow> jint" where
  "toBitSet_FlowControl flowControls =
     (if flowControls = [] then SPSW_FLOW_CONTROL_NONE
      else fold (\<lambda>fc bitSet. bitSet OR flow_bit fc) flowControls 0)"

fun toBitSet_StopBits :: "StopBits \<Rightarrow> jint" where
  "toBitSet_StopBits SB_1 = SPSW_STOP_BITS_1"
| "toBitSet_StopBits SB_1_5 = SPSW_STOP_BITS_1_5"
| "toBitSet_StopBits SB_2 = SPSW_STOP_BITS_2"

text \<open>The bit set \<open>open\<close> passes to the native code.\<close>

definition open_bitset ::
  "Speed \<Rightarrow> DataBits \<Rightarrow> StopBits \<Rightarrow> Parity \<Rightarrow> FlowControl list \<Rightarrow> jint" where
  "open_bitset speed dataBits stopBits parity flowControls =
     toBitSet_Speed speed OR toBitSet_DataBits dataBits OR toBitSet_StopBits stopBits
       OR toBitSet_Parity parity OR toBitSet_FlowControl flowControls"

section \<open>Decoding\<close>

text \<open>\<open>None\<close> is the \<open>IllegalArgumentException\<close> of the default branch.\<close>

definition speedFromBitSet :: "jint \<Rightarrow> Speed option" where
  "speedFromBitSet bitset = map_of
     [(SPSW_SPEED_0_BPS, BPS_0),
      (SPSW_SPEED_50_BPS, BPS_50),
      (SPSW_SPEED_75_BPS, BPS_75),
      (SPSW_SPEED_110_BPS, BPS_110),
      (SPSW_SPEED_134_BPS, BPS_134),
      (SPSW_SPEED_150_BPS, BPS_150),
      (SPSW_SPEED_200_BPS, BPS_200),
      (SPSW_SPEED_300_BPS, BPS_300),
      (SPSW_SPEED_600_BPS, BPS_600),
      (SPSW_SPEED_1200_BPS, BPS_1200),
      (SPSW_SPEED_1800_BPS, BPS_1800),
      (SPSW_SPEED_2400_BPS, BPS_2400),
      (SPSW_SPEED_4800_BPS, BPS_4800),
      (SPSW_SPEED_9600_BPS, BPS_9600),
      (SPSW_SPEED_19200_BPS, BPS_19200),
      (SPSW_SPEED_38400_BPS, BPS_38400),
      (SPSW_SPEED_57600_BPS, BPS_57600),
      (SPSW_SPEED_115200_BPS, BPS_115200),
      (SPSW_SPEED_230400_BPS, BPS_230400),
      (SPSW_SPEED_460800_BPS, BPS_460800),
      (SPSW_SPEED_500000_BPS, BPS_500000),
      (SPSW_SPEED_576000_BPS, BPS_576000),
      (SPSW_SPEED_921600_BPS, BPS_921600),
      (SPSW_SPEED_1000000_BPS, BPS_1000000),
      (SPSW_SPEED_1152000_BPS, BPS_1152000),
      (SPSW_SPEED_1500000_BPS, BPS_1500000),
      (SPSW_SPEED_2000000_BPS, BPS_2000000),
      (SPSW_SPEED_2500000_BPS, BPS_2500000),
      (SPSW_SPEED_3000000_BPS, BPS_3000000),
      (SPSW_SPEED_3500000_BPS, BPS_3500000),
      (SPSW_SPEED_4000000_BPS, BPS_4000000)]
     (bitset AND SPSW_SPEED_MASK)"

definition dataBitsFromBitSet :: "jint \<Rightarrow> DataBits option" where
  "dataBitsFromBitSet bitset = map_of
     [(SPSW_DATA_BITS_DB5, DB_5), (SPSW_DATA_BITS_DB6, DB_6),
      (SPSW_DATA_BITS_DB7, DB_7), (SPSW_DATA_BITS_DB8, DB_8)]
     (bitset AND SPSW_DATA_BITS_MASK)"

definition flowControlFromBitSet :: "jint \<Rightarrow> FlowControl list" where
  "flowControlFromBitSet bitset =
     (if bitset AND SPSW_FLOW_CONTROL_MASK = SPSW_FLOW_CONTROL_NONE then []
      else filter (\<lambda>fc. bitset AND flow_bit fc = flow_bit fc)
        [RTS_CTS_IN, RTS_CTS_OUT, XON_XOFF_IN, XON_XOFF_OUT])"

definition parityFromBitSet :: "jint \<Rightarrow> Parity option" where
  "parityFromBitSet bitset = map_of
     [(SPSW_PARITY_NONE, NONE), (SPSW_PARITY_ODD, ODD), (SPSW_PARITY_EVEN, EVEN),
      (SPSW_PARITY_MARK, MARK), (SPSW_PARITY_SPACE, SPACE)]
     (bitset AND SPSW_PARITY_MASK)"

definition stopBitsFromBitSet :: "jint \<Rightarrow> StopBits option" where
  "stopBitsFromBitSet bitset = map_of
     [(SPSW_STOP_BITS_1, SB_1), (SPSW_STOP_BITS_1_5, SB_1_5), (SPSW_STOP_BITS_2, SB_2)]
     (bitset AND SPSW_STOP_BITS_MASK)"

section \<open>Fields of a bit set\<close>

text \<open>The masks of the five fields; every field constant lies in its own mask.\<close>

lemma and_or_distrib_jint: "((a :: jint) OR b) AND m = (a AND m) OR (b AND m)"
  by (simp add: bit.conj_disj_distrib2)

lemma speed_field [bits_simps]:
  "toBitSet_Speed x AND SPSW_SPEED_MASK = toBitSet_Speed x"
  "toBitSet_Speed x AND SPSW_DATA_BITS_MASK = 0"
  "toBitSet_Speed x AND SPSW_STOP_BITS_MASK = 0"
  "toBitSet_Speed x AND SPSW_PARITY_MASK = 0"
  "toBitSet_Speed x AND SPSW_FLOW_CONTROL_MASK = 0"
  by (cases x; simp add: bits_simps)+

lemma dataBits_field [bits_simps]:
  "toBitSet_DataBits x AND SPSW_SPEED_MASK = 0"
  "toBitSet_DataBits x AND SPSW_DATA_BITS_MASK = toBitSet_DataBits x"
  "toBitSet_DataBits x AND SPSW_STOP_BITS_MASK = 0"
  "toBitSet_DataBits x AND SPSW_PARITY_MASK = 0"
  "toBitSet_DataBits x AND SPSW_FLOW_CONTROL_MASK = 0"
  by (cases x; simp add: bits_simps)+

lemma stopBits_field [bits_simps]:
  "toBitSet_StopBits x AND SPSW_SPEED_MASK = 0"
  "toBitSet_StopBits x AND SPSW_DATA_BITS_MASK = 0"
  "toBitSet_StopBits x AND SPSW_STOP_BITS_MASK = toBitSet_StopBits x"
  "toBitSet_StopBits x AND SPSW_PARITY_MASK = 0"
  "toBitSet_StopBits x AND SPSW_FLOW_CONTROL_MASK = 0"
  by (cases x; simp add: bits_simps)+

lemma parity_field [bits_simps]:
  "toBitSet_Parity x AND SPSW_SPEED_MASK = 0"
  "toBitSet_Parity x AND SPSW_DATA_BITS_MASK = 0"
  "toBitSet_Parity x AND SPSW_STOP_BITS_MASK = 0"
  "toBitSet_Parity x AND SPSW_PARITY_MASK = toBitSet_Parity x"
  "toBitSet_Parity x AND SPSW_FLOW_CONTROL_MASK = 0"
  by (cases x; simp add: bits_simps)+

text \<open>The loop over the flow control set is the union of the bits of its elements.\<close>

definition flow_bits :: "FlowControl set \<Rightarrow> jint" where
  "flow_bits F =
     (if RTS_CTS_IN \<in> F then SPSW_FLOW_CONTROL_RTS_CTS_IN else 0)
     OR (if RTS_CTS_OUT \<in> F then SPSW_FLOW_CONTROL_RTS_CTS_OUT else 0)
     OR (if XON_XOFF_IN \<in> F then SPSW_FLOW_CONTROL_XON_XOFF_IN else 0)
     OR (if XON_XOFF_OUT \<in> F then SPSW_FLOW_CONTROL_XON_XOFF_OUT else 0)"

lemma flow_bits_insert: "flow_bits (insert fc F) = flow_bit fc OR flow_bits F"
  by (cases fc) (simp_all add: flow_bits_def or.assoc or.left_commute)

lemma flow_fold: "fold (\<lambda>fc bitSet. bitSet OR flow_bit fc) xs acc = acc OR flow_bits (set xs)"
proof (induction xs arbitrary: acc)
  case Nil
  show ?case by (simp add: flow_bits_def)
next
  case (Cons fc xs)
  then show ?case by (simp add: flow_bits_insert or.assoc)
qed

lemma toBitSet_FlowControl_set:
  "toBitSet_FlowControl fcs = (if set fcs = {} then SPSW_FLOW_CONTROL_NONE else flow_bits (set fcs))"
  by (simp add: toBitSet_FlowControl_def flow_fold)

lemma flow_field [bits_simps]:
  "toBitSet_FlowControl fcs AND SPSW_SPEED_MASK = 0"
  "toBitSet_FlowControl fcs AND SPSW_DATA_BITS_MASK = 0"
  "toBitSet_FlowControl fcs AND SPSW_STOP_BITS_MASK = 0"
  "toBitSet_FlowControl fcs AND SPSW_PARITY_MASK = 0"
  "toBitSet_FlowControl fcs AND SPSW_FLOW_CONTROL_MASK = toBitSet_FlowControl fcs"
  by (simp add: toBitSet_FlowControl_set flow_bits_def bits_simps)+

lemma flow_bits_member: "flow_bits F AND flow_bit fc = flow_bit fc \<longleftrightarrow> fc \<in> F"
  by (cases fc) (simp_all add: flow_bits_def bits_simps)

lemma flow_bits_not_NONE: "flow_bits F \<noteq> SPSW_FLOW_CONTROL_NONE"
  by (simp add: flow_bits_def bits_simps)

lemma speed_nonzero [simp]: "toBitSet_Speed s \<noteq> 0"
  by (cases s) (simp_all add: bits_simps)

lemma dataBits_nonzero [simp]: "toBitSet_DataBits d \<noteq> 0"
  by (cases d) (simp_all add: bits_simps)

lemma stopBits_nonzero [simp]: "toBitSet_StopBits b \<noteq> 0"
  by (cases b) (simp_all add: bits_simps)

lemma parity_nonzero [simp]: "toBitSet_Parity p \<noteq> 0"
  by (cases p) (simp_all add: bits_simps)

lemma flow_nonzero [simp]: "toBitSet_FlowControl fcs \<noteq> 0"
proof (cases fcs)
  case Nil
  then show ?thesis by (simp add: toBitSet_FlowControl_def bits_simps)
next
  case (Cons fc xs)
  have "fc \<in> set fcs" using Cons by simp
  then have "flow_bits (set fcs) AND flow_bit fc = flow_bit fc" by (simp add: flow_bits_member)
  moreover have "flow_bit fc \<noteq> 0" by (cases fc) (simp_all add: bits_simps)
  ultimately show ?thesis using Cons by (auto simp: toBitSet_FlowControl_set)
qed

lemma open_bitset_fields [bits_simps]:
  "open_bitset s d b p fcs AND SPSW_SPEED_MASK = toBitSet_Speed s"
  "open_bitset s d b p fcs AND SPSW_DATA_BITS_MASK = toBitSet_DataBits d"
  "open_bitset s d b p fcs AND SPSW_STOP_BITS_MASK = toBitSet_StopBits b"
  "open_bitset s d b p fcs AND SPSW_PARITY_MASK = toBitSet_Parity p"
  "open_bitset s d b p fcs AND SPSW_FLOW_CONTROL_MASK = toBitSet_FlowControl fcs"
  by (simp_all add: open_bitset_def and_or_distrib_jint speed_field dataBits_field
      stopBits_field parity_field flow_field)

text \<open>Decoding undoes encoding, field by field.\<close>

lemma decode_speed:
  "x AND SPSW_SPEED_MASK = toBitSet_Speed s \<Longrightarrow> speedFromBitSet x = Some s"
  by (cases s) (simp_all add: speedFromBitSet_def bits_simps)

lemma decode_dataBits:
  "x AND SPSW_DATA_BITS_MASK = toBitSet_DataBits d \<Longrightarrow> dataBitsFromBitSet x = Some d"
  by (cases d) (simp_all add: dataBitsFromBitSet_def bits_simps)

lemma decode_stopBits:
  "x AND SPSW_STOP_BITS_MASK = toBitSet_StopBits b \<Longrightarrow> stopBitsFromBitSet x = Some b"
  by (cases b) (simp_all add: stopBitsFromBitSet_def bits_simps)

lemma decode_parity:
  "x AND SPSW_PARITY_MASK = toBitSet_Parity p \<Longrightarrow> parityFromBitSet x = Some p"
  by (cases p) (simp_all add: parityFromBitSet_def bits_simps)

lemma and_flow_bit:
  "(x :: jint) AND flow_bit fc = (x AND SPSW_FLOW_CONTROL_MASK) AND flow_bit fc"
  by (cases fc) (simp_all add: and.assoc bits_simps)

lemma decode_flow:
  assumes "x AND SPSW_FLOW_CONTROL_MASK = toBitSet_FlowControl fcs"
  shows "set (flowControlFromBitSet x) = set fcs"
proof (cases "fcs = []")
  case True
  with assms show ?thesis by (simp add: flowControlFromBitSet_def toBitSet_FlowControl_def)
next
  case False
  then have x: "x AND SPSW_FLOW_CONTROL_MASK = flow_bits (set fcs)"
    using assms by (simp add: toBitSet_FlowControl_set)
  then have bit: "x AND flow_bit fc = flow_bit fc \<longleftrightarrow> fc \<in> set fcs" for fc
    by (simp add: and_flow_bit [of x] flow_bits_member)
  have "flowControlFromBitSet x = filter (\<lambda>fc. fc \<in> set fcs)
      [RTS_CTS_IN, RTS_CTS_OUT, XON_XOFF_IN, XON_XOFF_OUT]"
    unfolding flowControlFromBitSet_def x bit using flow_bits_not_NONE by simp
  moreover have "fc \<in> set [RTS_CTS_IN, RTS_CTS_OUT, XON_XOFF_IN, XON_XOFF_OUT]" for fc
    by (cases fc) simp_all
  ultimately show ?thesis by (auto simp del: filter.simps list.set)
qed

section \<open>Requests\<close>

text \<open>
  What a caller asks for: each of the five parameters, or that it be left alone. \<open>open\<close>
  with parameters asks for all five, the setters of the Java class for one.
\<close>

record params =
  p_speed :: "Speed option"
  p_dataBits :: "DataBits option"
  p_stopBits :: "StopBits option"
  p_parity :: "Parity option"
  p_flow :: "FlowControl list option"

definition field :: "('a \<Rightarrow> jint) \<Rightarrow> 'a option \<Rightarrow> jint" where
  "field f x = (case x of None \<Rightarrow> 0 | Some y \<Rightarrow> f y)"

definition encode_params :: "params \<Rightarrow> jint" where
  "encode_params p =
     field toBitSet_Speed (p_speed p) OR field toBitSet_DataBits (p_dataBits p)
     OR field toBitSet_StopBits (p_stopBits p) OR field toBitSet_Parity (p_parity p)
     OR field toBitSet_FlowControl (p_flow p)"

lemma open_bitset_encode:
  "open_bitset s d b p fcs = encode_params \<lparr>p_speed = Some s, p_dataBits = Some d,
     p_stopBits = Some b, p_parity = Some p, p_flow = Some fcs\<rparr>"
  by (simp add: open_bitset_def encode_params_def field_def)

lemma field_and:
  "field f x AND m = (case x of None \<Rightarrow> 0 | Some y \<Rightarrow> f y AND m)"
  by (simp add: field_def split: option.splits)

lemma encode_fields [bits_simps]:
  "encode_params p AND SPSW_SPEED_MASK = field toBitSet_Speed (p_speed p)"
  "encode_params p AND SPSW_DATA_BITS_MASK = field toBitSet_DataBits (p_dataBits p)"
  "encode_params p AND SPSW_STOP_BITS_MASK = field toBitSet_StopBits (p_stopBits p)"
  "encode_params p AND SPSW_PARITY_MASK = field toBitSet_Parity (p_parity p)"
  "encode_params p AND SPSW_FLOW_CONTROL_MASK = field toBitSet_FlowControl (p_flow p)"
  unfolding encode_params_def and_or_distrib_jint field_and
  by (simp_all add: field_def speed_field dataBits_field stopBits_field parity_field flow_field
      split: option.splits)

lemma field_zero [simp]:
  "field toBitSet_Speed s = 0 \<longleftrightarrow> s = None"
  "field toBitSet_DataBits d = 0 \<longleftrightarrow> d = None"
  "field toBitSet_StopBits b = 0 \<longleftrightarrow> b = None"
  "field toBitSet_Parity p = 0 \<longleftrightarrow> p = None"
  "field toBitSet_FlowControl fcs = 0 \<longleftrightarrow> fcs = None"
  by (simp_all add: field_def split: option.splits)

section \<open>Checking what was set\<close>

text \<open>
  The end of \<open>setParams\<close>, the same in the POSIX and in the Windows build: the fields that
  are read back, and the text that names the first field that differs.
\<close>

definition params_to_read :: "jint \<Rightarrow> jint" where
  "params_to_read p =
     (if SPSW_SPEED_MASK AND p \<noteq> 0 then SPSW_SPEED_MASK else 0)
     OR (if SPSW_DATA_BITS_MASK AND p \<noteq> 0 then SPSW_DATA_BITS_MASK else 0)
     OR (if SPSW_STOP_BITS_MASK AND p \<noteq> 0 then SPSW_STOP_BITS_MASK else 0)
     OR (if SPSW_PARITY_MASK AND p \<noteq> 0 then SPSW_PARITY_MASK else 0)
     OR (if SPSW_FLOW_CONTROL_MASK AND p \<noteq> 0 then SPSW_FLOW_CONTROL_MASK else 0)"

definition mismatch_text :: "jint \<Rightarrow> jint \<Rightarrow> string" where
  "mismatch_text paramsRead paramBitSet = (
     let differs = (\<lambda>mask. paramsRead AND mask \<noteq> paramBitSet AND mask);
         what = (if differs SPSW_SPEED_MASK then ''Speed''
                 else if differs SPSW_DATA_BITS_MASK then ''DataBits''
                 else if differs SPSW_STOP_BITS_MASK then ''StopBits''
                 else if differs SPSW_PARITY_MASK then ''Parity''
                 else if differs SPSW_FLOW_CONTROL_MASK then ''FlowControl''
                 else ''unknown parameter'')
     in snprintf 512 (''Could not set '' @ what @ ''! NATIVE: paramsRead(0x'' @ show_hex8 paramsRead
          @ '') != paramBitSet(0x'' @ show_hex8 paramBitSet @ '')''))"

lemma if_and: "(if b then x else 0) AND m = (if b then x AND m else 0)" for x m :: jint
  by simp

lemma params_to_read_fields:
  "params_to_read x AND SPSW_SPEED_MASK = (if x AND SPSW_SPEED_MASK = 0 then 0 else SPSW_SPEED_MASK)"
  "params_to_read x AND SPSW_DATA_BITS_MASK = (if x AND SPSW_DATA_BITS_MASK = 0 then 0 else SPSW_DATA_BITS_MASK)"
  "params_to_read x AND SPSW_STOP_BITS_MASK = (if x AND SPSW_STOP_BITS_MASK = 0 then 0 else SPSW_STOP_BITS_MASK)"
  "params_to_read x AND SPSW_PARITY_MASK = (if x AND SPSW_PARITY_MASK = 0 then 0 else SPSW_PARITY_MASK)"
  "params_to_read x AND SPSW_FLOW_CONTROL_MASK = (if x AND SPSW_FLOW_CONTROL_MASK = 0 then 0 else SPSW_FLOW_CONTROL_MASK)"
  unfolding params_to_read_def and_or_distrib_jint if_and and.commute [of _ x]
  by (simp_all add: bits_simps)

lemma masks_nonzero [simp]:
  "SPSW_SPEED_MASK \<noteq> 0" "SPSW_DATA_BITS_MASK \<noteq> 0" "SPSW_STOP_BITS_MASK \<noteq> 0"
  "SPSW_PARITY_MASK \<noteq> 0" "SPSW_FLOW_CONTROL_MASK \<noteq> 0"
  by (simp_all add: bits_simps)

lemma toBitSet_inject:
  "toBitSet_DataBits d = toBitSet_DataBits d' \<longleftrightarrow> d = d'"
  "toBitSet_StopBits b = toBitSet_StopBits b' \<longleftrightarrow> b = b'"
  "toBitSet_Parity q = toBitSet_Parity q' \<longleftrightarrow> q = q'"
  using decode_dataBits [of "toBitSet_DataBits d"] decode_stopBits [of "toBitSet_StopBits b"]
    decode_parity [of "toBitSet_Parity q"]
  by (metis dataBits_field(2) option.inject, metis stopBits_field(3) option.inject,
      metis parity_field(4) option.inject)

lemma toBitSet_flow_inject: "toBitSet_FlowControl F = toBitSet_FlowControl G \<longleftrightarrow> set F = set G"
  by (metis decode_flow flow_field(5) toBitSet_FlowControl_set)

lemma encode_inject:
  "encode_params q = encode_params p \<longleftrightarrow>
     field toBitSet_Speed (p_speed q) = field toBitSet_Speed (p_speed p) \<and>
     field toBitSet_DataBits (p_dataBits q) = field toBitSet_DataBits (p_dataBits p) \<and>
     field toBitSet_StopBits (p_stopBits q) = field toBitSet_StopBits (p_stopBits p) \<and>
     field toBitSet_Parity (p_parity q) = field toBitSet_Parity (p_parity p) \<and>
     field toBitSet_FlowControl (p_flow q) = field toBitSet_FlowControl (p_flow p)"
  by (metis encode_fields encode_params_def)

end
