(* ===== verification/PosixApi.thy ===== *)
theory PosixApi
  imports ParamBits
begin

text \<open>
  The interface of the POSIX build to the operating system. The C library and the kernel are
  not part of the repository: they are parameters of the model. The constants of the system
  headers are a record (\<open>posix\<close>), the speed functions of \<open>termios.h\<close> a record of
  functions (\<open>termios_lib\<close>), and the system calls one function \<open>os\<close> that answers a
  call in the current world. The answer may come with a change of the fields of the Java
  object: that is what the other threads did while the call ran.
\<close>

section \<open>Constants of the system headers\<close>

text \<open>The optional constants are the ones the sources guard with \<open>#ifdef\<close>.\<close>

record speed_consts =
  B0 :: "32 word"
  B50 :: "32 word"
  B75 :: "32 word"
  B110 :: "32 word"
  B134 :: "32 word"
  B150 :: "32 word"
  B200 :: "32 word"
  B300 :: "32 word"
  B600 :: "32 word"
  B1200 :: "32 word"
  B1800 :: "32 word"
  B2400 :: "32 word"
  B4800 :: "32 word"
  B9600 :: "32 word"
  B19200 :: "32 word"
  B38400 :: "32 word"
  B57600 :: "32 word option"
  B115200 :: "32 word option"
  B230400 :: "32 word option"
  B460800 :: "32 word option"
  B500000 :: "32 word option"
  B576000 :: "32 word option"
  B921600 :: "32 word option"
  B1000000 :: "32 word option"
  B1152000 :: "32 word option"
  B1500000 :: "32 word option"
  B2000000 :: "32 word option"
  B2500000 :: "32 word option"
  B3000000 :: "32 word option"
  B3500000 :: "32 word option"
  B4000000 :: "32 word option"

record termios_consts = speed_consts +
  CSIZE :: "32 word"
  CS5 :: "32 word"
  CS6 :: "32 word"
  CS7 :: "32 word"
  CS8 :: "32 word"
  CSTOPB :: "32 word"
  PARENB :: "32 word"
  PARODD :: "32 word"
  CRTSCTS :: "32 word"
  CREAD :: "32 word"
  CLOCAL :: "32 word"
  HUPCL :: "32 word"
  INPCK :: "32 word"
  IXON :: "32 word"
  IXOFF :: "32 word"
  IGNBRK :: "32 word"
  BRKINT :: "32 word"
  PARMRK :: "32 word"
  ISTRIP :: "32 word"
  INLCR :: "32 word"
  IGNCR :: "32 word"
  ICRNL :: "32 word"
  OPOST :: "32 word"
  ECHO :: "32 word"
  ECHONL :: "32 word"
  ICANON :: "32 word"
  ISIG :: "32 word"
  IEXTEN :: "32 word"
  PAREXT :: "32 word option"
  CMSPAR :: "32 word option"
  VMIN :: nat
  VTIME :: nat
  VSTOP :: nat
  VSTART :: nat

record posix = termios_consts +
  TCSANOW :: int
  TCIOFLUSH :: int
  EAGAIN :: int
  EBUSY :: int
  ENOENT :: int
  EACCES :: int
  EIO :: int
  ENOTTY :: int
  ERANGE :: int
  EINVAL :: int
  POLLIN :: "16 word"
  POLLOUT :: "16 word"
  POLLHUP :: "16 word"
  POLLNVAL :: "16 word"
  TIOCM_CTS :: "32 word"
  TIOCM_DSR :: "32 word"
  TIOCM_CAR :: "32 word"
  TIOCM_RNG :: "32 word"
  TIOCM_DTR :: "32 word"
  TIOCM_RTS :: "32 word"
  O_RDWR :: "32 word"
  O_NOCTTY :: "32 word"
  O_NONBLOCK :: "32 word"
  EFD_NONBLOCK :: "32 word"
  HAVE_SYS_EVENTFD_H :: bool
  big_endian :: bool

section \<open>Terminal settings\<close>

record termios =
  c_iflag :: "32 word"
  c_oflag :: "32 word"
  c_cflag :: "32 word"
  c_lflag :: "32 word"
  c_cc :: bytes
  c_ispeed :: "32 word"
  c_ospeed :: "32 word"

text \<open>A setter returns its result, \<open>errno\<close> and the changed settings.\<close>

record termios_lib =
  cfgetispeed :: "termios \<Rightarrow> 32 word"
  cfgetospeed :: "termios \<Rightarrow> 32 word"
  cfsetispeed :: "termios \<Rightarrow> 32 word \<Rightarrow> int \<times> int \<times> termios"
  cfsetospeed :: "termios \<Rightarrow> 32 word \<Rightarrow> int \<times> int \<times> termios"
  cfsetspeed :: "termios \<Rightarrow> 32 word \<Rightarrow> int \<times> int \<times> termios"

section \<open>System calls\<close>

datatype ioctl_request =
    FIONREAD | TIOCOUTQ | TIOCEXCL | TIOCSBRK | TIOCCBRK | TIOCMGET | TIOCMSET "32 word"

datatype pcall =
    Open string "32 word"
  | Close int
  | Read int nat
  | Write int bytes
  | Poll "(int \<times> 16 word) list" int
  | Ioctl int ioctl_request
  | Tcgetattr int
  | Tcsetattr int int termios
  | Tcflush int int
  | Tcdrain int
  | Eventfd int "32 word"
  | Pipe
  | Clock_gettime
  | Usleep int

text \<open>An answer: the result, \<open>errno\<close> afterwards, and the out-parameters of the call.\<close>

record presp =
  r_ret :: int
  r_errno :: int
  r_data :: bytes
  r_int :: "32 word"
  r_termios :: termios
  r_revents0 :: "16 word"
  r_revents1 :: "16 word"
  r_sec :: int
  r_nsec :: int
  r_pipe0 :: int
  r_pipe1 :: int

type_synonym 'w os = "pcall \<Rightarrow> sps \<times> 'w \<Rightarrow> presp \<times> sps \<times> 'w"
type_synonym 'w pstate = "('w, pcall \<times> presp) jni"

text \<open>The state after a call that was answered.\<close>

definition answered :: "pcall \<Rightarrow> presp \<Rightarrow> sps \<Rightarrow> 'w \<Rightarrow> 'w pstate \<Rightarrow> 'w pstate" where
  "answered c r obj w s =
     s\<lparr>sps := obj, world := w, errno := r_errno r, calls := calls s @ [(c, r)]\<rparr>"

definition syscall :: "'w os \<Rightarrow> pcall \<Rightarrow> ('w pstate, presp) state" where
  "syscall os c = State (\<lambda>s. case os c (sps s, world s) of (r, obj, w) \<Rightarrow> (r, answered c r obj w s))"

lemma answered_sel [simp]:
  "sps (answered c r obj w s) = obj" "world (answered c r obj w s) = w"
  "errno (answered c r obj w s) = r_errno r" "last_error (answered c r obj w s) = last_error s"
  "pending (answered c r obj w s) = pending s" "calls (answered c r obj w s) = calls s @ [(c, r)]"
  "native_blocks (answered c r obj w s) = native_blocks s"
  "uninit_read (answered c r obj w s) = uninit_read s" "vm (answered c r obj w s) = vm s"
  by (simp_all add: answered_def)

lemma wp_syscall [wp_simps]:
  "wp (syscall os c) Q s \<longleftrightarrow> (case os c (sps s, world s) of (r, obj, w) \<Rightarrow> Q r (answered c r obj w s))"
  by (simp add: syscall_def wp_def split: prod.splits)

lemma syscall_wp:
  assumes "\<And>r obj w. os c (sps s, world s) = (r, obj, w) \<Longrightarrow> Q r (answered c r obj w s)"
  shows "wp (syscall os c) Q s"
  using assms by (simp add: wp_syscall split: prod.splits)

text \<open>A C library function that fails leaves its error in \<open>errno\<close>.\<close>

definition set_errno :: "int \<Rightarrow> ('w pstate, unit) state" where
  "set_errno e = modify (\<lambda>s. s\<lparr>errno := e\<rparr>)"

lemma wp_set_errno [wp_simps]: "wp (set_errno e) Q s \<longleftrightarrow> Q () (s\<lparr>errno := e\<rparr>)"
  by (simp add: set_errno_def wp_simps)

text \<open>
  \<open>read(fd, buff + off, n)\<close>: the kernel stores what it read at the place it was given.
\<close>

definition sys_read :: "'w os \<Rightarrow> int \<Rightarrow> bytes \<Rightarrow> nat \<Rightarrow> nat \<Rightarrow> ('w pstate, int \<times> bytes) state" where
  "sys_read os fd buff off n = do {
     r \<leftarrow> syscall os (Read fd n);
     State_Monad.return (r_ret r, if 0 < r_ret r then store buff off (r_data r) else buff)
   }"

text \<open>The object representation of a \<open>uint64_t\<close>.\<close>

definition uint64_bytes :: "posix \<Rightarrow> nat \<Rightarrow> bytes" where
  "uint64_bytes c n = (if big_endian c then rev else id) (map (\<lambda>i. of_nat (n div 256 ^ i)) [0, 1, 2, 3, 4, 5, 6, 7])"

lemma frame_syscall [frame_intros]: "frame native_blocks (syscall os c)"
  by (simp add: syscall_def frame_def split: prod.splits)

lemma frame_sys_read [frame_intros]: "frame native_blocks (sys_read os fd buff off n)"
  unfolding sys_read_def by (intro frame_intros)

section \<open>Documented behaviour of the environment\<close>

text \<open>No other thread touches the Java object while the calls run.\<close>

definition quiet :: "'w os \<Rightarrow> bool" where
  "quiet os \<longleftrightarrow> (\<forall>c obj w. fst (snd (os c (obj, w))) = obj)"

text \<open>\<open>read\<close> and \<open>write\<close> report at most what they were asked for.\<close>

definition posix_read :: "'w os \<Rightarrow> bool" where
  "posix_read os \<longleftrightarrow> (\<forall>fd n x. let r = fst (os (Read fd n) x) in
     - 1 \<le> r_ret r \<and> r_ret r \<le> int n \<and> (0 \<le> r_ret r \<longrightarrow> length (r_data r) = nat (r_ret r)))"

definition posix_write :: "'w os \<Rightarrow> bool" where
  "posix_write os \<longleftrightarrow> (\<forall>fd bs x. let r = fst (os (Write fd bs) x) in
     - 1 \<le> r_ret r \<and> r_ret r \<le> int (length bs))"

lemma posix_readD:
  "posix_read os \<Longrightarrow> os (Read fd n) x = (r, y) \<Longrightarrow>
     - 1 \<le> r_ret r \<and> r_ret r \<le> int n \<and> (0 \<le> r_ret r \<longrightarrow> length (r_data r) = nat (r_ret r))"
  unfolding posix_read_def by (metis fst_conv)

lemma posix_writeD:
  "posix_write os \<Longrightarrow> os (Write fd bs) x = (r, y) \<Longrightarrow> - 1 \<le> r_ret r \<and> r_ret r \<le> int (length bs)"
  unfolding posix_write_def by (metis fst_conv)

lemma quietD: "quiet os \<Longrightarrow> os c (obj, w) = (r, obj', w') \<Longrightarrow> obj' = obj"
  unfolding quiet_def by (metis fst_conv snd_conv)

text \<open>
  A terminal that keeps the settings it is given and reports them back; \<open>attr\<close> observes
  the settings in the world.
\<close>

definition faithful_tty :: "'w os \<Rightarrow> int \<Rightarrow> ('w \<Rightarrow> termios) \<Rightarrow> bool" where
  "faithful_tty os fd attr \<longleftrightarrow>
     (\<forall>obj w. case os (Tcgetattr fd) (obj, w) of (r, obj', w') \<Rightarrow>
        r_ret r = 0 \<and> r_termios r = attr w \<and> obj' = obj \<and> attr w' = attr w) \<and>
     (\<forall>act t obj w. case os (Tcsetattr fd act t) (obj, w) of (r, obj', w') \<Rightarrow>
        r_ret r = 0 \<and> obj' = obj \<and> attr w' = t)"

lemma faithful_get:
  "faithful_tty os fd attr \<Longrightarrow> os (Tcgetattr fd) (obj, w) = (r, obj', w') \<Longrightarrow>
     r_ret r = 0 \<and> r_termios r = attr w \<and> obj' = obj \<and> attr w' = attr w"
  unfolding faithful_tty_def by (drule conjunct1, drule spec [of _ obj], drule spec [of _ w]) simp

lemma faithful_set:
  "faithful_tty os fd attr \<Longrightarrow> os (Tcsetattr fd act t) (obj, w) = (r, obj', w') \<Longrightarrow>
     r_ret r = 0 \<and> obj' = obj \<and> attr w' = t"
  unfolding faithful_tty_def
  by (drule conjunct2, drule spec [of _ act], drule spec [of _ t], drule spec [of _ obj],
      drule spec [of _ w]) simp

section \<open>Concrete instances\<close>

text \<open>
  Instances of the parameters for the examples: the constants of Linux on x86, an environment
  that plays back a list of answers, and a terminal that is its own settings.
\<close>

definition linux_consts :: posix where
  "linux_consts = \<lparr>
     B0 = 0,
     B50 = 1,
     B75 = 2,
     B110 = 3,
     B134 = 4,
     B150 = 5,
     B200 = 6,
     B300 = 7,
     B600 = 8,
     B1200 = 9,
     B1800 = 10,
     B2400 = 11,
     B4800 = 12,
     B9600 = 13,
     B19200 = 14,
     B38400 = 15,
     B57600 = Some 4097,
     B115200 = Some 4098,
     B230400 = Some 4099,
     B460800 = Some 4100,
     B500000 = Some 4101,
     B576000 = Some 4102,
     B921600 = Some 4103,
     B1000000 = Some 4104,
     B1152000 = Some 4105,
     B1500000 = Some 4106,
     B2000000 = Some 4107,
     B2500000 = Some 4108,
     B3000000 = Some 4109,
     B3500000 = Some 4110,
     B4000000 = Some 4111,
     CSIZE = 48,
     CS5 = 0,
     CS6 = 16,
     CS7 = 32,
     CS8 = 48,
     CSTOPB = 64,
     PARENB = 256,
     PARODD = 512,
     CRTSCTS = 2147483648,
     CREAD = 128,
     CLOCAL = 2048,
     HUPCL = 1024,
     INPCK = 16,
     IXON = 1024,
     IXOFF = 4096,
     IGNBRK = 1,
     BRKINT = 2,
     PARMRK = 8,
     ISTRIP = 32,
     INLCR = 64,
     IGNCR = 128,
     ICRNL = 256,
     OPOST = 1,
     ECHO = 8,
     ECHONL = 64,
     ICANON = 2,
     ISIG = 1,
     IEXTEN = 32768,
     PAREXT = None,
     CMSPAR = Some 1073741824,
     VMIN = 6,
     VTIME = 5,
     VSTOP = 9,
     VSTART = 8,
     TCSANOW = 0,
     TCIOFLUSH = 2,
     EAGAIN = 11,
     EBUSY = 16,
     ENOENT = 2,
     EACCES = 13,
     EIO = 5,
     ENOTTY = 25,
     ERANGE = 34,
     EINVAL = 22,
     POLLIN = 1,
     POLLOUT = 4,
     POLLHUP = 16,
     POLLNVAL = 32,
     TIOCM_CTS = 32,
     TIOCM_DSR = 256,
     TIOCM_CAR = 64,
     TIOCM_RNG = 128,
     TIOCM_DTR = 2,
     TIOCM_RTS = 4,
     O_RDWR = 2,
     O_NOCTTY = 256,
     O_NONBLOCK = 2048,
     EFD_NONBLOCK = 2048,
     HAVE_SYS_EVENTFD_H = True,
     big_endian = False\<rparr>"

definition no_termios :: termios where
  "no_termios = \<lparr>c_iflag = 0, c_oflag = 0, c_cflag = 0, c_lflag = 0, c_cc = replicate 32 0,
     c_ispeed = 0, c_ospeed = 0\<rparr>"

definition resp0 :: presp where
  "resp0 = \<lparr>r_ret = 0, r_errno = 0, r_data = [], r_int = 0, r_termios = no_termios,
     r_revents0 = 0, r_revents1 = 0, r_sec = 0, r_nsec = 0, r_pipe0 = 0, r_pipe1 = 0\<rparr>"

definition scripted :: "presp list os" where
  "scripted c x = (case x of (obj, rs) \<Rightarrow> (case rs of [] \<Rightarrow> (resp0, obj, []) | r # rs' \<Rightarrow> (r, obj, rs')))"

definition tty_device :: "termios os" where
  "tty_device c x = (case x of (obj, t) \<Rightarrow> (case c of
       Tcgetattr fd \<Rightarrow> (resp0\<lparr>r_termios := t\<rparr>, obj, t)
     | Tcsetattr fd act t' \<Rightarrow> (resp0, obj, t')
     | _ \<Rightarrow> (resp0, obj, t)))"

text \<open>A device that is its own modem register.\<close>

definition modem_device :: "32 word os" where
  "modem_device c x = (case x of (obj, v) \<Rightarrow> (case c of
       Ioctl fd TIOCMGET \<Rightarrow> (resp0\<lparr>r_int := v\<rparr>, obj, v)
     | Ioctl fd (TIOCMSET v') \<Rightarrow> (resp0, obj, v')
     | _ \<Rightarrow> (resp0, obj, v)))"

text \<open>Speeds kept in the two speed fields.\<close>

definition plain_lib :: termios_lib where
  "plain_lib = \<lparr>cfgetispeed = c_ispeed, cfgetospeed = c_ospeed,
     cfsetispeed = (\<lambda>t v. (0, 0, t\<lparr>c_ispeed := v\<rparr>)),
     cfsetospeed = (\<lambda>t v. (0, 0, t\<lparr>c_ospeed := v\<rparr>)),
     cfsetspeed = (\<lambda>t v. (0, 0, t\<lparr>c_ispeed := v, c_ospeed := v\<rparr>))\<rparr>"

definition open_sps :: sps where
  "open_sps = \<lparr>spsw_fd = 3, spsw_closeEventReadFd = 4, spsw_closeEventWriteFd = 4,
     spsw_interByteReadTimeout = 100, spsw_pollReadTimeout = - 1, spsw_pollWriteTimeout = - 1\<rparr>"

definition example_vm :: vm where
  "example_vm = \<lparr>vm_platform = Termios, vm_FindClass = (\<lambda>_. True),
     vm_GetMethodID = (\<lambda>_ _ _. True), vm_GetFieldID = (\<lambda>_ _ _. True), vm_NewGlobalRef = (\<lambda>_. True),
     vm_GetEnv = True, vm_strerror = (\<lambda>_. ''error''), vm_malloc = (\<lambda>_. True)\<rparr>"

definition example_state :: "'w \<Rightarrow> 'w pstate" where
  "example_state w = \<lparr>sps = open_sps, world = w, errno = 0, last_error = 0, pending = None,
     calls = [], native_blocks = 0, uninit_read = False, vm = example_vm\<rparr>"

lemma example_state_sel [simp]:
  "sps (example_state w) = open_sps" "world (example_state w) = w" "errno (example_state w) = 0"
  "pending (example_state w) = None" "calls (example_state w) = []" "vm (example_state w) = example_vm"
  "native_blocks (example_state w) = 0" "uninit_read (example_state w) = False"
  by (simp_all add: example_state_def)

lemma quiet_scripted [simp]: "quiet scripted"
  by (simp add: quiet_def scripted_def split: list.splits)

lemma quiet_tty_device [simp]: "quiet tty_device"
  by (simp add: quiet_def tty_device_def split: pcall.splits)

lemma faithful_tty_device [simp]: "faithful_tty tty_device fd (\<lambda>t. t)"
  by (simp add: faithful_tty_def tty_device_def resp0_def)

end
