(* ===== verification/TermiosSettings.thy ===== *)
theory TermiosSettings
  imports PosixApi
begin

text \<open>
  \<open>TermiosSettings.c\<close>: line parameters, modem lines, break and flow control characters
  of a terminal. A C function that throws and then returns an error value has \<open>None\<close> for
  that value, except where its caller compares it.
\<close>

section \<open>Speeds\<close>

text \<open>A \<open>case\<close> label that is only there when the platform defines the constant.\<close>

definition ifdef :: "'a option \<Rightarrow> ('a \<Rightarrow> 'b) \<Rightarrow> 'b list" where
  "ifdef x f = (case x of None \<Rightarrow> [] | Some b \<Rightarrow> [f b])"

definition speed_t2Speed_cases :: "posix \<Rightarrow> (32 word \<times> jint) list" where
  "speed_t2Speed_cases c =
     [(B0 c, SPSW_SPEED_0_BPS),
      (B50 c, SPSW_SPEED_50_BPS),
      (B75 c, SPSW_SPEED_75_BPS),
      (B110 c, SPSW_SPEED_110_BPS),
      (B134 c, SPSW_SPEED_134_BPS),
      (B150 c, SPSW_SPEED_150_BPS),
      (B200 c, SPSW_SPEED_200_BPS),
      (B300 c, SPSW_SPEED_300_BPS),
      (B600 c, SPSW_SPEED_600_BPS),
      (B1200 c, SPSW_SPEED_1200_BPS),
      (B1800 c, SPSW_SPEED_1800_BPS),
      (B2400 c, SPSW_SPEED_2400_BPS),
      (B4800 c, SPSW_SPEED_4800_BPS),
      (B9600 c, SPSW_SPEED_9600_BPS),
      (B19200 c, SPSW_SPEED_19200_BPS),
      (B38400 c, SPSW_SPEED_38400_BPS)]
     @ ifdef (B57600 c) (\<lambda>b. (b, SPSW_SPEED_57600_BPS))
     @ ifdef (B115200 c) (\<lambda>b. (b, SPSW_SPEED_115200_BPS))
     @ ifdef (B230400 c) (\<lambda>b. (b, SPSW_SPEED_230400_BPS))
     @ ifdef (B460800 c) (\<lambda>b. (b, SPSW_SPEED_460800_BPS))
     @ ifdef (B500000 c) (\<lambda>b. (b, SPSW_SPEED_500000_BPS))
     @ ifdef (B576000 c) (\<lambda>b. (b, SPSW_SPEED_576000_BPS))
     @ ifdef (B921600 c) (\<lambda>b. (b, SPSW_SPEED_921600_BPS))
     @ ifdef (B1000000 c) (\<lambda>b. (b, SPSW_SPEED_1000000_BPS))
     @ ifdef (B1152000 c) (\<lambda>b. (b, SPSW_SPEED_1152000_BPS))
     @ ifdef (B1500000 c) (\<lambda>b. (b, SPSW_SPEED_1500000_BPS))
     @ ifdef (B2000000 c) (\<lambda>b. (b, SPSW_SPEED_2000000_BPS))
     @ ifdef (B2500000 c) (\<lambda>b. (b, SPSW_SPEED_2500000_BPS))
     @ ifdef (B3000000 c) (\<lambda>b. (b, SPSW_SPEED_3000000_BPS))
     @ ifdef (B3500000 c) (\<lambda>b. (b, SPSW_SPEED_3500000_BPS))
     @ ifdef (B4000000 c) (\<lambda>b. (b, SPSW_SPEED_4000000_BPS))"

definition speed_t2Speed :: "posix \<Rightarrow> 32 word \<Rightarrow> ('w pstate, jint) state" where
  "speed_t2Speed c speed =
     (case map_of (speed_t2Speed_cases c) speed of
        Some v \<Rightarrow> State_Monad.return v
      | None \<Rightarrow> do {
          throw_IllegalArgumentException ''speed not supported'';
          State_Monad.return (- 1)
        })"

definition speed2speed_t_cases :: "posix \<Rightarrow> (jint \<times> 32 word) list" where
  "speed2speed_t_cases c =
     [(SPSW_SPEED_0_BPS, B0 c),
      (SPSW_SPEED_50_BPS, B50 c),
      (SPSW_SPEED_75_BPS, B75 c),
      (SPSW_SPEED_110_BPS, B110 c),
      (SPSW_SPEED_134_BPS, B134 c),
      (SPSW_SPEED_150_BPS, B150 c),
      (SPSW_SPEED_200_BPS, B200 c),
      (SPSW_SPEED_300_BPS, B300 c),
      (SPSW_SPEED_600_BPS, B600 c),
      (SPSW_SPEED_1200_BPS, B1200 c),
      (SPSW_SPEED_1800_BPS, B1800 c),
      (SPSW_SPEED_2400_BPS, B2400 c),
      (SPSW_SPEED_4800_BPS, B4800 c),
      (SPSW_SPEED_9600_BPS, B9600 c),
      (SPSW_SPEED_19200_BPS, B19200 c),
      (SPSW_SPEED_38400_BPS, B38400 c)]
     @ ifdef (B57600 c) (\<lambda>b. (SPSW_SPEED_57600_BPS, b))
     @ ifdef (B115200 c) (\<lambda>b. (SPSW_SPEED_115200_BPS, b))
     @ ifdef (B230400 c) (\<lambda>b. (SPSW_SPEED_230400_BPS, b))
     @ ifdef (B460800 c) (\<lambda>b. (SPSW_SPEED_460800_BPS, b))
     @ ifdef (B500000 c) (\<lambda>b. (SPSW_SPEED_500000_BPS, b))
     @ ifdef (B576000 c) (\<lambda>b. (SPSW_SPEED_576000_BPS, b))
     @ ifdef (B921600 c) (\<lambda>b. (SPSW_SPEED_921600_BPS, b))
     @ ifdef (B1000000 c) (\<lambda>b. (SPSW_SPEED_1000000_BPS, b))
     @ ifdef (B1152000 c) (\<lambda>b. (SPSW_SPEED_1152000_BPS, b))
     @ ifdef (B1500000 c) (\<lambda>b. (SPSW_SPEED_1500000_BPS, b))
     @ ifdef (B2000000 c) (\<lambda>b. (SPSW_SPEED_2000000_BPS, b))
     @ ifdef (B2500000 c) (\<lambda>b. (SPSW_SPEED_2500000_BPS, b))
     @ ifdef (B3000000 c) (\<lambda>b. (SPSW_SPEED_3000000_BPS, b))
     @ ifdef (B3500000 c) (\<lambda>b. (SPSW_SPEED_3500000_BPS, b))
     @ ifdef (B4000000 c) (\<lambda>b. (SPSW_SPEED_4000000_BPS, b))"

text \<open>\<open>None\<close> is the result \<open>-1\<close>, \<open>Some v\<close> the result 0 with \<open>*speedValue = v\<close>.\<close>

definition speed2speed_t :: "posix \<Rightarrow> jint \<Rightarrow> ('w pstate, 32 word option) state" where
  "speed2speed_t c speed =
     (case map_of (speed2speed_t_cases c) speed of
        Some v \<Rightarrow> State_Monad.return (Some v)
      | None \<Rightarrow> do {
          throw_IllegalArgumentException ''Speed not supported'';
          State_Monad.return None
        })"

section \<open>Reading the line parameters\<close>

definition get_speed ::
  "posix \<Rightarrow> termios_lib \<Rightarrow> termios \<Rightarrow> ('w pstate, jint option) state" where
  "get_speed c lib settings = (
     let inSpeed = cfgetispeed lib settings; outSpeed = cfgetospeed lib settings in
     if inSpeed \<noteq> outSpeed then do {
       throw_IOException_NativeError ''In and out speed mismatch'';
       State_Monad.return None
     } else do {
       speed \<leftarrow> speed_t2Speed c inSpeed;
       State_Monad.return (if speed = - 1 then None else Some speed)
     })"

definition get_dataBits :: "posix \<Rightarrow> termios \<Rightarrow> jint option" where
  "get_dataBits c settings = (
     let size = c_cflag settings AND CSIZE c in
     if size = CS5 c then Some SPSW_DATA_BITS_DB5
     else if size = CS6 c then Some SPSW_DATA_BITS_DB6
     else if size = CS7 c then Some SPSW_DATA_BITS_DB7
     else if size = CS8 c then Some SPSW_DATA_BITS_DB8
     else None)"

definition get_stopBits :: "posix \<Rightarrow> termios \<Rightarrow> jint" where
  "get_stopBits c settings =
     (if c_cflag settings AND CSTOPB c = 0 then SPSW_STOP_BITS_1
      else if c_cflag settings AND CSTOPB c = CSTOPB c then
        (if c_cflag settings AND CSIZE c = CS5 c then SPSW_STOP_BITS_1_5 else SPSW_STOP_BITS_2)
      else 0)"

text \<open>\<open>PAREXT\<close> where it is defined, else \<open>CMSPAR\<close> where that is.\<close>

definition mark_flag :: "posix \<Rightarrow> 32 word option" where
  "mark_flag c = (case PAREXT c of Some f \<Rightarrow> Some f | None \<Rightarrow> CMSPAR c)"

definition get_parity :: "posix \<Rightarrow> termios \<Rightarrow> jint" where
  "get_parity c settings =
     (if c_cflag settings AND PARENB c = 0 then SPSW_PARITY_NONE
      else if c_cflag settings AND PARODD c = 0 then
        (case mark_flag c of
           Some m \<Rightarrow> if c_cflag settings AND m = 0 then SPSW_PARITY_EVEN else SPSW_PARITY_SPACE
         | None \<Rightarrow> SPSW_PARITY_EVEN)
      else
        (case mark_flag c of
           Some m \<Rightarrow> if c_cflag settings AND m = 0 then SPSW_PARITY_ODD else SPSW_PARITY_MARK
         | None \<Rightarrow> SPSW_PARITY_ODD))"

definition get_flowControl :: "posix \<Rightarrow> termios \<Rightarrow> jint \<Rightarrow> jint" where
  "get_flowControl c settings result0 = (
     let result1 = result0 OR SPSW_FLOW_CONTROL_NONE;
         result2 = (if c_cflag settings AND CRTSCTS c \<noteq> 0
           then (result1 OR (SPSW_FLOW_CONTROL_RTS_CTS_IN OR SPSW_FLOW_CONTROL_RTS_CTS_OUT))
             AND NOT SPSW_FLOW_CONTROL_NONE
           else result1);
         result3 = (if c_iflag settings AND IXOFF c \<noteq> 0
           then (result2 OR SPSW_FLOW_CONTROL_XON_XOFF_IN) AND NOT SPSW_FLOW_CONTROL_NONE
           else result2)
     in (if c_iflag settings AND IXON c \<noteq> 0
           then (result3 OR SPSW_FLOW_CONTROL_XON_XOFF_OUT) AND NOT SPSW_FLOW_CONTROL_NONE
           else result3))"

text \<open>\<open>None\<close> is the result \<open>-1\<close>, \<open>Some r\<close> the result 0 with \<open>*paramBitSet = r\<close>.\<close>

definition getParams ::
  "posix \<Rightarrow> termios_lib \<Rightarrow> 'w os \<Rightarrow> jint \<Rightarrow> ('w pstate, jint option) state" where
  "getParams c lib os paramBitSet = do {
     fd \<leftarrow> GetField spsw_fd;
     r \<leftarrow> syscall os (Tcgetattr fd);
     if r_ret r \<noteq> 0 then do {
       throw_ClosedOrNativeException ''setParams tcsetattr'';
       State_Monad.return None
     } else do {
       let settings = r_termios r;
       speed \<leftarrow> (if paramBitSet AND SPSW_SPEED_MASK \<noteq> 0 then get_speed c lib settings
                 else State_Monad.return (Some 0));
       case speed of None \<Rightarrow> State_Monad.return None
       | Some result1 \<Rightarrow>
         (case (if paramBitSet AND SPSW_DATA_BITS_MASK \<noteq> 0 then get_dataBits c settings else Some 0) of
            None \<Rightarrow> do {
              throw_IllegalArgumentException ''Unknown databits'';
              State_Monad.return None
            }
          | Some bits \<Rightarrow> (
              let result2 = result1 OR bits;
                  result3 = (if paramBitSet AND SPSW_STOP_BITS_MASK \<noteq> 0
                             then result2 OR get_stopBits c settings else result2);
                  result4 = (if paramBitSet AND SPSW_PARITY_MASK \<noteq> 0
                             then result3 OR get_parity c settings else result3)
              in if paramBitSet AND SPSW_PARITY_MASK \<noteq> 0 \<and> result4 AND SPSW_PARITY_MASK = 0
                 then do {
                   throw_IOException_NativeError ''getParam could not figure out Parity'';
                   State_Monad.return None
                 } else State_Monad.return (Some
                     (if paramBitSet AND SPSW_FLOW_CONTROL_MASK \<noteq> 0
                      then get_flowControl c settings result4 else result4))))
     }
   }"

definition getInSpeed0 :: "posix \<Rightarrow> termios_lib \<Rightarrow> 'w os \<Rightarrow> ('w pstate, jint) state" where
  "getInSpeed0 c lib os = do {
     fd \<leftarrow> GetField spsw_fd;
     r \<leftarrow> syscall os (Tcgetattr fd);
     if r_ret r \<noteq> 0 then do {
       throw_ClosedOrNativeException ''setParams tcsetattr'';
       State_Monad.return (- 1)
     } else speed_t2Speed c (cfgetispeed lib (r_termios r))
   }"

definition getOutSpeed0 :: "posix \<Rightarrow> termios_lib \<Rightarrow> 'w os \<Rightarrow> ('w pstate, jint) state" where
  "getOutSpeed0 c lib os = do {
     fd \<leftarrow> GetField spsw_fd;
     r \<leftarrow> syscall os (Tcgetattr fd);
     if r_ret r \<noteq> 0 then do {
       throw_ClosedOrNativeException ''setParams tcsetattr'';
       State_Monad.return (- 1)
     } else speed_t2Speed c (cfgetospeed lib (r_termios r))
   }"

section \<open>Setting the line parameters\<close>

text \<open>
  The parts of \<open>setParams\<close> that work on the settings: \<open>Inl msg\<close> is the
  \<open>IllegalArgumentException\<close> they throw.
\<close>

definition set_dataBits :: "posix \<Rightarrow> jint \<Rightarrow> termios \<Rightarrow> string + termios" where
  "set_dataBits c paramBitSet t =
     (if paramBitSet AND SPSW_DATA_BITS_MASK = 0 then Inr t
      else let t1 = t\<lparr>c_cflag := c_cflag t AND NOT (CSIZE c)\<rparr>;
               b = paramBitSet AND SPSW_DATA_BITS_MASK in
        if b = SPSW_DATA_BITS_DB5 then Inr (t1\<lparr>c_cflag := c_cflag t1 OR CS5 c\<rparr>)
        else if b = SPSW_DATA_BITS_DB6 then Inr (t1\<lparr>c_cflag := c_cflag t1 OR CS6 c\<rparr>)
        else if b = SPSW_DATA_BITS_DB7 then Inr (t1\<lparr>c_cflag := c_cflag t1 OR CS7 c\<rparr>)
        else if b = SPSW_DATA_BITS_DB8 then Inr (t1\<lparr>c_cflag := c_cflag t1 OR CS8 c\<rparr>)
        else Inl ''Wrong databits'')"

definition set_stopBits :: "posix \<Rightarrow> jint \<Rightarrow> termios \<Rightarrow> string + termios" where
  "set_stopBits c paramBitSet t =
     (if paramBitSet AND SPSW_STOP_BITS_MASK = 0 then Inr t
      else let b = paramBitSet AND SPSW_STOP_BITS_MASK in
        if b = SPSW_STOP_BITS_1 then Inr (t\<lparr>c_cflag := c_cflag t AND NOT (CSTOPB c)\<rparr>)
        else if b = SPSW_STOP_BITS_1_5 then
          (if c_cflag t AND CSIZE c = CS5 c then Inr (t\<lparr>c_cflag := c_cflag t OR CSTOPB c\<rparr>)
           else Inl ''setStopBits 1.5 stop bits are only valid for 5 DataBits'')
        else if b = SPSW_STOP_BITS_2 then
          (if c_cflag t AND CSIZE c = CS5 c
           then Inl ''setStopBits 2 stop bits are only valid for 6,7,8 DataBits''
           else Inr (t\<lparr>c_cflag := c_cflag t OR CSTOPB c\<rparr>))
        else Inl ''Unknown stopbits'')"

definition set_parity :: "posix \<Rightarrow> jint \<Rightarrow> termios \<Rightarrow> string + termios" where
  "set_parity c paramBitSet t =
     (if paramBitSet AND SPSW_PARITY_MASK = 0 then Inr t
      else let m = (case mark_flag c of Some f \<Rightarrow> f | None \<Rightarrow> 0);
               t1 = t\<lparr>c_cflag := c_cflag t AND NOT (PARENB c OR PARODD c OR m)\<rparr>;
               p = paramBitSet AND SPSW_PARITY_MASK in
        if p = SPSW_PARITY_NONE then Inr (t1\<lparr>c_iflag := c_iflag t1 AND NOT (INPCK c)\<rparr>)
        else if p = SPSW_PARITY_ODD then
          Inr (t1\<lparr>c_cflag := c_cflag t1 OR (PARENB c OR PARODD c), c_iflag := c_iflag t1 OR INPCK c\<rparr>)
        else if p = SPSW_PARITY_EVEN then
          Inr (t1\<lparr>c_cflag := c_cflag t1 OR PARENB c, c_iflag := c_iflag t1 OR INPCK c\<rparr>)
        else if p = SPSW_PARITY_MARK then
          Inr (t1\<lparr>c_iflag := c_iflag t1 OR INPCK c, c_cflag := c_cflag t1 OR (PARENB c OR PARODD c OR m)\<rparr>)
        else if p = SPSW_PARITY_SPACE then
          Inr (t1\<lparr>c_iflag := c_iflag t1 OR INPCK c, c_cflag := c_cflag t1 OR (PARENB c OR m)\<rparr>)
        else Inl ''Wrong parity'')"

definition set_flowControl :: "posix \<Rightarrow> jint \<Rightarrow> termios \<Rightarrow> string + termios" where
  "set_flowControl c paramBitSet t =
     (if paramBitSet AND SPSW_FLOW_CONTROL_MASK = 0 then Inr t
      else let mask = paramBitSet AND SPSW_FLOW_CONTROL_MASK;
               t1 = t\<lparr>c_cflag := c_cflag t AND NOT (CRTSCTS c),
                      c_iflag := c_iflag t AND NOT (IXON c OR IXOFF c)\<rparr>;
               rts_in = (mask AND SPSW_FLOW_CONTROL_RTS_CTS_IN = SPSW_FLOW_CONTROL_RTS_CTS_IN);
               rts_out = (mask AND SPSW_FLOW_CONTROL_RTS_CTS_OUT = SPSW_FLOW_CONTROL_RTS_CTS_OUT) in
        if mask = SPSW_FLOW_CONTROL_NONE then Inr t1
        else if (rts_in \<or> rts_out) \<and> \<not> (rts_in \<and> rts_out)
          then Inl ''Can only set RTS/CTS for both in and out''
        else let t2 = (if rts_in \<or> rts_out then t1\<lparr>c_cflag := c_cflag t1 OR CRTSCTS c\<rparr> else t1);
                 t3 = (if mask AND SPSW_FLOW_CONTROL_XON_XOFF_IN = SPSW_FLOW_CONTROL_XON_XOFF_IN
                       then t2\<lparr>c_iflag := c_iflag t2 OR IXOFF c\<rparr> else t2)
          in Inr (if mask AND SPSW_FLOW_CONTROL_XON_XOFF_OUT = SPSW_FLOW_CONTROL_XON_XOFF_OUT
                  then t3\<lparr>c_iflag := c_iflag t3 OR IXON c\<rparr> else t3))"

definition set_line :: "posix \<Rightarrow> jint \<Rightarrow> termios \<Rightarrow> string + termios" where
  "set_line c paramBitSet t0 =
     (case set_dataBits c paramBitSet t0 of Inl e \<Rightarrow> Inl e
      | Inr t1 \<Rightarrow> (case set_stopBits c paramBitSet t1 of Inl e \<Rightarrow> Inl e
      | Inr t2 \<Rightarrow> (case set_parity c paramBitSet t2 of Inl e \<Rightarrow> Inl e
      | Inr t3 \<Rightarrow> set_flowControl c paramBitSet t3)))"

text \<open>\<open>None\<close> is the result \<open>-1\<close>: an exception has been thrown.\<close>

definition set_speed ::
  "posix \<Rightarrow> termios_lib \<Rightarrow> jint \<Rightarrow> termios \<Rightarrow> ('w pstate, termios option) state" where
  "set_speed c lib paramBitSet settings =
     (if paramBitSet AND SPSW_SPEED_MASK = 0 then State_Monad.return (Some settings)
      else do {
        sv \<leftarrow> speed2speed_t c (paramBitSet AND SPSW_SPEED_MASK);
        case sv of None \<Rightarrow> State_Monad.return None
        | Some speedValue \<Rightarrow> (case cfsetspeed lib settings speedValue of (ret, err, settings') \<Rightarrow>
            if ret < 0 then do {
              set_errno err;
              throw_ClosedOrNativeException ''Can't set Speed cfsetspeed(settings, speedValue)'';
              State_Monad.return None
            } else State_Monad.return (Some settings'))
      })"

text \<open>\<open>write_settings\<close>: hand the settings to the driver and translate its errors.\<close>

definition write_settings ::
  "posix \<Rightarrow> 'w os \<Rightarrow> string \<Rightarrow> int \<Rightarrow> termios \<Rightarrow> ('w pstate, bool) state" where
  "write_settings c os name fd settings = do {
     r \<leftarrow> syscall os (Tcsetattr fd (TCSANOW c) settings);
     if r_ret r \<noteq> 0 then do {
       s \<leftarrow> State_Monad.get;
       (if errno s = ERANGE c
        then throw_IllegalArgumentException (name @ '' tcsetattr Native Error '' @ [CHR 0x22] @ ''ERANGE'' @ [CHR 0x22])
        else if errno s = EINVAL c
        then throw_IllegalArgumentException (name @ '' tcsetattr Native Error '' @ [CHR 0x22] @ ''EINVAL'' @ [CHR 0x22])
        else throw_ClosedOrNativeException (name @ '' tcsetattr''));
       State_Monad.return False
     } else State_Monad.return True
   }"

definition setParams ::
  "posix \<Rightarrow> termios_lib \<Rightarrow> 'w os \<Rightarrow> termios \<Rightarrow> jint \<Rightarrow> ('w pstate, int) state" where
  "setParams c lib os settings paramBitSet = do {
     t \<leftarrow> set_speed c lib paramBitSet settings;
     case t of None \<Rightarrow> State_Monad.return (- 1)
     | Some t0 \<Rightarrow> (case set_line c paramBitSet t0 of
         Inl msg \<Rightarrow> do {
           throw_IllegalArgumentException msg;
           State_Monad.return (- 1)
         }
       | Inr t4 \<Rightarrow> do {
           fd \<leftarrow> GetField spsw_fd;
           written \<leftarrow> write_settings c os ''setParams'' fd t4;
           if \<not> written then State_Monad.return (- 1)
           else do {
             got \<leftarrow> getParams c lib os (params_to_read paramBitSet);
             case got of None \<Rightarrow> State_Monad.return (- 1)
             | Some paramsRead \<Rightarrow>
                 if paramsRead \<noteq> paramBitSet then do {
                   throw_IllegalArgumentException (mismatch_text paramsRead paramBitSet);
                   State_Monad.return (- 1)
                 } else State_Monad.return 0
           }
         })
   }"

definition setInSpeed0 ::
  "posix \<Rightarrow> termios_lib \<Rightarrow> 'w os \<Rightarrow> jint \<Rightarrow> ('w pstate, unit) state" where
  "setInSpeed0 c lib os speedValue = do {
     fd \<leftarrow> GetField spsw_fd;
     r \<leftarrow> syscall os (Tcgetattr fd);
     if r_ret r \<noteq> 0 then throw_ClosedOrNativeException ''setInSpeed0 tcsetattr''
     else do {
       sv \<leftarrow> speed2speed_t c (speedValue AND SPSW_SPEED_MASK);
       case sv of None \<Rightarrow> State_Monad.return ()
       | Some v \<Rightarrow> (case cfsetispeed lib (r_termios r) v of (ret, err, settings) \<Rightarrow>
           if ret < 0 then do {
             set_errno err;
             throw_ClosedOrNativeException ''Can't set Speed cfsetispeed(settings, speedValue)''
           } else do {
             written \<leftarrow> write_settings c os ''setInSpeed0'' fd settings;
             if \<not> written then State_Monad.return ()
             else do {
               r2 \<leftarrow> syscall os (Tcgetattr fd);
               if r_ret r2 \<noteq> 0 then throw_ClosedOrNativeException ''setInSpeed0 tcsetattr''
               else do {
                 got \<leftarrow> speed_t2Speed c (cfgetispeed lib (r_termios r2));
                 if speedValue \<noteq> got then throw_IllegalArgumentException ''Could not set inSpeed!''
                 else State_Monad.return ()
               }
             }
           })
     }
   }"

definition setOutSpeed0 ::
  "posix \<Rightarrow> termios_lib \<Rightarrow> 'w os \<Rightarrow> jint \<Rightarrow> ('w pstate, unit) state" where
  "setOutSpeed0 c lib os speedValue = do {
     fd \<leftarrow> GetField spsw_fd;
     r \<leftarrow> syscall os (Tcgetattr fd);
     if r_ret r \<noteq> 0 then throw_ClosedOrNativeException ''setOutSpeed0 tcsetattr''
     else do {
       sv \<leftarrow> speed2speed_t c (speedValue AND SPSW_SPEED_MASK);
       case sv of None \<Rightarrow> State_Monad.return ()
       | Some v \<Rightarrow> (case cfsetospeed lib (r_termios r) v of (ret, err, settings) \<Rightarrow>
           if ret < 0 then do {
             set_errno err;
             throw_ClosedOrNativeException ''Can't set Speed cfsetospeed(settings, speedValue)''
           } else do {
             written \<leftarrow> write_settings c os ''setOutSpeed0'' fd settings;
             if \<not> written then State_Monad.return ()
             else do {
               r2 \<leftarrow> syscall os (Tcgetattr fd);
               if r_ret r2 \<noteq> 0 then throw_ClosedOrNativeException ''setOutSpeed0 tcsetattr''
               else do {
                 got \<leftarrow> speed_t2Speed c (cfgetispeed lib (r_termios r2));
                 if speedValue \<noteq> got then throw_IllegalArgumentException ''Could not set outSpeed!''
                 else State_Monad.return ()
               }
             }
           })
     }
   }"

section \<open>Modem lines\<close>

definition getLineStatus :: "'w os \<Rightarrow> 32 word \<Rightarrow> ('w pstate, bool) state" where
  "getLineStatus os bitMask = do {
     fd \<leftarrow> GetField spsw_fd;
     r \<leftarrow> syscall os (Ioctl fd TIOCMGET);
     if r_ret r \<noteq> 0 then do {
       throw_ClosedOrNativeException ''Can't get line status'';
       State_Monad.return False
     } else State_Monad.return (r_int r AND bitMask = bitMask)
   }"

definition setLineStatus :: "'w os \<Rightarrow> bool \<Rightarrow> 32 word \<Rightarrow> ('w pstate, unit) state" where
  "setLineStatus os enabled bitMask = do {
     fd \<leftarrow> GetField spsw_fd;
     r \<leftarrow> syscall os (Ioctl fd TIOCMGET);
     if r_ret r \<noteq> 0 then throw_ClosedOrNativeException ''Can't get line status''
     else do {
       let lineStatus = (if enabled then r_int r OR bitMask else r_int r AND NOT bitMask);
       r2 \<leftarrow> syscall os (Ioctl fd (TIOCMSET lineStatus));
       if r_ret r2 \<noteq> 0 then throw_ClosedOrNativeException ''Can't set line status''
       else State_Monad.return ()
     }
   }"

definition isCTS :: "posix \<Rightarrow> 'w os \<Rightarrow> ('w pstate, bool) state" where
  "isCTS c os = getLineStatus os (TIOCM_CTS c)"

definition isDSR :: "posix \<Rightarrow> 'w os \<Rightarrow> ('w pstate, bool) state" where
  "isDSR c os = getLineStatus os (TIOCM_DSR c)"

definition isDCD :: "posix \<Rightarrow> 'w os \<Rightarrow> ('w pstate, bool) state" where
  "isDCD c os = getLineStatus os (TIOCM_CAR c)"

definition isRI :: "posix \<Rightarrow> 'w os \<Rightarrow> ('w pstate, bool) state" where
  "isRI c os = getLineStatus os (TIOCM_RNG c)"

definition isDTR :: "posix \<Rightarrow> 'w os \<Rightarrow> ('w pstate, bool) state" where
  "isDTR c os = getLineStatus os (TIOCM_DTR c)"

definition isRTS :: "posix \<Rightarrow> 'w os \<Rightarrow> ('w pstate, bool) state" where
  "isRTS c os = getLineStatus os (TIOCM_RTS c)"

definition setDTR :: "posix \<Rightarrow> 'w os \<Rightarrow> bool \<Rightarrow> ('w pstate, unit) state" where
  "setDTR c os enabled = setLineStatus os enabled (TIOCM_DTR c)"

definition setRTS :: "posix \<Rightarrow> 'w os \<Rightarrow> bool \<Rightarrow> ('w pstate, unit) state" where
  "setRTS c os enabled = setLineStatus os enabled (TIOCM_RTS c)"

definition setBreak0 :: "'w os \<Rightarrow> bool \<Rightarrow> ('w pstate, unit) state" where
  "setBreak0 os enabled = do {
     fd \<leftarrow> GetField spsw_fd;
     r \<leftarrow> syscall os (Ioctl fd (if enabled then TIOCSBRK else TIOCCBRK));
     if r_ret r \<noteq> 0 then throw_ClosedOrNativeException ''Can't set Break''
     else State_Monad.return ()
   }"

section \<open>Parameters and flow control characters, as Java calls them\<close>

definition getParameters ::
  "posix \<Rightarrow> termios_lib \<Rightarrow> 'w os \<Rightarrow> jint \<Rightarrow> ('w pstate, jint) state" where
  "getParameters c lib os parameterBitSetMask = do {
     got \<leftarrow> getParams c lib os parameterBitSetMask;
     State_Monad.return (case got of None \<Rightarrow> 0 | Some r \<Rightarrow> r)
   }"

definition setParameters ::
  "posix \<Rightarrow> termios_lib \<Rightarrow> 'w os \<Rightarrow> jint \<Rightarrow> ('w pstate, unit) state" where
  "setParameters c lib os parameterBitSet = do {
     fd \<leftarrow> GetField spsw_fd;
     r \<leftarrow> syscall os (Tcgetattr fd);
     if r_ret r \<noteq> 0 then throw_ClosedOrNativeException ''setParameters tcgetattr''
     else do {
       _ \<leftarrow> setParams c lib os (r_termios r) parameterBitSet;
       State_Monad.return ()
     }
   }"

definition getXOFFChar :: "posix \<Rightarrow> 'w os \<Rightarrow> ('w pstate, 16 word) state" where
  "getXOFFChar c os = do {
     fd \<leftarrow> GetField spsw_fd;
     r \<leftarrow> syscall os (Tcgetattr fd);
     if r_ret r \<noteq> 0 then do {
       throw_ClosedOrNativeException ''getXOFFChar tcgetattr'';
       State_Monad.return 0
     } else State_Monad.return (ucast (c_cc (r_termios r) ! VSTOP c))
   }"

definition getXONChar :: "posix \<Rightarrow> 'w os \<Rightarrow> ('w pstate, 16 word) state" where
  "getXONChar c os = do {
     fd \<leftarrow> GetField spsw_fd;
     r \<leftarrow> syscall os (Tcgetattr fd);
     if r_ret r \<noteq> 0 then do {
       throw_ClosedOrNativeException ''getXONChar tcgetattr'';
       State_Monad.return 0
     } else State_Monad.return (ucast (c_cc (r_termios r) ! VSTART c))
   }"

definition setXOFFChar :: "posix \<Rightarrow> 'w os \<Rightarrow> 16 word \<Rightarrow> ('w pstate, unit) state" where
  "setXOFFChar c os ch = do {
     fd \<leftarrow> GetField spsw_fd;
     r \<leftarrow> syscall os (Tcgetattr fd);
     if r_ret r \<noteq> 0 then throw_ClosedOrNativeException ''setXOFFChar tcgetattr''
     else do {
       let settings = (r_termios r)\<lparr>c_cc := (c_cc (r_termios r))[VSTOP c := ucast ch]\<rparr>;
       r2 \<leftarrow> syscall os (Tcsetattr fd (TCSANOW c) settings);
       if r_ret r2 \<noteq> 0 then throw_ClosedOrNativeException ''setXOFFChar tcsetattr''
       else State_Monad.return ()
     }
   }"

definition setXONChar :: "posix \<Rightarrow> 'w os \<Rightarrow> 16 word \<Rightarrow> ('w pstate, unit) state" where
  "setXONChar c os ch = do {
     fd \<leftarrow> GetField spsw_fd;
     r \<leftarrow> syscall os (Tcgetattr fd);
     if r_ret r \<noteq> 0 then throw_ClosedOrNativeException ''setXONChar tcgetattr''
     else do {
       let settings = (r_termios r)\<lparr>c_cc := (c_cc (r_termios r))[VSTART c := ucast ch]\<rparr>;
       r2 \<leftarrow> syscall os (Tcsetattr fd (TCSANOW c) settings);
       if r_ret r2 \<noteq> 0 then throw_ClosedOrNativeException ''setXONChar tcsetattr''
       else State_Monad.return ()
     }
   }"

end
