(* ===== verification/LineSpec.thy ===== *)
theory LineSpec
  imports ParamBits
begin

text \<open>
  The abstract specification both platform builds refine: what a line is set to, what a
  request makes of it, and what reading the parameters back says about it.
\<close>

section \<open>Abstract line configuration\<close>

record line =
  l_dataBits :: DataBits
  l_two :: bool
  l_parity :: Parity
  l_rts :: bool
  l_cts :: bool
  l_xin :: bool
  l_xout :: bool

text \<open>Two stop bits with five data bits are one and a half.\<close>

definition line_stop :: "line \<Rightarrow> StopBits" where
  "line_stop l = (if \<not> l_two l then SB_1 else if l_dataBits l = DB_5 then SB_1_5 else SB_2)"

definition line_flow :: "line \<Rightarrow> FlowControl list" where
  "line_flow l = (if l_rts l then [RTS_CTS_IN] else []) @ (if l_cts l then [RTS_CTS_OUT] else [])
     @ (if l_xin l then [XON_XOFF_IN] else []) @ (if l_xout l then [XON_XOFF_OUT] else [])"

definition apply_dataBits :: "DataBits option \<Rightarrow> line \<Rightarrow> line" where
  "apply_dataBits x l = (case x of None \<Rightarrow> l | Some d \<Rightarrow> l\<lparr>l_dataBits := d\<rparr>)"

definition apply_stopBits :: "StopBits option \<Rightarrow> line \<Rightarrow> line option" where
  "apply_stopBits x l = (case x of None \<Rightarrow> Some l
     | Some SB_1 \<Rightarrow> Some (l\<lparr>l_two := False\<rparr>)
     | Some SB_1_5 \<Rightarrow> if l_dataBits l = DB_5 then Some (l\<lparr>l_two := True\<rparr>) else None
     | Some SB_2 \<Rightarrow> if l_dataBits l = DB_5 then None else Some (l\<lparr>l_two := True\<rparr>))"

definition apply_parity :: "Parity option \<Rightarrow> line \<Rightarrow> line" where
  "apply_parity x l = (case x of None \<Rightarrow> l | Some p \<Rightarrow> l\<lparr>l_parity := p\<rparr>)"

text \<open>
  POSIX has one flag for RTS/CTS (\<open>both\<close>): the two directions cannot be set apart.
\<close>

definition apply_flow :: "bool \<Rightarrow> FlowControl list option \<Rightarrow> line \<Rightarrow> line option" where
  "apply_flow both x l = (case x of None \<Rightarrow> Some l
     | Some F \<Rightarrow> if both \<and> (RTS_CTS_IN \<in> set F) \<noteq> (RTS_CTS_OUT \<in> set F) then None
         else Some (l\<lparr>l_rts := RTS_CTS_IN \<in> set F, l_cts := RTS_CTS_OUT \<in> set F,
                       l_xin := XON_XOFF_IN \<in> set F, l_xout := XON_XOFF_OUT \<in> set F\<rparr>))"

text \<open>The configuration a request leads to; \<open>None\<close> when the line cannot be set that way.\<close>

definition apply_params :: "bool \<Rightarrow> params \<Rightarrow> line \<Rightarrow> line option" where
  "apply_params both p l =
     (case apply_stopBits (p_stopBits p) (apply_dataBits (p_dataBits p) l) of None \<Rightarrow> None
      | Some l' \<Rightarrow> apply_flow both (p_flow p) (apply_parity (p_parity p) l'))"

definition apply_rest :: "bool \<Rightarrow> params \<Rightarrow> line \<Rightarrow> line option" where
  "apply_rest both p l = Option.bind (apply_stopBits (p_stopBits p) l) (\<lambda>l2.
      Option.bind (Some (apply_parity (p_parity p) l2)) (apply_flow both (p_flow p)))"

lemma apply_params_rest:
  "apply_params both p l = Option.bind (Some (apply_dataBits (p_dataBits p) l)) (apply_rest both p)"
  by (simp add: apply_params_def apply_rest_def split: option.splits)

text \<open>The configuration a request leads to is one that shows the request.\<close>

lemma apply_params_shows:
  assumes "apply_params both p l = Some l'"
  shows "p_dataBits p = Some d \<Longrightarrow> l_dataBits l' = d" "p_stopBits p = Some b \<Longrightarrow> line_stop l' = b"
    "p_parity p = Some q \<Longrightarrow> l_parity l' = q" "p_flow p = Some F \<Longrightarrow> set (line_flow l') = set F"
proof -
  have flow: "apply_flow both x l1 = Some l2 \<Longrightarrow> l_dataBits l2 = l_dataBits l1 \<and> l_two l2 = l_two l1
      \<and> l_parity l2 = l_parity l1" for x l1 l2
    by (auto simp: apply_flow_def split: option.splits if_splits)
  obtain l1 where l1: "apply_stopBits (p_stopBits p) (apply_dataBits (p_dataBits p) l) = Some l1"
      "apply_flow both (p_flow p) (apply_parity (p_parity p) l1) = Some l'"
    using assms by (auto simp: apply_params_def split: option.splits)
  note keep = flow [OF l1(2)]
  have stop: "l_dataBits l1 = l_dataBits (apply_dataBits (p_dataBits p) l)"
    using l1(1) by (auto simp: apply_stopBits_def split: option.splits StopBits.splits if_splits)
  show "l_dataBits l' = d" if "p_dataBits p = Some d"
    using keep stop that by (simp add: apply_dataBits_def apply_parity_def split: option.splits)
  show "line_stop l' = b" if "p_stopBits p = Some b"
    using keep stop that l1(1)
    by (cases b) (auto simp: apply_stopBits_def apply_parity_def line_stop_def split: option.splits if_splits)
  show "l_parity l' = q" if "p_parity p = Some q"
    using keep that by (simp add: apply_parity_def)
  show "set (line_flow l') = set F" if "p_flow p = Some F"
  proof -
    have "x \<in> set (line_flow l') \<longleftrightarrow> x \<in> set F" for x
      using that l1(2) by (cases x) (auto simp: apply_flow_def line_flow_def split: if_splits)
    then show ?thesis by auto
  qed
qed

lemma flow_clean:
  assumes "r AND SPSW_FLOW_CONTROL_MASK = 0"
  shows "r AND NOT SPSW_FLOW_CONTROL_NONE = r"
  using assms by (rule mask_restrict) (simp add: bits_simps)

section \<open>Speeds\<close>

text \<open>The speeds of the bit set in the order of the two \<open>switch\<close> statements.\<close>

definition speed_order :: "Speed list" where
  "speed_order = [BPS_0, BPS_50, BPS_75, BPS_110, BPS_134, BPS_150, BPS_200, BPS_300, BPS_600,
     BPS_1200, BPS_1800, BPS_2400, BPS_4800, BPS_9600, BPS_19200, BPS_38400, BPS_57600, BPS_115200,
     BPS_230400, BPS_460800, BPS_500000, BPS_576000, BPS_921600, BPS_1000000, BPS_1152000,
     BPS_1500000, BPS_2000000, BPS_2500000, BPS_3000000, BPS_3500000, BPS_4000000]"

lemma speed_order_distinct: "distinct (map toBitSet_Speed speed_order)"
  by (simp add: speed_order_def bits_simps)

section \<open>Reading parameters back\<close>

text \<open>
  \<open>collect\<close>: the fields \<open>p\<close> asks for, as the settings of a port show them; \<open>None\<close>
  when a field that is asked for cannot be read.
\<close>

definition asked :: "'a option \<Rightarrow> 'b option \<Rightarrow> 'b option option" where
  "asked x y = (case x of None \<Rightarrow> Some None | Some _ \<Rightarrow> map_option Some y)"

definition collect :: "Speed option \<Rightarrow> DataBits option \<Rightarrow> StopBits option \<Rightarrow> Parity option
    \<Rightarrow> FlowControl list \<Rightarrow> params \<Rightarrow> params option" where
  "collect sp db st pa fl p =
     Option.bind (asked (p_speed p) sp) (\<lambda>s. Option.bind (asked (p_dataBits p) db) (\<lambda>d.
     Option.bind (asked (p_stopBits p) st) (\<lambda>b. Option.bind (asked (p_parity p) pa) (\<lambda>q.
     Some \<lparr>p_speed = s, p_dataBits = d, p_stopBits = b, p_parity = q,
           p_flow = map_option (\<lambda>_. fl) (p_flow p)\<rparr>))))"

definition agrees :: "Speed option \<Rightarrow> DataBits option \<Rightarrow> StopBits option \<Rightarrow> Parity option
    \<Rightarrow> FlowControl list \<Rightarrow> params \<Rightarrow> bool" where
  "agrees sp db st pa fl p \<longleftrightarrow>
     (\<forall>v \<in> set_option (p_speed p). sp = Some v) \<and> (\<forall>d \<in> set_option (p_dataBits p). db = Some d) \<and>
     (\<forall>b \<in> set_option (p_stopBits p). st = Some b) \<and> (\<forall>q \<in> set_option (p_parity p). pa = Some q) \<and>
     (\<forall>F \<in> set_option (p_flow p). set fl = set F)"

lemma asked_simps [simp]: "asked None y = Some None" "asked (Some x) y = map_option Some y"
  by (simp_all add: asked_def)

lemma toBitSet_Speed_inject [simp]: "toBitSet_Speed v = toBitSet_Speed v' \<longleftrightarrow> v = v'"
  using decode_speed [of "toBitSet_Speed v"] by (metis option.inject speed_field(1))

lemma collect_agrees:
  "map_option encode_params (collect sp db st pa fl p) = Some (encode_params p) \<longleftrightarrow> agrees sp db st pa fl p"
  by (cases "p_speed p"; cases "p_dataBits p"; cases "p_stopBits p"; cases "p_parity p"; cases "p_flow p";
      cases sp; cases db; cases st; cases pa)
    (simp_all add: collect_def agrees_def encode_inject field_def toBitSet_inject toBitSet_flow_inject)

text \<open>A reader that goes through the fields one after the other computes \<open>collect\<close>.\<close>

lemma collect_fields:
  "Option.bind (if p_speed p = None then Some 0 else map_option toBitSet_Speed sp) (\<lambda>s.
   Option.bind (if p_dataBits p = None then Some 0 else map_option toBitSet_DataBits db) (\<lambda>d.
   Option.bind (if p_stopBits p = None then Some 0 else map_option toBitSet_StopBits st) (\<lambda>b.
   Option.bind (if p_parity p = None then Some 0 else map_option toBitSet_Parity pa) (\<lambda>q.
   Some ((((s OR d) OR b) OR q) OR (if p_flow p = None then 0 else toBitSet_FlowControl fl))))))
   = map_option encode_params (collect sp db st pa fl p)"
  by (cases "p_speed p"; cases "p_dataBits p"; cases "p_stopBits p"; cases "p_parity p"; cases "p_flow p";
      cases sp; cases db; cases st; cases pa)
    (simp_all add: collect_def encode_params_def field_def or.assoc)

text \<open>
  The interface the check at the end of \<open>setParams\<close> relies on: \<open>decode\<close> is what
  \<open>getParams\<close> makes of the settings, and its fields are those of the five readers.
\<close>

locale parameter_reader =
  fixes wf :: bool
    and decode :: "'t \<Rightarrow> jint \<Rightarrow> jint option"
    and speed_of :: "'t \<Rightarrow> Speed option"
    and dataBits_of :: "'t \<Rightarrow> DataBits option"
    and stopBits_of :: "'t \<Rightarrow> StopBits option"
    and parity_of :: "'t \<Rightarrow> Parity option"
    and flow_of :: "'t \<Rightarrow> FlowControl list"
  assumes decode_fields: "wf \<Longrightarrow> decode t (params_to_read (encode_params p)) = map_option encode_params
    (collect (speed_of t) (dataBits_of t) (stopBits_of t) (parity_of t) (flow_of t) p)"
begin

text \<open>What is read back equals what was written exactly when the settings show the request.\<close>

lemma read_back:
  assumes wf
  shows "decode t (params_to_read (encode_params p)) = Some (encode_params p) \<longleftrightarrow>
    agrees (speed_of t) (dataBits_of t) (stopBits_of t) (parity_of t) (flow_of t) p"
  unfolding decode_fields [OF assms] collect_agrees ..

text \<open>The Java decoding of an answer gives each field that was asked for.\<close>

lemma read_back_java:
  assumes wf and "decode t (params_to_read (encode_params p)) = Some x"
  shows "p_speed p \<noteq> None \<Longrightarrow> speedFromBitSet x = speed_of t"
    and "p_dataBits p \<noteq> None \<Longrightarrow> dataBitsFromBitSet x = dataBits_of t"
    and "p_stopBits p \<noteq> None \<Longrightarrow> stopBitsFromBitSet x = stopBits_of t"
    and "p_parity p \<noteq> None \<Longrightarrow> parityFromBitSet x = parity_of t"
    and "p_flow p \<noteq> None \<Longrightarrow> set (flowControlFromBitSet x) = set (flow_of t)"
proof -
  obtain q where x: "x = encode_params q"
    and q: "collect (speed_of t) (dataBits_of t) (stopBits_of t) (parity_of t) (flow_of t) p = Some q"
    using decode_fields [OF assms(1), of t p] assms(2) by (metis map_option_eq_Some)
  note q = q [unfolded collect_def]
  show "speedFromBitSet x = speed_of t" if "p_speed p \<noteq> None"
    using q that unfolding x
    by (auto simp: asked_def bind_eq_Some_conv encode_fields field_def intro!: decode_speed split: option.splits)
  show "dataBitsFromBitSet x = dataBits_of t" if "p_dataBits p \<noteq> None"
    using q that unfolding x
    by (auto simp: asked_def bind_eq_Some_conv encode_fields field_def intro!: decode_dataBits split: option.splits)
  show "stopBitsFromBitSet x = stopBits_of t" if "p_stopBits p \<noteq> None"
    using q that unfolding x
    by (auto simp: asked_def bind_eq_Some_conv encode_fields field_def intro!: decode_stopBits split: option.splits)
  show "parityFromBitSet x = parity_of t" if "p_parity p \<noteq> None"
    using q that unfolding x
    by (auto simp: asked_def bind_eq_Some_conv encode_fields field_def intro!: decode_parity split: option.splits)
  show "set (flowControlFromBitSet x) = set (flow_of t)" if "p_flow p \<noteq> None"
    using q that unfolding x
    by (intro decode_flow) (auto simp: bind_eq_Some_conv encode_fields field_def)
qed

end

end
