(* ===== verification/TermiosLine.thy ===== *)
theory TermiosLine
  imports TermiosSettings LineSpec "HOL-Library.Sublist"
begin

text \<open>
  What the line parameter code of \<open>TermiosSettings.c\<close> means: an abstract line
  configuration, the refinement of it by \<open>set_line\<close> (what is set on the settings) and
  by \<open>getParams\<close> (what is read from them), and the two speed tables as inverses.
\<close>

section \<open>Well-formed platform constants\<close>

text \<open>
  What POSIX says of the constants: the flags of one word do not overlap, the character
  sizes are different values under the mask \<open>CSIZE\<close>, speeds are different constants.
\<close>

definition wf_posix :: "posix \<Rightarrow> bool" where
  "wf_posix c \<longleftrightarrow>
     disjoint_flags ([CSIZE c, CSTOPB c, PARENB c, PARODD c, CRTSCTS c]
       @ (case mark_flag c of None \<Rightarrow> [] | Some m \<Rightarrow> [m])) \<and>
     disjoint_flags [IXON c, IXOFF c, INPCK c] \<and>
     list_all (\<lambda>f. f \<noteq> 0) [CSTOPB c, PARENB c, PARODD c, CRTSCTS c, IXON c, IXOFF c, INPCK c] \<and>
     mark_flag c \<noteq> Some 0 \<and> is_bit (CSTOPB c) \<and>
     distinct [CS5 c, CS6 c, CS7 c, CS8 c] \<and>
     list_all (\<lambda>s. s AND CSIZE c = s) [CS5 c, CS6 c, CS7 c, CS8 c] \<and>
     distinct (map fst (speed_t2Speed_cases c))"

lemma wf_linux [simp]: "wf_posix linux_consts"
  by (simp add: wf_posix_def mark_flag_def linux_consts_def speed_t2Speed_cases_def ifdef_def
      is_bit_def upt_rec)

section \<open>Abstract line configuration\<close>

definition ext_parity :: "posix \<Rightarrow> termios \<Rightarrow> bool" where
  "ext_parity c t = (case mark_flag c of None \<Rightarrow> False | Some m \<Rightarrow> c_cflag t AND m \<noteq> 0)"

definition abs_line :: "posix \<Rightarrow> termios \<Rightarrow> line" where
  "abs_line c t = \<lparr>
     l_dataBits = (let size = c_cflag t AND CSIZE c in
       if size = CS5 c then DB_5 else if size = CS6 c then DB_6 else if size = CS7 c then DB_7 else DB_8),
     l_two = (c_cflag t AND CSTOPB c \<noteq> 0),
     l_parity = (if c_cflag t AND PARENB c = 0 then NONE
       else if c_cflag t AND PARODD c = 0 then (if ext_parity c t then SPACE else EVEN)
       else (if ext_parity c t then MARK else ODD)),
     l_rts = (c_cflag t AND CRTSCTS c \<noteq> 0),
     l_cts = (c_cflag t AND CRTSCTS c \<noteq> 0),
     l_xin = (c_iflag t AND IXOFF c \<noteq> 0),
     l_xout = (c_iflag t AND IXON c \<noteq> 0)\<rparr>"

text \<open>Mark and space parity need a flag that not every platform has.\<close>

definition parity_supported :: "posix \<Rightarrow> params \<Rightarrow> bool" where
  "parity_supported c p \<longleftrightarrow> (p_parity p \<in> {Some MARK, Some SPACE} \<longrightarrow> mark_flag c \<noteq> None)"

section \<open>Frame\<close>

definition line_mask :: "posix \<Rightarrow> 32 word" where
  "line_mask c = CSIZE c OR CSTOPB c OR PARENB c OR PARODD c OR CRTSCTS c
     OR (case mark_flag c of None \<Rightarrow> 0 | Some m \<Rightarrow> m)"

definition input_mask :: "posix \<Rightarrow> 32 word" where
  "input_mask c = IXON c OR IXOFF c OR INPCK c"

text \<open>The settings agree in everything but the flags of the line parameters.\<close>

definition same_frame :: "posix \<Rightarrow> termios \<Rightarrow> termios \<Rightarrow> bool" where
  "same_frame c t t' \<longleftrightarrow>
     c_cflag t' AND NOT (line_mask c) = c_cflag t AND NOT (line_mask c) \<and>
     c_iflag t' AND NOT (input_mask c) = c_iflag t AND NOT (input_mask c) \<and>
     c_oflag t' = c_oflag t \<and> c_lflag t' = c_lflag t \<and> c_cc t' = c_cc t \<and>
     c_ispeed t' = c_ispeed t \<and> c_ospeed t' = c_ospeed t"

lemma same_frame_refl [simp]: "same_frame c t t"
  by (simp add: same_frame_def)

lemma same_frame_trans: "same_frame c t u \<Longrightarrow> same_frame c u v \<Longrightarrow> same_frame c t v"
  by (simp add: same_frame_def)

lemma sub_mask_iff: "v AND M = v \<longleftrightarrow> (\<forall>n. bit v n \<longrightarrow> bit M n)" for v M :: "32 word"
proof
  show "\<forall>n. bit v n \<longrightarrow> bit M n" if "v AND M = v" using that by (metis bit_and_iff)
  show "v AND M = v" if "\<forall>n. bit v n \<longrightarrow> bit M n"
    using that by (intro bit_word_eqI) (auto simp: bit_and_iff)
qed

lemma frame_set:
  fixes x v m M :: "32 word"
  assumes "v AND M = v"
  shows "(x OR v) AND NOT M = x AND NOT M"
  using assms [THEN sub_mask_iff [THEN iffD1]]
  by (intro bit_word_eqI) (simp only: bit_and_iff bit_or_iff bit_not_iff, blast)

lemma frame_clear:
  fixes x v m M :: "32 word"
  assumes "m AND M = m"
  shows "(x AND NOT m) AND NOT M = x AND NOT M"
  using assms [THEN sub_mask_iff [THEN iffD1]]
  by (intro bit_word_eqI) (simp only: bit_and_iff bit_or_iff bit_not_iff, blast)

lemma flag_outside: "v AND M = v \<Longrightarrow> v AND NOT M = 0" for v M :: "32 word"
  using frame_set [of v M 0] by simp

lemma or_in_mask: "a AND m = a \<Longrightarrow> b AND m = b \<Longrightarrow> (a OR b) AND m = a OR b" for a b m :: "32 word"
  by (simp only: bit.conj_disj_distrib2)

lemma in_line_mask:
  "CSIZE c AND line_mask c = CSIZE c" "CSTOPB c AND line_mask c = CSTOPB c"
  "PARENB c AND line_mask c = PARENB c" "PARODD c AND line_mask c = PARODD c"
  "CRTSCTS c AND line_mask c = CRTSCTS c"
  "mark_flag c = Some m \<Longrightarrow> m AND line_mask c = m"
  unfolding line_mask_def by (auto intro!: bit_word_eqI simp: bit_simps)

lemma in_input_mask:
  "IXON c AND input_mask c = IXON c" "IXOFF c AND input_mask c = IXOFF c"
  "INPCK c AND input_mask c = INPCK c"
  unfolding input_mask_def by (auto intro!: bit_word_eqI simp: bit_simps)

lemma wf_sizes:
  assumes "wf_posix c"
  shows "CS5 c AND CSIZE c = CS5 c" "CS6 c AND CSIZE c = CS6 c"
    "CS7 c AND CSIZE c = CS7 c" "CS8 c AND CSIZE c = CS8 c"
  using assms unfolding wf_posix_def by simp_all

lemma sub_mask_trans: "a AND b = a \<Longrightarrow> b AND m = b \<Longrightarrow> a AND m = a" for a b m :: "32 word"
  by (metis and.assoc)

lemmas sizes_in_line_mask = wf_sizes [THEN sub_mask_trans, OF _ in_line_mask(1)]

lemmas frame_simps = same_frame_def frame_set frame_clear or_in_mask in_line_mask in_input_mask

section \<open>Refinement of the abstract configuration\<close>

lemma wf_disjoint:
  assumes "wf_posix c"
  shows "CSIZE c AND CSTOPB c = 0" "CSIZE c AND PARENB c = 0" "CSIZE c AND PARODD c = 0"
    "CSIZE c AND CRTSCTS c = 0" "CSTOPB c AND CSIZE c = 0" "CSTOPB c AND PARENB c = 0"
    "CSTOPB c AND PARODD c = 0" "CSTOPB c AND CRTSCTS c = 0" "PARENB c AND CSIZE c = 0"
    "PARENB c AND CSTOPB c = 0" "PARENB c AND PARODD c = 0" "PARENB c AND CRTSCTS c = 0"
    "PARODD c AND CSIZE c = 0" "PARODD c AND CSTOPB c = 0" "PARODD c AND PARENB c = 0"
    "PARODD c AND CRTSCTS c = 0" "CRTSCTS c AND CSIZE c = 0" "CRTSCTS c AND CSTOPB c = 0"
    "CRTSCTS c AND PARENB c = 0" "CRTSCTS c AND PARODD c = 0"
    "IXON c AND IXOFF c = 0" "IXOFF c AND IXON c = 0" "IXON c AND INPCK c = 0"
    "INPCK c AND IXON c = 0" "IXOFF c AND INPCK c = 0" "INPCK c AND IXOFF c = 0"
  using assms unfolding wf_posix_def by simp_all

lemma wf_mark:
  assumes "wf_posix c" and "mark_flag c = Some m"
  shows "CSIZE c AND m = 0" "m AND CSIZE c = 0" "CSTOPB c AND m = 0" "m AND CSTOPB c = 0"
    "PARENB c AND m = 0" "m AND PARENB c = 0" "PARODD c AND m = 0" "m AND PARODD c = 0"
    "CRTSCTS c AND m = 0" "m AND CRTSCTS c = 0" "m \<noteq> 0"
  using assms unfolding wf_posix_def by simp_all

lemma wf_nonzero:
  assumes "wf_posix c"
  shows "CSTOPB c \<noteq> 0" "PARENB c \<noteq> 0" "PARODD c \<noteq> 0" "CRTSCTS c \<noteq> 0" "IXON c \<noteq> 0" "IXOFF c \<noteq> 0"
    "distinct [CS5 c, CS6 c, CS7 c, CS8 c]" "is_bit (CSTOPB c)"
    "distinct (map fst (speed_t2Speed_cases c))"
  using assms unfolding wf_posix_def by simp_all

lemma wf_sizes_distinct:
  assumes "wf_posix c"
  shows "CS5 c \<noteq> CS6 c" "CS5 c \<noteq> CS7 c" "CS5 c \<noteq> CS8 c" "CS6 c \<noteq> CS7 c" "CS6 c \<noteq> CS8 c"
    "CS7 c \<noteq> CS8 c" "CS6 c \<noteq> CS5 c" "CS7 c \<noteq> CS5 c" "CS8 c \<noteq> CS5 c" "CS7 c \<noteq> CS6 c"
    "CS8 c \<noteq> CS6 c" "CS8 c \<noteq> CS7 c"
  using wf_nonzero(7) [OF assms] by auto

lemma wf_sizes_disjoint:
  assumes "wf_posix c" and "CSIZE c AND f = 0"
  shows "CS5 c AND f = 0" "CS6 c AND f = 0" "CS7 c AND f = 0" "CS8 c AND f = 0"
  using wf_sizes [OF assms(1), THEN flag_sub_disjoint, OF assms(2)] by simp_all

lemmas flag_simps = bit.conj_disj_distrib2 flag_clear_other flag_clear_same frame_clear flag_outside

lemma set_dataBits_None:
  "p AND SPSW_DATA_BITS_MASK = 0 \<Longrightarrow> set_dataBits c p t = Inr t"
  by (simp add: set_dataBits_def)

lemma set_dataBits_Some:
  assumes wf: "wf_posix c" and p: "p AND SPSW_DATA_BITS_MASK = toBitSet_DataBits d"
  shows "\<exists>t'. set_dataBits c p t = Inr t' \<and> abs_line c t' = (abs_line c t)\<lparr>l_dataBits := d\<rparr>
    \<and> get_dataBits c t' = Some (toBitSet_DataBits d) \<and> same_frame c t t'"
proof -
  define cs where "cs = (case d of DB_5 \<Rightarrow> CS5 c | DB_6 \<Rightarrow> CS6 c | DB_7 \<Rightarrow> CS7 c | DB_8 \<Rightarrow> CS8 c)"
  define t' where "t' = t\<lparr>c_cflag := (c_cflag t AND NOT (CSIZE c)) OR cs\<rparr>"
  have cs: "cs AND CSIZE c = cs"
    using wf_sizes [OF wf] by (cases d) (simp_all add: cs_def)
  have dis: "cs AND f = 0" if "CSIZE c AND f = 0" for f
    using flag_sub_disjoint [OF cs that] .
  have "set_dataBits c p t = Inr t'"
    using p by (cases d) (simp_all add: set_dataBits_def t'_def cs_def bits_simps Let_def)
  moreover have keep: "c_cflag t' AND f = c_cflag t AND f" if "CSIZE c AND f = 0" for f
    using that by (simp add: t'_def flag_simps dis)
  have size: "c_cflag t' AND CSIZE c = cs"
    by (simp add: t'_def flag_simps cs)
  have "ext_parity c t' = ext_parity c t"
    using wf_mark [OF wf] by (simp add: ext_parity_def keep split: option.splits)
  then have "abs_line c t' = (abs_line c t)\<lparr>l_dataBits := d\<rparr>"
    using wf_sizes_distinct [OF wf]
    by (cases d) (simp_all add: abs_line_def size keep wf_disjoint [OF wf], simp_all add: cs_def t'_def)
  moreover have "get_dataBits c t' = Some (toBitSet_DataBits d)"
    using wf_sizes_distinct [OF wf] by (cases d) (simp_all add: get_dataBits_def size, simp_all add: cs_def)
  moreover have "same_frame c t t'"
    by (simp add: same_frame_def t'_def flag_simps in_line_mask
        sub_mask_trans [OF cs in_line_mask(1)])
  ultimately show ?thesis by blast
qed

lemma size_DB_5: "l_dataBits (abs_line c t) = DB_5 \<longleftrightarrow> c_cflag t AND CSIZE c = CS5 c"
  by (simp add: abs_line_def Let_def)

text \<open>
  \<open>stage f apply c t\<close>: one part of \<open>set_line\<close> does on the settings what its abstract
  counterpart does on the configuration, and refuses what that refuses.
\<close>

definition stage :: "posix \<Rightarrow> termios \<Rightarrow> string + termios \<Rightarrow> line option \<Rightarrow> bool" where
  "stage c t res l \<longleftrightarrow>
     (case l of None \<Rightarrow> isl res
      | Some l' \<Rightarrow> (\<exists>t'. res = Inr t' \<and> abs_line c t' = l'
          \<and> (get_dataBits c t \<noteq> None \<longrightarrow> get_dataBits c t' \<noteq> None) \<and> same_frame c t t'))"

lemma stage_refl: "stage c t (Inr t) (Some (abs_line c t))"
  by (simp add: stage_def)

lemma stage_bind:
  assumes "stage c t res l"
    and "\<And>t' l'. l = Some l' \<Longrightarrow> abs_line c t' = l' \<Longrightarrow> stage c t' (f t') (g l')"
  shows "stage c t (case res of Inl e \<Rightarrow> Inl e | Inr t' \<Rightarrow> f t') (Option.bind l g)"
proof (cases l)
  case None
  with assms(1) show ?thesis by (cases res) (simp_all add: stage_def)
next
  case (Some l')
  with assms(1) obtain t' where t': "res = Inr t'" "abs_line c t' = l'"
    "get_dataBits c t \<noteq> None \<longrightarrow> get_dataBits c t' \<noteq> None" "same_frame c t t'"
    by (auto simp: stage_def)
  with assms(2) [OF Some, of t'] Some show ?thesis
    by (auto simp: stage_def split: option.splits intro: same_frame_trans)
qed

lemma stage_cflag:
  assumes wf: "wf_posix c"
    and t': "t' = t\<lparr>c_cflag := f\<rparr>"
    and keep: "f AND CSIZE c = c_cflag t AND CSIZE c"
    and rest: "f AND NOT (line_mask c) = c_cflag t AND NOT (line_mask c)"
    and l: "abs_line c t' = l"
  shows "stage c t (Inr t') (Some l)"
  using keep rest l by (simp add: stage_def t' get_dataBits_def same_frame_def)

lemma set_dataBits_apply:
  assumes "wf_posix c" and "p AND SPSW_DATA_BITS_MASK = field toBitSet_DataBits x"
  shows "stage c t (set_dataBits c p t) (Some (apply_dataBits x (abs_line c t)))"
proof (cases x)
  case None
  then show ?thesis
    using assms by (simp add: field_def set_dataBits_None apply_dataBits_def stage_refl)
next
  case (Some d)
  then show ?thesis
    using set_dataBits_Some [OF assms(1), of p d t] assms(2)
    by (auto simp: field_def apply_dataBits_def stage_def)
qed

lemma set_stopBits_apply:
  assumes wf: "wf_posix c" and p: "p AND SPSW_STOP_BITS_MASK = field toBitSet_StopBits x"
  shows "stage c t (set_stopBits c p t) (apply_stopBits x (abs_line c t))"
proof (cases x)
  case None
  then show ?thesis using p by (simp add: field_def set_stopBits_def apply_stopBits_def stage_refl)
next
  case (Some b)
  define on where "on = t\<lparr>c_cflag := c_cflag t OR CSTOPB c\<rparr>"
  define off where "off = t\<lparr>c_cflag := c_cflag t AND NOT (CSTOPB c)\<rparr>"
  have ext: "ext_parity c on = ext_parity c t" "ext_parity c off = ext_parity c t"
    using wf_mark [OF wf] by (simp_all add: ext_parity_def on_def off_def flag_simps split: option.splits)
  have stop: "(c_cflag t AND CSTOPB c) OR CSTOPB c \<noteq> 0"
    using wf_nonzero(1) [OF wf] by (metis or_eq_0_iff)
  have "stage c t (Inr off) (Some ((abs_line c t)\<lparr>l_two := False\<rparr>))"
    using ext(2) by (intro stage_cflag [OF wf off_def])
      (simp_all add: flag_simps wf_disjoint [OF wf] in_line_mask abs_line_def off_def)
  moreover have "stage c t (Inr on) (Some ((abs_line c t)\<lparr>l_two := True\<rparr>))"
    using ext(1) stop by (intro stage_cflag [OF wf on_def])
      (simp_all add: flag_simps wf_disjoint [OF wf] in_line_mask abs_line_def on_def)
  ultimately show ?thesis
    using p size_DB_5 [of c t]
    by (cases b) (simp_all add: Some field_def set_stopBits_def apply_stopBits_def bits_simps Let_def
        on_def off_def stage_def)
qed

lemma parity_flags:
  assumes wf: "wf_posix c" and m: "m = (case mark_flag c of Some f \<Rightarrow> f | None \<Rightarrow> 0)"
  shows "m AND CSIZE c = 0" "m AND CSTOPB c = 0" "m AND CRTSCTS c = 0" "m AND PARENB c = 0"
    "m AND PARODD c = 0" "PARENB c AND m = 0" "PARODD c AND m = 0" "m AND line_mask c = m"
  using wf_mark [OF wf] in_line_mask(6) [of c] unfolding m by (simp_all split: option.splits)

lemma clear_three:
  fixes x a b m f :: "32 word"
  shows "(x AND NOT (a OR b OR m)) AND a = 0" "(x AND NOT (a OR b OR m)) AND b = 0"
    "(x AND NOT (a OR b OR m)) AND m = 0"
    "a AND f = 0 \<Longrightarrow> b AND f = 0 \<Longrightarrow> m AND f = 0 \<Longrightarrow> (x AND NOT (a OR b OR m)) AND f = x AND f"
proof -
  show "(x AND NOT (a OR b OR m)) AND f = x AND f" if "a AND f = 0" "b AND f = 0" "m AND f = 0"
    using that by (intro flag_clear_other) (simp add: bit.conj_disj_distrib2)
qed (rule bit_word_eqI, auto simp: bit_simps)+

lemma set_parity_apply:
  assumes wf: "wf_posix c" and p: "p AND SPSW_PARITY_MASK = field toBitSet_Parity x"
    and sup: "x \<in> {Some MARK, Some SPACE} \<Longrightarrow> mark_flag c \<noteq> None"
  shows "stage c t (set_parity c p t) (Some (apply_parity x (abs_line c t)))"
proof (cases x)
  case None
  then show ?thesis using p by (simp add: field_def set_parity_def apply_parity_def stage_refl)
next
  case (Some q)
  define m where "m = (case mark_flag c of Some f \<Rightarrow> f | None \<Rightarrow> 0)"
  define base where "base = c_cflag t AND NOT (PARENB c OR PARODD c OR m)"
  define add where "add = (case q of NONE \<Rightarrow> 0 | ODD \<Rightarrow> PARENB c OR PARODD c | EVEN \<Rightarrow> PARENB c
    | MARK \<Rightarrow> PARENB c OR PARODD c OR m | SPACE \<Rightarrow> PARENB c OR m)"
  define inp where "inp = (if q = NONE then c_iflag t AND NOT (INPCK c) else c_iflag t OR INPCK c)"
  define t' where "t' = t\<lparr>c_cflag := base OR add, c_iflag := inp\<rparr>"
  note mf = parity_flags [OF wf m_def] and dis = wf_disjoint [OF wf] and nz = wf_nonzero [OF wf]
  have res: "set_parity c p t = Inr t'"
    using p by (cases q) (simp_all add: Some field_def set_parity_def bits_simps Let_def t'_def
        base_def add_def inp_def m_def)
  have base: "base AND PARENB c = 0" "base AND PARODD c = 0" "base AND m = 0"
    unfolding base_def by (simp_all only: clear_three)
  have base_keep: "base AND f = c_cflag t AND f"
    if "PARENB c AND f = 0" "PARODD c AND f = 0" "m AND f = 0" for f
    unfolding base_def using that by (rule clear_three(4))
  have keep: "c_cflag t' AND f = c_cflag t AND f"
    if "PARENB c AND f = 0" "PARODD c AND f = 0" "m AND f = 0" for f
    using that base_keep [OF that] by (cases q) (simp_all add: t'_def add_def bit.conj_disj_distrib2)
  have line: "c_cflag t' AND NOT (line_mask c) = c_cflag t AND NOT (line_mask c)"
    by (rule keep) (simp_all add: flag_outside in_line_mask mf)
  have ext: "mark_flag c \<noteq> None \<Longrightarrow> ext_parity c t' \<longleftrightarrow> q \<in> {MARK, SPACE}"
    using base(3) mf wf_mark [OF wf]
    by (cases q) (auto simp: ext_parity_def t'_def add_def bit.conj_disj_distrib2 m_def split: option.splits)
  have "l_parity (abs_line c t') = q"
    using ext sup Some base mf dis nz
    by (cases q) (auto simp: abs_line_def t'_def add_def bit.conj_disj_distrib2 ext_parity_def split: option.splits)
  moreover have ikeep: "c_iflag t' AND f = c_iflag t AND f" if "INPCK c AND f = 0" for f
    using that by (simp add: t'_def inp_def flag_simps)
  ultimately have "abs_line c t' = (abs_line c t)\<lparr>l_parity := q\<rparr>"
    by (simp add: abs_line_def keep dis mf)
  moreover have "get_dataBits c t' = get_dataBits c t"
    by (simp add: get_dataBits_def keep dis mf)
  moreover have "same_frame c t t'"
    using line ikeep [of "NOT (input_mask c)"] flag_outside [OF in_input_mask(3) [of c]]
    by (simp add: same_frame_def) (simp add: t'_def)
  ultimately show ?thesis
    by (simp add: stage_def res Some apply_parity_def)
qed

lemma set_flowControl_apply:
  assumes wf: "wf_posix c" and p: "p AND SPSW_FLOW_CONTROL_MASK = field toBitSet_FlowControl x"
  shows "stage c t (set_flowControl c p t) (apply_flow True x (abs_line c t))"
proof (cases x)
  case None
  then show ?thesis using p by (simp add: field_def set_flowControl_def apply_flow_def stage_refl)
next
  case (Some F)
  let ?mask = "toBitSet_FlowControl F"
  note dis = wf_disjoint [OF wf] and nz = wf_nonzero [OF wf]
  have bit: "?mask AND flow_bit fc = flow_bit fc \<longleftrightarrow> fc \<in> set F" for fc
  proof (cases "F = []")
    case True
    then show ?thesis by (cases fc) (simp_all add: toBitSet_FlowControl_def bits_simps)
  qed (simp add: toBitSet_FlowControl_set flow_bits_member)
  note bits = bit [of RTS_CTS_IN] bit [of RTS_CTS_OUT] bit [of XON_XOFF_IN] bit [of XON_XOFF_OUT]
  have none: "?mask = SPSW_FLOW_CONTROL_NONE \<longleftrightarrow> set F = {}"
    using flow_bits_not_NONE by (simp add: toBitSet_FlowControl_set)
  define rts where "rts = (if RTS_CTS_IN \<in> set F then CRTSCTS c else 0)"
  define xi where "xi = (if XON_XOFF_IN \<in> set F then IXOFF c else 0)"
  define xo where "xo = (if XON_XOFF_OUT \<in> set F then IXON c else 0)"
  define base where "base = c_iflag t AND NOT (IXON c OR IXOFF c)"
  define t' where "t' = t\<lparr>c_cflag := (c_cflag t AND NOT (CRTSCTS c)) OR rts, c_iflag := (base OR xi) OR xo\<rparr>"
  have base: "base AND IXON c = 0" "base AND IXOFF c = 0"
    unfolding base_def by (rule bit_word_eqI; auto simp: bit_simps)+
  have base_keep: "base AND f = c_iflag t AND f" if "IXON c AND f = 0" "IXOFF c AND f = 0" for f
    unfolding base_def using that by (intro flag_clear_other) (simp add: bit.conj_disj_distrib2)
  have rts_zero: "rts AND f = 0" if "CRTSCTS c AND f = 0" for f
    using that by (simp add: rts_def)
  have keep: "c_cflag t' AND f = c_cflag t AND f" if "CRTSCTS c AND f = 0" for f
    using that by (simp add: t'_def flag_simps rts_zero)
  have ext: "ext_parity c t' = ext_parity c t"
    using wf_mark [OF wf] by (simp add: ext_parity_def keep split: option.splits)
  have res: "set_flowControl c p t = Inr t'" if "(RTS_CTS_IN \<in> set F) = (RTS_CTS_OUT \<in> set F)"
    using p that bits none
    by (cases "set F = {}") (auto simp: Some field_def set_flowControl_def Let_def t'_def rts_def xi_def xo_def base_def)
  have err: "isl (set_flowControl c p t)" if "(RTS_CTS_IN \<in> set F) \<noteq> (RTS_CTS_OUT \<in> set F)"
    using p that bits none by (auto simp: Some field_def set_flowControl_def Let_def)
  have cf: "c_cflag t' AND CRTSCTS c = rts"
    by (simp add: t'_def flag_simps rts_def)
  have it: "c_iflag t' AND IXOFF c = xi" "c_iflag t' AND IXON c = xo"
    using base by (simp_all add: t'_def bit.conj_disj_distrib2 xi_def xo_def dis)
  have frame: "c_iflag t' AND NOT (input_mask c) = c_iflag t AND NOT (input_mask c)"
    by (simp add: t'_def bit.conj_disj_distrib2 xi_def xo_def base_keep flag_outside in_input_mask)
  have "abs_line c t' = (abs_line c t)\<lparr>l_rts := RTS_CTS_IN \<in> set F, l_cts := RTS_CTS_IN \<in> set F,
      l_xin := XON_XOFF_IN \<in> set F, l_xout := XON_XOFF_OUT \<in> set F\<rparr>"
    using nz by (simp add: abs_line_def keep dis ext cf it) (simp add: rts_def xi_def xo_def)
  moreover have "same_frame c t t'"
    using frame by (simp add: same_frame_def keep flag_outside in_line_mask) (simp add: t'_def)
  moreover have "get_dataBits c t' = get_dataBits c t"
    by (simp add: get_dataBits_def keep dis)
  ultimately show ?thesis
    using res err by (auto simp: stage_def Some apply_flow_def)
qed

text \<open>All four parts together.\<close>

definition set_rest :: "posix \<Rightarrow> jint \<Rightarrow> termios \<Rightarrow> string + termios" where
  "set_rest c p t1 = (case set_stopBits c p t1 of Inl e \<Rightarrow> Inl e
      | Inr t2 \<Rightarrow> (case set_parity c p t2 of Inl e \<Rightarrow> Inl e
      | Inr t3 \<Rightarrow> set_flowControl c p t3))"

lemma set_rest_apply:
  assumes wf: "wf_posix c" and sup: "parity_supported c p"
  shows "stage c t (set_rest c (encode_params p) t) (apply_rest True p (abs_line c t))"
proof -
  have "p_parity p \<in> {Some MARK, Some SPACE} \<Longrightarrow> mark_flag c \<noteq> None"
    using sup by (simp add: parity_supported_def)
  then show ?thesis
    unfolding set_rest_def apply_rest_def
    by (auto simp only: intro!: stage_bind set_stopBits_apply [OF wf]
        set_parity_apply [OF wf] set_flowControl_apply [OF wf] encode_fields)
qed

lemma set_line_rest:
  "set_line c p t = (case set_dataBits c p t of Inl e \<Rightarrow> Inl e | Inr t1 \<Rightarrow> set_rest c p t1)"
  unfolding set_line_def set_rest_def by (rule refl)

lemma set_line_apply:
  assumes wf: "wf_posix c" and sup: "parity_supported c p"
  shows "stage c t (set_line c (encode_params p) t) (apply_params True p (abs_line c t))"
  unfolding set_line_rest apply_params_rest
  by (auto simp only: intro!: stage_bind set_dataBits_apply [OF wf] set_rest_apply [OF wf sup] encode_fields)

text \<open>A character size that was asked for can be read back.\<close>

lemma set_line_dataBits:
  assumes wf: "wf_posix c" and sup: "parity_supported c p" and d: "p_dataBits p = Some d"
    and set: "set_line c (encode_params p) t = Inr t'"
  shows "get_dataBits c t' \<noteq> None"
proof -
  have "encode_params p AND SPSW_DATA_BITS_MASK = toBitSet_DataBits d"
    by (simp add: encode_fields field_def d)
  from set_dataBits_Some [OF wf this, of t] obtain t1
    where t1: "set_dataBits c (encode_params p) t = Inr t1" "get_dataBits c t1 \<noteq> None" by auto
  then have "set_rest c (encode_params p) t1 = Inr t'" using set by (simp add: set_line_rest)
  then show ?thesis
    using set_rest_apply [OF wf sup, of t1] t1(2) by (auto simp: stage_def split: option.splits)
qed

section \<open>Reading back\<close>

lemma get_dataBits_abs:
  "get_dataBits c t = Some b \<Longrightarrow> b = toBitSet_DataBits (l_dataBits (abs_line c t))"
  by (auto simp: get_dataBits_def abs_line_def Let_def split: if_splits)

lemma get_stopBits_abs:
  assumes "wf_posix c"
  shows "get_stopBits c t = toBitSet_StopBits (line_stop (abs_line c t))"
  using is_bit_and [OF wf_nonzero(8) [OF assms], of "c_cflag t"] wf_nonzero(1) [OF assms]
  by (auto simp: get_stopBits_def line_stop_def size_DB_5) (simp_all add: abs_line_def)

lemma get_parity_abs: "get_parity c t = toBitSet_Parity (l_parity (abs_line c t))"
  by (simp add: get_parity_def abs_line_def ext_parity_def split: option.splits)

lemma get_flowControl_abs:
  assumes "r AND SPSW_FLOW_CONTROL_MASK = 0"
  shows "get_flowControl c t r = r OR toBitSet_FlowControl (line_flow (abs_line c t))"
  using flow_clean [OF assms]
  by (simp add: get_flowControl_def abs_line_def line_flow_def toBitSet_FlowControl_def Let_def
      bit.conj_disj_distrib2 or.assoc) (simp add: bits_simps)

text \<open>
  What \<open>getParams\<close> makes of the settings; \<open>None\<close> when it throws.
\<close>

definition line_speed :: "posix \<Rightarrow> termios_lib \<Rightarrow> termios \<Rightarrow> jint option" where
  "line_speed c lib t =
     (if cfgetispeed lib t = cfgetospeed lib t
      then map_of (speed_t2Speed_cases c) (cfgetispeed lib t) else None)"

definition decode_line :: "posix \<Rightarrow> termios \<Rightarrow> jint \<Rightarrow> jint \<Rightarrow> jint" where
  "decode_line c t m r2 = (
     let r3 = (if m AND SPSW_STOP_BITS_MASK \<noteq> 0 then r2 OR get_stopBits c t else r2);
         r4 = (if m AND SPSW_PARITY_MASK \<noteq> 0 then r3 OR get_parity c t else r3)
     in (if m AND SPSW_FLOW_CONTROL_MASK \<noteq> 0 then get_flowControl c t r4 else r4))"

definition decode :: "posix \<Rightarrow> termios_lib \<Rightarrow> termios \<Rightarrow> jint \<Rightarrow> jint option" where
  "decode c lib t m =
     Option.bind (if m AND SPSW_SPEED_MASK \<noteq> 0 then line_speed c lib t else Some 0) (\<lambda>r1.
     Option.bind (if m AND SPSW_DATA_BITS_MASK \<noteq> 0 then get_dataBits c t else Some 0) (\<lambda>bits.
     Some (decode_line c t m (r1 OR bits))))"

lemma ifdef_map [simp]: "map f (ifdef x g) = ifdef x (\<lambda>b. f (g b))"
  by (simp add: ifdef_def split: option.splits)

lemma set_ifdef [simp]: "set (ifdef x f) = f ` set_option x"
  by (cases x) (simp_all add: ifdef_def)

lemma speed_cases_swap: "speed2speed_t_cases c = map prod.swap (speed_t2Speed_cases c)"
  by (simp add: speed2speed_t_cases_def speed_t2Speed_cases_def)

lemma ifdef_subseq: "subseq ys zs \<Longrightarrow> subseq (ifdef x (\<lambda>b. v) @ ys) (v # zs)"
  by (cases x) (simp_all add: ifdef_def list_emb_Cons)

lemma ifdef_subseq_last: "subseq (ifdef x (\<lambda>b. v)) [v]"
  by (cases x) (simp_all add: ifdef_def)

lemma speed_cases_subseq: "subseq (map snd (speed_t2Speed_cases c)) (map toBitSet_Speed speed_order)"
  unfolding speed_t2Speed_cases_def speed_order_def map_append list.map ifdef_map snd_conv
    append_Cons append_Nil toBitSet_Speed.simps
  by (intro subseq_Cons2 ifdef_subseq ifdef_subseq_last)

lemma distinct_subseq: "subseq xs ys \<Longrightarrow> distinct ys \<Longrightarrow> distinct xs"
  by (induction rule: list_emb.induct) (auto dest: list_emb_set)

lemma speed_cases_distinct: "distinct (map snd (speed_t2Speed_cases c))"
  using distinct_subseq [OF speed_cases_subseq speed_order_distinct] .

lemma speed_cases_range: "(b, v) \<in> set (speed_t2Speed_cases c) \<Longrightarrow> v \<in> range toBitSet_Speed"
  using list_emb_set [OF speed_cases_subseq, of v c] by force

text \<open>The two speed tables are inverse to each other.\<close>

lemma speed_tables_inverse:
  assumes "wf_posix c"
  shows "map_of (speed2speed_t_cases c) v = Some b \<longleftrightarrow> map_of (speed_t2Speed_cases c) b = Some v"
  using speed_cases_distinct [of c] wf_nonzero(9) [OF assms]
  by (auto simp add: map_of_eq_Some_iff speed_cases_swap comp_def)

lemma speed_value:
  assumes "map_of (speed_t2Speed_cases c) b = Some v"
  shows "v \<noteq> - 1 \<and> v AND SPSW_SPEED_MASK = v \<and> v \<noteq> 0 \<and> (\<exists>s. v = toBitSet_Speed s)"
proof -
  obtain s where "v = toBitSet_Speed s" using speed_cases_range [OF map_of_SomeD [OF assms]] by auto
  moreover have "toBitSet_Speed s \<noteq> - 1" by (cases s) (simp_all add: bits_simps)
  ultimately show ?thesis by (auto simp: speed_field)
qed

text \<open>
  The parity check of \<open>getParams\<close> never fails: with every reading of the flags the
  parity field is filled.
\<close>

lemma parity_found: "(r OR get_parity c t) AND SPSW_PARITY_MASK \<noteq> 0"
  by (simp add: get_parity_abs bit.conj_disj_distrib2 parity_field or_eq_0_iff)

lemma get_speed_wp:
  assumes "\<And>x. line_speed c lib t = Some x \<Longrightarrow> Q (Some x) s"
    and "\<And>e. line_speed c lib t = None \<Longrightarrow> Q None (s\<lparr>pending := Some e\<rparr>)"
  shows "wp (get_speed c lib t) Q s"
  using assms speed_value
  by (auto simp: get_speed_def line_speed_def speed_t2Speed_def wp_simps
      throw_IOException_NativeError_def throw_IllegalArgumentException_def FindClass_def
      split: option.splits)

lemma getParams_wp:
  assumes ok: "\<And>r obj w x. os (Tcgetattr (spsw_fd (sps s))) (sps s, world s) = (r, obj, w) \<Longrightarrow>
      r_ret r = 0 \<Longrightarrow> decode c lib (r_termios r) m = Some x \<Longrightarrow>
      Q (Some x) (answered (Tcgetattr (spsw_fd (sps s))) r obj w s)"
    and err: "\<And>r obj w e. os (Tcgetattr (spsw_fd (sps s))) (sps s, world s) = (r, obj, w) \<Longrightarrow>
      r_ret r \<noteq> 0 \<or> decode c lib (r_termios r) m = None \<Longrightarrow>
      Q None (answered (Tcgetattr (spsw_fd (sps s))) r obj w s\<lparr>pending := Some e\<rparr>)"
  shows "wp (getParams c lib os m) Q s"
proof -
  obtain r obj w where call: "os (Tcgetattr (spsw_fd (sps s))) (sps s, world s) = (r, obj, w)"
    by (metis prod_cases3)
  note none = err [OF call] and some = ok [OF call]
  note simps = wp_simps call parity_found Let_def
  show ?thesis
  proof (cases "r_ret r = 0")
    case False
    then show ?thesis
      unfolding getParams_def using none by (simp add: simps) (auto simp: wp_simps intro!: wp_throws)
  next
    case True
    note some' = some [OF True, unfolded decode_def decode_line_def Let_def]
      and none' = none [unfolded decode_def]
    show ?thesis
    proof (cases "m AND SPSW_SPEED_MASK = 0")
      case True
      show ?thesis unfolding getParams_def using some' none' True \<open>r_ret r = 0\<close>
        by (simp add: simps split: option.splits) (auto simp: wp_simps intro!: wp_throws)
    next
      case False
      show ?thesis unfolding getParams_def using some' none' False \<open>r_ret r = 0\<close>
        by (simp add: simps, intro conjI impI)
          (rule get_speed_wp; auto simp: simps intro!: wp_throws split: option.splits)+
    qed
  qed
qed

section \<open>Requests and read-back\<close>

text \<open>The settings show what was asked for.\<close>

definition shows_params :: "posix \<Rightarrow> termios_lib \<Rightarrow> termios \<Rightarrow> params \<Rightarrow> bool" where
  "shows_params c lib t p \<longleftrightarrow>
     (\<forall>v \<in> set_option (p_speed p). line_speed c lib t = Some (toBitSet_Speed v)) \<and>
     (\<forall>d \<in> set_option (p_dataBits p). get_dataBits c t \<noteq> None \<and> l_dataBits (abs_line c t) = d) \<and>
     (\<forall>b \<in> set_option (p_stopBits p). line_stop (abs_line c t) = b) \<and>
     (\<forall>q \<in> set_option (p_parity p). l_parity (abs_line c t) = q) \<and>
     (\<forall>F \<in> set_option (p_flow p). set (line_flow (abs_line c t)) = set F)"

text \<open>
  \<open>getParams\<close> as a reader of parameters: the speed and the character size are the ones
  Java decodes, the other fields those of the abstract line.
\<close>

definition tty_speed :: "posix \<Rightarrow> termios_lib \<Rightarrow> termios \<Rightarrow> Speed option" where
  "tty_speed c lib t = Option.bind (line_speed c lib t) speedFromBitSet"

definition tty_dataBits :: "posix \<Rightarrow> termios \<Rightarrow> DataBits option" where
  "tty_dataBits c t = (if get_dataBits c t = None then None else Some (l_dataBits (abs_line c t)))"

lemma line_speed_tty: "line_speed c lib t = map_option toBitSet_Speed (tty_speed c lib t)"
proof (cases "line_speed c lib t")
  case (Some v)
  then obtain s where "v = toBitSet_Speed s"
    using speed_value by (auto simp: line_speed_def split: if_splits)
  then show ?thesis using Some decode_speed [of v s] by (simp add: tty_speed_def speed_field)
qed (simp add: tty_speed_def)

lemma get_dataBits_tty: "get_dataBits c t = map_option toBitSet_DataBits (tty_dataBits c t)"
  using get_dataBits_abs [of c t] by (cases "get_dataBits c t") (auto simp: tty_dataBits_def)

lemma decode_line_fields:
  assumes wf: "wf_posix c" and r: "(r AND SPSW_FLOW_CONTROL_MASK) = 0"
  shows "decode_line c t (params_to_read (encode_params p)) r =
    ((r OR (if p_stopBits p = None then 0 else toBitSet_StopBits (line_stop (abs_line c t))))
      OR (if p_parity p = None then 0 else toBitSet_Parity (l_parity (abs_line c t))))
    OR (if p_flow p = None then 0 else toBitSet_FlowControl (line_flow (abs_line c t)))"
  unfolding decode_line_def params_to_read_fields encode_fields
  by (simp add: Let_def r get_stopBits_abs [OF wf] get_parity_abs get_flowControl_abs
      bit.conj_disj_distrib2 stopBits_field parity_field)

interpretation termios: parameter_reader "wf_posix c" "decode c lib" "tty_speed c lib" "tty_dataBits c"
    "\<lambda>t. Some (line_stop (abs_line c t))" "\<lambda>t. Some (l_parity (abs_line c t))"
    "\<lambda>t. line_flow (abs_line c t)"
  for c lib
proof (unfold_locales, unfold collect_fields [symmetric])
  fix t p
  assume wf: "wf_posix c"
  have bits: "toBitSet_DataBits d AND SPSW_FLOW_CONTROL_MASK = 0" "toBitSet_Speed s AND SPSW_FLOW_CONTROL_MASK = 0" for d s
    by (simp_all add: dataBits_field speed_field)
  show "decode c lib t (params_to_read (encode_params p)) =
      Option.bind (if p_speed p = None then Some 0 else map_option toBitSet_Speed (tty_speed c lib t)) (\<lambda>s.
      Option.bind (if p_dataBits p = None then Some 0 else map_option toBitSet_DataBits (tty_dataBits c t)) (\<lambda>d.
      Option.bind (if p_stopBits p = None then Some 0 else map_option toBitSet_StopBits (Some (line_stop (abs_line c t)))) (\<lambda>b.
      Option.bind (if p_parity p = None then Some 0 else map_option toBitSet_Parity (Some (l_parity (abs_line c t)))) (\<lambda>q.
      Some ((((s OR d) OR b) OR q) OR (if p_flow p = None then 0 else toBitSet_FlowControl (line_flow (abs_line c t))))))))"
    unfolding decode_def params_to_read_fields encode_fields field_zero line_speed_tty get_dataBits_tty
    by (cases "tty_speed c lib t"; cases "tty_dataBits c t"; cases "p_speed p"; cases "p_dataBits p")
      (simp_all add: decode_line_fields [OF wf] bits bit.conj_disj_distrib2)
qed

lemma shows_params_agrees:
  "shows_params c lib t p \<longleftrightarrow> agrees (tty_speed c lib t) (tty_dataBits c t)
     (Some (line_stop (abs_line c t))) (Some (l_parity (abs_line c t))) (line_flow (abs_line c t)) p"
  unfolding shows_params_def agrees_def line_speed_tty tty_dataBits_def by auto

lemma decode_encode:
  assumes wf: "wf_posix c"
  shows "decode c lib t (params_to_read (encode_params p)) = Some (encode_params p)
    \<longleftrightarrow> shows_params c lib t p"
  unfolding termios.read_back [OF wf] shows_params_agrees ..

end
