(* ===== verification/TermiosParams.thy ===== *)
theory TermiosParams
  imports TermiosLine
begin

text \<open>
  The correctness of the operations of \<open>TermiosSettings.c\<close> on top of the abstract line
  configuration: setting and reading parameters and speeds, modem lines and flow control
  characters.
\<close>

section \<open>Setting the parameters\<close>

text \<open>
  The documented behaviour of the speed functions: a supported speed is stored and read
  back, the rest of the settings stays, and reading a speed does not depend on the line
  flags. (An input speed of zero is special in POSIX: it means the output speed.)
\<close>

definition speed_stored :: "posix \<Rightarrow> termios \<Rightarrow> int \<times> int \<times> termios \<Rightarrow> (termios \<Rightarrow> bool) \<Rightarrow> bool" where
  "speed_stored c t res P \<longleftrightarrow> (case res of (ret, err, t') \<Rightarrow> ret = 0 \<and> P t'
     \<and> c_cflag t' AND line_mask c = c_cflag t AND line_mask c \<and> c_iflag t' = c_iflag t
     \<and> c_oflag t' = c_oflag t \<and> c_lflag t' = c_lflag t \<and> c_cc t' = c_cc t)"

definition speed_lib :: "posix \<Rightarrow> termios_lib \<Rightarrow> bool" where
  "speed_lib c lib \<longleftrightarrow>
     (\<forall>t b. b \<in> fst ` set (speed_t2Speed_cases c) \<longrightarrow>
        speed_stored c t (cfsetspeed lib t b) (\<lambda>t'. cfgetispeed lib t' = b \<and> cfgetospeed lib t' = b) \<and>
        speed_stored c t (cfsetospeed lib t b) (\<lambda>t'. cfgetospeed lib t' = b \<and> cfgetispeed lib t' = cfgetispeed lib t) \<and>
        (b \<noteq> B0 c \<longrightarrow>
        speed_stored c t (cfsetispeed lib t b) (\<lambda>t'. cfgetispeed lib t' = b \<and> cfgetospeed lib t' = cfgetospeed lib t))) \<and>
     (\<forall>t t'. same_frame c t t' \<longrightarrow> cfgetispeed lib t' = cfgetispeed lib t \<and> cfgetospeed lib t' = cfgetospeed lib t)"

lemma speed_lib_plain [simp]: "speed_lib c plain_lib"
  by (simp add: speed_lib_def speed_stored_def plain_lib_def same_frame_def)

lemma speed_libD:
  assumes "speed_lib c lib" and "map_of (speed2speed_t_cases c) v = Some b"
  shows "speed_stored c t (cfsetspeed lib t b) (\<lambda>t'. cfgetispeed lib t' = b \<and> cfgetospeed lib t' = b)"
    "speed_stored c t (cfsetospeed lib t b) (\<lambda>t'. cfgetospeed lib t' = b \<and> cfgetispeed lib t' = cfgetispeed lib t)"
    "b \<noteq> B0 c \<Longrightarrow>
     speed_stored c t (cfsetispeed lib t b) (\<lambda>t'. cfgetispeed lib t' = b \<and> cfgetospeed lib t' = cfgetospeed lib t)"
proof -
  have "b \<in> fst ` set (speed_t2Speed_cases c)"
    using map_of_SomeD [OF assms(2)] by (force simp: speed_cases_swap)
  note facts = assms(1) [unfolded speed_lib_def, THEN conjunct1, rule_format, OF this, of t]
  show "speed_stored c t (cfsetspeed lib t b) (\<lambda>t'. cfgetispeed lib t' = b \<and> cfgetospeed lib t' = b)"
    "speed_stored c t (cfsetospeed lib t b) (\<lambda>t'. cfgetospeed lib t' = b \<and> cfgetispeed lib t' = cfgetispeed lib t)"
    "b \<noteq> B0 c \<Longrightarrow>
     speed_stored c t (cfsetispeed lib t b) (\<lambda>t'. cfgetispeed lib t' = b \<and> cfgetospeed lib t' = cfgetospeed lib t)"
    using facts by blast+
qed

lemma abs_line_cong:
  assumes "c_cflag t' AND line_mask c = c_cflag t AND line_mask c" "c_iflag t' = c_iflag t"
  shows "abs_line c t' = abs_line c t"
proof -
  have keep: "c_cflag t' AND f = c_cflag t AND f" if f: "f AND line_mask c = f" for f
  proof -
    have "x AND f = (x AND line_mask c) AND f" for x
      using f by (simp add: and.assoc and.commute [of "line_mask c"])
    then show ?thesis using assms(1) by metis
  qed
  note keep = keep [OF in_line_mask(1)] keep [OF in_line_mask(2)] keep [OF in_line_mask(3)]
    keep [OF in_line_mask(4)] keep [OF in_line_mask(5)] keep [OF in_line_mask(6)]
  have "ext_parity c t' = ext_parity c t"
    by (cases "mark_flag c") (simp_all add: ext_parity_def keep)
  then show ?thesis by (simp only: abs_line_def keep assms(2))
qed

lemma speed2speed_t_wp:
  assumes "\<And>b. map_of (speed2speed_t_cases c) v = Some b \<Longrightarrow> Q (Some b) s"
    and "\<And>e. map_of (speed2speed_t_cases c) v = None \<Longrightarrow> Q None (s\<lparr>pending := Some e\<rparr>)"
  shows "wp (speed2speed_t c v) Q s"
  using assms by (auto simp: speed2speed_t_def wp_simps intro!: wp_throws split: option.splits)

lemma set_speed_wp:
  assumes "p AND SPSW_SPEED_MASK = 0 \<Longrightarrow> Q (Some t) s"
    and "\<And>b ret err t'. p AND SPSW_SPEED_MASK \<noteq> 0 \<Longrightarrow> map_of (speed2speed_t_cases c) (p AND SPSW_SPEED_MASK) = Some b \<Longrightarrow>
      cfsetspeed lib t b = (ret, err, t') \<Longrightarrow> 0 \<le> ret \<Longrightarrow> Q (Some t') s"
    and "\<And>e. p AND SPSW_SPEED_MASK \<noteq> 0 \<Longrightarrow> map_of (speed2speed_t_cases c) (p AND SPSW_SPEED_MASK) = None \<Longrightarrow> Q None (s\<lparr>pending := Some e\<rparr>)"
    and "\<And>b ret err t' e. p AND SPSW_SPEED_MASK \<noteq> 0 \<Longrightarrow> map_of (speed2speed_t_cases c) (p AND SPSW_SPEED_MASK) = Some b \<Longrightarrow>
      cfsetspeed lib t b = (ret, err, t') \<Longrightarrow> ret < 0 \<Longrightarrow> Q None (s\<lparr>errno := err, pending := Some e\<rparr>)"
  shows "wp (set_speed c lib p t) Q s"
  using assms
  by (auto simp: set_speed_def wp_simps intro!: speed2speed_t_wp wp_throws split: prod.splits)

lemma write_settings_wp:
  assumes ok: "\<And>r obj w. os (Tcsetattr fd (TCSANOW c) t) (sps s, world s) = (r, obj, w) \<Longrightarrow> r_ret r = 0 \<Longrightarrow>
      Q True (answered (Tcsetattr fd (TCSANOW c) t) r obj w s)"
    and err: "\<And>r obj w e. os (Tcsetattr fd (TCSANOW c) t) (sps s, world s) = (r, obj, w) \<Longrightarrow> r_ret r \<noteq> 0 \<Longrightarrow>
      Q False (answered (Tcsetattr fd (TCSANOW c) t) r obj w s\<lparr>pending := Some e\<rparr>)"
  shows "wp (write_settings c os name fd t) Q s"
proof -
  obtain r obj w where call: "os (Tcsetattr fd (TCSANOW c) t) (sps s, world s) = (r, obj, w)"
    by (metis prod_cases3)
  show ?thesis
    unfolding write_settings_def wp_bind wp_syscall call
    using ok [OF call] err [OF call] by (auto simp: wp_simps intro!: wp_throws)
qed

text \<open>
  The body of \<open>setParams\<close> behind the speed and the part that works on the settings.
\<close>

definition store_and_check ::
  "posix \<Rightarrow> termios_lib \<Rightarrow> 'w os \<Rightarrow> termios \<Rightarrow> jint \<Rightarrow> ('w pstate, int) state" where
  "store_and_check c lib os t4 paramBitSet = do {
     fd \<leftarrow> GetField spsw_fd;
     written \<leftarrow> write_settings c os ''setParams'' fd t4;
     if \<not> written then State_Monad.return (- 1)
     else do {
       got \<leftarrow> getParams c lib os (params_to_read paramBitSet);
       case got of None \<Rightarrow> State_Monad.return (- 1)
       | Some paramsRead \<Rightarrow>
           if paramsRead \<noteq> paramBitSet then do {
             throw_IllegalArgumentException (mismatch_text paramsRead paramBitSet);
             State_Monad.return (- 1)
           } else State_Monad.return 0
     }
   }"

lemma store_and_check_wp:
  assumes ok: "\<And>r obj w r2 obj2 w2.
      os (Tcsetattr (spsw_fd (sps s)) (TCSANOW c) t) (sps s, world s) = (r, obj, w) \<Longrightarrow> r_ret r = 0 \<Longrightarrow>
      os (Tcgetattr (spsw_fd obj)) (obj, w) = (r2, obj2, w2) \<Longrightarrow> r_ret r2 = 0 \<Longrightarrow>
      decode c lib (r_termios r2) (params_to_read p) = Some p \<Longrightarrow>
      Q 0 (answered (Tcgetattr (spsw_fd obj)) r2 obj2 w2
        (answered (Tcsetattr (spsw_fd (sps s)) (TCSANOW c) t) r obj w s))"
    and set_err: "\<And>r obj w e.
      os (Tcsetattr (spsw_fd (sps s)) (TCSANOW c) t) (sps s, world s) = (r, obj, w) \<Longrightarrow> r_ret r \<noteq> 0 \<Longrightarrow>
      Q (- 1) (answered (Tcsetattr (spsw_fd (sps s)) (TCSANOW c) t) r obj w s\<lparr>pending := Some e\<rparr>)"
    and get_err: "\<And>r obj w r2 obj2 w2 e.
      os (Tcsetattr (spsw_fd (sps s)) (TCSANOW c) t) (sps s, world s) = (r, obj, w) \<Longrightarrow> r_ret r = 0 \<Longrightarrow>
      os (Tcgetattr (spsw_fd obj)) (obj, w) = (r2, obj2, w2) \<Longrightarrow>
      r_ret r2 \<noteq> 0 \<or> decode c lib (r_termios r2) (params_to_read p) \<noteq> Some p \<Longrightarrow>
      Q (- 1) (answered (Tcgetattr (spsw_fd obj)) r2 obj2 w2
        (answered (Tcsetattr (spsw_fd (sps s)) (TCSANOW c) t) r obj w s)\<lparr>pending := Some e\<rparr>)"
  shows "wp (store_and_check c lib os t p) Q s"
  unfolding store_and_check_def wp_bind wp_GetField
  by (rule write_settings_wp; simp add: wp_simps set_err; rule getParams_wp)
    (auto simp: wp_simps intro!: wp_throws intro: ok get_err, (rule get_err; simp)?)

lemma setParams_split:
  "setParams c lib os settings p = do {
     t \<leftarrow> set_speed c lib p settings;
     case t of None \<Rightarrow> State_Monad.return (- 1)
     | Some t0 \<Rightarrow> (case set_line c p t0 of
         Inl msg \<Rightarrow> do {
           throw_IllegalArgumentException msg;
           State_Monad.return (- 1)
         }
       | Inr t4 \<Rightarrow> store_and_check c lib os t4 p)
   }"
  unfolding setParams_def store_and_check_def by (rule refl)

lemma setParams_outcome:
  assumes wf: "wf_posix c"
  shows "wp (setParams c lib os t (encode_params p)) (\<lambda>ret s'.
     (ret = 0 \<and> pending s' = pending s \<and> (\<exists>fd r. last (calls s') = (Tcgetattr fd, r) \<and> r_ret r = 0
        \<and> shows_params c lib (r_termios r) p))
     \<or> (ret = - 1 \<and> is_pending s')) s"
proof -
  let ?Q = "\<lambda>ret s'. (ret = 0 \<and> pending s' = pending s \<and> (\<exists>fd r. last (calls s') = (Tcgetattr fd, r) \<and> r_ret r = 0
        \<and> shows_params c lib (r_termios r) p)) \<or> (ret = - 1 \<and> is_pending s')"
  have check: "wp (store_and_check c lib os t4 (encode_params p)) ?Q s" for t4
    by (rule store_and_check_wp) (auto simp: decode_encode [OF wf])
  have body: "wp (case set_line c (encode_params p) t0 of
         Inl msg \<Rightarrow> do { throw_IllegalArgumentException msg; State_Monad.return (- 1) }
       | Inr t4 \<Rightarrow> store_and_check c lib os t4 (encode_params p)) ?Q s" for t0
    using check by (cases "set_line c (encode_params p) t0")
      (auto simp: wp_bind wp_return intro!: wp_throws)
  show ?thesis
    unfolding setParams_split wp_bind
    by (rule set_speed_wp) (simp_all add: body wp_return)
qed

text \<open>
  A request the settings cannot take is refused before the driver is called.
\<close>

definition speed_supported :: "posix \<Rightarrow> params \<Rightarrow> bool" where
  "speed_supported c p \<longleftrightarrow> (case p_speed p of None \<Rightarrow> True
     | Some v \<Rightarrow> map_of (speed2speed_t_cases c) (toBitSet_Speed v) \<noteq> None)"

text \<open>What a reader still sees when the request does not name it, or could see before.\<close>

definition view_kept :: "posix \<Rightarrow> termios_lib \<Rightarrow> params \<Rightarrow> termios \<Rightarrow> termios \<Rightarrow> bool" where
  "view_kept c lib p t t' \<longleftrightarrow>
     (p_speed p = None \<longrightarrow> cfgetispeed lib t' = cfgetispeed lib t \<and> cfgetospeed lib t' = cfgetospeed lib t) \<and>
     (get_dataBits c t \<noteq> None \<longrightarrow> get_dataBits c t' \<noteq> None)"

lemma get_dataBits_cong:
  assumes "c_cflag t' AND line_mask c = c_cflag t AND line_mask c"
  shows "get_dataBits c t' = get_dataBits c t"
proof -
  have "x AND CSIZE c = (x AND line_mask c) AND CSIZE c" for x
    by (simp add: and.assoc and.commute [of "line_mask c"] in_line_mask)
  then show ?thesis using assms by (simp add: get_dataBits_def) metis
qed

lemma set_speed_stored:
  assumes lib: "speed_lib c lib" and sup: "speed_supported c p"
    and Q: "\<And>t0. abs_line c t0 = abs_line c t \<Longrightarrow> c_iflag t0 = c_iflag t \<Longrightarrow> c_oflag t0 = c_oflag t \<Longrightarrow>
      c_lflag t0 = c_lflag t \<Longrightarrow> c_cc t0 = c_cc t \<Longrightarrow> view_kept c lib p t t0 \<Longrightarrow>
      (\<forall>v \<in> set_option (p_speed p). map_of (speed2speed_t_cases c) (toBitSet_Speed v) = Some (cfgetispeed lib t0)
         \<and> cfgetospeed lib t0 = cfgetispeed lib t0) \<Longrightarrow> Q (Some t0) s"
  shows "wp (set_speed c lib (encode_params p) t) Q s"
proof (rule set_speed_wp)
  fix b ret err t'
  assume nz: "encode_params p AND SPSW_SPEED_MASK \<noteq> 0"
    and b: "map_of (speed2speed_t_cases c) (encode_params p AND SPSW_SPEED_MASK) = Some b"
    and set: "cfsetspeed lib t b = (ret, err, t')"
  have st: "speed_stored c t (ret, err, t') (\<lambda>t'. cfgetispeed lib t' = b \<and> cfgetospeed lib t' = b)"
    using speed_libD(1) [OF lib b, of t] set by simp
  then have "abs_line c t' = abs_line c t"
    by (intro abs_line_cong) (simp_all add: speed_stored_def)
  moreover have "get_dataBits c t' = get_dataBits c t"
    using st by (intro get_dataBits_cong) (simp add: speed_stored_def)
  ultimately show "Q (Some t') s"
    using st b nz by (intro Q) (auto simp: speed_stored_def view_kept_def encode_fields field_def)
  show "Q None (s\<lparr>errno := err, pending := Some e\<rparr>)" if "ret < 0" for e
    using st that by (simp add: speed_stored_def)
next
  show "Q (Some t) s" if "encode_params p AND SPSW_SPEED_MASK = 0"
    using that by (intro Q) (auto simp: encode_fields view_kept_def)
  show "Q None (s\<lparr>pending := Some e\<rparr>)"
    if "encode_params p AND SPSW_SPEED_MASK \<noteq> 0"
      and "map_of (speed2speed_t_cases c) (encode_params p AND SPSW_SPEED_MASK) = None" for e
    using that sup by (auto simp: speed_supported_def encode_fields field_def split: option.splits)
qed

text \<open>What the line parameters do not touch.\<close>

definition rest_kept :: "posix \<Rightarrow> termios \<Rightarrow> termios \<Rightarrow> bool" where
  "rest_kept c t t' \<longleftrightarrow> c_iflag t' AND NOT (input_mask c) = c_iflag t AND NOT (input_mask c) \<and>
     c_oflag t' = c_oflag t \<and> c_lflag t' = c_lflag t \<and> c_cc t' = c_cc t"

lemma set_line_shows:
  assumes wf: "wf_posix c" and lib: "speed_lib c lib" and sup: "parity_supported c p"
    and set: "set_line c (encode_params p) t0 = Inr t4" and l: "apply_params True p (abs_line c t0) = Some l"
    and speed: "\<forall>v \<in> set_option (p_speed p). map_of (speed2speed_t_cases c) (toBitSet_Speed v) = Some (cfgetispeed lib t0)
         \<and> cfgetospeed lib t0 = cfgetispeed lib t0"
  shows "abs_line c t4 = l \<and> same_frame c t0 t4 \<and> shows_params c lib t4 p \<and> view_kept c lib p t0 t4"
proof -
  have st: "abs_line c t4 = l" "same_frame c t0 t4" "get_dataBits c t0 \<noteq> None \<longrightarrow> get_dataBits c t4 \<noteq> None"
    using set_line_apply [OF wf sup, of t0] set l by (simp_all add: stage_def)
  have kept: "cfgetispeed lib t4 = cfgetispeed lib t0" "cfgetospeed lib t4 = cfgetospeed lib t0"
    using lib [unfolded speed_lib_def, THEN conjunct2, rule_format, OF st(2)] by simp_all
  then have "line_speed c lib t4 = Some (toBitSet_Speed v)" if "p_speed p = Some v" for v
    using speed that speed_tables_inverse [OF wf] by (simp add: line_speed_def)
  then show ?thesis
    using st set_line_dataBits [OF wf sup _ set] apply_params_shows [OF l]
    unfolding shows_params_def view_kept_def by (simp add: kept)
qed

lemma setParams_refines:
  assumes wf: "wf_posix c" and lib: "speed_lib c lib" and tty: "faithful_tty os (spsw_fd (sps s)) attr"
    and sup: "parity_supported c p" "speed_supported c p"
  shows "wp (setParams c lib os t (encode_params p)) (\<lambda>ret s'.
    case apply_params True p (abs_line c t) of
      None \<Rightarrow> ret = - 1 \<and> is_pending s' \<and> calls s' = calls s \<and> world s' = world s \<and> sps s' = sps s
    | Some l \<Rightarrow> ret = 0 \<and> pending s' = pending s \<and> sps s' = sps s \<and> abs_line c (attr (world s')) = l
        \<and> shows_params c lib (attr (world s')) p \<and> rest_kept c t (attr (world s')) \<and> view_kept c lib p t (attr (world s'))) s"
  unfolding setParams_split wp_bind
proof (rule set_speed_stored [OF lib sup(2)])
  fix t0
  assume t0: "abs_line c t0 = abs_line c t" "c_iflag t0 = c_iflag t" "c_oflag t0 = c_oflag t"
      "c_lflag t0 = c_lflag t" "c_cc t0 = c_cc t" "view_kept c lib p t t0"
    and speed: "\<forall>v \<in> set_option (p_speed p). map_of (speed2speed_t_cases c) (toBitSet_Speed v) = Some (cfgetispeed lib t0)
         \<and> cfgetospeed lib t0 = cfgetispeed lib t0"
  note stage = set_line_apply [OF wf sup(1), of t0, unfolded t0(1)]
  let ?Q = "\<lambda>ret s'. case apply_params True p (abs_line c t) of
      None \<Rightarrow> ret = - 1 \<and> is_pending s' \<and> calls s' = calls s \<and> world s' = world s \<and> sps s' = sps s
    | Some l \<Rightarrow> ret = 0 \<and> pending s' = pending s \<and> sps s' = sps s \<and> abs_line c (attr (world s')) = l
        \<and> shows_params c lib (attr (world s')) p \<and> rest_kept c t (attr (world s')) \<and> view_kept c lib p t (attr (world s'))"
  have "wp (case set_line c (encode_params p) t0 of
         Inl msg \<Rightarrow> do { throw_IllegalArgumentException msg; State_Monad.return (- 1) }
       | Inr t4 \<Rightarrow> store_and_check c lib os t4 (encode_params p)) ?Q s"
  proof (cases "apply_params True p (abs_line c t)")
    case None
    with stage obtain msg where "set_line c (encode_params p) t0 = Inl msg"
      by (auto simp: stage_def isl_def)
    then show ?thesis using None by (auto simp: wp_bind wp_return intro!: wp_throws)
  next
    case (Some l)
    with stage obtain t4 where t4: "set_line c (encode_params p) t0 = Inr t4" by (auto simp: stage_def)
    note good = set_line_shows [OF wf lib sup(1) t4 _ speed, unfolded t0(1), OF Some]
    have kept: "rest_kept c t t4" "view_kept c lib p t t4"
      using good t0 by (auto simp: rest_kept_def same_frame_def view_kept_def)
    have "wp (store_and_check c lib os t4 (encode_params p)) ?Q s"
    proof (rule store_and_check_wp)
    qed (use good kept Some decode_encode [OF wf] in \<open>auto dest!: faithful_set [OF tty] dest: faithful_get [OF tty]\<close>)
    then show ?thesis by (simp add: t4)
  qed
  then show "wp (case Some t0 of None \<Rightarrow> State_Monad.return (- 1) | Some t0 \<Rightarrow>
      (case set_line c (encode_params p) t0 of
         Inl msg \<Rightarrow> do { throw_IllegalArgumentException msg; State_Monad.return (- 1) }
       | Inr t4 \<Rightarrow> store_and_check c lib os t4 (encode_params p))) ?Q s" by simp
qed

section \<open>Separate input and output speed\<close>

lemma speed_t2Speed_wp:
  assumes "\<And>v. map_of (speed_t2Speed_cases c) b = Some v \<Longrightarrow> Q v s"
    and "\<And>e. map_of (speed_t2Speed_cases c) b = None \<Longrightarrow> Q (- 1) (s\<lparr>pending := Some e\<rparr>)"
  shows "wp (speed_t2Speed c b) Q s"
  using assms by (auto simp: speed_t2Speed_def wp_simps intro!: wp_throws split: option.splits)

lemma setInSpeed0_stored:
  assumes wf: "wf_posix c" and lib: "speed_lib c lib" and tty: "faithful_tty os (spsw_fd (sps s)) attr"
    and b: "map_of (speed2speed_t_cases c) (toBitSet_Speed v) = Some b" and "b \<noteq> B0 c"
  shows "wp (setInSpeed0 c lib os (toBitSet_Speed v)) (\<lambda>_ s'. pending s' = pending s \<and>
    cfgetispeed lib (attr (world s')) = b \<and>
    cfgetospeed lib (attr (world s')) = cfgetospeed lib (attr (world s))) s"
proof -
  obtain r obj w where get: "os (Tcgetattr (spsw_fd (sps s))) (sps s, world s) = (r, obj, w)"
    by (metis prod_cases3)
  note g = faithful_get [OF tty get]
  obtain ret err t' where set: "cfsetispeed lib (attr (world s)) b = (ret, err, t')"
    by (metis prod_cases3)
  have st: "ret = 0" "cfgetispeed lib t' = b" "cfgetospeed lib t' = cfgetospeed lib (attr (world s))"
    using speed_libD(3) [OF lib b \<open>b \<noteq> B0 c\<close>, of "attr (world s)"] set by (simp_all add: speed_stored_def)
  have inv: "map_of (speed_t2Speed_cases c) b = Some (toBitSet_Speed v)"
    using b speed_tables_inverse [OF wf] by simp
  show ?thesis
    unfolding setInSpeed0_def using g st inv
    by (simp add: wp_simps get set b speed2speed_t_def speed_field)
      (auto intro!: write_settings_wp dest!: faithful_set [OF tty] faithful_get [OF tty]
        simp: wp_simps speed_t2Speed_def split: prod.splits)
qed

text \<open>
  The output speed is stored as well, but the check behind it reads the input speed: the
  method throws whenever the two differ.
\<close>

lemma setOutSpeed0_stored:
  assumes wf: "wf_posix c" and lib: "speed_lib c lib" and tty: "faithful_tty os (spsw_fd (sps s)) attr"
    and b: "map_of (speed2speed_t_cases c) (toBitSet_Speed v) = Some b"
  shows "wp (setOutSpeed0 c lib os (toBitSet_Speed v)) (\<lambda>_ s'.
    cfgetospeed lib (attr (world s')) = b \<and>
    cfgetispeed lib (attr (world s')) = cfgetispeed lib (attr (world s)) \<and>
    (if cfgetispeed lib (attr (world s)) = b then pending s' = pending s else is_pending s')) s"
proof -
  obtain r obj w where get: "os (Tcgetattr (spsw_fd (sps s))) (sps s, world s) = (r, obj, w)"
    by (metis prod_cases3)
  note g = faithful_get [OF tty get]
  obtain ret err t' where set: "cfsetospeed lib (attr (world s)) b = (ret, err, t')"
    by (metis prod_cases3)
  have st: "ret = 0" "cfgetospeed lib t' = b" "cfgetispeed lib t' = cfgetispeed lib (attr (world s))"
    using speed_libD(2) [OF lib b, of "attr (world s)"] set by (simp_all add: speed_stored_def)
  have chk: "wp (State_Monad.bind (speed_t2Speed c i) (\<lambda>got. if toBitSet_Speed v \<noteq> got
        then throw_IllegalArgumentException ''Could not set outSpeed!'' else State_Monad.return ())) Q s'"
    if "if i = b then Q () s' else \<forall>e. Q () (s'\<lparr>pending := Some e\<rparr>)" for i Q and s' :: "'a pstate"
  proof (cases "i = b")
    case True
    then have "map_of (speed_t2Speed_cases c) i = Some (toBitSet_Speed v)"
      using b speed_tables_inverse [OF wf] by simp
    then show ?thesis using that True by (simp add: speed_t2Speed_def wp_simps)
  next
    case False
    then have no: "map_of (speed_t2Speed_cases c) i \<noteq> Some (toBitSet_Speed v)"
      using b speed_tables_inverse [OF wf, of "toBitSet_Speed v" i] by auto
    have "toBitSet_Speed v \<noteq> - 1"
      using speed_value speed_tables_inverse [OF wf] b by blast
    then show ?thesis using that False no unfolding wp_bind
      by (intro speed_t2Speed_wp) (auto simp: wp_simps intro!: wp_throws)
  qed
  show ?thesis
    unfolding setOutSpeed0_def wp_bind wp_GetField wp_syscall get
    using g st
    by (simp add: wp_if wp_case_option wp_bind set b speed2speed_t_def speed_field wp_return)
      (rule write_settings_wp; simp add: wp_simps; auto dest!: faithful_set [OF tty] faithful_get [OF tty]
        split: prod.splits intro!: chk [unfolded wp_bind])
qed

section \<open>Modem lines and control characters\<close>

text \<open>
  A device whose modem register keeps what it is given; \<open>lines\<close> observes the register.
\<close>

definition faithful_modem :: "'w os \<Rightarrow> int \<Rightarrow> ('w \<Rightarrow> 32 word) \<Rightarrow> bool" where
  "faithful_modem os fd lines \<longleftrightarrow>
     (\<forall>obj w. case os (Ioctl fd TIOCMGET) (obj, w) of (r, obj', w') \<Rightarrow>
        r_ret r = 0 \<and> r_int r = lines w \<and> obj' = obj \<and> lines w' = lines w) \<and>
     (\<forall>v obj w. case os (Ioctl fd (TIOCMSET v)) (obj, w) of (r, obj', w') \<Rightarrow>
        r_ret r = 0 \<and> obj' = obj \<and> lines w' = v)"

lemma modem_get:
  "faithful_modem os fd lines \<Longrightarrow> os (Ioctl fd TIOCMGET) (obj, w) = (r, obj', w') \<Longrightarrow>
     r_ret r = 0 \<and> r_int r = lines w \<and> obj' = obj \<and> lines w' = lines w"
  unfolding faithful_modem_def by (drule conjunct1, drule spec [of _ obj], drule spec [of _ w]) simp

lemma modem_set:
  "faithful_modem os fd lines \<Longrightarrow> os (Ioctl fd (TIOCMSET v)) (obj, w) = (r, obj', w') \<Longrightarrow>
     r_ret r = 0 \<and> obj' = obj \<and> lines w' = v"
  unfolding faithful_modem_def
  by (drule conjunct2, drule spec [of _ v], drule spec [of _ obj], drule spec [of _ w]) simp

lemma setLineStatus_stored:
  assumes modem: "faithful_modem os (spsw_fd (sps s)) lines"
  shows "wp (setLineStatus os on m) (\<lambda>_ s'. pending s' = pending s \<and> sps s' = sps s \<and>
    lines (world s') = (if on then lines (world s) OR m else lines (world s) AND NOT m)) s"
  unfolding setLineStatus_def wp_bind wp_GetField
  by (rule syscall_wp, drule modem_get [OF modem])
    (auto simp: wp_simps Let_def split: prod.splits dest: modem_set [OF modem])

lemma getLineStatus_read:
  assumes modem: "faithful_modem os (spsw_fd (sps s)) lines"
  shows "wp (getLineStatus os m) (\<lambda>b s'. pending s' = pending s \<and> sps s' = sps s \<and>
    lines (world s') = lines (world s) \<and> b = (lines (world s) AND m = m)) s"
  unfolding getLineStatus_def wp_bind wp_GetField
  by (rule syscall_wp, drule modem_get [OF modem]) (auto simp: wp_simps)

definition setParameters_then_get ::
  "posix \<Rightarrow> termios_lib \<Rightarrow> 'w os \<Rightarrow> jint \<Rightarrow> jint \<Rightarrow> ('w pstate, jint) state" where
  "setParameters_then_get c lib os p m = do {
     setParameters c lib os p;
     getParameters c lib os m
   }"

lemma setParameters_back:
  assumes wf: "wf_posix c" and lib: "speed_lib c lib" and tty: "faithful_tty os (spsw_fd (sps s)) attr"
    and sup: "parity_supported c p" "speed_supported c p"
    and l: "apply_params True p (abs_line c (attr (world s))) = Some l"
  shows "wp (setParameters_then_get c lib os (encode_params p) (params_to_read (encode_params p)))
    (\<lambda>x s'. x = encode_params p \<and> pending s' = pending s \<and> abs_line c (attr (world s')) = l) s"
proof -
  obtain r obj w where get: "os (Tcgetattr (spsw_fd (sps s))) (sps s, world s) = (r, obj, w)"
    by (metis prod_cases3)
  note g = faithful_get [OF tty get]
  let ?s1 = "answered (Tcgetattr (spsw_fd (sps s))) r obj w s"
  have tty1: "faithful_tty os (spsw_fd (sps ?s1)) attr" using tty g by simp
  have set: "wp (setParams c lib os (r_termios r) (encode_params p)) (\<lambda>ret s'.
      pending s' = pending s \<and> sps s' = sps s \<and> abs_line c (attr (world s')) = l
        \<and> shows_params c lib (attr (world s')) p) ?s1"
    by (rule wp_mono [OF setParams_refines [OF wf lib tty1 sup, of "r_termios r"]]) (use g l in simp)
  show ?thesis
    unfolding setParameters_then_get_def setParameters_def wp_bind wp_GetField wp_syscall get
    unfolding prod.case g [THEN conjunct1] not_sym simp_thms if_False wp_bind
  proof (rule wp_mono [OF set], unfold wp_return getParameters_def wp_bind, rule getParams_wp)
  qed (auto simp: wp_return dest!: faithful_get [OF tty] decode_encode [OF wf, of lib, THEN iffD2])
qed

lemma setXONChar_stored:
  assumes tty: "faithful_tty os (spsw_fd (sps s)) attr"
  shows "wp (setXONChar c os ch) (\<lambda>_ s'. pending s' = pending s \<and> sps s' = sps s \<and>
    attr (world s') = (attr (world s))\<lparr>c_cc := (c_cc (attr (world s)))[VSTART c := ucast ch]\<rparr>) s"
  unfolding setXONChar_def wp_bind wp_GetField
  by (rule syscall_wp, drule faithful_get [OF tty])
    (auto simp: wp_simps Let_def split: prod.splits dest: faithful_set [OF tty])

lemma setXOFFChar_stored:
  assumes tty: "faithful_tty os (spsw_fd (sps s)) attr"
  shows "wp (setXOFFChar c os ch) (\<lambda>_ s'. pending s' = pending s \<and> sps s' = sps s \<and>
    attr (world s') = (attr (world s))\<lparr>c_cc := (c_cc (attr (world s)))[VSTOP c := ucast ch]\<rparr>) s"
  unfolding setXOFFChar_def wp_bind wp_GetField
  by (rule syscall_wp, drule faithful_get [OF tty])
    (auto simp: wp_simps Let_def split: prod.splits dest: faithful_set [OF tty])

lemma getXONChar_read:
  assumes tty: "faithful_tty os (spsw_fd (sps s)) attr"
  shows "wp (getXONChar c os) (\<lambda>ch s'. pending s' = pending s \<and> sps s' = sps s \<and>
    attr (world s') = attr (world s) \<and> ch = ucast (c_cc (attr (world s)) ! VSTART c)) s"
  unfolding getXONChar_def wp_bind wp_GetField
  by (rule syscall_wp, drule faithful_get [OF tty]) (auto simp: wp_simps)

lemma getXOFFChar_read:
  assumes tty: "faithful_tty os (spsw_fd (sps s)) attr"
  shows "wp (getXOFFChar c os) (\<lambda>ch s'. pending s' = pending s \<and> sps s' = sps s \<and>
    attr (world s') = attr (world s) \<and> ch = ucast (c_cc (attr (world s)) ! VSTOP c)) s"
  unfolding getXOFFChar_def wp_bind wp_GetField
  by (rule syscall_wp, drule faithful_get [OF tty]) (auto simp: wp_simps)

lemma line_changed:
  fixes x d m :: "32 word" and on :: bool
  defines "y \<equiv> (if on then x OR d else x AND NOT d)"
  shows "d \<noteq> 0 \<Longrightarrow> y AND d = d \<longleftrightarrow> on" "m AND d = 0 \<Longrightarrow> y AND m = x AND m"
  by (auto simp: y_def bit.conj_disj_distrib2 flag_clear_same flag_clear_other and.commute [of d m])

section \<open>Properties\<close>

text \<open>Three requests for the examples.\<close>

definition request_8N1 :: params where
  "request_8N1 = \<lparr>p_speed = Some BPS_9600, p_dataBits = Some DB_8, p_stopBits = Some SB_1,
     p_parity = Some NONE, p_flow = Some [RTS_CTS_IN, RTS_CTS_OUT]\<rparr>"

definition request_stop :: params where
  "request_stop = \<lparr>p_speed = None, p_dataBits = None, p_stopBits = Some SB_1_5, p_parity = None, p_flow = None\<rparr>"

text \<open>
  C1: whatever the environment does, \<open>setParams\<close> either returns 0 without throwing, and
  then the last call it made read settings back that show every parameter of the request, or
  it returns -1 with an exception pending.
\<close>

theorem setParams_sound:
  assumes "wf_posix c"
  shows "case run_state (setParams c lib os t (encode_params p)) s of (ret, s') \<Rightarrow>
     (ret = 0 \<and> pending s' = pending s \<and> (\<exists>fd r. last (calls s') = (Tcgetattr fd, r) \<and> r_ret r = 0
        \<and> shows_params c lib (r_termios r) p))
     \<or> (ret = - 1 \<and> is_pending s')"
  using setParams_outcome [OF assms, of lib os t p s] by (simp add: wp_def)

theorem setParams_sound_witness:
  "case run_state (setParams linux_consts plain_lib scripted no_termios (encode_params request_8N1))
       (example_state [resp0, resp0]) of (ret, s') \<Rightarrow>
     (ret = 0 \<and> pending s' = None \<and> (\<exists>fd r. last (calls s') = (Tcgetattr fd, r) \<and> r_ret r = 0
        \<and> shows_params linux_consts plain_lib (r_termios r) request_8N1))
     \<or> (ret = - 1 \<and> is_pending s')"
  using setParams_sound [OF wf_linux, where lib = plain_lib and os = scripted and t = no_termios
      and p = request_8N1 and s = "example_state [resp0, resp0]"]
  by simp

text \<open>
  C13: on a terminal that keeps its settings, \<open>setParams\<close> refines the abstract
  configuration: a request the configuration can take is carried out and leaves everything
  but the line parameters alone, and the speed when it does not name one; any other is refused without a single call to the driver.
\<close>

theorem setParams_refinement:
  assumes "wf_posix c" and "speed_lib c lib" and "faithful_tty os (spsw_fd (sps s)) attr"
    and "parity_supported c p" and "speed_supported c p"
  shows "case run_state (setParams c lib os t (encode_params p)) s of (ret, s') \<Rightarrow>
    (case apply_params True p (abs_line c t) of
      None \<Rightarrow> ret = - 1 \<and> is_pending s' \<and> calls s' = calls s \<and> world s' = world s \<and> sps s' = sps s
    | Some l \<Rightarrow> ret = 0 \<and> pending s' = pending s \<and> sps s' = sps s \<and> abs_line c (attr (world s')) = l
        \<and> shows_params c lib (attr (world s')) p \<and> rest_kept c t (attr (world s')) \<and> view_kept c lib p t (attr (world s')))"
  using setParams_refines [OF assms, of t] by (simp add: wp_def)

lemma supported_examples [simp]:
  "speed_supported linux_consts request_8N1" "parity_supported linux_consts request_8N1"
  "apply_params True request_8N1 l = Some (l\<lparr>l_dataBits := DB_8, l_two := False, l_parity := NONE, l_rts := True, l_cts := True,
     l_xin := False, l_xout := False\<rparr>)"
  by (simp_all add: request_8N1_def speed_supported_def parity_supported_def linux_consts_def
      speed2speed_t_cases_def bits_simps apply_params_def apply_stopBits_def apply_dataBits_def
      apply_parity_def apply_flow_def)

theorem setParams_refinement_witness:
  "case run_state (setParams linux_consts plain_lib tty_device no_termios (encode_params request_8N1))
       (example_state no_termios) of (ret, s') \<Rightarrow>
     ret = 0 \<and> pending s' = None \<and> sps s' = open_sps \<and>
     abs_line linux_consts (world s') = (abs_line linux_consts no_termios)\<lparr>l_dataBits := DB_8, l_two := False,
       l_parity := NONE, l_rts := True, l_cts := True, l_xin := False, l_xout := False\<rparr>
     \<and> shows_params linux_consts plain_lib (world s') request_8N1
     \<and> rest_kept linux_consts no_termios (world s')"
  using setParams_refinement [OF wf_linux speed_lib_plain, of tty_device "example_state no_termios" "\<lambda>t. t"
      request_8N1 no_termios]
  by (simp split: prod.splits)

text \<open>
  The parameters \<open>open\<close> sets are the ones the getters of the Java class decode
  afterwards: encode, set, read back and decode is the identity.
\<close>

theorem parameters_roundtrip:
  assumes "wf_posix c" and "speed_lib c lib" and "faithful_tty os (spsw_fd (sps s)) attr"
    and "p = \<lparr>p_speed = Some v, p_dataBits = Some d, p_stopBits = Some b, p_parity = Some q, p_flow = Some F\<rparr>"
    and "parity_supported c p" and "speed_supported c p"
    and "apply_params True p (abs_line c (attr (world s))) = Some l"
  shows "case run_state (setParameters_then_get c lib os (open_bitset v d b q F)
      (params_to_read (open_bitset v d b q F))) s of (x, s') \<Rightarrow>
    pending s' = pending s \<and> speedFromBitSet x = Some v \<and> dataBitsFromBitSet x = Some d
    \<and> stopBitsFromBitSet x = Some b \<and> parityFromBitSet x = Some q \<and> set (flowControlFromBitSet x) = set F"
proof -
  have "open_bitset v d b q F = encode_params p" by (simp add: open_bitset_encode assms(4))
  then show ?thesis
    using setParameters_back [OF assms(1-3,5-7)]
    by (auto simp: wp_def intro!: decode_speed decode_dataBits decode_stopBits decode_parity decode_flow
        open_bitset_fields simp flip: \<open>open_bitset v d b q F = encode_params p\<close>)
qed

theorem parameters_roundtrip_witness:
  "case run_state (setParameters_then_get linux_consts plain_lib tty_device
      (open_bitset BPS_9600 DB_8 SB_1 NONE [RTS_CTS_IN, RTS_CTS_OUT])
      (params_to_read (open_bitset BPS_9600 DB_8 SB_1 NONE [RTS_CTS_IN, RTS_CTS_OUT])))
      (example_state no_termios) of (x, s') \<Rightarrow>
    pending s' = None \<and> speedFromBitSet x = Some BPS_9600 \<and> dataBitsFromBitSet x = Some DB_8
    \<and> stopBitsFromBitSet x = Some SB_1 \<and> parityFromBitSet x = Some NONE
    \<and> set (flowControlFromBitSet x) = {RTS_CTS_IN, RTS_CTS_OUT}"
  using parameters_roundtrip [OF wf_linux speed_lib_plain, of tty_device "example_state no_termios" "\<lambda>t. t"
      request_8N1 BPS_9600 DB_8 SB_1 NONE "[RTS_CTS_IN, RTS_CTS_OUT]"]
  by (simp add: supported_examples) (simp add: request_8N1_def)

text \<open>
  On a terminal that keeps its settings \<open>setInSpeed0\<close> stores the input speed, leaves
  the output speed as it is and throws nothing.
\<close>

theorem setInSpeed0_correct:
  assumes "wf_posix c" and "speed_lib c lib" and "faithful_tty os (spsw_fd (sps s)) attr"
    and "map_of (speed2speed_t_cases c) (toBitSet_Speed v) = Some b" and "b \<noteq> B0 c"
  shows "case run_state (setInSpeed0 c lib os (toBitSet_Speed v)) s of (_, s') \<Rightarrow>
    pending s' = pending s \<and> cfgetispeed lib (attr (world s')) = b \<and>
    cfgetospeed lib (attr (world s')) = cfgetospeed lib (attr (world s))"
  using setInSpeed0_stored [OF assms] by (simp add: wp_def)

lemma linux_9600: "map_of (speed2speed_t_cases linux_consts) SPSW_SPEED_9600_BPS = Some 13" "B0 linux_consts \<noteq> 13"
  by (simp_all add: speed2speed_t_cases_def linux_consts_def bits_simps)

theorem setInSpeed0_correct_witness:
  "case run_state (setInSpeed0 linux_consts plain_lib tty_device (toBitSet_Speed BPS_9600))
      (example_state no_termios) of (_, s') \<Rightarrow>
    pending s' = None \<and> c_ispeed (world s') = 13 \<and> c_ospeed (world s') = 0"
  using setInSpeed0_correct [OF wf_linux speed_lib_plain, of tty_device "example_state no_termios" "\<lambda>t. t" BPS_9600 13]
  by (simp add: linux_9600 plain_lib_def) (simp add: no_termios_def)

text \<open>
  \<open>setOutSpeed0\<close> stores the output speed, but it then compares the input speed of
  the port with what was asked for: it throws exactly when the input speed is another one,
  although the output speed has been set.
\<close>

theorem setOutSpeed0_checks_input:
  assumes "wf_posix c" and "speed_lib c lib" and "faithful_tty os (spsw_fd (sps s)) attr"
    and "map_of (speed2speed_t_cases c) (toBitSet_Speed v) = Some b"
  shows "case run_state (setOutSpeed0 c lib os (toBitSet_Speed v)) s of (_, s') \<Rightarrow>
    cfgetospeed lib (attr (world s')) = b \<and>
    cfgetispeed lib (attr (world s')) = cfgetispeed lib (attr (world s)) \<and>
    (if cfgetispeed lib (attr (world s)) = b then pending s' = pending s else is_pending s')"
  using setOutSpeed0_stored [OF assms] by (simp add: wp_def)

theorem setOutSpeed0_checks_input_witness:
  "case run_state (setOutSpeed0 linux_consts plain_lib tty_device (toBitSet_Speed BPS_9600))
      (example_state no_termios) of (_, s') \<Rightarrow>
    c_ospeed (world s') = 13 \<and> c_ispeed (world s') = 0 \<and> is_pending s'"
  using setOutSpeed0_checks_input [OF wf_linux speed_lib_plain, of tty_device "example_state no_termios" "\<lambda>t. t" BPS_9600 13]
  by (simp add: linux_9600 plain_lib_def) (simp add: no_termios_def)

text \<open>
  On a device that keeps its modem register, \<open>isDTR\<close> gives what \<open>setDTR\<close> has
  set and the other lines stay as they were.
\<close>

theorem setDTR_isDTR:
  assumes "faithful_modem os (spsw_fd (sps s)) lines" and "TIOCM_DTR c \<noteq> 0"
  shows "case run_state (do { setDTR c os on; isDTR c os }) s of (b, s') \<Rightarrow>
    b = on \<and> pending s' = pending s \<and>
    (\<forall>m. m AND TIOCM_DTR c = 0 \<longrightarrow> lines (world s') AND m = lines (world s) AND m)"
proof -
  have "wp (do { setDTR c os on; isDTR c os }) (\<lambda>b s'. b = on \<and> pending s' = pending s \<and>
    (\<forall>m. m AND TIOCM_DTR c = 0 \<longrightarrow> lines (world s') AND m = lines (world s) AND m)) s"
    unfolding setDTR_def isDTR_def wp_bind
    by (rule wp_mono [OF setLineStatus_stored [OF assms(1)]], rule wp_mono [OF getLineStatus_read])
      (use assms in \<open>auto simp: line_changed simp del: if_split\<close>)
  then show ?thesis by (simp add: wp_def)
qed

lemma faithful_modem_device [simp]: "faithful_modem modem_device fd (\<lambda>v. v)"
  by (simp add: faithful_modem_def modem_device_def resp0_def)

theorem setDTR_isDTR_witness:
  "case run_state (do { setDTR linux_consts modem_device True; isDTR linux_consts modem_device })
      (example_state 4) of (b, s') \<Rightarrow>
    b \<and> pending s' = None \<and> (\<forall>m. m AND 2 = 0 \<longrightarrow> world s' AND m = 4 AND m)"
  using setDTR_isDTR [of modem_device "example_state 4" "\<lambda>v. v" linux_consts True]
  by (simp add: linux_consts_def [THEN arg_cong [where f = TIOCM_DTR]])

text \<open>
  A control character that fits into a byte is read back as it was set, and setting the
  XON character does not change the XOFF character.
\<close>

theorem setXONChar_getXONChar:
  assumes "faithful_tty os (spsw_fd (sps s)) attr" and "uint ch < 256"
    and "VSTART c < length (c_cc (attr (world s)))" and "VSTART c \<noteq> VSTOP c"
  shows "case run_state (do { setXONChar c os ch; x \<leftarrow> getXONChar c os; y \<leftarrow> getXOFFChar c os;
      State_Monad.return (x, y) }) s of ((x, y), s') \<Rightarrow>
    x = ch \<and> y = ucast (c_cc (attr (world s)) ! VSTOP c) \<and> pending s' = pending s"
proof -
  have "wp (do { setXONChar c os ch; x \<leftarrow> getXONChar c os; y \<leftarrow> getXOFFChar c os;
      State_Monad.return (x, y) }) (\<lambda>(x, y) s'. x = ch \<and> y = ucast (c_cc (attr (world s)) ! VSTOP c)
      \<and> pending s' = pending s) s"
    unfolding wp_bind
    by (rule wp_mono [OF setXONChar_stored [OF assms(1)]], rule wp_mono [OF getXONChar_read],
        use assms(1) in simp, rule wp_mono [OF getXOFFChar_read])
      (use assms in \<open>auto simp: wp_return ucast_low_byte\<close>)
  then show ?thesis by (auto simp: wp_def split: prod.splits)
qed

theorem setXONChar_getXONChar_witness:
  "case run_state (do { setXONChar linux_consts tty_device 17; x \<leftarrow> getXONChar linux_consts tty_device;
      y \<leftarrow> getXOFFChar linux_consts tty_device; State_Monad.return (x, y) }) (example_state no_termios)
    of ((x, y), s') \<Rightarrow> x = 17 \<and> y = 0 \<and> pending s' = None"
  using setXONChar_getXONChar [of tty_device "example_state no_termios" "\<lambda>t. t" 17 linux_consts]
  by (simp add: linux_consts_def no_termios_def)

end
