(* ===== verification/TermiosCommon.thy ===== *)
theory TermiosCommon
  imports TermiosParams "HOL-Library.Multiset"
begin

text \<open>
  \<open>TermiosCommon.c\<close>: opening and closing a port, the buffer counters and draining.
  The lemmas follow the file descriptors: what an operation opens is either recorded in
  the Java object or closed again.
\<close>

section \<open>The descriptors the process holds\<close>

definition hold :: "pcall \<Rightarrow> presp \<Rightarrow> int multiset \<Rightarrow> int multiset" where
  "hold c r M = (case c of
       Open _ _ \<Rightarrow> if r_ret r = - 1 then M else add_mset (r_ret r) M
     | Eventfd _ _ \<Rightarrow> if r_ret r = - 1 then M else add_mset (r_ret r) M
     | Pipe \<Rightarrow> if r_ret r = 0 then add_mset (r_pipe0 r) (add_mset (r_pipe1 r) M) else M
     | Close fd \<Rightarrow> M - {#fd#}
     | _ \<Rightarrow> M)"

definition held :: "'w pstate \<Rightarrow> int multiset" where
  "held s = fold (\<lambda>(c, r). hold c r) (calls s) {#}"

lemma held_answered [simp]: "held (answered c r obj w s) = hold c r (held s)"
  by (simp add: held_def)

lemma held_cong: "calls s' = calls s \<Longrightarrow> held s' = held s"
  by (simp add: held_def)

lemma held_upd [simp]: "held (s\<lparr>pending := e\<rparr>) = held s" "held (s\<lparr>sps := x\<rparr>) = held s"
  "held (s\<lparr>errno := n\<rparr>) = held s"
  by (simp_all add: held_def)

text \<open>Calls that neither open nor close a descriptor.\<close>

definition neutral :: "pcall \<Rightarrow> bool" where
  "neutral c = (case c of Open _ _ \<Rightarrow> False | Eventfd _ _ \<Rightarrow> False | Pipe \<Rightarrow> False | Close _ \<Rightarrow> False | _ \<Rightarrow> True)"

lemma hold_neutral [simp]: "neutral c \<Longrightarrow> hold c r M = M"
  by (cases c) (simp_all add: hold_def neutral_def)

lemma neutral_simps [simp]:
  "neutral (Read a b)" "neutral (Write a d)" "neutral (Poll e f)" "neutral (Ioctl a g)"
  "neutral (Tcgetattr a)" "neutral (Tcsetattr a b' t)" "neutral (Tcflush a b')" "neutral (Tcdrain a)"
  "neutral Clock_gettime" "neutral (Usleep a)"
  by (simp_all add: neutral_def)

lemma hold_simps [simp]:
  "hold (Open n f) r M = (if r_ret r = - 1 then M else add_mset (r_ret r) M)"
  "hold (Eventfd k f) r M = (if r_ret r = - 1 then M else add_mset (r_ret r) M)"
  "hold Pipe r M = (if r_ret r = 0 then add_mset (r_pipe0 r) (add_mset (r_pipe1 r) M) else M)"
  "hold (Close fd) r M = M - {#fd#}"
  by (simp_all add: hold_def)

section \<open>Closing\<close>

definition closeFds :: "posix \<Rightarrow> 'w os \<Rightarrow> int \<Rightarrow> int \<Rightarrow> int \<Rightarrow> ('w pstate, unit) state" where
  "closeFds c os fd close_event_read_fd close_event_write_fd = do {
     (if close_event_write_fd \<noteq> INVALID_FD then do {
       _ \<leftarrow> syscall os (Write close_event_write_fd (uint64_bytes c 1));
       _ \<leftarrow> syscall os (Usleep 1000);
       State_Monad.return ()
     } else State_Monad.return ());
     (if fd \<noteq> INVALID_FD then do {
       _ \<leftarrow> syscall os (Close fd);
       State_Monad.return ()
     } else State_Monad.return ());
     (if close_event_write_fd \<noteq> INVALID_FD then do {
       _ \<leftarrow> syscall os (Close close_event_write_fd);
       State_Monad.return ()
     } else State_Monad.return ());
     (if close_event_read_fd \<noteq> INVALID_FD \<and> close_event_read_fd \<noteq> close_event_write_fd then do {
       _ \<leftarrow> syscall os (Close close_event_read_fd);
       State_Monad.return ()
     } else State_Monad.return ())
   }"

definition close0 :: "posix \<Rightarrow> 'w os \<Rightarrow> ('w pstate, unit) state" where
  "close0 c os = do {
     fd \<leftarrow> GetField spsw_fd;
     SetField (spsw_fd_update (\<lambda>_. INVALID_FD));
     close_event_write_fd \<leftarrow> GetField spsw_closeEventWriteFd;
     _ \<leftarrow> syscall os (Write close_event_write_fd (uint64_bytes c 1));
     _ \<leftarrow> syscall os (Tcflush fd (TCIOFLUSH c));
     SetField (spsw_closeEventWriteFd_update (\<lambda>_. INVALID_FD));
     SetField (spsw_closeEventReadFd_update (\<lambda>_. INVALID_FD));
     r \<leftarrow> syscall os (Close fd);
     if r_ret r \<noteq> 0 then throw_IOException_NativeError ''close0 closing port''
     else State_Monad.return ()
   }"

section \<open>Buffer counters\<close>

definition getInBufferBytesCount :: "'w os \<Rightarrow> ('w pstate, int) state" where
  "getInBufferBytesCount os = do {
     fd \<leftarrow> GetField spsw_fd;
     r \<leftarrow> syscall os (Ioctl fd FIONREAD);
     if r_ret r \<noteq> 0 then do {
       throw_ClosedOrNativeException ''Can't read in buffer size'';
       State_Monad.return (- 1)
     } else State_Monad.return (sint (r_int r))
   }"

definition getOutBufferBytesCount :: "'w os \<Rightarrow> ('w pstate, int) state" where
  "getOutBufferBytesCount os = do {
     fd \<leftarrow> GetField spsw_fd;
     r \<leftarrow> syscall os (Ioctl fd TIOCOUTQ);
     if r_ret r \<noteq> 0 then do {
       throw_ClosedOrNativeException ''Can't read out buffer size'';
       State_Monad.return (- 1)
     } else State_Monad.return (sint (r_int r))
   }"

section \<open>Opening\<close>

definition open_error :: "posix \<Rightarrow> string \<Rightarrow> ('w pstate, unit) state" where
  "open_error c portName = do {
     s \<leftarrow> State_Monad.get;
     if errno s = EBUSY c
     then throw_IOException_withPortName (''Port is busy: '' @ [CHR 0x22] @ ''%s'' @ [CHR 0x22]) portName
     else if errno s = ENOENT c
     then throw_IOException_withPortName (''Port not found: '' @ [CHR 0x22] @ ''%s'' @ [CHR 0x22]) portName
     else if errno s = EACCES c
     then throw_IOException_withPortName (''Permission denied: '' @ [CHR 0x22] @ ''%s'' @ [CHR 0x22]) portName
     else if errno s = EIO c
     then throw_IOException_withPortName (''Not a serial port: '' @ [CHR 0x22] @ ''%s'' @ [CHR 0x22]) portName
     else throw_IOException_NativeError ''open''
   }"

text \<open>\<open>close(fd)\<close> and the descriptor of the Java object reset, as every failure behind the first does.\<close>

definition close_again :: "'w os \<Rightarrow> int \<Rightarrow> ('w pstate, unit) state" where
  "close_again os fd = do {
     _ \<leftarrow> syscall os (Close fd);
     SetField (spsw_fd_update (\<lambda>_. INVALID_FD))
   }"

text \<open>Raw mode: the flags of line discipline processing are cleared, the others preserved.\<close>

definition raw_mode :: "posix \<Rightarrow> termios \<Rightarrow> termios" where
  "raw_mode c t = t\<lparr>
     c_iflag := c_iflag t AND NOT (IGNBRK c OR BRKINT c OR PARMRK c OR ISTRIP c OR INLCR c OR IGNCR c
       OR ICRNL c OR IXON c),
     c_oflag := c_oflag t AND NOT (OPOST c),
     c_lflag := c_lflag t AND NOT (ECHO c OR ECHONL c OR ICANON c OR ISIG c OR IEXTEN c),
     c_cflag := (c_cflag t AND NOT (CSIZE c OR PARENB c)) OR (CS8 c OR CREAD c OR CLOCAL c OR HUPCL c),
     c_cc := (c_cc t)[VMIN c := 0, VTIME c := 0]\<rparr>"

definition open_events :: "posix \<Rightarrow> 'w os \<Rightarrow> int \<Rightarrow> ('w pstate, unit) state" where
  "open_events c os fd =
     (if HAVE_SYS_EVENTFD_H c then do {
        r \<leftarrow> syscall os (Eventfd 0 (EFD_NONBLOCK c));
        if r_ret r = INVALID_FD then do {
          _ \<leftarrow> syscall os (Close fd);
          throw_IOException_NativeError ''Can't create close_event_fd''
        } else do {
          SetField (spsw_closeEventReadFd_update (\<lambda>_. r_ret r));
          SetField (spsw_closeEventWriteFd_update (\<lambda>_. r_ret r))
        }
      } else do {
        r \<leftarrow> syscall os Pipe;
        if r_ret r \<noteq> 0 then do {
          _ \<leftarrow> syscall os (Close fd);
          throw_IOException_NativeError ''Can't create close_pipe_fd''
        } else do {
          SetField (spsw_closeEventReadFd_update (\<lambda>_. r_pipe0 r));
          SetField (spsw_closeEventWriteFd_update (\<lambda>_. r_pipe1 r))
        }
      })"

text \<open>The settings of the new port are written; False when the port has been closed again.\<close>

definition open_params ::
  "posix \<Rightarrow> termios_lib \<Rightarrow> 'w os \<Rightarrow> int \<Rightarrow> termios \<Rightarrow> jint \<Rightarrow> ('w pstate, bool) state" where
  "open_params c lib os fd settings paramBitSet =
     (if paramBitSet \<noteq> SPSW_NO_PARAMS_TO_SET then do {
        ret \<leftarrow> setParams c lib os settings paramBitSet;
        if ret \<noteq> 0 then do {
          close_again os fd;
          State_Monad.return False
        } else State_Monad.return True
      } else do {
        r \<leftarrow> syscall os (Tcsetattr fd (TCSANOW c) settings);
        if r_ret r \<noteq> 0 then do {
          close_again os fd;
          throw_IOException_NativeError ''Can't call tcsetattr TCSANOW'';
          State_Monad.return False
        } else State_Monad.return True
      })"

text \<open>Everything behind \<open>open\<close>: the new descriptor is recorded already.\<close>

definition configure ::
  "posix \<Rightarrow> termios_lib \<Rightarrow> 'w os \<Rightarrow> string \<Rightarrow> int \<Rightarrow> jint \<Rightarrow> ('w pstate, unit) state" where
  "configure c lib os portName fd paramBitSet = do {
     g \<leftarrow> syscall os (Tcgetattr fd);
     if r_ret g \<noteq> 0 then do {
       close_again os fd;
       s \<leftarrow> State_Monad.get;
       if errno s = ENOTTY c
       then throw_IOException_withPortName (''Not a serial port: '' @ [CHR 0x22] @ ''%s'' @ [CHR 0x22]) portName
       else throw_IOException_NativeError ''open tcgetattr''
     } else do {
       e \<leftarrow> syscall os (Ioctl fd TIOCEXCL);
       if r_ret e \<noteq> 0 then do {
         close_again os fd;
         throw_IOException_NativeError ''Can't set exclusive access''
       } else do {
         configured \<leftarrow> open_params c lib os fd (raw_mode c (r_termios g)) paramBitSet;
         if \<not> configured then State_Monad.return ()
         else do {
           f \<leftarrow> syscall os (Tcflush fd (TCIOFLUSH c));
           if r_ret f \<noteq> 0 then do {
             close_again os fd;
             throw_IOException_NativeError ''Can't flush device''
           } else open_events c os fd
         }
       }
     }
   }"

definition open0 ::
  "posix \<Rightarrow> termios_lib \<Rightarrow> 'w os \<Rightarrow> string \<Rightarrow> jint \<Rightarrow> ('w pstate, unit) state" where
  "open0 c lib os portName paramBitSet = do {
     old \<leftarrow> GetField spsw_fd;
     if old \<noteq> INVALID_FD then throw_IOException_Opend
     else do {
       o1 \<leftarrow> syscall os (Open portName (O_RDWR c OR O_NOCTTY c OR O_NONBLOCK c));
       if r_ret o1 = INVALID_FD then do {
         SetField (spsw_fd_update (\<lambda>_. INVALID_FD));
         open_error c portName
       } else do {
         SetField (spsw_fd_update (\<lambda>_. r_ret o1));
         configure c lib os portName (r_ret o1) paramBitSet
       }
     }
   }"

section \<open>Draining\<close>

definition drainOutputBuffer :: "posix \<Rightarrow> 'w os \<Rightarrow> ('w pstate, unit) state" where
  "drainOutputBuffer c os = do {
     pollTimeout \<leftarrow> GetField spsw_pollWriteTimeout;
     fd \<leftarrow> GetField spsw_fd;
     close_fd \<leftarrow> GetField spsw_closeEventReadFd;
     p \<leftarrow> syscall os (Poll [(fd, POLLOUT c), (close_fd, POLLIN c)] pollTimeout);
     if r_ret p = 0 then throw_TimeoutIOException 0 ''Timeout drainOutputBuffer''
     else if r_ret p < 0 then throw_IOException_NativeError ''drainOutputBuffer poll: Error during poll''
     else if r_revents1 p = POLLIN c then throw_AsynchronousCloseException
     else if r_revents0 p = POLLOUT c then do {
       d \<leftarrow> syscall os (Tcdrain fd);
       if r_ret d \<noteq> 0 then throw_ClosedOrNativeException ''Can't drain the output buffer''
       else State_Monad.return ()
     }
     else if r_revents0 p AND POLLHUP c = POLLHUP c then throw_IOException PORT_FD_INVALID
     else if r_revents0 p AND POLLNVAL c = POLLNVAL c then throw_AsynchronousCloseException
     else throw_ClosedOrNativeException
       ''drainOutputBuffer poll => : received unexpected event and port not closed''
   }"

section \<open>Effects of setParams\<close>

lemma setParams_frame:
  assumes q: "quiet os"
  shows "wp (setParams c lib os t p) (\<lambda>ret s'. sps s' = sps s \<and> held s' = held s \<and>
    (if ret = 0 then pending s' = pending s else is_pending s')) s"
proof -
  let ?Q = "\<lambda>ret s'. sps s' = sps s \<and> held s' = held s \<and> (if ret = 0 then pending s' = pending s else is_pending s')"
  have check: "wp (store_and_check c lib os t4 p) ?Q s" for t4
    by (rule store_and_check_wp) (auto dest!: quietD [OF q])
  have body: "wp (case set_line c p t0 of
         Inl msg \<Rightarrow> do { throw_IllegalArgumentException msg; State_Monad.return (- 1) }
       | Inr t4 \<Rightarrow> store_and_check c lib os t4 p) ?Q s" for t0
    using check by (cases "set_line c p t0") (auto simp: wp_bind wp_return intro!: wp_throws)
  show ?thesis
    unfolding setParams_split wp_bind by (rule set_speed_wp) (simp_all add: body wp_return)
qed

section \<open>What open0 leaves behind\<close>

text \<open>
  The outcomes of an attempt to open a port that was not open: a port whose descriptors are
  all recorded, or nothing, or (when the close event could not be created) an object that
  still names the descriptor that has just been closed.
\<close>

definition piped :: "'w os \<Rightarrow> int \<Rightarrow> int \<Rightarrow> bool" where
  "piped os rfd wfd \<longleftrightarrow> (\<exists>r y x. os Pipe x = (r, y) \<and> r_ret r = 0 \<and> r_pipe0 r = rfd \<and> r_pipe1 r = wfd)"

lemma pipedI: "os Pipe x = (r, y) \<Longrightarrow> r_ret r = 0 \<Longrightarrow> piped os (r_pipe0 r) (r_pipe1 r)"
  unfolding piped_def by blast

definition opened :: "posix \<Rightarrow> 'w os \<Rightarrow> 'w pstate \<Rightarrow> 'w pstate \<Rightarrow> bool" where
  "opened c os s s' \<longleftrightarrow> pending s' = pending s \<and> spsw_fd (sps s') \<noteq> INVALID_FD \<and>
     (if HAVE_SYS_EVENTFD_H c
      then spsw_closeEventReadFd (sps s') \<noteq> INVALID_FD \<and>
        spsw_closeEventWriteFd (sps s') = spsw_closeEventReadFd (sps s') \<and>
        held s' = held s + {#spsw_fd (sps s'), spsw_closeEventReadFd (sps s')#}
      else piped os (spsw_closeEventReadFd (sps s')) (spsw_closeEventWriteFd (sps s')) \<and>
        held s' = held s + {#spsw_fd (sps s'), spsw_closeEventReadFd (sps s'), spsw_closeEventWriteFd (sps s')#})"

definition not_opened :: "'w pstate \<Rightarrow> 'w pstate \<Rightarrow> bool" where
  "not_opened s s' \<longleftrightarrow> is_pending s' \<and> held s' = held s \<and> sps s' = (sps s)\<lparr>spsw_fd := INVALID_FD\<rparr>"

definition dangling :: "posix \<Rightarrow> 'w pstate \<Rightarrow> 'w pstate \<Rightarrow> bool" where
  "dangling c s s' \<longleftrightarrow> is_pending s' \<and> held s' = held s \<and> spsw_fd (sps s') \<noteq> INVALID_FD \<and>
     sps s' = (sps s)\<lparr>spsw_fd := spsw_fd (sps s')\<rparr> \<and>
     (\<exists>L ev r r'. calls s' = L @ [(ev, r), (Close (spsw_fd (sps s')), r')] \<and>
        (if HAVE_SYS_EVENTFD_H c then ev = Eventfd 0 (EFD_NONBLOCK c) \<and> r_ret r = - 1
         else ev = Pipe \<and> r_ret r \<noteq> 0))"

definition half_open :: "'w pstate \<Rightarrow> int \<Rightarrow> 'w pstate \<Rightarrow> bool" where
  "half_open s fd s1 \<longleftrightarrow> pending s1 = pending s \<and> sps s1 = (sps s)\<lparr>spsw_fd := fd\<rparr> \<and>
     held s1 = add_mset fd (held s) \<and> fd \<noteq> INVALID_FD"

lemma close_again_wp:
  assumes "quiet os" and "\<And>r w. Q () ((answered (Close fd) r (sps s) w s)\<lparr>sps := (sps s)\<lparr>spsw_fd := INVALID_FD\<rparr>\<rparr>)"
  shows "wp (close_again os fd) Q s"
  unfolding close_again_def wp_bind
  by (rule syscall_wp) (use assms(2) in \<open>auto simp: wp_simps dest!: quietD [OF assms(1)]\<close>)

lemma is_pending_upd [simp]:
  "is_pending (answered c r obj w s) = is_pending s" "is_pending (s\<lparr>sps := x\<rparr>) = is_pending s"
  by (simp_all add: is_pending_def)

lemma close_again_throw:
  assumes "quiet os" and "half_open s fd s1" and "throws f" and "\<And>s'. not_opened s s' \<Longrightarrow> Q () s'"
  shows "wp (close_again os fd) (\<lambda>_. wp f Q) s1"
  by (rule close_again_wp [OF assms(1)], rule wp_throws [OF assms(3)], rule assms(4))
    (use assms(2) in \<open>simp add: not_opened_def half_open_def\<close>)

lemma half_open_answered:
  assumes "quiet os" and "half_open s fd s1" and "os c (sps s1, world s1) = (r, obj, w)" and "neutral c"
  shows "half_open s fd (answered c r obj w s1)"
  using assms quietD [OF assms(1,3)] by (simp add: half_open_def)

lemma open_params_wp:
  assumes q: "quiet os" and o: "half_open s fd s1"
  shows "wp (open_params c lib os fd t p) (\<lambda>ok s'. if ok then half_open s fd s' else not_opened s s') s1"
proof (cases "p = SPSW_NO_PARAMS_TO_SET")
  case True
  then show ?thesis
    unfolding open_params_def wp_if wp_bind
    by (simp, intro syscall_wp)
      (use o in \<open>auto simp: wp_if wp_bind wp_return half_open_answered [OF q] intro!: close_again_throw [OF q]\<close>)
next
  case False
  then show ?thesis
    unfolding open_params_def wp_if wp_bind
    by (simp, intro wp_mono [OF setParams_frame [OF q]])
      (use o in \<open>auto simp: wp_if wp_bind wp_return half_open_def not_opened_def split: if_splits
        intro!: close_again_wp [OF q]\<close>)
qed

lemma open_events_wp:
  assumes q: "quiet os" and o: "half_open s fd s1"
  shows "wp (open_events c os fd) (\<lambda>_ s'. opened c os s s' \<or> dangling c s s') s1"
proof (cases "HAVE_SYS_EVENTFD_H c")
  case True
  show ?thesis
    unfolding open_events_def wp_if wp_bind using True o
    by (simp, intro syscall_wp)
      (auto simp: wp_simps INVALID_FD_def opened_def dangling_def half_open_def add_mset_commute
        dest!: quietD [OF q] intro!: wp_throws split: prod.splits)
next
  case False
  obtain r obj w where pipe: "os Pipe (sps s1, world s1) = (r, obj, w)" by (metis prod_cases3)
  then have piped: "r_ret r = 0 \<Longrightarrow> piped os (r_pipe0 r) (r_pipe1 r)" by (rule pipedI)
  show ?thesis
    unfolding open_events_def wp_if wp_bind wp_syscall pipe using False o quietD [OF q pipe] piped
    by (auto simp: wp_simps INVALID_FD_def opened_def dangling_def half_open_def add_mset_commute
        dest!: quietD [OF q] intro!: wp_throws split: prod.splits)
qed

lemma throws_open_error [simp]: "throws (open_error c portName)"
  unfolding open_error_def by (intro throws_get throws_if throws_throw)

lemma configure_outcome:
  assumes q: "quiet os" and o: "half_open s fd s1"
  shows "wp (configure c lib os portName fd p) (\<lambda>_ s'. opened c os s s' \<or> not_opened s s' \<or> dangling c s s') s1"
proof -
  let ?Q = "\<lambda>_ s'. opened c os s s' \<or> not_opened s s' \<or> dangling c s s'"
  note answered = half_open_answered [OF q]
  have throw: "wp (close_again os fd) (\<lambda>_. wp f ?Q) s1" if "half_open s fd s1" "throws f" for fd f s1
    using that by (auto intro: close_again_throw [OF q])
  have rest: "wp (if \<not> ok then State_Monad.return ()
       else State_Monad.bind (syscall os (Tcflush fd (TCIOFLUSH c))) (\<lambda>f.
         if r_ret f \<noteq> 0 then do {
           close_again os fd;
           throw_IOException_NativeError ''Can't flush device''
         } else open_events c os fd)) ?Q s2" if s2: "if ok then half_open s fd s2 else not_opened s s2" for ok s2
  proof (cases ok)
    case True
    with s2 have o2: "half_open s fd s2" by simp
    show ?thesis
      unfolding wp_if wp_bind using True
      by (simp, intro syscall_wp) (auto simp: wp_if wp_bind intro!: throw answered [OF o2]
          intro: wp_mono [OF open_events_wp [OF q answered [OF o2]]])
  qed (use s2 in \<open>simp add: wp_simps\<close>)
  have params: "wp (open_params c lib os fd t p) (\<lambda>ok. wp (if \<not> ok then State_Monad.return ()
       else State_Monad.bind (syscall os (Tcflush fd (TCIOFLUSH c))) (\<lambda>f.
         if r_ret f \<noteq> 0 then do {
           close_again os fd;
           throw_IOException_NativeError ''Can't flush device''
         } else open_events c os fd)) ?Q) s2" if "half_open s fd s2" for t s2
    by (rule wp_mono [OF open_params_wp [OF q that] rest])
  show ?thesis
    unfolding configure_def
    by (simp only: wp_bind [of "syscall _ _"] wp_if, rule syscall_wp, drule answered [OF o], simp)
      (auto simp: wp_bind [of "close_again _ _"] wp_bind [of "syscall _ _"] wp_bind [of "open_params _ _ _ _ _ _"] wp_if
        simp del: wp_bind intro!: throw syscall_wp params answered throws_get throws_if throws_throw)
qed

lemma open0_outcome:
  assumes q: "quiet os" and closed: "spsw_fd (sps s) = INVALID_FD"
  shows "wp (open0 c lib os portName p) (\<lambda>_ s'. opened c os s s' \<or> not_opened s s' \<or> dangling c s s') s"
  unfolding open0_def wp_bind wp_GetField wp_if
proof (simp add: closed, rule syscall_wp)
  fix r obj w
  let ?c = "Open portName (O_RDWR c OR O_NOCTTY c OR O_NONBLOCK c)"
  let ?s1 = "answered ?c r obj w s"
  let ?s2 = "?s1\<lparr>sps := (sps ?s1)\<lparr>spsw_fd := r_ret r\<rparr>\<rparr>"
  assume "os ?c (sps s, world s) = (r, obj, w)"
  note obj = quietD [OF q this]
  have "half_open s (r_ret r) ?s2" if "r_ret r \<noteq> INVALID_FD"
    using that by (simp add: half_open_def obj INVALID_FD_def)
  then show "(r_ret r = INVALID_FD \<longrightarrow> wp (SetField (spsw_fd_update (\<lambda>_. INVALID_FD)))
        (\<lambda>_. wp (open_error c portName) (\<lambda>_ s'. opened c os s s' \<or> not_opened s s' \<or> dangling c s s')) ?s1) \<and>
    (r_ret r \<noteq> INVALID_FD \<longrightarrow> wp (SetField (spsw_fd_update (\<lambda>_. r_ret r)))
        (\<lambda>_. wp (configure c lib os portName (r_ret r) p) (\<lambda>_ s'. opened c os s s' \<or> not_opened s s' \<or> dangling c s s')) ?s1)"
    by (intro conjI impI; simp only: wp_SetField)
      (rule wp_throws [OF throws_open_error], simp add: not_opened_def obj INVALID_FD_def, rule configure_outcome [OF q], simp)
qed

section \<open>The life of a port object\<close>

text \<open>
  The Java object keeps a copy of its descriptors for the cleaner that runs when the object
  is unreachable. \<open>run\<close> passes the write end of the close event second, where the C
  function has its parameter for the read end.
\<close>

record cleaner =
  cleaner_fd :: int
  cleaner_write_fd :: int
  cleaner_read_fd :: int

definition cleaner_run :: "posix \<Rightarrow> 'w os \<Rightarrow> cleaner \<Rightarrow> ('w pstate, unit) state" where
  "cleaner_run c os cl = closeFds c os (cleaner_fd cl) (cleaner_write_fd cl) (cleaner_read_fd cl)"

text \<open>A Java method whose native call has thrown ends there.\<close>

definition java_open ::
  "posix \<Rightarrow> termios_lib \<Rightarrow> 'w os \<Rightarrow> string \<Rightarrow> jint \<Rightarrow> cleaner \<Rightarrow> ('w pstate, cleaner) state" where
  "java_open c lib os portName paramBitSet cl = do {
     open0 c lib os portName paramBitSet;
     s \<leftarrow> State_Monad.get;
     State_Monad.return (if is_pending s then cl
       else \<lparr>cleaner_fd = spsw_fd (sps s), cleaner_write_fd = spsw_closeEventWriteFd (sps s),
              cleaner_read_fd = spsw_closeEventReadFd (sps s)\<rparr>)
   }"

definition implCloseChannel :: "posix \<Rightarrow> 'w os \<Rightarrow> cleaner \<Rightarrow> ('w pstate, cleaner) state" where
  "implCloseChannel c os cl = do {
     close0 c os;
     s \<leftarrow> State_Monad.get;
     State_Monad.return (if is_pending s then cl else cl\<lparr>cleaner_fd := INVALID_FD\<rparr>)
   }"

lemma close0_wp:
  assumes q: "quiet os"
    and Q: "\<And>r1 r2 r3 s'. sps s' = (sps s)\<lparr>spsw_fd := INVALID_FD, spsw_closeEventReadFd := INVALID_FD,
        spsw_closeEventWriteFd := INVALID_FD\<rparr> \<Longrightarrow>
      calls s' = calls s @ [(Write (spsw_closeEventWriteFd (sps s)) (uint64_bytes c 1), r1),
        (Tcflush (spsw_fd (sps s)) (TCIOFLUSH c), r2), (Close (spsw_fd (sps s)), r3)] \<Longrightarrow>
      (if r_ret r3 = 0 then pending s' = pending s else is_pending s') \<Longrightarrow> Q () s'"
  shows "wp (close0 c os) Q s"
  unfolding close0_def wp_bind wp_GetField wp_SetField
  by (intro syscall_wp) (auto simp: wp_simps dest!: quietD [OF q] intro!: wp_throws Q syscall_wp)

text \<open>The cleaner closes what it was given, each descriptor once.\<close>

lemma closeFds_wp:
  assumes "\<And>s'. held s' = held s - ((if fd = INVALID_FD then {#} else {#fd#})
      + (if wfd = INVALID_FD then {#} else {#wfd#})
      + (if rfd = INVALID_FD \<or> rfd = wfd then {#} else {#rfd#})) \<Longrightarrow> pending s' = pending s \<Longrightarrow> Q () s'"
  shows "wp (closeFds c os fd rfd wfd) Q s"
  unfolding closeFds_def wp_bind wp_if
  by (auto simp: wp_bind wp_return add_mset_commute intro!: syscall_wp assms)

definition pipe_ok :: "'w os \<Rightarrow> bool" where
  "pipe_ok os \<longleftrightarrow> (\<forall>x. let r = fst (os Pipe x) in r_ret r = 0 \<longrightarrow>
     r_pipe0 r \<noteq> - 1 \<and> r_pipe1 r \<noteq> - 1 \<and> r_pipe0 r \<noteq> r_pipe1 r)"

lemma pipe_okD: "pipe_ok os \<Longrightarrow> piped os rfd wfd \<Longrightarrow> rfd \<noteq> - 1 \<and> wfd \<noteq> - 1 \<and> rfd \<noteq> wfd"
  unfolding pipe_ok_def piped_def Let_def by (metis fst_conv)

lemma close_and_clean:
  fixes os :: "'w os"
  assumes q: "quiet os" and pipe: "pipe_ok os" and o: "opened c os s0 s"
    and cl: "cl = \<lparr>cleaner_fd = spsw_fd (sps s), cleaner_write_fd = spsw_closeEventWriteFd (sps s),
              cleaner_read_fd = spsw_closeEventReadFd (sps s)\<rparr>" and p: "\<not> is_pending s"
  shows "wp (implCloseChannel c os cl) (\<lambda>cl'. wp (cleaner_run c os cl') (\<lambda>_ s'.
    is_pending s' \<or> held s' = held s0)) s"
  unfolding implCloseChannel_def wp_bind
proof (rule close0_wp [OF q], simp only: wp_return wp_get)
  fix r1 r2 r3 and s' :: "'w pstate"
  let ?fd = "spsw_fd (sps s)" and ?r = "spsw_closeEventReadFd (sps s)" and ?w = "spsw_closeEventWriteFd (sps s)"
  assume calls: "calls s' = calls s @ [(Write ?w (uint64_bytes c 1), r1), (Tcflush ?fd (TCIOFLUSH c), r2), (Close ?fd, r3)]"
  have held: "held s' = held s - {#?fd#}"
    unfolding held_def calls by simp
  have ev: "?r \<noteq> INVALID_FD \<and> ?w \<noteq> INVALID_FD \<and> held s = held s0 + (if ?r = ?w then {#?fd, ?r#} else {#?fd, ?r, ?w#})"
    using o pipe_okD [OF pipe] by (auto simp: opened_def INVALID_FD_def split: if_splits)
  show "wp (cleaner_run c os (if is_pending s' then cl else cl\<lparr>cleaner_fd := INVALID_FD\<rparr>))
      (\<lambda>_ s'. is_pending s' \<or> held s' = held s0) s'"
    unfolding cleaner_run_def
    by (rule closeFds_wp) (use held ev in \<open>auto simp: cl is_pending_def split: if_splits\<close>)
qed

lemma open_close_clean:
  assumes q: "quiet os" and pipe: "pipe_ok os" and closed: "spsw_fd (sps s) = INVALID_FD" "\<not> is_pending s"
  shows "wp (java_open c lib os portName p cl) (\<lambda>cl s1. \<not> is_pending s1 \<longrightarrow>
    wp (implCloseChannel c os cl) (\<lambda>cl'. wp (cleaner_run c os cl') (\<lambda>_ s'.
    is_pending s' \<or> held s' = held s)) s1) s"
  unfolding java_open_def wp_bind
  by (rule wp_mono [OF open0_outcome [OF q closed(1)]])
    (auto simp: wp_simps not_opened_def dangling_def intro!: close_and_clean [OF q pipe])

section \<open>Errors of open\<close>

definition open_error_text :: "posix \<Rightarrow> vm \<Rightarrow> int \<Rightarrow> string \<Rightarrow> string" where
  "open_error_text c v e portName =
     (let quoted = CHR 0x22 # portName @ [CHR 0x22] in
      if e = EBUSY c then ''Port is busy: '' @ quoted
      else if e = ENOENT c then ''Port not found: '' @ quoted
      else if e = EACCES c then ''Permission denied: '' @ quoted
      else if e = EIO c then ''Not a serial port: '' @ quoted
      else ''open: Unknown port error '' @ show_int e @ '': ('' @ vm_strerror v e @ '')'')"

lemma open0_failed:
  assumes closed: "spsw_fd (sps s) = INVALID_FD" and v: "vm_platform (vm s) = Termios"
    and call: "os (Open portName (O_RDWR c OR O_NOCTTY c OR O_NONBLOCK c)) (sps s, world s) = (r, obj, w)"
    and err: "r_ret r = - 1"
  shows "wp (open0 c lib os portName p) (\<lambda>_ s'. spsw_fd (sps s') = INVALID_FD \<and>
    calls s' = calls s @ [(Open portName (O_RDWR c OR O_NOCTTY c OR O_NONBLOCK c), r)] \<and>
    pending s' = Some (IOException (snprintf 2048 (open_error_text c (vm s) (r_errno r) portName)))) s"
  unfolding open0_def wp_bind wp_GetField wp_if wp_syscall
  using closed v err
  by (simp add: call INVALID_FD_def wp_SetField open_error_def wp_simps throw_IOException_withPortName_def
      throw_IOException_NativeError_def native_error_text_def open_error_text_def Let_def)

section \<open>Draining\<close>

lemma drain_wp:
  "wp (drainOutputBuffer c os) (\<lambda>_ s'. is_pending s' \<or>
     (pending s' = pending s \<and> (\<exists>p r. calls s' = calls s @
        [(Poll [(spsw_fd (sps s), POLLOUT c), (spsw_closeEventReadFd (sps s), POLLIN c)] (spsw_pollWriteTimeout (sps s)), p),
         (Tcdrain (spsw_fd (sps s)), r)] \<and> 0 < r_ret p \<and> r_revents1 p \<noteq> POLLIN c \<and> r_revents0 p = POLLOUT c \<and> r_ret r = 0))) s"
  unfolding drainOutputBuffer_def wp_bind wp_GetField
  by (rule syscall_wp) (auto simp: wp_simps intro!: wp_throws split: prod.splits)

section \<open>Properties\<close>

text \<open>A kernel that numbers descriptors; the world is the next number.\<close>

definition fd_device :: "nat os" where
  "fd_device c x = (case x of (obj, n) \<Rightarrow> (case c of
       Open _ _ \<Rightarrow> (resp0\<lparr>r_ret := int n\<rparr>, obj, n + 1)
     | Eventfd _ _ \<Rightarrow> (resp0\<lparr>r_ret := int n\<rparr>, obj, n + 1)
     | Pipe \<Rightarrow> (resp0\<lparr>r_pipe0 := int n, r_pipe1 := int n + 1\<rparr>, obj, n + 2)
     | _ \<Rightarrow> (resp0, obj, n)))"

lemma quiet_fd_device [simp]: "quiet fd_device"
  by (simp add: quiet_def fd_device_def split: pcall.splits)

lemma pipe_ok_fd_device [simp]: "pipe_ok fd_device"
  by (auto simp: pipe_ok_def fd_device_def resp0_def split: pcall.splits)

definition closed_state :: "'w \<Rightarrow> 'w pstate" where
  "closed_state w = (example_state w)\<lparr>sps := open_sps\<lparr>spsw_fd := - 1\<rparr>\<rparr>"

lemma closed_state_sel [simp]:
  "sps (closed_state w) = open_sps\<lparr>spsw_fd := - 1\<rparr>" "world (closed_state w) = w"
  "pending (closed_state w) = None" "calls (closed_state w) = []" "held (closed_state w) = {#}"
  "vm (closed_state w) = example_vm"
  by (simp_all add: closed_state_def held_def)

text \<open>
  C7: no descriptor is leaked by \<open>open0\<close>. Either the port is open, nothing was thrown and
  the descriptors the call holds are exactly the ones the Java object records; or an exception
  is pending, every descriptor has been closed again and the object says closed; or, when only
  the close event could not be created, the object still names the descriptor just closed.
\<close>

theorem open0_descriptors:
  assumes "quiet os" and "spsw_fd (sps s) = INVALID_FD"
  shows "case run_state (open0 c lib os portName p) s of (_, s') \<Rightarrow>
    opened c os s s' \<or> not_opened s s' \<or> dangling c s s'"
  using open0_outcome [OF assms] by (simp add: wp_def split: prod.splits)

lemma open_run:
  "case run_state (open0 linux_consts plain_lib fd_device ''/dev/ttyS0'' 0) (closed_state 3) of (_, s') \<Rightarrow>
    \<not> is_pending s' \<and> spsw_fd (sps s') \<noteq> - 1"
  by code_simp

theorem open0_descriptors_witness:
  "case run_state (open0 linux_consts plain_lib fd_device ''/dev/ttyS0'' 0) (closed_state 3) of (_, s') \<Rightarrow>
    \<not> is_pending s' \<and> spsw_fd (sps s') \<noteq> - 1 \<and> opened linux_consts fd_device (closed_state 3) s'"
  using open0_descriptors [OF quiet_fd_device, of "closed_state 3" linux_consts plain_lib "''/dev/ttyS0''" 0] open_run
  by (auto simp: INVALID_FD_def not_opened_def dangling_def split: prod.splits)

text \<open>
  C30: the whole life of a port object. After a successful \<open>open\<close>, closing the channel and
  running the cleaner give back every descriptor (unless closing reports an error), although
  the cleaner passes the two ends of the close event in the other order.
\<close>

theorem port_lifecycle:
  assumes "quiet os" and "pipe_ok os" and "spsw_fd (sps s) = INVALID_FD" and "\<not> is_pending s"
  shows "case run_state (java_open c lib os portName p cl) s of (cl1, s1) \<Rightarrow> is_pending s1 \<or>
    (case run_state (do { cl2 \<leftarrow> implCloseChannel c os cl1; cleaner_run c os cl2 }) s1 of (_, s2) \<Rightarrow>
      is_pending s2 \<or> held s2 = held s)"
  using open_close_clean [OF assms, of c lib portName p cl] by (auto simp: wp_def split: prod.splits)

theorem port_lifecycle_witness:
  "case run_state (java_open linux_consts plain_lib fd_device ''/dev/ttyS0'' 0 \<lparr>cleaner_fd = - 1,
      cleaner_write_fd = - 1, cleaner_read_fd = - 1\<rparr>) (closed_state 3) of (cl1, s1) \<Rightarrow> is_pending s1 \<or>
    (case run_state (do { cl2 \<leftarrow> implCloseChannel linux_consts fd_device cl1;
        cleaner_run linux_consts fd_device cl2 }) s1 of (_, s2) \<Rightarrow> is_pending s2 \<or> held s2 = {#})"
  using port_lifecycle [OF quiet_fd_device pipe_ok_fd_device, of "closed_state 3" linux_consts plain_lib
      "''/dev/ttyS0''" 0 "\<lparr>cleaner_fd = - 1, cleaner_write_fd = - 1, cleaner_read_fd = - 1\<rparr>"]
  by (simp add: INVALID_FD_def is_pending_def)

text \<open>
  A failing \<open>open\<close> call leaves the object closed, makes no other call and throws an
  \<open>IOException\<close> whose text is chosen by \<open>errno\<close> and names the port.
\<close>

theorem open0_error_text:
  assumes "spsw_fd (sps s) = INVALID_FD" and "vm_platform (vm s) = Termios"
    and "os (Open portName (O_RDWR c OR O_NOCTTY c OR O_NONBLOCK c)) (sps s, world s) = (r, obj, w)"
    and "r_ret r = - 1"
  shows "case run_state (open0 c lib os portName p) s of (_, s') \<Rightarrow> spsw_fd (sps s') = INVALID_FD \<and>
    calls s' = calls s @ [(Open portName (O_RDWR c OR O_NOCTTY c OR O_NONBLOCK c), r)] \<and>
    pending s' = Some (IOException (snprintf 2048 (open_error_text c (vm s) (r_errno r) portName)))"
  using open0_failed [where os = os and s = s, OF assms, of lib p] by (simp add: wp_def split: prod.splits)

theorem open0_error_text_witness:
  "case run_state (open0 linux_consts plain_lib scripted ''/dev/ttyS9'' 0)
      (closed_state [resp0\<lparr>r_ret := - 1, r_errno := 2\<rparr>]) of (_, s') \<Rightarrow>
    pending s' = Some (IOException (''Port not found: '' @ [CHR 0x22] @ ''/dev/ttyS9'' @ [CHR 0x22]))"
  using open0_error_text [of "closed_state [resp0\<lparr>r_ret := - 1, r_errno := 2\<rparr>]" scripted "''/dev/ttyS9''"
      linux_consts "resp0\<lparr>r_ret := - 1, r_errno := 2\<rparr>" "open_sps\<lparr>spsw_fd := - 1\<rparr>" "[]" plain_lib 0]
  by (simp add: INVALID_FD_def scripted_def example_vm_def open_error_text_def linux_consts_def snprintf_def
      split: prod.splits)

text \<open>
  \<open>close0\<close> marks the object closed, writes the close event that wakes waiting
  readers and writers before it closes the port, and throws only when \<open>close\<close> fails.
\<close>

theorem close0_effect:
  assumes "quiet os"
  shows "case run_state (close0 c os) s of (_, s') \<Rightarrow>
    sps s' = (sps s)\<lparr>spsw_fd := INVALID_FD, spsw_closeEventReadFd := INVALID_FD,
      spsw_closeEventWriteFd := INVALID_FD\<rparr> \<and>
    (\<exists>r1 r2 r3. calls s' = calls s @ [(Write (spsw_closeEventWriteFd (sps s)) (uint64_bytes c 1), r1),
        (Tcflush (spsw_fd (sps s)) (TCIOFLUSH c), r2), (Close (spsw_fd (sps s)), r3)] \<and>
      (if r_ret r3 = 0 then pending s' = pending s else is_pending s'))"
proof -
  have "wp (close0 c os) (\<lambda>_ s'. sps s' = (sps s)\<lparr>spsw_fd := INVALID_FD, spsw_closeEventReadFd := INVALID_FD,
      spsw_closeEventWriteFd := INVALID_FD\<rparr> \<and>
    (\<exists>r1 r2 r3. calls s' = calls s @ [(Write (spsw_closeEventWriteFd (sps s)) (uint64_bytes c 1), r1),
        (Tcflush (spsw_fd (sps s)) (TCIOFLUSH c), r2), (Close (spsw_fd (sps s)), r3)] \<and>
      (if r_ret r3 = 0 then pending s' = pending s else is_pending s'))) s"
    by (rule close0_wp [OF assms]) blast
  then show ?thesis by (simp add: wp_def split: prod.splits)
qed

theorem close0_effect_witness:
  "case run_state (close0 linux_consts fd_device) (example_state 5) of (_, s') \<Rightarrow>
    spsw_fd (sps s') = - 1 \<and> (\<exists>r1 r2 r3. calls s' = [(Write 4 [1, 0, 0, 0, 0, 0, 0, 0], r1),
        (Tcflush 3 2, r2), (Close 3, r3)])"
  using close0_effect [OF quiet_fd_device, where c = linux_consts and s = "example_state 5"]
  by (auto simp: INVALID_FD_def open_sps_def uint64_bytes_def linux_consts_def split: prod.splits)

text \<open>
  \<open>drainOutputBuffer\<close> returns without an exception only when the port was writable,
  no close event was there, and \<open>tcdrain\<close> on the port succeeded as the last call.
\<close>

theorem drainOutputBuffer_drains:
  "case run_state (drainOutputBuffer c os) s of (_, s') \<Rightarrow> is_pending s' \<or>
     (pending s' = pending s \<and> (\<exists>p r. calls s' = calls s @
        [(Poll [(spsw_fd (sps s), POLLOUT c), (spsw_closeEventReadFd (sps s), POLLIN c)] (spsw_pollWriteTimeout (sps s)), p),
         (Tcdrain (spsw_fd (sps s)), r)] \<and> 0 < r_ret p \<and> r_revents1 p \<noteq> POLLIN c \<and> r_revents0 p = POLLOUT c \<and> r_ret r = 0))"
  using drain_wp [of c os s] by (simp add: wp_def split: prod.splits)

end
