(* ===== verification/TermiosIO.thy ===== *)
theory TermiosIO
  imports TermiosCommon
begin

text \<open>
  \<open>TermiosIO.c\<close>: reading and writing with timeouts, and the break. The C functions
  wait with \<open>poll\<close> on the port and on the close event, so that closing the port in
  another thread ends the wait.

  The two loops may run forever (a device can keep reporting that it is readable and give
  nothing), so \<open>readBuffer\<close> and \<open>writeBuffer\<close> give an option: \<open>None\<close> is a call
  that does not return. \<open>junk\<close> is what the object \<open>endTime\<close> holds before it is
  written; reading it then is recorded in the state.
\<close>

section \<open>Time\<close>

text \<open>\<open>None\<close> is a \<open>struct timespec\<close> that has not been initialised.\<close>

definition end_time :: "'w os \<Rightarrow> int \<Rightarrow> ('w pstate, (int \<times> int) option) state" where
  "end_time os pollTimeout =
     (if 0 < pollTimeout then do {
        now \<leftarrow> syscall os Clock_gettime;
        let sec = r_sec now + pollTimeout sdiv 1000;
        let nsec = r_nsec now + (pollTimeout smod 1000) * 1000000;
        State_Monad.return (Some (if 1000000000 < nsec then (sec + 1, nsec - 1000000000) else (sec, nsec)))
      } else State_Monad.return None)"

text \<open>The sum is computed in \<open>int\<close>; its overflow is the wrap-around of \<open>int32\<close>.\<close>

definition remaining_time ::
  "'w os \<Rightarrow> int \<times> int \<Rightarrow> (int \<times> int) option \<Rightarrow> ('w pstate, int) state" where
  "remaining_time os junk endTime = do {
     now \<leftarrow> syscall os Clock_gettime;
     e \<leftarrow> (case endTime of Some e \<Rightarrow> State_Monad.return e
           | None \<Rightarrow> do {
               mark_uninit;
               State_Monad.return junk
             });
     State_Monad.return (int32 (int32 (int32 (fst e - r_sec now) * 1000)
       + int32 ((snd e - r_nsec now) sdiv 1000000)))
   }"

section \<open>Reading\<close>

text \<open>
  What follows a \<open>poll\<close> that reported events: True when the port can be read, False
  when an exception has been thrown.
\<close>

definition read_events :: "posix \<Rightarrow> presp \<Rightarrow> ('w pstate, bool) state" where
  "read_events c p =
     (if r_revents1 p = POLLIN c then do {
        throw_AsynchronousCloseException;
        State_Monad.return False
      } else if r_revents0 p = POLLIN c then State_Monad.return True
      else if r_revents0 p AND POLLHUP c = POLLHUP c then do {
        throw_IOException PORT_FD_INVALID;
        State_Monad.return False
      } else if r_revents0 p AND POLLNVAL c = POLLNVAL c then do {
        throw_AsynchronousCloseException;
        State_Monad.return False
      } else do {
        throw_InterruptedIOExceptionWithError 0 ''readBytes poll: received poll event'';
        State_Monad.return False
      })"

text \<open>
  The first \<open>read\<close>, which does not wait: \<open>Inl\<close> is a return, \<open>Inr\<close> the number of
  bytes read so far.
\<close>

definition read_first ::
  "posix \<Rightarrow> 'w os \<Rightarrow> int \<Rightarrow> bytes \<Rightarrow> int \<Rightarrow> ('w pstate, (int \<times> bytes) + (int \<times> bytes)) state" where
  "read_first c os fd buff len = do {
     (nread, buff1) \<leftarrow> sys_read os fd buff 0 (nat (uint32 len));
     if nread < 0 then do {
       now \<leftarrow> GetField spsw_fd;
       s \<leftarrow> State_Monad.get;
       if now = INVALID_FD then do {
         throw_AsynchronousCloseException;
         State_Monad.return (Inl (- 1, buff1))
       } else if errno s = EAGAIN c then State_Monad.return (Inr (0, buff1))
       else do {
         throw_InterruptedIOExceptionWithError 0 ''readBytes: read error during first invocation of read()'';
         State_Monad.return (Inl (- 1, buff1))
       }
     } else if nread = len then State_Monad.return (Inl (int32 nread, buff1))
     else State_Monad.return (Inr (nread, buff1))
   }"

text \<open>Nothing was there: wait for the first bytes and read them.\<close>

definition read_wait ::
  "posix \<Rightarrow> 'w os \<Rightarrow> int \<Rightarrow> int \<Rightarrow> int \<Rightarrow> bytes \<Rightarrow> int \<Rightarrow> ('w pstate, (int \<times> bytes) + (int \<times> bytes)) state" where
  "read_wait c os fd close_fd pollTimeout buff len = do {
     p \<leftarrow> syscall os (Poll [(fd, POLLIN c), (close_fd, POLLIN c)] pollTimeout);
     if r_ret p = 0 then do {
       throw_TimeoutIOException 0 ''readBuffer poll timeout'';
       State_Monad.return (Inl (- 1, buff))
     } else if r_ret p < 0 then do {
       throw_InterruptedIOExceptionWithError 0 ''readBytes poll: Error during poll'';
       State_Monad.return (Inl (- 1, buff))
     } else do {
       ready \<leftarrow> read_events c p;
       if \<not> ready then State_Monad.return (Inl (- 1, buff))
       else do {
         (nread, buff1) \<leftarrow> sys_read os fd buff 0 (nat (uint32 len));
         if nread < 0 then do {
           now \<leftarrow> GetField spsw_fd;
           (if now = INVALID_FD then throw_AsynchronousCloseException
            else throw_InterruptedIOExceptionWithError 0 ''readBytes read error: Should never happen'');
           State_Monad.return (Inl (- 1, buff1))
         } else if nread = len then State_Monad.return (Inl (int32 nread, buff1))
         else State_Monad.return (Inr (nread, buff1))
       }
     }
   }"

text \<open>How long a round of the loop may wait; None when the overall time is over.\<close>

definition read_timeout ::
  "'w os \<Rightarrow> int \<times> int \<Rightarrow> (int \<times> int) option \<Rightarrow> int \<Rightarrow> int \<Rightarrow> ('w pstate, int option) state" where
  "read_timeout os junk endTime pollTimeout interByteTimeout =
     (if pollTimeout = - 1 then State_Monad.return (Some interByteTimeout)
      else do {
        remainingTimeOut \<leftarrow> remaining_time os junk endTime;
        State_Monad.return (if remainingTimeOut < 0 then None
          else Some (if interByteTimeout < remainingTimeOut then interByteTimeout else remainingTimeOut))
      })"

text \<open>
  The loop body behind a \<open>poll\<close> that reported events, with the loop condition. A
  \<open>read\<close> that gives nothing throws but does not leave the loop.
\<close>

definition read_chunk ::
  "posix \<Rightarrow> 'w os \<Rightarrow> int \<Rightarrow> int \<Rightarrow> int \<Rightarrow> bytes \<Rightarrow> presp \<Rightarrow> ('w pstate, (int \<times> bytes) + (int \<times> bytes)) state" where
  "read_chunk c os fd len overallRead buff p = do {
     ready \<leftarrow> read_events c p;
     if \<not> ready then State_Monad.return (Inl (- 1, buff))
     else do {
       (nread, buff1) \<leftarrow> sys_read os fd buff (nat overallRead) (nat (size_t (uint32 len - overallRead)));
       if 0 < nread then
         State_Monad.return (if overallRead + nread < len then Inr (overallRead + nread, buff1)
           else Inl (int32 (overallRead + nread), buff1))
       else do {
         now \<leftarrow> GetField spsw_fd;
         if now = INVALID_FD then do {
           throw_AsynchronousCloseException;
           State_Monad.return (Inl (- 1, buff1))
         } else if nread = 0 then do {
           throw_InterruptedIOExceptionWithError 0
             ''readBytes: nothing to read after successful polling: Should never happen'';
           State_Monad.return (if overallRead < len then Inr (overallRead, buff1)
             else Inl (int32 overallRead, buff1))
         } else do {
           throw_InterruptedIOExceptionWithError 0 ''readBytes read error: Should never happen'';
           State_Monad.return (Inl (- 1, buff1))
         }
       }
     }
   }"

text \<open>One round of the loop: \<open>Inl\<close> leaves it, \<open>Inr\<close> goes on.\<close>

definition read_round ::
  "posix \<Rightarrow> 'w os \<Rightarrow> int \<times> int \<Rightarrow> int \<Rightarrow> int \<Rightarrow> int \<Rightarrow> (int \<times> int) option \<Rightarrow> int \<Rightarrow> int
     \<Rightarrow> int \<times> bytes \<Rightarrow> ('w pstate, (int \<times> bytes) + (int \<times> bytes)) state" where
  "read_round c os junk fd close_fd pollTimeout endTime interByteTimeout len = (\<lambda>(overallRead, buff). do {
     timeout \<leftarrow> read_timeout os junk endTime pollTimeout interByteTimeout;
     case timeout of None \<Rightarrow> State_Monad.return (Inl (int32 overallRead, buff))
     | Some t \<Rightarrow> do {
         p \<leftarrow> syscall os (Poll [(fd, POLLIN c), (close_fd, POLLIN c)] t);
         if r_ret p = 0 then State_Monad.return (Inl (int32 overallRead, buff))
         else if r_ret p < 0 then do {
           throw_InterruptedIOExceptionWithError 0 ''readBytes poll: Error during poll'';
           State_Monad.return (Inl (- 1, buff))
         } else read_chunk c os fd len overallRead buff p
       }
   })"

text \<open>Everything before the loop: \<open>Inr\<close> gives what the loop starts with.\<close>

definition read_start ::
  "posix \<Rightarrow> 'w os \<Rightarrow> bytes \<Rightarrow> int \<Rightarrow> ('w pstate, (int \<times> bytes)
     + (int \<times> int \<times> int \<times> (int \<times> int) option \<times> int \<times> int \<times> bytes)) state" where
  "read_start c os buff len = do {
     fd \<leftarrow> GetField spsw_fd;
     close_fd \<leftarrow> GetField spsw_closeEventReadFd;
     first \<leftarrow> read_first c os fd buff len;
     case first of Inl ret \<Rightarrow> State_Monad.return (Inl ret)
     | Inr (nread, buff1) \<Rightarrow> do {
         pollTimeout \<leftarrow> GetField spsw_pollReadTimeout;
         endTime \<leftarrow> end_time os pollTimeout;
         waited \<leftarrow> (if nread = 0 then read_wait c os fd close_fd pollTimeout buff1 len
                    else State_Monad.return (Inr (nread, buff1)));
         case waited of Inl ret \<Rightarrow> State_Monad.return (Inl ret)
         | Inr (overallRead, buff2) \<Rightarrow> do {
             interByteTimeout \<leftarrow> GetField spsw_interByteReadTimeout;
             State_Monad.return (Inr (fd, close_fd, pollTimeout, endTime, interByteTimeout, overallRead, buff2))
           }
       }
   }"

definition readBuffer ::
  "posix \<Rightarrow> 'w os \<Rightarrow> int \<times> int \<Rightarrow> bytes \<Rightarrow> int \<Rightarrow> 'w pstate \<Rightarrow> ((int \<times> bytes) \<times> 'w pstate) option" where
  "readBuffer c os junk buff len s =
     (case run_state (read_start c os buff len) s of (x, s1) \<Rightarrow> (case x of
        Inl ret \<Rightarrow> Some (ret, s1)
      | Inr (fd, close_fd, pollTimeout, endTime, interByteTimeout, overallRead, buff1) \<Rightarrow>
          do_while (\<lambda>a. run_state (read_round c os junk fd close_fd pollTimeout endTime interByteTimeout len a))
            (overallRead, buff1) s1))"

section \<open>Writing\<close>

definition write_events :: "posix \<Rightarrow> presp \<Rightarrow> int \<Rightarrow> int \<Rightarrow> ('w pstate, int option) state" where
  "write_events c p written offset =
     (if r_revents1 p = POLLIN c then do {
        throw_AsynchronousCloseException;
        State_Monad.return (Some (int32 written))
      } else if r_revents0 p = POLLOUT c then State_Monad.return None
      else if r_revents0 p AND POLLHUP c = POLLHUP c then do {
        throw_IOException PORT_FD_INVALID;
        State_Monad.return (Some (- 1))
      } else if r_revents0 p AND POLLNVAL c = POLLNVAL c then do {
        throw_AsynchronousCloseException;
        State_Monad.return (Some (- 1))
      } else do {
        throw_InterruptedIOExceptionWithError offset ''poll returned with poll event writeBytes'';
        State_Monad.return (Some (int32 written))
      })"

text \<open>The first \<open>write\<close>, which does not wait: \<open>Inr w\<close> is what it has written.\<close>

definition write_first ::
  "posix \<Rightarrow> 'w os \<Rightarrow> int \<Rightarrow> bytes \<Rightarrow> int \<Rightarrow> ('w pstate, int + int) state" where
  "write_first c os fd buff len = do {
     w \<leftarrow> syscall os (Write fd (take (nat (uint32 len)) buff));
     let written = r_ret w;
     if written = len then State_Monad.return (Inl (int32 written))
     else if written < 0 then do {
       s \<leftarrow> State_Monad.get;
       if errno s = EAGAIN c then State_Monad.return (Inr 0)
       else do {
         (if fd = INVALID_FD then throw_AsynchronousCloseException
          else throw_InterruptedIOExceptionWithError 0 ''unknown port error 1 writeBytes'');
         State_Monad.return (Inl (int32 written))
       }
     } else State_Monad.return (Inr written)
   }"

text \<open>How long a round may wait: \<open>Inl\<close> is the return of an expired overall timeout.\<close>

definition write_timeout ::
  "'w os \<Rightarrow> int \<times> int \<Rightarrow> (int \<times> int) option \<Rightarrow> int \<Rightarrow> int \<Rightarrow> ('w pstate, int + int) state" where
  "write_timeout os junk endTime pollTimeout written =
     (if 0 \<le> pollTimeout then do {
        remainingTimeOut \<leftarrow> remaining_time os junk endTime;
        if remainingTimeOut < 0 then do {
          throw_TimeoutIOException written ''writeBuffer overallWriteTimeout'';
          State_Monad.return (Inl (int32 written))
        } else State_Monad.return (Inr remainingTimeOut)
      } else State_Monad.return (Inr (- 1)))"

text \<open>The loop body behind a \<open>poll\<close> that reported events, with the loop condition.\<close>

definition write_chunk ::
  "posix \<Rightarrow> 'w os \<Rightarrow> int \<Rightarrow> bytes \<Rightarrow> int \<Rightarrow> int \<Rightarrow> int \<Rightarrow> presp \<Rightarrow> ('w pstate, int + (int \<times> int)) state" where
  "write_chunk c os fd buff len written offset p = do {
     stop \<leftarrow> write_events c p written offset;
     case stop of Some ret \<Rightarrow> State_Monad.return (Inl ret)
     | None \<Rightarrow> do {
         w \<leftarrow> syscall os (Write fd (take (nat (size_t (uint32 len - offset))) (drop (nat offset) buff)));
         if r_ret w < 0 then do {
           (if fd = INVALID_FD then throw_AsynchronousCloseException
            else throw_InterruptedIOExceptionWithError 0 ''unknown port error 2 writeBytes'');
           State_Monad.return (Inl (int32 (r_ret w)))
         } else State_Monad.return (if offset + r_ret w < uint32 len then Inr (r_ret w, offset + r_ret w)
             else Inl (int32 (r_ret w)))
       }
   }"

text \<open>One round of the loop, from the last chunk and the number of bytes written so far.\<close>

definition write_round ::
  "posix \<Rightarrow> 'w os \<Rightarrow> int \<times> int \<Rightarrow> int \<Rightarrow> int \<Rightarrow> int \<Rightarrow> (int \<times> int) option \<Rightarrow> bytes \<Rightarrow> int
     \<Rightarrow> int \<times> int \<Rightarrow> ('w pstate, int + (int \<times> int)) state" where
  "write_round c os junk fd close_fd pollTimeout endTime buff len = (\<lambda>(written, offset). do {
     timeout \<leftarrow> write_timeout os junk endTime pollTimeout written;
     case timeout of Inl ret \<Rightarrow> State_Monad.return (Inl ret)
     | Inr remainingTimeOut \<Rightarrow> do {
         p \<leftarrow> syscall os (Poll [(fd, POLLOUT c), (close_fd, POLLIN c)] remainingTimeOut);
         if r_ret p = 0 then do {
           throw_TimeoutIOException offset ''writeBuffer poll timeout'';
           State_Monad.return (Inl (int32 written))
         } else if r_ret p < 0 then do {
           throw_InterruptedIOExceptionWithError offset ''poll timeout with error writeBytes'';
           State_Monad.return (Inl (int32 written))
         } else write_chunk c os fd buff len written offset p
       }
   })"

definition write_start ::
  "posix \<Rightarrow> 'w os \<Rightarrow> bytes \<Rightarrow> int \<Rightarrow> ('w pstate, int
     + (int \<times> int \<times> int \<times> (int \<times> int) option \<times> int)) state" where
  "write_start c os buff len = do {
     fd \<leftarrow> GetField spsw_fd;
     pollTimeout \<leftarrow> GetField spsw_pollWriteTimeout;
     first \<leftarrow> write_first c os fd buff len;
     case first of Inl ret \<Rightarrow> State_Monad.return (Inl ret)
     | Inr written \<Rightarrow> do {
         endTime \<leftarrow> end_time os pollTimeout;
         close_fd \<leftarrow> GetField spsw_closeEventReadFd;
         State_Monad.return (Inr (fd, close_fd, pollTimeout, endTime, written))
       }
   }"

definition writeBuffer ::
  "posix \<Rightarrow> 'w os \<Rightarrow> int \<times> int \<Rightarrow> bytes \<Rightarrow> int \<Rightarrow> 'w pstate \<Rightarrow> (int \<times> 'w pstate) option" where
  "writeBuffer c os junk buff len s =
     (case run_state (write_start c os buff len) s of (x, s1) \<Rightarrow> (case x of
        Inl ret \<Rightarrow> Some (ret, s1)
      | Inr (fd, close_fd, pollTimeout, endTime, written) \<Rightarrow>
          do_while (\<lambda>a. run_state (write_round c os junk fd close_fd pollTimeout endTime buff len a))
            (written, written) s1))"

section \<open>Break and software flow control\<close>

definition sendBreak0 :: "'w os \<Rightarrow> int \<Rightarrow> ('w pstate, unit) state" where
  "sendBreak0 os duration =
     (if duration \<le> 0 then throw_IllegalArgumentException ''sendBreak duration must be grater than 0''
      else do {
        fd \<leftarrow> GetField spsw_fd;
        b \<leftarrow> syscall os (Ioctl fd TIOCSBRK);
        if r_ret b \<noteq> 0 then throw_ClosedOrNativeException ''Can't sendBreak''
        else do {
          u \<leftarrow> syscall os (Usleep (uint32 (uint32 duration * 1000)));
          if r_ret u \<noteq> 0 then throw_RuntimeException ''Error sendBreak usleep failed''
          else do {
            e \<leftarrow> syscall os (Ioctl fd TIOCCBRK);
            if r_ret e \<noteq> 0 then throw_ClosedOrNativeException ''Can't sendBreak''
            else State_Monad.return ()
          }
        }
      })"

definition sendXOFF :: "('w pstate, unit) state" where
  "sendXOFF = throw_IllegalArgumentException ''sendXOFF not implemented yet''"

definition sendXON :: "('w pstate, unit) state" where
  "sendXON = throw_IllegalArgumentException ''sendXON not implemented yet''"

section \<open>The bytes that were transferred\<close>

text \<open>
  What the calls so far have read from and written to a descriptor, in order: the reference
  the results of \<open>readBuffer\<close> and \<open>writeBuffer\<close> are compared with.
\<close>

definition read_data :: "int \<Rightarrow> pcall \<Rightarrow> presp \<Rightarrow> bytes" where
  "read_data fd c r = (case c of Read fd' n \<Rightarrow> if fd' = fd \<and> 0 < r_ret r then r_data r else [] | _ \<Rightarrow> [])"

definition received :: "int \<Rightarrow> 'w pstate \<Rightarrow> bytes" where
  "received fd s = concat (map (\<lambda>(c, r). read_data fd c r) (calls s))"

definition write_data :: "int \<Rightarrow> pcall \<Rightarrow> presp \<Rightarrow> bytes" where
  "write_data fd c r = (case c of Write fd' bs \<Rightarrow> if fd' = fd then take (nat (r_ret r)) bs else [] | _ \<Rightarrow> [])"

definition sent :: "int \<Rightarrow> 'w pstate \<Rightarrow> bytes" where
  "sent fd s = concat (map (\<lambda>(c, r). write_data fd c r) (calls s))"

lemma received_answered [simp]: "received fd (answered c r obj w s) = received fd s @ read_data fd c r"
  by (simp add: received_def)

lemma sent_answered [simp]: "sent fd (answered c r obj w s) = sent fd s @ write_data fd c r"
  by (simp add: sent_def)

lemma transferred_upd [simp]:
  "received fd (s\<lparr>pending := e\<rparr>) = received fd s" "received fd (s\<lparr>uninit_read := b\<rparr>) = received fd s"
  "sent fd (s\<lparr>pending := e\<rparr>) = sent fd s" "sent fd (s\<lparr>uninit_read := b\<rparr>) = sent fd s"
  by (simp_all add: received_def sent_def)

lemma transfer_data [simp]:
  "read_data fd (Read fd n) r = (if 0 < r_ret r then r_data r else [])"
  "read_data fd (Write a bs) r = []" "read_data fd (Poll p t) r = []" "read_data fd Clock_gettime r = []"
  "write_data fd (Write fd bs) r = take (nat (r_ret r)) bs"
  "write_data fd (Read a n) r = []" "write_data fd (Poll p t) r = []" "write_data fd Clock_gettime r = []"
  by (simp_all add: read_data_def write_data_def)

text \<open>The first \<open>n\<close> bytes of the buffer are the ones received since the start; the rest is untouched.\<close>

definition got :: "int \<Rightarrow> bytes \<Rightarrow> bytes \<Rightarrow> int \<Rightarrow> bytes \<Rightarrow> 'w pstate \<Rightarrow> bool" where
  "got fd rec0 b0 n b t \<longleftrightarrow> 0 \<le> n \<and> received fd t = rec0 @ take (nat n) b \<and>
     drop (nat n) b = drop (nat n) b0 \<and> length b = length b0"

lemma got_cong: "got fd rec0 b0 n b t \<Longrightarrow> received fd t' = received fd t \<Longrightarrow> got fd rec0 b0 n b t'"
  by (simp add: got_def)

lemma got_pending [simp]: "got fd rec0 b0 n b (t\<lparr>pending := e\<rparr>) = got fd rec0 b0 n b t"
  by (simp add: got_def)

lemma got_read:
  assumes g: "got fd rec0 b0 n b t" and d: "length d = nat k" "0 < k" "n + k \<le> int (length b0)"
    and t': "received fd t' = received fd t @ d"
  shows "got fd rec0 b0 (n + k) (store b (nat n) d) t'"
proof -
  have n: "nat (n + k) = nat n + length d" "nat n + length d \<le> length b"
    using g d by (auto simp: got_def nat_add_distrib)
  then have "take (nat n + length d) (store b (nat n) d) = take (nat n) b @ d"
    "drop (nat n + length d) (store b (nat n) d) = drop (nat n + length d) b"
    by (simp_all add: store_def)
  moreover have "drop (length d) (drop (nat n) b) = drop (length d) (drop (nat n) b0)"
    using g by (simp add: got_def)
  then have "drop (nat n + length d) b = drop (nat n + length d) b0"
    by (simp add: add.commute)
  ultimately show ?thesis
    using g d n t' by (simp add: got_def length_store)
qed

lemma got_empty: "got fd (received fd t) b 0 b t"
  by (simp add: got_def)

section \<open>Rules for the parts\<close>

text \<open>Throwing anything but a timeout.\<close>

definition other :: "throwable \<Rightarrow> bool" where
  "other e \<longleftrightarrow> (\<forall>m k. e \<noteq> TimeoutIOException m k)"

lemma other_simps [simp]:
  "other AsynchronousCloseException" "other (IOException m)" "other (InterruptedIOException m k)"
  by (simp_all add: other_def)

lemmas throwers = throw_AsynchronousCloseException_def throw_IOException_def
  throw_InterruptedIOExceptionWithError_def throw_TimeoutIOException_def

lemma wp_other:
  assumes "\<And>e. other e \<Longrightarrow> Q () (s\<lparr>pending := Some e\<rparr>)"
  shows "wp throw_AsynchronousCloseException Q s" "wp (throw_IOException msg) Q s"
    "wp (throw_InterruptedIOExceptionWithError n msg) Q s"
  using assms by (simp_all add: throwers wp_simps)


text \<open>
  A device that gives at least one byte to a \<open>read\<close> that follows a \<open>poll\<close> that
  found it readable, as a terminal does that has not been hung up.
\<close>

definition readable_after_poll :: "posix \<Rightarrow> 'w os \<Rightarrow> int \<Rightarrow> bool" where
  "readable_after_poll c os fd \<longleftrightarrow> (\<forall>fds t x. case os (Poll fds t) x of (r, x') \<Rightarrow>
     0 < r_ret r \<longrightarrow> r_revents0 r = POLLIN c \<longrightarrow> (\<forall>n>0. r_ret (fst (os (Read fd n) x')) \<noteq> 0))"

lemma readable_after_pollD:
  "readable_after_poll c os fd \<Longrightarrow> os (Poll fds t) x = (r, y, z) \<Longrightarrow> 0 < r_ret r \<Longrightarrow> r_revents0 r = POLLIN c \<Longrightarrow>
     os (Read fd n) (y, z) = (r', x') \<Longrightarrow> 0 < n \<Longrightarrow> r_ret r' \<noteq> 0"
  unfolding readable_after_poll_def
  by (drule spec [of _ fds], drule spec [of _ t], drule spec [of _ x]) (simp, drule spec [of _ n], simp)

lemma sys_read_wp:
  assumes rd: "posix_read os"
    and none: "\<And>r obj w. os (Read fd n) (sps s, world s) = (r, obj, w) \<Longrightarrow> r_ret r = - 1 \<or> r_ret r = 0 \<Longrightarrow>
      Q (r_ret r, buff) (answered (Read fd n) r obj w s)"
    and some: "\<And>r obj w. os (Read fd n) (sps s, world s) = (r, obj, w) \<Longrightarrow> 0 < r_ret r \<Longrightarrow> r_ret r \<le> int n \<Longrightarrow>
      length (r_data r) = nat (r_ret r) \<Longrightarrow>
      Q (r_ret r, store buff off (r_data r)) (answered (Read fd n) r obj w s)"
  shows "wp (sys_read os fd buff off n) Q s"
  unfolding sys_read_def wp_bind
proof (rule syscall_wp)
  fix r obj w assume call: "os (Read fd n) (sps s, world s) = (r, obj, w)"
  consider "0 < r_ret r" | "r_ret r = 0" | "r_ret r = - 1"
    using posix_readD [OF rd call] by linarith
  then show "wp (State_Monad.return (r_ret r, if 0 < r_ret r then store buff off (r_data r) else buff)) Q
      (answered (Read fd n) r obj w s)"
    using posix_readD [OF rd call] none [OF call] some [OF call] by cases (simp_all add: wp_return)
qed

lemma end_time_wp:
  assumes "\<And>e t'. (e = None \<longleftrightarrow> pollTimeout \<le> 0) \<Longrightarrow> (\<And>fd. received fd t' = received fd t) \<Longrightarrow> (\<And>fd. sent fd t' = sent fd t) \<Longrightarrow>
      pending t' = pending t \<Longrightarrow> uninit_read t' = uninit_read t \<Longrightarrow> Q e t'"
  shows "wp (end_time os pollTimeout) Q t"
  unfolding end_time_def wp_if wp_bind
  by (auto simp: wp_simps Let_def intro!: syscall_wp assms)

lemma remaining_time_wp:
  assumes "\<And>x t'. (\<And>fd. received fd t' = received fd t) \<Longrightarrow> (\<And>fd. sent fd t' = sent fd t) \<Longrightarrow>
      pending t' = pending t \<Longrightarrow> (e \<noteq> None \<Longrightarrow> uninit_read t' = uninit_read t) \<Longrightarrow> Q x t'"
  shows "wp (remaining_time os junk e) Q t"
  unfolding remaining_time_def wp_bind
  by (rule syscall_wp) (auto simp: wp_simps intro!: assms split: option.splits)

lemma read_timeout_wp:
  assumes "\<And>x t'. received fd t' = received fd t \<Longrightarrow> pending t' = pending t \<Longrightarrow>
      (e \<noteq> None \<or> pollTimeout = - 1 \<Longrightarrow> uninit_read t' = uninit_read t) \<Longrightarrow> Q x t'"
  shows "wp (read_timeout os junk e pollTimeout interByteTimeout) Q t"
  unfolding read_timeout_def wp_if wp_bind
  by (auto simp: wp_return intro!: assms remaining_time_wp)

lemma read_events_wp:
  assumes "r_revents1 p \<noteq> POLLIN c \<Longrightarrow> r_revents0 p = POLLIN c \<Longrightarrow> Q True s"
    and "\<And>e. other e \<Longrightarrow> Q False (s\<lparr>pending := Some e\<rparr>)"
  shows "wp (read_events c p) Q s"
  unfolding read_events_def wp_if wp_bind using assms by (auto simp: wp_return intro!: wp_other)

section \<open>readBuffer\<close>

text \<open>
  What a step of \<open>readBuffer\<close> guarantees of its result. \<open>live\<close> is a device that gives
  data when it says so, \<open>inited\<close> an end time that is not read or has been set.
\<close>

definition read_result :: "int \<Rightarrow> bytes \<Rightarrow> bytes \<Rightarrow> int \<Rightarrow> bool \<Rightarrow> 'w pstate \<Rightarrow> int \<times> bytes \<Rightarrow> 'w pstate \<Rightarrow> bool" where
  "read_result fd rec0 b0 len live t x t' \<longleftrightarrow> (case x of (n, b) \<Rightarrow>
     (n = - 1 \<and> is_pending t' \<and>
       (\<forall>m k. pending t' = Some (TimeoutIOException m k) \<longrightarrow> k = 0 \<and> received fd t' = rec0)) \<or>
     (n \<le> len \<and> got fd rec0 b0 n b t' \<and> (live \<longrightarrow> pending t' = pending t)))"

lemma read_sizes:
  assumes "0 \<le> n" "n \<le> len" "len < 2 ^ 31"
  shows "int32 n = n" "nat (size_t (uint32 len - n)) = nat (len - n)" "nat (uint32 len) = nat len"
  using assms by (auto simp: int32_def uint32_def size_t_def signed_take_bit_int_eq_self take_bit_int_eq_self)

definition round_result ::
  "int \<Rightarrow> bytes \<Rightarrow> bytes \<Rightarrow> int \<Rightarrow> bool \<Rightarrow> int \<Rightarrow> 'w pstate \<Rightarrow> (int \<times> bytes) + (int \<times> bytes) \<Rightarrow> 'w pstate \<Rightarrow> bool" where
  "round_result fd rec0 b0 len live n t x t' \<longleftrightarrow> (case x of
     Inl ret \<Rightarrow> read_result fd rec0 b0 len live t ret t'
   | Inr (n', b') \<Rightarrow> n' < len \<and> got fd rec0 b0 n' b' t' \<and> (live \<longrightarrow> pending t' = pending t \<and> n < n'))"

lemma read_chunk_wp:
  fixes c :: posix and os :: "'w os" and fd :: int
  defines "live \<equiv> readable_after_poll c os fd"
  assumes rd: "posix_read os" and len: "len \<le> int (length b0)" "len < 2 ^ 31"
    and g: "got fd rec0 b0 n b t" "n < len"
    and poll: "os (Poll fds tm) x0 = (p, sps t, world t)" "0 < r_ret p"
  shows "wp (read_chunk c os fd len n b p) (\<lambda>x t'. uninit_read t' = uninit_read t \<and>
    round_result fd rec0 b0 len live n t x t') t"
proof -
  have n: "0 \<le> n" using g by (simp add: got_def)
  have sizes: "nat (size_t (uint32 len - n)) = nat (len - n)" "int32 n = n"
    using read_sizes [OF n _ len(2)] g(2) by simp_all
  have more: "int32 (n + k) = n + k" if "k \<le> int (nat (len - n))" "0 < k" for k
    using that n g(2) len(2) by (intro read_sizes(1)) auto
  have alive: "live \<Longrightarrow> r_revents0 p = POLLIN c \<Longrightarrow> os (Read fd (nat (len - n))) (sps t, world t) = (r, x) \<Longrightarrow> r_ret r \<noteq> 0" for r x
    using readable_after_pollD [of c os fd, OF _ poll, of "nat (len - n)" r x] g(2) by (simp add: live_def)
  show ?thesis
    unfolding read_chunk_def wp_bind
    apply (rule read_events_wp; simp add: wp_simps sizes)
     apply (rule sys_read_wp [OF rd])
    subgoal for r obj w
      using g alive [of r]
      by (auto simp: wp_simps round_result_def read_result_def live_def other_def intro!: wp_other got_cong [OF g(1)])
    subgoal for r obj w
      using more [of "r_ret r"] got_read [OF g(1), of "r_data r" "r_ret r" "answered (Read fd (nat (len - n))) r obj w t"] g(2) len n
      by (auto simp: wp_simps round_result_def read_result_def sizes)
    apply (simp add: round_result_def read_result_def other_def)
    done
qed

lemma read_round_wp:
  fixes c :: posix and os :: "'w os" and fd :: int
  defines "live \<equiv> readable_after_poll c os fd"
  assumes rd: "posix_read os" and len: "len \<le> int (length b0)" "len < 2 ^ 31"
    and g: "got fd rec0 b0 n b t" "n < len"
  shows "wp (read_round c os junk fd cfd pt et ib len (n, b)) (\<lambda>x t'.
    (et \<noteq> None \<or> pt = - 1 \<longrightarrow> uninit_read t' = uninit_read t) \<and>
    round_result fd rec0 b0 len live n t x t') t"
  unfolding read_round_def prod.case wp_bind
proof (rule read_timeout_wp)
  fix x and t1 :: "'w pstate"
  assume t1: "received fd t1 = received fd t" "pending t1 = pending t"
    "et \<noteq> None \<or> pt = - 1 \<Longrightarrow> uninit_read t1 = uninit_read t"
  have n: "int32 n = n" using g len(2) by (intro read_sizes(1) [of n len]) (auto simp: got_def)
  have g1: "got fd rec0 b0 n b t2" if "received fd t2 = received fd t1" for t2
    using got_cong [OF g(1), of t2] that t1(1) by simp
  define Q where "Q = (\<lambda>x t'. (et \<noteq> None \<or> pt = - 1 \<longrightarrow> uninit_read t' = uninit_read t) \<and>
    round_result fd rec0 b0 len live n t x t')"
  have chunk: "wp (read_chunk c os fd len n b p) Q t2"
    if "os (Poll fds tm) x0 = (p, sps t2, world t2)" "0 < r_ret p" "received fd t2 = received fd t1"
      "pending t2 = pending t1" "uninit_read t2 = uninit_read t1" for fds tm x0 p and t2 :: "'w pstate"
    by (rule wp_mono [OF read_chunk_wp [OF rd len g1 [OF that(3)] g(2) that(1,2)]])
      (use t1 that in \<open>auto simp: Q_def round_result_def read_result_def live_def split: sum.splits\<close>)
  have stop: "Q (Inl (n, b)) t2" "other e \<Longrightarrow> Q (Inl (- 1, b)) (t2\<lparr>pending := Some e\<rparr>)"
    if "received fd t2 = received fd t1" "pending t2 = pending t1" "uninit_read t2 = uninit_read t1" for t2 e
    using that t1 g1 [of t2] g(2) by (auto simp add: Q_def round_result_def read_result_def other_def)
  have "wp (case x of None \<Rightarrow> State_Monad.return (Inl (int32 n, b))
     | Some tm \<Rightarrow> do {
         p \<leftarrow> syscall os (Poll [(fd, POLLIN c), (cfd, POLLIN c)] tm);
         if r_ret p = 0 then State_Monad.return (Inl (int32 n, b))
         else if r_ret p < 0 then do {
           throw_InterruptedIOExceptionWithError 0 ''readBytes poll: Error during poll'';
           State_Monad.return (Inl (- 1, b))
         } else read_chunk c os fd len n b p
       }) Q t1"
    by (cases x) (auto simp: n wp_bind wp_if wp_return intro!: syscall_wp wp_other chunk stop)
  then show "wp (case x of None \<Rightarrow> State_Monad.return (Inl (int32 n, b))
     | Some tm \<Rightarrow> do {
         p \<leftarrow> syscall os (Poll [(fd, POLLIN c), (cfd, POLLIN c)] tm);
         if r_ret p = 0 then State_Monad.return (Inl (int32 n, b))
         else if r_ret p < 0 then do {
           throw_InterruptedIOExceptionWithError 0 ''readBytes poll: Error during poll'';
           State_Monad.return (Inl (- 1, b))
         } else read_chunk c os fd len n b p
       }) (\<lambda>x t'. (et \<noteq> None \<or> pt = - 1 \<longrightarrow> uninit_read t' = uninit_read t) \<and>
    round_result fd rec0 b0 len live n t x t') t1"
    unfolding Q_def .
qed

lemma got_start:
  assumes g: "got fd rec0 b0 0 b t" and d: "length d = nat k" "0 < k" "k \<le> int (length b0)"
    and t': "received fd t' = received fd t @ d"
  shows "got fd rec0 b0 k (store b 0 d) t'"
  using got_read [OF g, of d k t'] assms by simp

lemma read_first_wp:
  assumes rd: "posix_read os" and len: "0 < len" "len \<le> int (length b0)" "len < 2 ^ 31"
  shows "wp (read_first c os fd b0 len) (\<lambda>x t'. uninit_read t' = uninit_read t \<and>
    (quiet os \<longrightarrow> sps t' = sps t) \<and> (case x of
      Inl ret \<Rightarrow> read_result fd (received fd t) b0 len live t ret t'
    | Inr (n, b) \<Rightarrow> n < len \<and> got fd (received fd t) b0 n b t' \<and> pending t' = pending t)) t"
proof -
  have sizes: "nat (uint32 len) = nat len" "int32 len = len"
    using read_sizes(3) [of len len] read_sizes(1) [of len len] len by simp_all
  show ?thesis
    unfolding read_first_def wp_bind
    apply (rule sys_read_wp [OF rd])
    subgoal for r obj w
      using len got_cong [OF got_empty, of fd "answered (Read fd (nat (uint32 len))) r obj w t" t b0]
      by (auto simp: wp_simps read_result_def sizes other_def intro!: wp_other dest: quietD)
    subgoal for r obj w
      using len got_start [OF got_empty, of "r_data r" "r_ret r" b0 fd "answered (Read fd (nat (uint32 len))) r obj w t" t]
      by (auto simp: wp_simps read_result_def sizes dest: quietD)
    done
qed

lemma read_wait_wp:
  assumes rd: "posix_read os" and len: "0 < len" "len \<le> int (length b0)" "len < 2 ^ 31"
    and g: "got fd rec0 b0 0 b t"
  shows "wp (read_wait c os fd cfd pt b len) (\<lambda>x t'. uninit_read t' = uninit_read t \<and> (case x of
      Inl ret \<Rightarrow> read_result fd rec0 b0 len live t ret t'
    | Inr (n, b') \<Rightarrow> n < len \<and> got fd rec0 b0 n b' t' \<and> pending t' = pending t)) t"
proof -
  have sizes: "nat (uint32 len) = nat len" "int32 len = len"
    using read_sizes(3) [of len len] read_sizes(1) [of len len] len by simp_all
  define Q where "Q = (\<lambda>x (t' :: 'a pstate). uninit_read t' = uninit_read t \<and> (case x of
      Inl ret \<Rightarrow> read_result fd rec0 b0 len live t ret t'
    | Inr (n, b') \<Rightarrow> n < len \<and> got fd rec0 b0 n b' t' \<and> pending t' = pending t))"
  have error: "Q (Inl (- 1, b')) (t'\<lparr>pending := Some e\<rparr>)" if "other e" "uninit_read t' = uninit_read t" for b' t' e
    using that by (simp add: Q_def read_result_def other_def)
  have late: "Q (Inl (- 1, b)) (t'\<lparr>pending := Some (TimeoutIOException m (int32 0))\<rparr>)"
    if "uninit_read t' = uninit_read t" "received fd t' = received fd t" for t' m
    using that g by (simp add: Q_def read_result_def got_def int32_def)
  have read: "wp (sys_read os fd b 0 (nat (uint32 len))) (\<lambda>a. wp (case a of (nread, buff1) \<Rightarrow>
         (if nread < 0 then do {
           now \<leftarrow> GetField spsw_fd;
           (if now = INVALID_FD then throw_AsynchronousCloseException
            else throw_InterruptedIOExceptionWithError 0 ''readBytes read error: Should never happen'');
           State_Monad.return (Inl (- 1, buff1))
         } else if nread = len then State_Monad.return (Inl (int32 nread, buff1))
         else State_Monad.return (Inr (nread, buff1)))) Q) t'"
    if "received fd t' = received fd t" "pending t' = pending t" "uninit_read t' = uninit_read t" for t'
    apply (rule sys_read_wp [OF rd])
    subgoal for r obj w
      using len got_cong [OF g, of "answered (Read fd (nat (uint32 len))) r obj w t'"] that
      by (auto simp: wp_simps sizes intro!: wp_other error) (auto simp: Q_def)
    subgoal for r obj w
      using len got_start [OF got_cong [OF g that(1)], of "r_data r" "r_ret r" "answered (Read fd (nat (uint32 len))) r obj w t'"] that
      by (auto simp: wp_simps sizes Q_def read_result_def)
    done
  have "wp (read_wait c os fd cfd pt b len) Q t"
    unfolding read_wait_def wp_bind
    by (rule syscall_wp) (auto simp: wp_bind wp_if wp_return throw_TimeoutIOException_def wp_Throw intro!: wp_other late read_events_wp read, auto intro!: error)
  then show ?thesis by (simp add: Q_def)
qed

lemma read_start_wp:
  fixes c :: posix and os :: "'w os" and s :: "'w pstate"
  assumes rd: "posix_read os" and len: "0 < len" "len \<le> int (length b0)" "len < 2 ^ 31"
  defines "fd \<equiv> spsw_fd (sps s)"
  shows "wp (read_start c os b0 len) (\<lambda>x t'. uninit_read t' = uninit_read s \<and> (case x of
      Inl ret \<Rightarrow> read_result fd (received fd s) b0 len live s ret t'
    | Inr (fd', cfd, pt, et, ib, n, b) \<Rightarrow> fd' = fd \<and> n < len \<and> got fd (received fd s) b0 n b t' \<and>
        pending t' = pending s \<and> (et = None \<longleftrightarrow> pt \<le> 0) \<and>
        (quiet os \<longrightarrow> pt = spsw_pollReadTimeout (sps s)))) s"
proof -
  define Q where "Q = (\<lambda>x (t' :: 'w pstate). uninit_read t' = uninit_read s \<and> (case x of
      Inl ret \<Rightarrow> read_result fd (received fd s) b0 len live s ret t'
    | Inr (fd', cfd :: int, pt, et :: (int \<times> int) option, ib :: int, n, b) \<Rightarrow> fd' = fd \<and> n < len \<and> got fd (received fd s) b0 n b t' \<and>
        pending t' = pending s \<and> (et = None \<longleftrightarrow> pt \<le> 0) \<and>
        (quiet os \<longrightarrow> pt = spsw_pollReadTimeout (sps s))))"
  have wait: "wp (if n = 0 then read_wait c os fd cfd pt b len else State_Monad.return (Inr (n, b)))
      (\<lambda>x. wp (case x of Inl ret \<Rightarrow> State_Monad.return (Inl ret)
         | Inr (overallRead, buff2) \<Rightarrow> do {
             interByteTimeout \<leftarrow> GetField spsw_interByteReadTimeout;
             State_Monad.return (Inr (fd, cfd, pt, et, interByteTimeout, overallRead, buff2))
           }) Q) t2"
    if "n < len" "got fd (received fd s) b0 n b t2" "pending t2 = pending s" "uninit_read t2 = uninit_read s"
      "et = None \<longleftrightarrow> pt \<le> 0" "quiet os \<longrightarrow> pt = spsw_pollReadTimeout (sps s)" for n b t2 et pt cfd
  proof (cases "n = 0")
    case True
    then have "got fd (received fd s) b0 0 b t2" using that by simp
    have "wp (read_wait c os fd cfd pt b len) (\<lambda>x. wp (case x of Inl ret \<Rightarrow> State_Monad.return (Inl ret)
         | Inr (overallRead, buff2) \<Rightarrow> do {
             interByteTimeout \<leftarrow> GetField spsw_interByteReadTimeout;
             State_Monad.return (Inr (fd, cfd, pt, et, interByteTimeout, overallRead, buff2))
           }) Q) t2"
      by (rule wp_mono [OF read_wait_wp [OF rd len \<open>got fd (received fd s) b0 0 b t2\<close>, where live = live]])
        (use that in \<open>auto simp: Q_def wp_simps read_result_def split: sum.splits\<close>)
    then show ?thesis using True by simp
  qed (use that in \<open>simp add: wp_simps Q_def\<close>)
  have rest: "wp (end_time os (spsw_pollReadTimeout (sps t1))) (\<lambda>et.
      wp (if n = 0 then read_wait c os fd cfd (spsw_pollReadTimeout (sps t1)) b len else State_Monad.return (Inr (n, b)))
      (\<lambda>x. wp (case x of Inl ret \<Rightarrow> State_Monad.return (Inl ret)
         | Inr (overallRead, buff2) \<Rightarrow> do {
             interByteTimeout \<leftarrow> GetField spsw_interByteReadTimeout;
             State_Monad.return (Inr (fd, cfd, spsw_pollReadTimeout (sps t1), et, interByteTimeout, overallRead, buff2))
           }) Q)) t1"
    if "n < len" "got fd (received fd s) b0 n b t1" "pending t1 = pending s" "uninit_read t1 = uninit_read s"
      "quiet os \<longrightarrow> sps t1 = sps s" for n b t1 cfd
    by (rule end_time_wp, rule wait) (use that in \<open>auto intro: got_cong\<close>)
  have "wp (read_start c os b0 len) Q s"
    unfolding read_start_def wp_bind wp_GetField fd_def [symmetric]
  proof (rule wp_mono [OF read_first_wp [OF rd len, where live = live]])
    fix x and t1 :: "'w pstate"
    assume first: "uninit_read t1 = uninit_read s \<and> (quiet os \<longrightarrow> sps t1 = sps s) \<and> (case x of
      Inl ret \<Rightarrow> read_result fd (received fd s) b0 len live s ret t1
    | Inr (n, b) \<Rightarrow> n < len \<and> got fd (received fd s) b0 n b t1 \<and> pending t1 = pending s)"
    show "wp (case x of Inl ret \<Rightarrow> State_Monad.return (Inl ret)
     | Inr (nread, buff1) \<Rightarrow> do {
         pollTimeout \<leftarrow> GetField spsw_pollReadTimeout;
         endTime \<leftarrow> end_time os pollTimeout;
         waited \<leftarrow> (if nread = 0 then read_wait c os fd (spsw_closeEventReadFd (sps s)) pollTimeout buff1 len
                    else State_Monad.return (Inr (nread, buff1)));
         case waited of Inl ret \<Rightarrow> State_Monad.return (Inl ret)
         | Inr (overallRead, buff2) \<Rightarrow> do {
             interByteTimeout \<leftarrow> GetField spsw_interByteReadTimeout;
             State_Monad.return (Inr (fd, spsw_closeEventReadFd (sps s), pollTimeout, endTime, interByteTimeout, overallRead, buff2))
           }
       }) Q t1"
    proof (cases x)
      case (Inl ret)
      then show ?thesis using first by (simp add: wp_return Q_def)
    next
      case (Inr y)
      obtain n b where y: "y = (n, b)" by (cases y)
      show ?thesis
        unfolding Inr y sum.case prod.case wp_bind [of "GetField _"] wp_bind [of "end_time _ _"]
          wp_bind [of "if _ then _ else _"] wp_GetField
        by (rule rest) (use first Inr y in auto)
    qed
  qed
  then show ?thesis by (simp add: Q_def)
qed

lemma readBuffer_result:
  fixes c :: posix and os :: "'w os" and s :: "'w pstate"
  defines "fd \<equiv> spsw_fd (sps s)" and "live \<equiv> readable_after_poll c os (spsw_fd (sps s))"
  assumes rd: "posix_read os" and len: "0 < len" "len \<le> int (length b0)" "len < 2 ^ 31"
    and ret: "readBuffer c os junk b0 len s = Some (x, s')"
  shows "read_result fd (received fd s) b0 len live s x s' \<and>
    (quiet os \<and> (spsw_pollReadTimeout (sps s) = - 1 \<or> 0 < spsw_pollReadTimeout (sps s)) \<longrightarrow>
      uninit_read s' = uninit_read s)"
proof -
  let ?timed = "quiet os \<and> (spsw_pollReadTimeout (sps s) = - 1 \<or> 0 < spsw_pollReadTimeout (sps s))"
  obtain y s1 where run: "run_state (read_start c os b0 len) s = (y, s1)" by fastforce
  note start = wpD [OF read_start_wp [OF rd len, where live = live] run, folded fd_def]
  show ?thesis
  proof (cases y)
    case (Inl r)
    then show ?thesis using start ret by (simp add: readBuffer_def run)
  next
    case (Inr z)
    then obtain cfd pt et ib n b where y: "y = Inr (fd, cfd, pt, et, ib, n, b)"
      using start by (cases z) auto
    then have loop: "do_while (\<lambda>a. run_state (read_round c os junk fd cfd pt et ib len a)) (n, b) s1 = Some (x, s')"
      using ret by (simp add: readBuffer_def run)
    let ?I = "\<lambda>(n, b) t. n < len \<and> got fd (received fd s) b0 n b t \<and> (live \<longrightarrow> pending t = pending s)
      \<and> (?timed \<longrightarrow> uninit_read t = uninit_read s)"
    have init: "?I (n, b) s1" using start by (simp add: y)
    have et: "?timed \<Longrightarrow> et \<noteq> None \<or> pt = - 1" using start by (auto simp: y)
    have "read_result fd (received fd s) b0 len live s x s' \<and> (?timed \<longrightarrow> uninit_read s' = uninit_read s)"
    proof (rule do_while_partial_wp [OF loop, where I = ?I])
      show "?I (n, b) s1" by (rule init)
      fix a and t :: "'w pstate" assume I: "?I a t"
      obtain n b where a: "a = (n, b)" by (cases a)
      then have g: "got fd (received fd s) b0 n b t" "n < len" using I by auto
      show "wp (read_round c os junk fd cfd pt et ib len a)
        (\<lambda>z t'. case z of Inl r \<Rightarrow> read_result fd (received fd s) b0 len live s r t' \<and> (?timed \<longrightarrow> uninit_read t' = uninit_read s)
          | Inr a' \<Rightarrow> ?I a' t') t"
        unfolding a
        by (rule wp_mono [OF read_round_wp [OF rd len(2,3) g]])
          (use I et a in \<open>auto simp: round_result_def read_result_def live_def fd_def split: sum.splits\<close>)
    qed
    then show ?thesis .
  qed
qed

lemma readBuffer_returns:
  fixes c :: posix and os :: "'w os" and s :: "'w pstate"
  assumes rd: "posix_read os" and len: "0 < len" "len \<le> int (length b0)" "len < 2 ^ 31"
    and live: "readable_after_poll c os (spsw_fd (sps s))"
  shows "\<exists>x s'. readBuffer c os junk b0 len s = Some (x, s')"
proof -
  let ?fd = "spsw_fd (sps s)"
  obtain y s1 where run: "run_state (read_start c os b0 len) s = (y, s1)" by fastforce
  note start = wpD [OF read_start_wp [OF rd len, where live = True] run]
  show ?thesis
  proof (cases y)
    case (Inl r)
    then show ?thesis by (simp add: readBuffer_def run)
  next
    case (Inr z)
    then obtain cfd pt et ib n b where y: "y = Inr (?fd, cfd, pt, et, ib, n, b)"
      using start by (cases z) auto
    let ?I = "\<lambda>(n, b) t. n < len \<and> got ?fd (received ?fd s) b0 n b t"
    have "\<exists>x s'. do_while (\<lambda>a. run_state (read_round c os junk ?fd cfd pt et ib len a)) (n, b) s1 = Some (x, s') \<and> True"
    proof (rule do_while_total_wp [where I = ?I and m = "\<lambda>(n, b) t. nat (len - n)"])
      show "?I (n, b) s1" using start by (simp add: y)
      show "wp (read_round c os junk ?fd cfd pt et ib len a) (\<lambda>x t'. case x of Inl r \<Rightarrow> True
          | Inr a' \<Rightarrow> ?I a' t' \<and> (case a' of (n, b) \<Rightarrow> \<lambda>t. nat (len - n)) t' < (case a of (n, b) \<Rightarrow> \<lambda>t. nat (len - n)) t) t"
        if "?I a t" for a t
      proof -
        obtain n b where a: "a = (n, b)" by (cases a)
        then have g: "got ?fd (received ?fd s) b0 n b t" "n < len" using that by auto
        show ?thesis
          unfolding a
          by (rule wp_mono [OF read_round_wp [OF rd len(2,3) g, where c = c]])
            (use live in \<open>auto simp: round_result_def split: sum.splits\<close>)
      qed
    qed
    then show ?thesis by (auto simp: readBuffer_def run y)
  qed
qed

section \<open>A device that has nothing to give\<close>

text \<open>
  A device that keeps reporting that it is readable and gives no byte. \<open>readBuffer\<close>
  throws in every round of its loop and never returns.
\<close>

definition eof_device :: "posix \<Rightarrow> 'w os \<Rightarrow> int \<Rightarrow> bool" where
  "eof_device c os fd \<longleftrightarrow> quiet os \<and>
     (\<forall>fds t x. let r = fst (os (Poll fds t) x) in 0 < r_ret r \<and> r_revents0 r = POLLIN c \<and> r_revents1 r \<noteq> POLLIN c) \<and>
     (\<forall>n x. r_ret (fst (os (Read fd n) x)) = 0)"

lemma eof_poll: "eof_device c os fd \<Longrightarrow> os (Poll fds t) x = (r, y) \<Longrightarrow>
    0 < r_ret r \<and> r_revents0 r = POLLIN c \<and> r_revents1 r \<noteq> POLLIN c"
  unfolding eof_device_def Let_def by (metis fst_conv)

lemma eof_read: "eof_device c os fd \<Longrightarrow> os (Read fd n) x = (r, y) \<Longrightarrow> r_ret r = 0"
  unfolding eof_device_def by (metis fst_conv)

lemma eof_quiet: "eof_device c os fd \<Longrightarrow> quiet os"
  by (simp add: eof_device_def)

lemma read_events_ready:
  "r_revents1 p \<noteq> POLLIN c \<Longrightarrow> r_revents0 p = POLLIN c \<Longrightarrow> read_events c p = State_Monad.return True"
  by (simp add: read_events_def)

lemma eof_sys_read:
  assumes eof: "eof_device c os fd" and Q: "\<And>t'. sps t' = sps t \<Longrightarrow> Q (0, b) t'"
  shows "wp (sys_read os fd b k n) Q t"
  unfolding sys_read_def wp_bind
  by (rule syscall_wp, frule eof_read [OF eof]) (auto simp: wp_return dest: quietD [OF eof_quiet [OF eof]] intro!: Q)

lemma eof_round:
  assumes eof: "eof_device c os fd" and open_fd: "spsw_fd (sps t) \<noteq> INVALID_FD" and len: "0 < len"
  shows "wp (read_round c os junk fd cfd (- 1) et ib len (0, b)) (\<lambda>x t'. x = Inr (0, b) \<and> sps t' = sps t) t"
proof -
  have chunk: "wp (read_chunk c os fd len 0 b p) (\<lambda>x t'. x = Inr (0, b) \<and> sps t' = sps t) t2"
    if "sps t2 = sps t" "r_revents0 p = POLLIN c" "r_revents1 p \<noteq> POLLIN c" for t2 p
    unfolding read_chunk_def read_events_ready [OF that(3,2)] wp_bind wp_return
    using open_fd len that by (auto simp: wp_simps intro!: eof_sys_read [OF eof] wp_throws)
  show ?thesis
    unfolding read_round_def prod.case wp_bind read_timeout_def
    by (simp add: wp_simps del: wp_syscall, rule syscall_wp, frule eof_poll [OF eof])
      (auto dest: quietD [OF eof_quiet [OF eof]] intro!: chunk)
qed

lemma readBuffer_diverges:
  fixes os :: "'w os"
  assumes eof: "eof_device c os (spsw_fd (sps s))" and open_fd: "spsw_fd (sps s) \<noteq> INVALID_FD"
    and len: "0 < len" and forever: "spsw_pollReadTimeout (sps s) = - 1"
  shows "readBuffer c os junk b0 len s = None"
proof -
  let ?fd = "spsw_fd (sps s)" and ?cfd = "spsw_closeEventReadFd (sps s)"
  have wait: "wp (read_wait c os ?fd ?cfd pt b len) (\<lambda>x t'. x = Inr (0, b) \<and> sps t' = sps s) t"
    if "sps t = sps s" for pt b t
    unfolding read_wait_def wp_bind
    by (rule syscall_wp, frule eof_poll [OF eof])
      (use that len in \<open>auto simp: wp_simps read_events_ready dest: quietD [OF eof_quiet [OF eof]] intro!: eof_sys_read [OF eof]\<close>)
  have "wp (read_start c os b0 len) (\<lambda>x t'. (\<exists>et ib. x = Inr (?fd, ?cfd, - 1, et, ib, 0, b0)) \<and> sps t' = sps s) s"
    unfolding read_start_def read_first_def wp_bind wp_GetField
    apply (rule eof_sys_read [OF eof])
    using len forever apply (simp add: wp_simps end_time_def)
    apply (rule wp_mono [OF wait])
    by (simp_all add: wp_simps)
  then obtain et ib s1 where start: "run_state (read_start c os b0 len) s = (Inr (?fd, ?cfd, - 1, et, ib, 0, b0), s1)"
      "sps s1 = sps s"
    by (auto simp: wp_def split: prod.splits)
  have "do_while (\<lambda>a. run_state (read_round c os junk ?fd ?cfd (- 1) et ib len a)) (0, b0) s1 = None"
  proof (rule do_while_diverges)
    let ?I = "\<lambda>a t. fst a = (0 :: int) \<and> sps t = sps s"
    show "?I (0, b0) s1" using start(2) by simp
    fix a :: "int \<times> bytes" and t :: "'w pstate" assume I: "?I a t"
    then obtain b where a: "a = (0, b)" by (cases a) simp
    have "wp (read_round c os junk ?fd ?cfd (- 1) et ib len a) (\<lambda>x t'. x = Inr (0, b) \<and> sps t' = sps t) t"
      unfolding a by (rule eof_round [OF eof _ len]) (use I open_fd in simp)
    then show "\<exists>a' t'. run_state (read_round c os junk ?fd ?cfd (- 1) et ib len a) t = (Inr a', t') \<and> ?I a' t'"
      using I by (auto simp: wp_def split: prod.splits)
  qed
  then show ?thesis by (simp add: readBuffer_def start)
qed

section \<open>writeBuffer\<close>

text \<open>The first \<open>n\<close> bytes of the buffer have been accepted, and nothing else.\<close>

definition put :: "int \<Rightarrow> bytes \<Rightarrow> bytes \<Rightarrow> int \<Rightarrow> int \<Rightarrow> 'w pstate \<Rightarrow> bool" where
  "put fd sent0 buff len n t \<longleftrightarrow> 0 \<le> n \<and> n \<le> len \<and> sent fd t = sent0 @ take (nat n) buff"

text \<open>
  The result of \<open>writeBuffer\<close>: without an exception all bytes were accepted and the
  result is the length of the last chunk; the timeout of \<open>poll\<close> reports how many were
  accepted.
\<close>

definition write_result :: "int \<Rightarrow> bytes \<Rightarrow> bytes \<Rightarrow> int \<Rightarrow> 'w pstate \<Rightarrow> int \<Rightarrow> 'w pstate \<Rightarrow> bool" where
  "write_result fd sent0 buff len t ret t' \<longleftrightarrow>
     (pending t' = pending t \<and> put fd sent0 buff len len t' \<and> (\<exists>k r. 0 \<le> k \<and> k + ret = len \<and> 0 \<le> ret \<and>
        last (calls t') = (Write fd (drop (nat k) (take (nat len) buff)), r) \<and> r_ret r = ret)) \<or>
     (is_pending t' \<and> (\<exists>n. put fd sent0 buff len n t' \<and>
        (\<forall>k. pending t' = Some (TimeoutIOException ''writeBuffer poll timeout'' k) \<longrightarrow> k = n)))"

definition writable_after_poll :: "posix \<Rightarrow> 'w os \<Rightarrow> int \<Rightarrow> bool" where
  "writable_after_poll c os fd \<longleftrightarrow> (\<forall>fds t x. case os (Poll fds t) x of (r, x') \<Rightarrow>
     0 < r_ret r \<longrightarrow> r_revents0 r = POLLOUT c \<longrightarrow> (\<forall>bs. bs \<noteq> [] \<longrightarrow> r_ret (fst (os (Write fd bs) x')) \<noteq> 0))"

lemma writable_after_pollD:
  "writable_after_poll c os fd \<Longrightarrow> os (Poll fds t) x = (r, y, z) \<Longrightarrow> 0 < r_ret r \<Longrightarrow> r_revents0 r = POLLOUT c \<Longrightarrow>
     os (Write fd bs) (y, z) = (r', x') \<Longrightarrow> bs \<noteq> [] \<Longrightarrow> r_ret r' \<noteq> 0"
  unfolding writable_after_poll_def
  by (drule spec [of _ fds], drule spec [of _ t], drule spec [of _ x]) (simp, drule spec [of _ bs], simp)

lemma put_write:
  assumes "put fd sent0 buff len n t" "0 \<le> k" "n + k \<le> len" "len \<le> int (length buff)"
    and "sent fd t' = sent fd t @ take (nat k) (drop (nat n) (take (nat len) buff))"
  shows "put fd sent0 buff len (n + k) t'"
proof -
  have "take (nat k) (drop (nat n) (take (nat len) buff)) = take (nat k) (drop (nat n) buff)"
    using assms(1-3) by (simp add: put_def drop_take min_def nat_le_iff nat_diff_distrib)
  moreover have "take (nat n + nat k) buff = take (nat n) buff @ take (nat k) (drop (nat n) buff)"
    by (rule take_add)
  ultimately show ?thesis
    using assms by (simp add: put_def nat_add_distrib)
qed

lemma put_cong: "put fd sent0 buff len n t \<Longrightarrow> sent fd t' = sent fd t \<Longrightarrow> put fd sent0 buff len n t'"
  by (simp add: put_def)

lemma write_sizes:
  assumes "0 \<le> n" "n \<le> len" "len < 2 ^ 31"
  shows "int32 n = n" "uint32 len = len"
    "take (nat (size_t (uint32 len - n))) (drop (nat n) buff) = drop (nat n) (take (nat len) buff)"
  using assms read_sizes [OF assms]
  by (auto simp: uint32_def take_bit_int_eq_self drop_take nat_diff_distrib)

text \<open>A failure after \<open>n\<close> accepted bytes.\<close>

lemma write_failed:
  assumes "put fd sent0 buff len n t" "is_pending t" "\<And>k. pending t = Some (TimeoutIOException ''writeBuffer poll timeout'' k) \<Longrightarrow> k = n"
  shows "write_result fd sent0 buff len t0 ret t"
  using assms unfolding write_result_def by blast

lemma write_done:
  assumes "put fd sent0 buff len len t'" "pending t' = pending t" "0 \<le> k" "k + ret = len" "0 \<le> ret"
    "last (calls t') = (Write fd (drop (nat k) (take (nat len) buff)), r)" "r_ret r = ret"
  shows "write_result fd sent0 buff len t ret t'"
  using assms unfolding write_result_def by blast

definition write_round_result ::
  "int \<Rightarrow> bytes \<Rightarrow> bytes \<Rightarrow> int \<Rightarrow> bool \<Rightarrow> int \<Rightarrow> 'w pstate \<Rightarrow> int + (int \<times> int) \<Rightarrow> 'w pstate \<Rightarrow> bool" where
  "write_round_result fd sent0 buff len live n t x t' \<longleftrightarrow> (case x of
     Inl ret \<Rightarrow> write_result fd sent0 buff len t ret t'
   | Inr (w, n') \<Rightarrow> n' < len \<and> put fd sent0 buff len n' t' \<and> pending t' = pending t \<and> (live \<longrightarrow> n < n'))"

lemma write_events_wp:
  assumes ready: "r_revents0 p = POLLOUT c \<Longrightarrow> Q None s"
    and err: "\<And>e ret. (\<And>m k. e \<noteq> TimeoutIOException m k) \<Longrightarrow> Q (Some ret) (s\<lparr>pending := Some e\<rparr>)"
  shows "wp (write_events c p w n) Q s"
  unfolding write_events_def wp_if wp_bind by (auto simp: wp_simps throwers intro!: ready err)

lemma write_timeout_wp:
  assumes ok: "\<And>tm t'. sent fd t' = sent fd t \<Longrightarrow> pending t' = pending t \<Longrightarrow>
      (e \<noteq> None \<or> pollTimeout < 0 \<Longrightarrow> uninit_read t' = uninit_read t) \<Longrightarrow> Q (Inr tm) t'"
    and late: "\<And>t'. sent fd t' = sent fd t \<Longrightarrow>
      (e \<noteq> None \<or> pollTimeout < 0 \<Longrightarrow> uninit_read t' = uninit_read t) \<Longrightarrow>
      Q (Inl (int32 w)) (t'\<lparr>pending := Some (TimeoutIOException ''writeBuffer overallWriteTimeout'' (int32 w))\<rparr>)"
  shows "wp (write_timeout os junk e pollTimeout w) Q t"
  unfolding write_timeout_def wp_if wp_bind
  by (auto simp: wp_simps throwers intro!: remaining_time_wp ok late)

lemma write_round_wp:
  fixes c :: posix and os :: "'w os" and fd :: int
  defines "live \<equiv> writable_after_poll c os fd"
  assumes wr: "posix_write os" and len: "len \<le> int (length buff)" "len < 2 ^ 31"
    and g: "put fd sent0 buff len n t" "n < len"
  shows "wp (write_round c os junk fd cfd pt et buff len (w, n)) (\<lambda>x t'.
    (et \<noteq> None \<or> pt < 0 \<longrightarrow> uninit_read t' = uninit_read t) \<and>
    write_round_result fd sent0 buff len live n t x t') t"
proof -
  define Q where "Q = (\<lambda>x (t' :: 'w pstate). (et \<noteq> None \<or> pt < 0 \<longrightarrow> uninit_read t' = uninit_read t) \<and>
    write_round_result fd sent0 buff len live n t x t')"
  have n: "0 \<le> n" using g by (simp add: put_def)
  have sizes: "uint32 len = len" "int32 n = n"
    "take (nat (size_t (uint32 len - n))) (drop (nat n) buff) = drop (nat n) (take (nat len) buff)"
    using write_sizes [OF n _ len(2)] g(2) by simp_all
  have fail: "Q (Inl ret) (t1\<lparr>pending := Some e\<rparr>)"
    if "sent fd t1 = sent fd t" "et \<noteq> None \<or> pt < 0 \<longrightarrow> uninit_read t1 = uninit_read t"
      "\<And>k. e = TimeoutIOException ''writeBuffer poll timeout'' k \<Longrightarrow> k = n" for ret t1 e
    using that put_cong [OF g(1), of "t1\<lparr>pending := Some e\<rparr>"]
    by (auto simp: Q_def write_round_result_def intro!: write_failed)
  let ?chunk = "drop (nat n) (take (nat len) buff)"
  have chunk_len: "int (length ?chunk) = len - n" "?chunk \<noteq> []"
    using n g(2) len by (auto simp: nat_less_iff of_nat_diff)
  have chunk: "wp (write_chunk c os fd buff len w n p) Q t1"
    if t1: "sent fd t1 = sent fd t" "pending t1 = pending t" "et \<noteq> None \<or> pt < 0 \<longrightarrow> uninit_read t1 = uninit_read t"
      and poll: "os (Poll fds tm) x0 = (p, sps t1, world t1)" "0 < r_ret p"
    for t1 p fds tm x0
    unfolding write_chunk_def wp_bind
  proof (rule write_events_wp, unfold option.case sizes(3) wp_bind)
    assume out: "r_revents0 p = POLLOUT c"
    show "wp (syscall os (Write fd ?chunk)) (\<lambda>w. wp (if r_ret w < 0 then do {
           (if fd = INVALID_FD then throw_AsynchronousCloseException
            else throw_InterruptedIOExceptionWithError 0 ''unknown port error 2 writeBytes'');
           State_Monad.return (Inl (int32 (r_ret w)))
         } else State_Monad.return (if n + r_ret w < uint32 len then Inr (r_ret w, n + r_ret w)
             else Inl (int32 (r_ret w)))) Q) t1"
    proof (rule syscall_wp)
      fix r obj v assume call: "os (Write fd ?chunk) (sps t1, world t1) = (r, obj, v)"
      define T where "T = answered (Write fd ?chunk) r obj v t1"
      have T: "sent fd T = sent fd t1 @ take (nat (r_ret r)) ?chunk" "pending T = pending t"
        "et \<noteq> None \<or> pt < 0 \<longrightarrow> uninit_read T = uninit_read t" "last (calls T) = (Write fd ?chunk, r)"
        using t1 by (simp_all add: T_def)
      have r: "- 1 \<le> r_ret r" "r_ret r \<le> len - n"
        using posix_writeD [OF wr call] chunk_len(1) by simp_all
      have live: "r_ret r \<noteq> 0" if live
        using writable_after_pollD [of c os fd, OF _ poll out call chunk_len(2)] that by (simp add: live_def)
      have accepted: "put fd sent0 buff len (n + r_ret r) T" "int32 (r_ret r) = r_ret r" if "0 \<le> r_ret r"
        using put_write [OF g(1) that _ len(1), of T] write_sizes(1) [of "r_ret r" len] that r t1(1) T(1) g(2) n len
        by simp_all
      have all: "Q (Inl (int32 (r_ret r))) T" if "0 \<le> r_ret r" "\<not> n + r_ret r < len"
      proof -
        have len': "n + r_ret r = len" using that r by simp
        have "write_result fd sent0 buff len t (r_ret r) T"
          by (rule write_done [of _ _ _ _ _ _ n _ r]) (use that T n len' accepted in simp_all)
        then show ?thesis
          using that T accepted by (simp add: Q_def write_round_result_def)
      qed
      have more: "Q (Inr (r_ret r, n + r_ret r)) T" if "0 \<le> r_ret r" "n + r_ret r < len"
        using that r T n live accepted by (auto simp: Q_def write_round_result_def)
      have error: "Q (Inl ret) (T\<lparr>pending := Some e\<rparr>)"
        if "r_ret r < 0" "\<And>k. e \<noteq> TimeoutIOException ''writeBuffer poll timeout'' k" for ret e
        by (rule fail) (use that T t1 in auto)
      have "wp (if r_ret r < 0 then do {
           (if fd = INVALID_FD then throw_AsynchronousCloseException
            else throw_InterruptedIOExceptionWithError 0 ''unknown port error 2 writeBytes'');
           State_Monad.return (Inl (int32 (r_ret r)))
         } else State_Monad.return (if n + r_ret r < uint32 len then Inr (r_ret r, n + r_ret r)
             else Inl (int32 (r_ret r)))) Q T"
        using all more by (cases "r_ret r < 0") (simp_all add: sizes wp_simps throwers error)
      then show "wp (if r_ret r < 0 then do {
           (if fd = INVALID_FD then throw_AsynchronousCloseException
            else throw_InterruptedIOExceptionWithError 0 ''unknown port error 2 writeBytes'');
           State_Monad.return (Inl (int32 (r_ret r)))
         } else State_Monad.return (if n + r_ret r < uint32 len then Inr (r_ret r, n + r_ret r)
             else Inl (int32 (r_ret r)))) Q (answered (Write fd ?chunk) r obj v t1)"
        by (simp add: T_def)
    qed
  next
    show "wp (State_Monad.return (Inl ret)) Q (t1\<lparr>pending := Some e\<rparr>)" if "\<And>m k. e \<noteq> TimeoutIOException m k" for e ret
      unfolding wp_return by (rule fail [OF t1(1,3)]) (use that in blast)
  qed
  have polled: "wp (if r_ret r = 0 then do {
           throw_TimeoutIOException n ''writeBuffer poll timeout'';
           State_Monad.return (Inl (int32 w))
         } else if r_ret r < 0 then do {
           throw_InterruptedIOExceptionWithError n ''poll timeout with error writeBytes'';
           State_Monad.return (Inl (int32 w))
         } else write_chunk c os fd buff len w n r) Q t1"
    if t1: "sent fd t1 = sent fd t" "pending t1 = pending t" "et \<noteq> None \<or> pt < 0 \<longrightarrow> uninit_read t1 = uninit_read t"
      and poll: "os (Poll fds tm) x0 = (r, sps t1, world t1)" for t1 r fds tm x0
  proof -
    have error: "Q (Inl (int32 w)) (t1\<lparr>pending := Some (TimeoutIOException ''writeBuffer poll timeout'' n)\<rparr>)"
      "Q (Inl (int32 w)) (t1\<lparr>pending := Some (InterruptedIOException m k)\<rparr>)" for m k
      by (rule fail [OF t1(1,3)], simp)+
    consider "r_ret r = 0" | "r_ret r < 0" | "0 < r_ret r" by linarith
    then show ?thesis
      by cases (simp_all add: wp_simps throwers sizes error chunk [OF t1 poll])
  qed
  have "wp (write_round c os junk fd cfd pt et buff len (w, n)) Q t"
    unfolding write_round_def prod.case wp_bind
  proof (rule write_timeout_wp [where fd = fd]; unfold sum.case wp_bind)
    show "wp (syscall os (Poll [(fd, POLLOUT c), (cfd, POLLIN c)] tm)) (\<lambda>p. wp (if r_ret p = 0 then do {
           throw_TimeoutIOException n ''writeBuffer poll timeout'';
           State_Monad.return (Inl (int32 w))
         } else if r_ret p < 0 then do {
           throw_InterruptedIOExceptionWithError n ''poll timeout with error writeBytes'';
           State_Monad.return (Inl (int32 w))
         } else write_chunk c os fd buff len w n p) Q) t1"
      if "sent fd t1 = sent fd t" "pending t1 = pending t" "et \<noteq> None \<or> pt < 0 \<Longrightarrow> uninit_read t1 = uninit_read t" for tm t1
      by (rule syscall_wp, rule polled) (use that in simp_all)
    show "wp (State_Monad.return (Inl (int32 w))) Q
        (t1\<lparr>pending := Some (TimeoutIOException ''writeBuffer overallWriteTimeout'' (int32 w))\<rparr>)"
      if "sent fd t1 = sent fd t" "et \<noteq> None \<or> pt < 0 \<Longrightarrow> uninit_read t1 = uninit_read t" for t1
      unfolding wp_return by (rule fail) (use that in simp_all)
  qed
  then show ?thesis by (simp add: Q_def)
qed

lemma write_first_wp:
  assumes wr: "posix_write os" and len: "0 < len" "len \<le> int (length buff)" "len < 2 ^ 31"
  shows "wp (write_first c os fd buff len) (\<lambda>x t'. uninit_read t' = uninit_read t \<and> (case x of
      Inl ret \<Rightarrow> write_result fd (sent fd t) buff len t ret t'
    | Inr w \<Rightarrow> 0 \<le> w \<and> w < len \<and> put fd (sent fd t) buff len w t' \<and> pending t' = pending t)) t"
proof -
  have sizes: "nat (uint32 len) = nat len" using read_sizes(3) [of len len] len by simp
  let ?chunk = "take (nat len) buff"
  have g: "put fd (sent fd t) buff len 0 t" using len by (simp add: put_def)
  show ?thesis
    unfolding write_first_def wp_bind sizes
  proof (rule syscall_wp)
    fix r obj v assume call: "os (Write fd ?chunk) (sps t, world t) = (r, obj, v)"
    define T where "T = answered (Write fd ?chunk) r obj v t"
    have r: "- 1 \<le> r_ret r" "r_ret r \<le> len" using posix_writeD [OF wr call] len by simp_all
    have T: "sent fd T = sent fd t @ take (nat (r_ret r)) ?chunk" "pending T = pending t" "errno T = r_errno r"
      "uninit_read T = uninit_read t" "last (calls T) = (Write fd ?chunk, r)"
      by (simp_all add: T_def)
    have accepted: "put fd (sent fd t) buff len (r_ret r) T" if "0 \<le> r_ret r"
      using put_write [OF g that _ len(2), of T] r T(1) by simp
    have none: "put fd (sent fd t) buff len 0 T" if "r_ret r < 0"
      using that T(1) len by (simp add: put_def)
    have full: "write_result fd (sent fd t) buff len t (int32 (r_ret r)) T" if "r_ret r = len"
      by (rule write_done [of _ _ _ _ _ _ 0 _ r]) (use that T accepted len write_sizes(1) [of len len] in simp_all)
    have error: "write_result fd (sent fd t) buff len t ret (T\<lparr>pending := Some e\<rparr>)"
      if "r_ret r < 0" "\<And>m k. e \<noteq> TimeoutIOException m k" for ret e
      by (rule write_failed [of _ _ _ _ 0]) (use that none in \<open>auto simp: put_def\<close>)
    have "wp (let written = r_ret r in if written = len then State_Monad.return (Inl (int32 written))
     else if written < 0 then do {
       s \<leftarrow> State_Monad.get;
       if errno s = EAGAIN c then State_Monad.return (Inr 0)
       else do {
         (if fd = INVALID_FD then throw_AsynchronousCloseException
          else throw_InterruptedIOExceptionWithError 0 ''unknown port error 1 writeBytes'');
         State_Monad.return (Inl (int32 written))
       }
     } else State_Monad.return (Inr written)) (\<lambda>x t'. uninit_read t' = uninit_read t \<and> (case x of
      Inl ret \<Rightarrow> write_result fd (sent fd t) buff len t ret t'
    | Inr w \<Rightarrow> 0 \<le> w \<and> w < len \<and> put fd (sent fd t) buff len w t' \<and> pending t' = pending t)) T"
      using T r accepted none full error len by (cases "fd = INVALID_FD") (simp_all add: Let_def wp_simps throwers)
    then show "wp (let written = r_ret r in if written = len then State_Monad.return (Inl (int32 written))
     else if written < 0 then do {
       s \<leftarrow> State_Monad.get;
       if errno s = EAGAIN c then State_Monad.return (Inr 0)
       else do {
         (if fd = INVALID_FD then throw_AsynchronousCloseException
          else throw_InterruptedIOExceptionWithError 0 ''unknown port error 1 writeBytes'');
         State_Monad.return (Inl (int32 written))
       }
     } else State_Monad.return (Inr written)) (\<lambda>x t'. uninit_read t' = uninit_read t \<and> (case x of
      Inl ret \<Rightarrow> write_result fd (sent fd t) buff len t ret t'
    | Inr w \<Rightarrow> 0 \<le> w \<and> w < len \<and> put fd (sent fd t) buff len w t' \<and> pending t' = pending t))
      (answered (Write fd ?chunk) r obj v t)"
      by (simp add: T_def)
  qed
qed

lemma write_start_wp:
  fixes os :: "'w os" and s :: "'w pstate"
  assumes wr: "posix_write os" and len: "0 < len" "len \<le> int (length buff)" "len < 2 ^ 31"
  defines "fd \<equiv> spsw_fd (sps s)"
  shows "wp (write_start c os buff len) (\<lambda>x t'. uninit_read t' = uninit_read s \<and> (case x of
      Inl ret \<Rightarrow> write_result fd (sent fd s) buff len s ret t'
    | Inr (fd', cfd, pt, et, w) \<Rightarrow> fd' = fd \<and> 0 \<le> w \<and> w < len \<and> put fd (sent fd s) buff len w t' \<and>
        pending t' = pending s \<and> (et = None \<longleftrightarrow> pt \<le> 0) \<and> pt = spsw_pollWriteTimeout (sps s))) s"
  unfolding write_start_def wp_bind wp_GetField fd_def [symmetric]
proof (rule wp_mono [OF write_first_wp [OF wr len]])
  fix x and t1 :: "'w pstate"
  assume first: "uninit_read t1 = uninit_read s \<and> (case x of
      Inl ret \<Rightarrow> write_result fd (sent fd s) buff len s ret t1
    | Inr w \<Rightarrow> 0 \<le> w \<and> w < len \<and> put fd (sent fd s) buff len w t1 \<and> pending t1 = pending s)"
  show "wp (case x of Inl ret \<Rightarrow> State_Monad.return (Inl ret)
     | Inr written \<Rightarrow> do {
         endTime \<leftarrow> end_time os (spsw_pollWriteTimeout (sps s));
         close_fd \<leftarrow> GetField spsw_closeEventReadFd;
         State_Monad.return (Inr (fd, close_fd, spsw_pollWriteTimeout (sps s), endTime, written))
       }) (\<lambda>x t'. uninit_read t' = uninit_read s \<and> (case x of
      Inl ret \<Rightarrow> write_result fd (sent fd s) buff len s ret t'
    | Inr (fd', cfd, pt, et, w) \<Rightarrow> fd' = fd \<and> 0 \<le> w \<and> w < len \<and> put fd (sent fd s) buff len w t' \<and>
        pending t' = pending s \<and> (et = None \<longleftrightarrow> pt \<le> 0) \<and> pt = spsw_pollWriteTimeout (sps s))) t1"
    using first by (cases x) (auto simp: wp_bind wp_return wp_GetField intro!: end_time_wp simp: put_def)
qed

lemma writeBuffer_result:
  fixes c :: posix and os :: "'w os" and s :: "'w pstate"
  defines "fd \<equiv> spsw_fd (sps s)"
  assumes wr: "posix_write os" and len: "0 < len" "len \<le> int (length buff)" "len < 2 ^ 31"
    and ret: "writeBuffer c os junk buff len s = Some (x, s')"
  shows "write_result fd (sent fd s) buff len s x s' \<and>
    (spsw_pollWriteTimeout (sps s) \<noteq> 0 \<longrightarrow> uninit_read s' = uninit_read s)"
proof -
  let ?timed = "spsw_pollWriteTimeout (sps s) \<noteq> 0"
  obtain y s1 where run: "run_state (write_start c os buff len) s = (y, s1)" by fastforce
  note start = wpD [OF write_start_wp [OF wr len] run, folded fd_def]
  show ?thesis
  proof (cases y)
    case (Inl r)
    then show ?thesis using start ret by (simp add: writeBuffer_def run)
  next
    case (Inr z)
    then obtain cfd pt et w where y: "y = Inr (fd, cfd, pt, et, w)"
      using start by (cases z) auto
    then have loop: "do_while (\<lambda>a. run_state (write_round c os junk fd cfd pt et buff len a)) (w, w) s1 = Some (x, s')"
      using ret by (simp add: writeBuffer_def run)
    let ?I = "\<lambda>(w :: int, n) t. n < len \<and> put fd (sent fd s) buff len n t \<and> pending t = pending s
      \<and> (?timed \<longrightarrow> uninit_read t = uninit_read s)"
    have et: "?timed \<Longrightarrow> et \<noteq> None \<or> pt < 0" using start by (auto simp: y)
    have "write_result fd (sent fd s) buff len s x s' \<and> (?timed \<longrightarrow> uninit_read s' = uninit_read s)"
    proof (rule do_while_partial_wp [OF loop, where I = ?I])
      show "?I (w, w) s1" using start by (simp add: y)
      fix a and t :: "'w pstate" assume I: "?I a t"
      obtain w n where a: "a = (w, n)" by (cases a)
      then have g: "put fd (sent fd s) buff len n t" "n < len" using I by auto
      show "wp (write_round c os junk fd cfd pt et buff len a)
        (\<lambda>z t'. case z of Inl r \<Rightarrow> write_result fd (sent fd s) buff len s r t' \<and> (?timed \<longrightarrow> uninit_read t' = uninit_read s)
          | Inr a' \<Rightarrow> ?I a' t') t"
        unfolding a
        by (rule wp_mono [OF write_round_wp [OF wr len(2,3) g]])
          (use I et a in \<open>auto simp: write_round_result_def write_result_def split: sum.splits\<close>)
    qed
    then show ?thesis .
  qed
qed

lemma writeBuffer_returns:
  fixes c :: posix and os :: "'w os" and s :: "'w pstate"
  assumes wr: "posix_write os" and len: "0 < len" "len \<le> int (length buff)" "len < 2 ^ 31"
    and live: "writable_after_poll c os (spsw_fd (sps s))"
  shows "\<exists>x s'. writeBuffer c os junk buff len s = Some (x, s')"
proof -
  let ?fd = "spsw_fd (sps s)"
  obtain y s1 where run: "run_state (write_start c os buff len) s = (y, s1)" by fastforce
  note start = wpD [OF write_start_wp [OF wr len] run]
  show ?thesis
  proof (cases y)
    case (Inl r)
    then show ?thesis by (simp add: writeBuffer_def run)
  next
    case (Inr z)
    then obtain cfd pt et w where y: "y = Inr (?fd, cfd, pt, et, w)"
      using start by (cases z) auto
    let ?I = "\<lambda>(w :: int, n) t. n < len \<and> put ?fd (sent ?fd s) buff len n t"
    have "\<exists>x s'. do_while (\<lambda>a. run_state (write_round c os junk ?fd cfd pt et buff len a)) (w, w) s1 = Some (x, s') \<and> True"
    proof (rule do_while_total_wp [where I = ?I and m = "\<lambda>(w, n) t. nat (len - n)"])
      show "?I (w, w) s1" using start by (simp add: y)
      show "wp (write_round c os junk ?fd cfd pt et buff len a) (\<lambda>x t'. case x of Inl r \<Rightarrow> True
          | Inr a' \<Rightarrow> ?I a' t' \<and> (case a' of (w, n) \<Rightarrow> \<lambda>t. nat (len - n)) t' < (case a of (w, n) \<Rightarrow> \<lambda>t. nat (len - n)) t) t"
        if "?I a t" for a t
      proof -
        obtain w n where a: "a = (w, n)" by (cases a)
        then have g: "put ?fd (sent ?fd s) buff len n t" "n < len" using that by auto
        show ?thesis
          unfolding a
          by (rule wp_mono [OF write_round_wp [OF wr len(2,3) g, where c = c]])
            (use live g in \<open>auto simp: write_round_result_def split: sum.splits\<close>)
      qed
    qed
    then show ?thesis by (auto simp: writeBuffer_def run y)
  qed
qed

section \<open>Timeouts of the Java object\<close>

text \<open>\<open>GenericTermiosSerialPortSocket.setTimeouts\<close>: \<open>Inl\<close> is the \<open>IllegalArgumentException\<close>.\<close>

definition setTimeouts :: "int \<Rightarrow> int \<Rightarrow> int \<Rightarrow> sps \<Rightarrow> string + sps" where
  "setTimeouts interByteReadTimeout overallReadTimeout overallWriteTimeout obj =
     (if overallWriteTimeout < 0 then Inl ''setTimeouts: overallWriteTimeout must >= 0''
      else if overallReadTimeout < 0 then Inl ''setTimeouts: overallReadTimeout must >= 0''
      else if interByteReadTimeout < 0 then Inl ''setReadTimeouts: interByteReadTimeout must >= 0''
      else Inr (obj\<lparr>spsw_interByteReadTimeout := interByteReadTimeout,
        spsw_pollReadTimeout := (if overallReadTimeout = 0 then - 1 else overallReadTimeout),
        spsw_pollWriteTimeout := (if overallWriteTimeout = 0 then - 1 else overallWriteTimeout)\<rparr>))"

lemma setTimeouts_range:
  assumes "setTimeouts a b d obj = Inr obj'"
  shows "spsw_pollReadTimeout obj' = - 1 \<or> 0 < spsw_pollReadTimeout obj'"
    "spsw_pollWriteTimeout obj' = - 1 \<or> 0 < spsw_pollWriteTimeout obj'"
  using assms by (auto simp: setTimeouts_def split: if_splits)

section \<open>Break\<close>

lemma sendBreak0_wp:
  assumes "0 < d"
  shows "wp (sendBreak0 os d) (\<lambda>_ s'. let fd = spsw_fd (sps s); on = Ioctl fd TIOCSBRK; off = Ioctl fd TIOCCBRK;
      wait = Usleep (uint32 (uint32 d * 1000)) in
    (\<exists>b u e. calls s' = calls s @ [(on, b), (wait, u), (off, e)] \<and> r_ret b = 0 \<and> r_ret u = 0 \<and>
       (r_ret e = 0 \<and> pending s' = pending s \<or> r_ret e \<noteq> 0 \<and> is_pending s')) \<or>
    (\<exists>b. calls s' = calls s @ [(on, b)] \<and> r_ret b \<noteq> 0 \<and> is_pending s') \<or>
    (\<exists>b u. calls s' = calls s @ [(on, b), (wait, u)] \<and> r_ret b = 0 \<and> r_ret u \<noteq> 0 \<and> is_pending s')) s"
  unfolding sendBreak0_def wp_if wp_bind wp_GetField Let_def
  using assms by (auto simp: wp_simps intro!: wp_throws split: prod.splits)

section \<open>Properties\<close>

text \<open>
  A device with a queue of bytes to read that accepts at most four bytes at a time; it is
  ready as long as the queue is not empty.
\<close>

definition queue_device :: "bytes os" where
  "queue_device c x = (case x of (obj, q) \<Rightarrow> (case c of
       Read fd n \<Rightarrow> (resp0\<lparr>r_ret := int (min n (length q)), r_data := take n q\<rparr>, obj, drop n q)
     | Write fd bs \<Rightarrow> (resp0\<lparr>r_ret := int (min 4 (length bs))\<rparr>, obj, q)
     | Poll fds t \<Rightarrow> (resp0\<lparr>r_ret := (if q = [] then 0 else 1), r_revents0 := snd (hd fds)\<rparr>, obj, q)
     | _ \<Rightarrow> (resp0, obj, q)))"

lemma queue_device_laws [simp]:
  "posix_read queue_device" "posix_write queue_device" "quiet queue_device"
  "readable_after_poll c queue_device fd" "writable_after_poll c queue_device fd"
  by (auto simp: queue_device_def posix_read_def posix_write_def quiet_def readable_after_poll_def
      writable_after_poll_def resp0_def Let_def split: pcall.splits)

text \<open>
  C4: what \<open>readBuffer\<close> gives back is what was read from the port. A result \<open>n\<close> that is
  not negative means that exactly the \<open>n\<close> bytes received during the call stand, in order, at
  the start of the buffer and the rest of the buffer is untouched; the result -1 means that
  an exception is pending, and when it is a timeout, no byte has been received and lost.
\<close>

theorem readBuffer_correct:
  assumes "posix_read os" and "0 < len" and "len \<le> int (length b0)" and "len < 2 ^ 31"
  shows "case readBuffer c os junk b0 len s of None \<Rightarrow> True
    | Some ((n, b), s') \<Rightarrow> (let fd = spsw_fd (sps s) in
        (n = - 1 \<and> is_pending s' \<and> (\<forall>m k. pending s' = Some (TimeoutIOException m k) \<longrightarrow>
            k = 0 \<and> received fd s' = received fd s)) \<or>
        (0 \<le> n \<and> n \<le> len \<and> received fd s' = received fd s @ take (nat n) b \<and>
          drop (nat n) b = drop (nat n) b0 \<and> length b = length b0))"
proof (cases "readBuffer c os junk b0 len s")
  case (Some y)
  obtain n b s' where y: "y = ((n, b), s')" by (metis prod_cases3 prod.collapse)
  show ?thesis
    using readBuffer_result [OF assms Some [unfolded y]]
    by (simp add: Some y read_result_def got_def Let_def) blast
qed simp

lemma read_run:
  "case readBuffer linux_consts queue_device (0, 0) [0, 0, 0] 3 (example_state [7, 8]) of None \<Rightarrow> False
    | Some ((n, b), s') \<Rightarrow> n = 2 \<and> b = [7, 8, 0] \<and> \<not> is_pending s'"
  by code_simp

theorem readBuffer_correct_witness:
  "case readBuffer linux_consts queue_device (0, 0) [0, 0, 0] 3 (example_state [7, 8]) of None \<Rightarrow> False
    | Some ((n, b), s') \<Rightarrow> n = 2 \<and> b = [7, 8, 0] \<and> \<not> is_pending s' \<and> received 3 s' = [7, 8]"
  using readBuffer_correct [where os = queue_device and len = 3 and ?b0.0 = "[0, 0, 0]" and c = linux_consts
      and junk = "(0, 0)" and s = "example_state [7, 8]"] read_run
  by (auto simp: open_sps_def received_def Let_def is_pending_def split: option.splits)

text \<open>
  On a device that gives data when \<open>poll\<close> says so, \<open>readBuffer\<close> returns, and
  then either an exception is pending and the result is -1, or nothing was thrown and the
  result counts the bytes received.
\<close>

theorem readBuffer_total:
  assumes "posix_read os" and "0 < len" and "len \<le> int (length b0)" and "len < 2 ^ 31"
    and "readable_after_poll c os (spsw_fd (sps s))"
  shows "\<exists>n b s'. readBuffer c os junk b0 len s = Some ((n, b), s') \<and>
    ((n = - 1 \<and> is_pending s') \<or>
     (pending s' = pending s \<and> 0 \<le> n \<and> n \<le> len \<and>
       received (spsw_fd (sps s)) s' = received (spsw_fd (sps s)) s @ take (nat n) b))"
proof -
  obtain n b s' where r: "readBuffer c os junk b0 len s = Some ((n, b), s')"
    using readBuffer_returns [OF assms] by fast
  then show ?thesis
    using readBuffer_result [OF assms(1-4) r] assms(5) by (auto simp: read_result_def got_def)
qed

theorem readBuffer_total_witness:
  "\<exists>n b s'. readBuffer linux_consts queue_device (0, 0) [0, 0, 0] 3 (example_state [7, 8]) = Some ((n, b), s') \<and>
    ((n = - 1 \<and> is_pending s') \<or> (pending s' = None \<and> 0 \<le> n \<and> n \<le> 3 \<and> received 3 s' = take (nat n) b))"
  using readBuffer_total [of queue_device 3 "[0, 0, 0]" linux_consts "example_state [7, 8]" "(0, 0)"]
  by (simp add: open_sps_def received_def)

text \<open>
  A device that stays readable without giving a byte keeps \<open>readBuffer\<close> in its loop
  forever when there is no overall timeout: the branch for an empty read throws and does not
  leave the function.
\<close>

theorem readBuffer_endless:
  assumes "eof_device c os (spsw_fd (sps s))" and "spsw_fd (sps s) \<noteq> INVALID_FD" and "0 < len"
    and "spsw_pollReadTimeout (sps s) = - 1"
  shows "readBuffer c os junk b0 len s = None"
  using assms by (rule readBuffer_diverges)

definition empty_device :: "unit os" where
  "empty_device c x = (resp0\<lparr>r_ret := (case c of Poll _ _ \<Rightarrow> 1 | _ \<Rightarrow> 0), r_revents0 := 1\<rparr>, x)"

lemma empty_device_eof [simp]: "eof_device linux_consts empty_device fd"
  by (simp add: eof_device_def empty_device_def quiet_def resp0_def Let_def linux_consts_def)

theorem readBuffer_endless_witness:
  "readBuffer linux_consts empty_device (0, 0) [0, 0, 0] 3 (example_state ()) = None"
  by (rule readBuffer_endless) (simp_all add: open_sps_def INVALID_FD_def)

text \<open>
  C8: what \<open>writeBuffer\<close> has written is a prefix of the buffer, in order. Without an
  exception it is the whole buffer, but the result is only the length of the last chunk, so
  it is the length of the buffer only when one \<open>write\<close> took everything. The exception of
  a \<open>poll\<close> timeout reports the number of bytes written.
\<close>

theorem writeBuffer_correct:
  assumes "posix_write os" and "0 < len" and "len \<le> int (length buff)" and "len < 2 ^ 31"
  shows "case writeBuffer c os junk buff len s of None \<Rightarrow> True
    | Some (x, s') \<Rightarrow> (let fd = spsw_fd (sps s) in
        (pending s' = pending s \<and> sent fd s' = sent fd s @ take (nat len) buff \<and>
          (\<exists>k r. 0 \<le> k \<and> k + x = len \<and> 0 \<le> x \<and>
            last (calls s') = (Write fd (drop (nat k) (take (nat len) buff)), r) \<and> r_ret r = x)) \<or>
        (is_pending s' \<and> (\<exists>n. 0 \<le> n \<and> n \<le> len \<and> sent fd s' = sent fd s @ take (nat n) buff \<and>
          (\<forall>k. pending s' = Some (TimeoutIOException ''writeBuffer poll timeout'' k) \<longrightarrow> k = n))))"
proof (cases "writeBuffer c os junk buff len s")
  case (Some y)
  obtain x s' where y: "y = (x, s')" by (cases y)
  show ?thesis
    using writeBuffer_result [OF assms Some [unfolded y]]
    by (simp add: Some y write_result_def put_def Let_def) blast
qed simp

lemma write_run:
  "case writeBuffer linux_consts queue_device (0, 0) [1, 2, 3, 4, 5, 6] 6 (example_state [0]) of None \<Rightarrow> False
    | Some (x, s') \<Rightarrow> x = 2 \<and> \<not> is_pending s'"
  by code_simp

theorem writeBuffer_correct_witness:
  "case writeBuffer linux_consts queue_device (0, 0) [1, 2, 3, 4, 5, 6] 6 (example_state [0]) of None \<Rightarrow> False
    | Some (x, s') \<Rightarrow> x = 2 \<and> \<not> is_pending s' \<and> sent 3 s' = [1, 2, 3, 4, 5, 6]"
  using writeBuffer_correct [where os = queue_device and len = 6 and buff = "[1, 2, 3, 4, 5, 6]" and c = linux_consts
      and junk = "(0, 0)" and s = "example_state [0]"] write_run
  by (auto simp: open_sps_def sent_def Let_def is_pending_def split: option.splits)

text \<open>
  On a device that takes data when \<open>poll\<close> says so, \<open>writeBuffer\<close> returns.
\<close>

theorem writeBuffer_total:
  assumes "posix_write os" and "0 < len" and "len \<le> int (length buff)" and "len < 2 ^ 31"
    and "writable_after_poll c os (spsw_fd (sps s))"
  shows "\<exists>x s'. writeBuffer c os junk buff len s = Some (x, s')"
  using assms by (rule writeBuffer_returns)

theorem writeBuffer_total_witness:
  "\<exists>x s'. writeBuffer linux_consts queue_device (0, 0) [1, 2, 3, 4, 5, 6] 6 (example_state [0]) = Some (x, s')"
  by (rule writeBuffer_total) simp_all

text \<open>
  With timeouts that \<open>setTimeouts\<close> has accepted, neither transfer reads the end time
  before it has been computed.
\<close>

theorem transfers_initialised:
  assumes "setTimeouts a b d obj = Inr (sps s)" and "posix_read os" and "posix_write os" and "quiet os"
    and "0 < len" and "len \<le> int (length buff)" and "len < 2 ^ 31"
  shows "(case readBuffer c os junk buff len s of None \<Rightarrow> True
      | Some (_, s') \<Rightarrow> uninit_read s' = uninit_read s) \<and>
    (case writeBuffer c os junk buff len s of None \<Rightarrow> True
      | Some (_, s') \<Rightarrow> uninit_read s' = uninit_read s)"
proof (rule conjI)
  show "case readBuffer c os junk buff len s of None \<Rightarrow> True | Some (_, s') \<Rightarrow> uninit_read s' = uninit_read s"
    using readBuffer_result [OF assms(2,5-7), of c junk s] setTimeouts_range(1) [OF assms(1)] assms(4)
    by (cases "readBuffer c os junk buff len s") (auto split: prod.splits)
  show "case writeBuffer c os junk buff len s of None \<Rightarrow> True | Some (_, s') \<Rightarrow> uninit_read s' = uninit_read s"
    using writeBuffer_result [OF assms(3,5-7), of c junk s] setTimeouts_range(2) [OF assms(1)]
    by (cases "writeBuffer c os junk buff len s") (auto split: prod.splits)
qed

theorem transfers_initialised_witness:
  "(case readBuffer linux_consts queue_device (0, 0) [0, 0, 0] 3 (example_state [7]) of None \<Rightarrow> True
      | Some (_, s') \<Rightarrow> \<not> uninit_read s') \<and>
    (case writeBuffer linux_consts queue_device (0, 0) [0, 0, 0] 3 (example_state [7]) of None \<Rightarrow> True
      | Some (_, s') \<Rightarrow> \<not> uninit_read s')"
  using transfers_initialised [of 100 0 0 open_sps "example_state [7]" queue_device 3 "[0, 0, 0]" linux_consts "(0, 0)"]
  by (simp add: setTimeouts_def open_sps_def cong: option.case_cong prod.case_cong)

text \<open>
  \<open>sendBreak0\<close> returns without an exception only when the break was switched on, the
  wait was made and the break was switched off; a wait that fails leaves the break on. The
  wait is the duration in milliseconds as microseconds modulo \<open>2 ^ 32\<close>.
\<close>

theorem sendBreak0_outcomes:
  assumes "0 < d"
  shows "case run_state (sendBreak0 os d) s of (_, s') \<Rightarrow>
    (let fd = spsw_fd (sps s); on = Ioctl fd TIOCSBRK; off = Ioctl fd TIOCCBRK;
         wait = Usleep (uint32 (uint32 d * 1000)) in
    (\<exists>b u e. calls s' = calls s @ [(on, b), (wait, u), (off, e)] \<and> r_ret b = 0 \<and> r_ret u = 0 \<and>
       (r_ret e = 0 \<and> pending s' = pending s \<or> r_ret e \<noteq> 0 \<and> is_pending s')) \<or>
    (\<exists>b. calls s' = calls s @ [(on, b)] \<and> r_ret b \<noteq> 0 \<and> is_pending s') \<or>
    (\<exists>b u. calls s' = calls s @ [(on, b), (wait, u)] \<and> r_ret b = 0 \<and> r_ret u \<noteq> 0 \<and> is_pending s'))"
  using sendBreak0_wp [OF assms, of os s] by (simp add: wp_def split: prod.splits)

theorem sendBreak0_outcomes_witness:
  "case run_state (sendBreak0 queue_device 4294968) (example_state []) of (_, s') \<Rightarrow>
    (\<exists>b. calls s' = [(Ioctl 3 TIOCSBRK, b)]) \<or>
    (\<exists>b u e. calls s' = [(Ioctl 3 TIOCSBRK, b), (Usleep 704, u), (Ioctl 3 TIOCCBRK, e)]) \<or>
    (\<exists>b u. calls s' = [(Ioctl 3 TIOCSBRK, b), (Usleep 704, u)])"
  using sendBreak0_outcomes [where d = 4294968 and os = queue_device and s = "example_state []"]
  by (auto simp: open_sps_def uint32_def Let_def take_bit_eq_mod split: prod.splits)

end
