(* ===== verification/CloseRace.thy ===== *)
theory CloseRace
  imports TermiosIO
begin

text \<open>
  Closing a port while another thread transfers. The closing thread runs the steps of
  \<open>close0\<close> (\<open>TermiosCommon.c\<close>) one by one; the transferring thread is \<open>readBuffer\<close> or
  \<open>writeBuffer\<close> (\<open>TermiosIO.c\<close>). They meet in the fields of the Java object and in the
  kernel: the descriptor of the port and the close event. The steps of the closing thread may
  fall before and behind what a system call of the other thread does, so the interleaving is as
  fine as the system calls; fields read without a call between them are read together.

  The port is silent: nothing to read, no room to write. A transfer without a timeout can then
  only end by the close.
\<close>

section \<open>The closing thread\<close>

text \<open>Where the closing thread is: the step it has done last.\<close>

datatype closer = Waiting | Marked | Signalled | Flushed | Unlinked | Detached | Closed

text \<open>The places in the order of the code.\<close>

fun phase :: "closer \<Rightarrow> nat" where
  "phase Waiting = 0"
| "phase Marked = 1"
| "phase Signalled = 2"
| "phase Flushed = 3"
| "phase Unlinked = 4"
| "phase Detached = 5"
| "phase Closed = 6"

lemma phase_inj: "phase p = phase q \<Longrightarrow> p = q"
  by (cases p; cases q) simp_all

instantiation closer :: linorder
begin

definition less_eq_closer :: "closer \<Rightarrow> closer \<Rightarrow> bool" where
  "less_eq_closer p q \<longleftrightarrow> phase p \<le> phase q"

definition less_closer :: "closer \<Rightarrow> closer \<Rightarrow> bool" where
  "less_closer p q \<longleftrightarrow> phase p < phase q"

instance
  by standard (auto simp: less_eq_closer_def less_closer_def intro: phase_inj)

end

lemmas closer_order = less_eq_closer_def less_closer_def

lemma closer_ground [simp]:
  "\<not> Marked \<le> Waiting" "\<not> Signalled \<le> Waiting" "\<not> Detached \<le> Waiting" "Waiting < Closed"
  "Marked \<le> Detached" "Signalled \<le> Detached" "Unlinked < Detached" "Detached < Closed"
  "Signalled \<le> Closed"
  by (simp_all add: closer_order)

record race =
  r_pc :: closer
  r_open :: bool
  r_event :: bool

text \<open>Each step is one statement of \<open>close0\<close> that another thread can see.\<close>

inductive close_step :: "sps \<times> race \<Rightarrow> sps \<times> race \<Rightarrow> bool" where
  mark: "r_pc k = Waiting \<Longrightarrow> close_step (obj, k) (obj\<lparr>spsw_fd := INVALID_FD\<rparr>, k\<lparr>r_pc := Marked\<rparr>)"
| signal: "r_pc k = Marked \<Longrightarrow> close_step (obj, k) (obj, k\<lparr>r_event := True, r_pc := Signalled\<rparr>)"
| flush: "r_pc k = Signalled \<Longrightarrow> close_step (obj, k) (obj, k\<lparr>r_pc := Flushed\<rparr>)"
| unlink: "r_pc k = Flushed \<Longrightarrow>
    close_step (obj, k) (obj\<lparr>spsw_closeEventWriteFd := INVALID_FD\<rparr>, k\<lparr>r_pc := Unlinked\<rparr>)"
| detach: "r_pc k = Unlinked \<Longrightarrow>
    close_step (obj, k) (obj\<lparr>spsw_closeEventReadFd := INVALID_FD\<rparr>, k\<lparr>r_pc := Detached\<rparr>)"
| shut: "r_pc k = Detached \<Longrightarrow> close_step (obj, k) (obj, k\<lparr>r_open := False, r_pc := Closed\<rparr>)"

inductive_cases close_stepE: "close_step x y"

abbreviation close_steps :: "sps \<times> race \<Rightarrow> sps \<times> race \<Rightarrow> bool" where
  "close_steps \<equiv> close_step\<^sup>*\<^sup>*"

text \<open>The kernel when only \<open>close0\<close> runs: the write signals the event, \<open>close\<close> closes the port.\<close>

definition closing_kernel :: "int \<Rightarrow> int \<Rightarrow> race os" where
  "closing_kernel fd ew call x = (case x of (obj, k) \<Rightarrow> (resp0, obj, case call of
       Write f _ \<Rightarrow> if f = ew then k\<lparr>r_event := True\<rparr> else k
     | Close f \<Rightarrow> if f = fd then k\<lparr>r_open := False\<rparr> else k
     | _ \<Rightarrow> k))"

text \<open>The step relation is the code of \<open>close0\<close>: all steps together do what \<open>close0\<close> does.\<close>

lemma close0_steps:
  assumes "spsw_fd (sps s) = fd" and "spsw_closeEventWriteFd (sps s) = ew" and "r_pc (world s) = Waiting"
  shows "wp (close0 c (closing_kernel fd ew)) (\<lambda>_ s'. pending s' = pending s \<and>
    close_steps (sps s, world s) (sps s', (world s')\<lparr>r_pc := Closed\<rparr>)) s"
proof -
  let ?o = "sps s" and ?k = "world s"
  let ?o1 = "?o\<lparr>spsw_fd := INVALID_FD\<rparr>"
  let ?o2 = "?o1\<lparr>spsw_closeEventWriteFd := INVALID_FD\<rparr>"
  let ?o3 = "?o2\<lparr>spsw_closeEventReadFd := INVALID_FD\<rparr>"
  let ?k2 = "?k\<lparr>r_event := True, r_pc := Signalled\<rparr>"
  have "close_step (?o, ?k) (?o1, ?k\<lparr>r_pc := Marked\<rparr>)" using assms(3) by (rule mark)
  moreover have "close_step (?o1, ?k\<lparr>r_pc := Marked\<rparr>) (?o1, ?k2)"
    using signal [of "?k\<lparr>r_pc := Marked\<rparr>" ?o1] by simp
  moreover have "close_step (?o1, ?k2) (?o1, ?k2\<lparr>r_pc := Flushed\<rparr>)"
    by (rule flush) simp
  moreover have "close_step (?o1, ?k2\<lparr>r_pc := Flushed\<rparr>) (?o2, ?k2\<lparr>r_pc := Unlinked\<rparr>)"
    using unlink [of "?k2\<lparr>r_pc := Flushed\<rparr>" ?o1] by simp
  moreover have "close_step (?o2, ?k2\<lparr>r_pc := Unlinked\<rparr>) (?o3, ?k2\<lparr>r_pc := Detached\<rparr>)"
    using detach [of "?k2\<lparr>r_pc := Unlinked\<rparr>" ?o2] by simp
  moreover have "close_step (?o3, ?k2\<lparr>r_pc := Detached\<rparr>) (?o3, ?k2\<lparr>r_open := False, r_pc := Closed\<rparr>)"
    using shut [of "?k2\<lparr>r_pc := Detached\<rparr>" ?o3] by simp
  ultimately have "close_steps (?o, ?k) (?o3, ?k2\<lparr>r_open := False, r_pc := Closed\<rparr>)"
    by (meson converse_rtranclp_into_rtranclp rtranclp.rtrancl_refl)
  then show ?thesis
    using assms by (simp add: close0_def wp_simps closing_kernel_def resp0_def)
qed

section \<open>The invariant\<close>

text \<open>
  What the fields and the kernel look like at each place: the object is marked closed before the
  event is signalled, and the event is signalled before the descriptors are forgotten and the
  port is closed. The timeouts stay.
\<close>

definition race_ok :: "int \<Rightarrow> int \<Rightarrow> int \<times> int \<Rightarrow> sps \<times> race \<Rightarrow> bool" where
  "race_ok fd er timeouts = (\<lambda>(obj, k).
     spsw_fd obj = (if Marked \<le> r_pc k then INVALID_FD else fd) \<and>
     spsw_closeEventReadFd obj = (if Detached \<le> r_pc k then INVALID_FD else er) \<and>
     (r_event k \<longleftrightarrow> Signalled \<le> r_pc k) \<and> (r_open k \<longleftrightarrow> r_pc k < Closed) \<and>
     timeouts = (spsw_pollReadTimeout obj, spsw_pollWriteTimeout obj))"

lemma close_step_ok: "close_step x y \<Longrightarrow> race_ok fd er ts x \<Longrightarrow> race_ok fd er ts y"
  by (induction rule: close_step.induct) (auto simp: race_ok_def closer_order)

lemma close_steps_ok: "close_steps x y \<Longrightarrow> race_ok fd er ts x \<Longrightarrow> race_ok fd er ts y"
  by (induction rule: rtranclp_induct) (auto intro: close_step_ok)

text \<open>Nothing leads back.\<close>

lemma close_step_less: "close_step x y \<Longrightarrow> r_pc (snd x) < r_pc (snd y)"
  by (erule close_stepE) (simp_all add: closer_order)

lemma close_steps_less: "close_steps x y \<Longrightarrow> y = x \<or> r_pc (snd x) < r_pc (snd y)"
  by (induction rule: rtranclp_induct) (auto dest: close_step_less)

lemma close_steps_mono: "close_steps x y \<Longrightarrow> r_pc (snd x) \<le> r_pc (snd y)"
  by (auto dest: close_steps_less)

lemma not_begun: "\<not> Marked \<le> p \<longleftrightarrow> p = Waiting"
  by (cases p) (simp_all add: closer_order)


section \<open>A silent port that is being closed\<close>

text \<open>
  What a call answers in the state the closing thread has reached. Reading and writing never
  succeed: \<open>EAGAIN\<close> while the descriptor is open, another error else. A \<open>poll\<close> that includes
  the close event returns when the event has been signalled.
\<close>

definition silent_answer :: "posix \<Rightarrow> int \<Rightarrow> int \<Rightarrow> pcall \<Rightarrow> presp \<Rightarrow> race \<Rightarrow> bool" where
  "silent_answer c fd er call r k = (case call of
       Read f n \<Rightarrow> r_ret r = - 1 \<and> (r_errno r = EAGAIN c \<longleftrightarrow> f = fd \<and> r_open k)
     | Write f bs \<Rightarrow> r_ret r = - 1 \<and> (r_errno r = EAGAIN c \<longleftrightarrow> f = fd \<and> r_open k)
     | Poll fds t \<Rightarrow> (t < 0 \<and> er = fst (last fds) \<longrightarrow> 0 < r_ret r \<and> r_event k \<and> r_revents1 r = POLLIN c)
     | _ \<Rightarrow> True)"

text \<open>The closing thread runs before and behind the moment a call is answered.\<close>

definition silent_port :: "posix \<Rightarrow> int \<Rightarrow> int \<Rightarrow> int \<times> int \<Rightarrow> race os \<Rightarrow> bool" where
  "silent_port c fd er ts os \<longleftrightarrow> (\<forall>call x r y. os call x = (r, y) \<longrightarrow> race_ok fd er ts x \<longrightarrow>
     (\<exists>z. close_steps x z \<and> silent_answer c fd er call r (snd z) \<and> close_steps z y))"


section \<open>A waiting reader\<close>




section \<open>A waiting writer\<close>

text \<open>The first \<open>write\<close>. The descriptor of the close event is read behind it.\<close>

lemma write_first_silent:
  assumes port: "silent_port c fd er ts os" and ok: "race_ok fd er ts (sps s, world s)" and len: "0 < len"
    and fd: "fd \<noteq> INVALID_FD"
    and call: "os (Write (spsw_fd (sps s)) (take (nat (uint32 len)) buff)) (sps s, world s) = (r, obj, k)"
    and open_port: "r_pc k < Closed"
  shows "wp (write_first c os (spsw_fd (sps s)) buff len) (\<lambda>x s'.
    if r_pc (world s) = Waiting then x = Inr 0 \<and> sps s' = obj \<and> world s' = k \<and> race_ok fd er ts (obj, k) \<and>
      calls s' = calls s @ [(Write fd (take (nat (uint32 len)) buff), r)]
    else x = Inl (- 1) \<and> pending s' = Some AsynchronousCloseException) s"
proof -
  obtain z where z: "close_steps (sps s, world s) z" "silent_answer c fd er (Write (spsw_fd (sps s)) (take (nat (uint32 len)) buff)) r (snd z)"
      "close_steps z (obj, k)"
    using port ok call unfolding silent_port_def by blast
  have ok': "race_ok fd er ts z" "race_ok fd er ts (obj, k)"
    using close_steps_ok [OF z(1) ok] close_steps_ok [OF z(3)] by blast+
  have "r_open (snd z)"
    using ok'(1) close_steps_mono [OF z(3)] open_port by (auto simp: race_ok_def not_begun)
  then have r: "r_ret r = - 1" "r_errno r = EAGAIN c \<longleftrightarrow> spsw_fd (sps s) = fd"
    using z(2) by (simp_all add: silent_answer_def)
  show ?thesis
  proof (cases "r_pc (world s) = Waiting")
    case True
    then have "spsw_fd (sps s) = fd" using ok by (simp add: race_ok_def not_begun)
    then show ?thesis
      using True r ok'(2) len call by (simp add: write_first_def wp_simps)
  next
    case False
    then have "spsw_fd (sps s) = INVALID_FD" using ok by (simp add: race_ok_def not_begun)
    then show ?thesis
      using False r fd len call by (simp add: write_first_def wp_simps throw_AsynchronousCloseException_def)
  qed
qed


text \<open>Everything before the loop of \<open>writeBuffer\<close>.\<close>

lemma write_start_silent:
  assumes port: "silent_port c fd er ts os" and ok: "race_ok fd er ts (sps s, world s)" and len: "0 < len"
    and fd: "fd \<noteq> INVALID_FD" and ts: "snd ts = - 1"
    and call: "os (Write (spsw_fd (sps s)) (take (nat (uint32 len)) buff)) (sps s, world s) = (r, obj, k)"
    and open_port: "r_pc k < Closed"
  shows "wp (write_start c os buff len) (\<lambda>x s'.
    if r_pc (world s) = Waiting
    then x = Inr (fd, spsw_closeEventReadFd obj, - 1, None, 0) \<and> sps s' = obj \<and> world s' = k \<and>
      race_ok fd er ts (obj, k) \<and> calls s' = calls s @ [(Write fd (take (nat (uint32 len)) buff), r)]
    else x = Inl (- 1) \<and> pending s' = Some AsynchronousCloseException) s"
  unfolding write_start_def wp_bind wp_GetField
  by (rule wp_mono [OF write_first_silent [OF port ok len fd call open_port]])
    (use ok ts in \<open>auto simp: wp_simps end_time_def race_ok_def not_begun split: if_splits\<close>)


text \<open>Which descriptors a round of the loop waits for.\<close>

lemma write_round_polls:
  "wp (write_round c os junk f e (- 1) et buff len a) (\<lambda>_ s'. \<exists>p rest.
     calls s' = calls s @ (Poll [(f, POLLOUT c), (e, POLLIN c)] (- 1), p) # rest) s"
proof -
  have more: "wp (write_chunk c os f buff len w n p) (\<lambda>_ s'. \<exists>rest. calls s' = calls t @ rest) t" for w n p t
    unfolding write_chunk_def write_events_def wp_bind
    by (auto simp: wp_simps intro!: syscall_wp wp_throws)
  show ?thesis
    unfolding write_round_def write_timeout_def
    by (cases a) (auto simp: wp_simps intro!: syscall_wp wp_throws wp_mono [OF more])
qed

section \<open>A port with a plan\<close>

text \<open>
  An executable closing thread, and a silent port that lets it take \<open>n\<close> steps behind each
  transfer and run to its end in a \<open>poll\<close>.
\<close>

definition closer_next :: "sps \<times> race \<Rightarrow> sps \<times> race" where
  "closer_next = (\<lambda>(obj, k). case r_pc k of
       Waiting \<Rightarrow> (obj\<lparr>spsw_fd := INVALID_FD\<rparr>, k\<lparr>r_pc := Marked\<rparr>)
     | Marked \<Rightarrow> (obj, k\<lparr>r_event := True, r_pc := Signalled\<rparr>)
     | Signalled \<Rightarrow> (obj, k\<lparr>r_pc := Flushed\<rparr>)
     | Flushed \<Rightarrow> (obj\<lparr>spsw_closeEventWriteFd := INVALID_FD\<rparr>, k\<lparr>r_pc := Unlinked\<rparr>)
     | Unlinked \<Rightarrow> (obj\<lparr>spsw_closeEventReadFd := INVALID_FD\<rparr>, k\<lparr>r_pc := Detached\<rparr>)
     | Detached \<Rightarrow> (obj, k\<lparr>r_open := False, r_pc := Closed\<rparr>)
     | Closed \<Rightarrow> (obj, k))"

definition closing_port :: "posix \<Rightarrow> int \<Rightarrow> nat \<Rightarrow> race os" where
  "closing_port c fd n call x = (
     let failed = (\<lambda>f. resp0\<lparr>r_ret := - 1, r_errno := (if f = fd \<and> r_open (snd x) then EAGAIN c else EAGAIN c + 1)\<rparr>)
     in case call of
       Read f _ \<Rightarrow> (failed f, (closer_next ^^ n) x)
     | Write f _ \<Rightarrow> (failed f, (closer_next ^^ n) x)
     | Poll _ _ \<Rightarrow> (resp0\<lparr>r_ret := 1, r_revents1 := POLLIN c\<rparr>, (closer_next ^^ 6) x)
     | _ \<Rightarrow> (resp0, x))"

lemma closer_next_step: "close_step x (closer_next x) \<or> closer_next x = x"
  by (cases x; cases "r_pc (snd x)") (auto simp: closer_next_def intro: close_step.intros)

lemma closer_next_steps: "close_steps x ((closer_next ^^ n) x)"
proof (induction n)
  case (Suc n)
  then show ?case
    using closer_next_step [of "(closer_next ^^ n) x"] by (auto intro: rtranclp.rtrancl_into_rtrancl)
qed simp

lemma closer_next_ends: "r_pc (snd ((closer_next ^^ 6) x)) = Closed"
  by (cases x; cases "r_pc (snd x)") (simp_all add: closer_next_def eval_nat_numeral)

lemma silent_closing_port: "silent_port c fd er ts (closing_port c fd n)"
  unfolding silent_port_def
proof (intro allI impI, goal_cases)
  case (1 call x r y)
  show ?case
  proof (cases "\<exists>fds t. call = Poll fds t")
    case True
    have "race_ok fd er ts ((closer_next ^^ 6) x)"
      using close_steps_ok [OF closer_next_steps 1(2)] .
    then have "r_event (snd ((closer_next ^^ 6) x))"
      using closer_next_ends [of x] by (auto simp: race_ok_def not_begun split: prod.splits)
    then show ?thesis
      using True 1(1) closer_next_steps [of x 6]
      by (intro exI [of _ "(closer_next ^^ 6) x"]) (auto simp: closing_port_def silent_answer_def resp0_def)
  next
    case False
    then show ?thesis
      using 1(1) closer_next_steps [of x n]
      by (intro exI [of _ x]; cases call) (auto simp: closing_port_def silent_answer_def resp0_def Let_def split: if_splits)
  qed
qed

definition race_start :: race where
  "race_start = \<lparr>r_pc = Waiting, r_open = True, r_event = False\<rparr>"

lemma race_start_ok: "race_ok 3 4 (- 1, - 1) (open_sps, race_start)" "r_pc race_start = Waiting" "spsw_fd open_sps = 3"
  by (simp_all add: race_ok_def closer_order race_start_def open_sps_def)

lemma closing_port_write:
  "closing_port c 3 4 (Write 3 bs) (open_sps, race_start) = (resp0\<lparr>r_ret := - 1, r_errno := EAGAIN c\<rparr>,
     open_sps\<lparr>spsw_fd := - 1, spsw_closeEventWriteFd := - 1\<rparr>, \<lparr>r_pc = Unlinked, r_open = True, r_event = True\<rparr>)"
  "closing_port c 3 5 (Write 3 bs) (open_sps, race_start) = (resp0\<lparr>r_ret := - 1, r_errno := EAGAIN c\<rparr>,
     open_sps\<lparr>spsw_fd := - 1, spsw_closeEventWriteFd := - 1, spsw_closeEventReadFd := - 1\<rparr>,
     \<lparr>r_pc = Detached, r_open = True, r_event = True\<rparr>)"
  by (simp_all add: closing_port_def closer_next_def race_start_def open_sps_def eval_nat_numeral INVALID_FD_def)

section \<open>Properties\<close>





text \<open>
  The wake-up that is lost. \<open>writeBuffer\<close> reads the descriptor of the close event only
  behind its first \<open>write\<close>. If \<open>close0\<close> has forgotten the descriptor by then and has not yet
  closed the port, the writer waits without a timeout for a port that is open and silent and for
  no event at all, although the event has been signalled for it.
\<close>

theorem writer_loses_close:
  assumes "silent_port c fd er ts os" and "race_ok fd er ts (sps s, world s)" and "0 < len"
    and "fd \<noteq> INVALID_FD" and "snd ts = - 1" and "r_pc (world s) = Waiting"
    and "os (Write (spsw_fd (sps s)) (take (nat (uint32 len)) buff)) (sps s, world s) = (r, obj, k)"
    and "r_pc k = Detached"
  shows "\<exists>s1. run_state (write_start c os buff len) s = (Inr (fd, INVALID_FD, - 1, None, 0), s1) \<and>
    r_event (world s1) \<and> r_open (world s1) \<and>
    (case run_state (write_round c os junk fd INVALID_FD (- 1) None buff len (0, 0)) s1 of (_, s2) \<Rightarrow>
      \<exists>p rest. calls s2 = calls s1 @ (Poll [(fd, POLLOUT c), (INVALID_FD, POLLIN c)] (- 1), p) # rest)"
proof -
  obtain x s1 where run: "run_state (write_start c os buff len) s = (x, s1)" by fastforce
  have "r_pc k < Closed" using assms(8) by (simp add: closer_order)
  note start = wpD [OF write_start_silent [OF assms(1-5,7) this] run]
  have "x = Inr (fd, INVALID_FD, - 1, None, 0)" "r_event (world s1)" "r_open (world s1)"
    using start assms(6,8) by (auto simp: race_ok_def not_begun)
  moreover have "case run_state (write_round c os junk fd INVALID_FD (- 1) None buff len (0, 0)) s1 of (_, s2) \<Rightarrow>
      \<exists>p rest. calls s2 = calls s1 @ (Poll [(fd, POLLOUT c), (INVALID_FD, POLLIN c)] (- 1), p) # rest"
    using write_round_polls by (simp add: wp_def)
  ultimately show ?thesis using run by (intro exI [of _ s1] conjI) simp_all
qed

theorem writer_loses_close_witness:
  "\<exists>s1. run_state (write_start linux_consts (closing_port linux_consts 3 5) [7, 7] 2) (example_state race_start)
      = (Inr (3, - 1, - 1, None, 0), s1) \<and> r_event (world s1) \<and> r_open (world s1)"
  using writer_loses_close [OF silent_closing_port, of 3 4 "(- 1, - 1)" "example_state race_start" 2 linux_consts 5 "[7, 7]"
      "resp0\<lparr>r_ret := - 1, r_errno := EAGAIN linux_consts\<rparr>" _ _ "(0, 0)"]
  by (simp add: race_start_ok INVALID_FD_def closing_port_write) blast

end
