(* ===== verification/JniLoad.thy ===== *)
theory JniLoad
  imports JniEnv
begin

text \<open>
  \<open>spsw-jni.c\<close> and the first part of \<open>Exceptions.c\<close>: what the library looks up in the
  Java VM when it is loaded, and what it gives back.

  The C variables hold classes (as global references), method ids and field ids; here each is
  whether it has been set. Two ghost fields count the global references the library holds and
  record whether a NULL class was handed to the VM, which the VM does not check.
\<close>

section \<open>The variables of the library\<close>

record globals =
  RuntimeExceptionClass :: bool
  IOExceptionClass :: bool
  InterruptedIOExceptionClass :: bool
  InterruptedIOExceptionInit :: bool
  InterruptedIOException_bytesTransferred :: bool
  AsynchronousCloseExceptionClass :: bool
  AsynchronousCloseExceptionInit :: bool
  TimeoutIOExceptionClass :: bool
  TimeoutIOExceptionInit :: bool
  id_fd :: bool
  id_portName :: bool
  id_interByteReadTimeout :: bool
  id_pollReadTimeout :: bool
  id_pollWriteTimeout :: bool
  id_closeEventReadFd :: bool
  id_closeEventWriteFd :: bool
  global_refs :: nat
  null_class :: bool

definition globals0 :: globals where
  "globals0 = \<lparr>RuntimeExceptionClass = False, IOExceptionClass = False,
     InterruptedIOExceptionClass = False, InterruptedIOExceptionInit = False,
     InterruptedIOException_bytesTransferred = False,
     AsynchronousCloseExceptionClass = False, AsynchronousCloseExceptionInit = False,
     TimeoutIOExceptionClass = False, TimeoutIOExceptionInit = False,
     id_fd = False, id_portName = False, id_interByteReadTimeout = False, id_pollReadTimeout = False,
     id_pollWriteTimeout = False, id_closeEventReadFd = False, id_closeEventWriteFd = False,
     global_refs = 0, null_class = False\<rparr>"

type_synonym ('w, 'c, 'a) loading = "(globals \<times> ('w, 'c) jni, 'a) state"

definition on_vm :: "(('w, 'c) jni, 'a) state \<Rightarrow> ('w, 'c, 'a) loading" where
  "on_vm m = State (\<lambda>(g, s). case run_state m s of (a, s') \<Rightarrow> (a, (g, s')))"

definition set_global :: "(globals \<Rightarrow> globals) \<Rightarrow> ('w, 'c, unit) loading" where
  "set_global upd = modify (\<lambda>(g, s). (upd g, s))"

definition get_global :: "(globals \<Rightarrow> 'a) \<Rightarrow> ('w, 'c, 'a) loading" where
  "get_global f = gets (\<lambda>(g, s). f g)"

section \<open>Names\<close>

definition ARRAY_INDEX_OUT_OF_BOUNDS_EXCEPTION :: string where
  "ARRAY_INDEX_OUT_OF_BOUNDS_EXCEPTION = ''java/lang/ArrayIndexOutOfBoundsException''"

definition GENERIC_TERMIOS_SERIAL_PORT_SOCKET :: string where
  "GENERIC_TERMIOS_SERIAL_PORT_SOCKET = ''de/ibapl/spsw/jniprovider/GenericTermiosSerialPortSocket''"

definition GENERIC_WIN_SERIAL_PORT_SOCKET :: string where
  "GENERIC_WIN_SERIAL_PORT_SOCKET = ''de/ibapl/spsw/jniprovider/GenericWinSerialPortSocket''"

definition JNI_ERR :: int where
  "JNI_ERR = - 1"

definition JNI_VERSION_10 :: int where
  "JNI_VERSION_10 = 0x000a0000"

section \<open>Looking up\<close>

text \<open>
  A global reference of a class: False is NULL, and then an exception is pending. The
  \<open>RuntimeException\<close> for a failing \<open>NewGlobalRef\<close> needs its own class.
\<close>

definition getGlobalClassRef :: "string \<Rightarrow> ('w, 'c, bool) loading" where
  "getGlobalClassRef className = do {
     clazz \<leftarrow> on_vm (FindClass className);
     if \<not> clazz then State_Monad.return False
     else do {
       s \<leftarrow> on_vm State_Monad.get;
       if vm_NewGlobalRef (vm s) className then do {
         set_global (global_refs_update (\<lambda>n. n + 1));
         State_Monad.return True
       } else do {
         cls \<leftarrow> get_global RuntimeExceptionClass;
         (if \<not> cls then set_global (null_class_update (\<lambda>_. True)) else State_Monad.return ());
         on_vm (throw_RuntimeException ''(*env)->NewGlobalRef(env, clazz) return NULL >> Out of memory??'');
         State_Monad.return False
       }
     }
   }"

definition getFieldId :: "string \<Rightarrow> string \<Rightarrow> string \<Rightarrow> ('w, 'c, bool) loading" where
  "getFieldId className fieldName fieldType = do {
     clazz \<leftarrow> on_vm (FindClass className);
     if \<not> clazz then State_Monad.return False
     else on_vm (GetFieldID className fieldName fieldType)
   }"

text \<open>The class of these two is one of the variables; \<open>isset\<close> is whether it is set.\<close>

definition getFieldIdOfClassRef :: "bool \<Rightarrow> string \<Rightarrow> string \<Rightarrow> string \<Rightarrow> ('w, 'c, bool) loading" where
  "getFieldIdOfClassRef isset className fieldName fieldType =
     (if \<not> isset then do {
        set_global (null_class_update (\<lambda>_. True));
        State_Monad.return False
      } else on_vm (GetFieldID className fieldName fieldType))"

definition getMethodIdOfClassRef :: "bool \<Rightarrow> string \<Rightarrow> string \<Rightarrow> string \<Rightarrow> ('w, 'c, bool) loading" where
  "getMethodIdOfClassRef isset className methodName methodSignature =
     (if \<not> isset then do {
        set_global (null_class_update (\<lambda>_. True));
        State_Monad.return False
      } else on_vm (GetMethodID className methodName methodSignature))"

section \<open>The exception classes\<close>

definition init_RuntimeException :: "('w, 'c, bool) loading" where
  "init_RuntimeException = do {
     old \<leftarrow> get_global RuntimeExceptionClass;
     if old then State_Monad.return True
     else do {
       cls \<leftarrow> getGlobalClassRef RUNTIME_EXCEPTION;
       set_global (RuntimeExceptionClass_update (\<lambda>_. cls));
       State_Monad.return cls
     }
   }"

definition init_IOException :: "('w, 'c, bool) loading" where
  "init_IOException = do {
     old \<leftarrow> get_global IOExceptionClass;
     if old then State_Monad.return True
     else do {
       cls \<leftarrow> getGlobalClassRef IO_EXCEPTION;
       set_global (IOExceptionClass_update (\<lambda>_. cls));
       State_Monad.return cls
     }
   }"

definition init_InterruptedIOException :: "('w, 'c, bool) loading" where
  "init_InterruptedIOException = do {
     old \<leftarrow> get_global InterruptedIOExceptionClass;
     if old then State_Monad.return True
     else do {
       cls \<leftarrow> getGlobalClassRef INTERRUPTED_IO_EXCEPTION;
       set_global (InterruptedIOExceptionClass_update (\<lambda>_. cls));
       if \<not> cls then State_Monad.return False
       else do {
         init \<leftarrow> getMethodIdOfClassRef cls INTERRUPTED_IO_EXCEPTION ''<init>'' ''(Ljava/lang/String;)V'';
         set_global (InterruptedIOExceptionInit_update (\<lambda>_. init));
         if \<not> init then State_Monad.return False
         else do {
           fid \<leftarrow> getFieldIdOfClassRef cls INTERRUPTED_IO_EXCEPTION ''bytesTransferred'' ''I'';
           set_global (InterruptedIOException_bytesTransferred_update (\<lambda>_. fid));
           State_Monad.return fid
         }
       }
     }
   }"

definition init_AsynchronousCloseException :: "('w, 'c, bool) loading" where
  "init_AsynchronousCloseException = do {
     old \<leftarrow> get_global AsynchronousCloseExceptionClass;
     if old then State_Monad.return True
     else do {
       cls \<leftarrow> getGlobalClassRef ASYNCHRONOUS_CLOSE_EXCEPTION;
       set_global (AsynchronousCloseExceptionClass_update (\<lambda>_. cls));
       if \<not> cls then State_Monad.return False
       else do {
         init \<leftarrow> getMethodIdOfClassRef cls ASYNCHRONOUS_CLOSE_EXCEPTION ''<init>'' ''()V'';
         set_global (AsynchronousCloseExceptionInit_update (\<lambda>_. init));
         State_Monad.return init
       }
     }
   }"

text \<open>Here the code goes on with a class that was not found.\<close>

definition init_TimeoutIOException :: "('w, 'c, bool) loading" where
  "init_TimeoutIOException = do {
     old \<leftarrow> get_global TimeoutIOExceptionClass;
     if old then State_Monad.return True
     else do {
       cls \<leftarrow> getGlobalClassRef TIMEOUT_IO_EXCEPTION;
       set_global (TimeoutIOExceptionClass_update (\<lambda>_. cls));
       init \<leftarrow> getMethodIdOfClassRef cls TIMEOUT_IO_EXCEPTION ''<init>'' ''(Ljava/lang/String;I)V'';
       set_global (TimeoutIOExceptionInit_update (\<lambda>_. init));
       State_Monad.return init
     }
   }"

definition and_then :: "('w, 'c, bool) loading \<Rightarrow> ('w, 'c, bool) loading \<Rightarrow> ('w, 'c, bool) loading" where
  "and_then m n = do {
     ok \<leftarrow> m;
     if ok then n else State_Monad.return False
   }"

definition initExceptions :: "('w, 'c, bool) loading" where
  "initExceptions = and_then init_RuntimeException (and_then init_IOException
     (and_then init_InterruptedIOException (and_then init_AsynchronousCloseException init_TimeoutIOException)))"

text \<open>Giving the classes back.\<close>

definition delete_global_ref :: "globals \<Rightarrow> globals" where
  "delete_global_ref = global_refs_update (\<lambda>n. n - 1)"

definition cleanup :: "globals \<Rightarrow> globals" where
  "cleanup g = (
     let g1 = (if RuntimeExceptionClass g
               then (delete_global_ref g)\<lparr>RuntimeExceptionClass := False\<rparr> else g);
         g2 = (if IOExceptionClass g1
               then (delete_global_ref g1)\<lparr>IOExceptionClass := False\<rparr> else g1);
         g3 = (if InterruptedIOExceptionClass g2
               then (delete_global_ref g2)\<lparr>InterruptedIOExceptionClass := False,
                 InterruptedIOExceptionInit := False, InterruptedIOException_bytesTransferred := False\<rparr> else g2);
         g4 = (if AsynchronousCloseExceptionClass g3
               then (delete_global_ref g3)\<lparr>AsynchronousCloseExceptionClass := False,
                 AsynchronousCloseExceptionInit := False\<rparr> else g3)
     in (if TimeoutIOExceptionClass g4
         then (delete_global_ref g4)\<lparr>TimeoutIOExceptionClass := False, TimeoutIOExceptionInit := False\<rparr> else g4))"

definition cleanupExceptions :: "('w, 'c, unit) loading" where
  "cleanupExceptions = set_global cleanup"

section \<open>Loading and unloading\<close>

fun cache_fields :: "string \<Rightarrow> ((bool \<Rightarrow> globals \<Rightarrow> globals) \<times> string \<times> string) list \<Rightarrow> ('w, 'c, bool) loading" where
  "cache_fields cls [] = State_Monad.return True"
| "cache_fields cls ((upd, name, type) # fs) = do {
     fid \<leftarrow> getFieldId cls name type;
     set_global (upd fid);
     if \<not> fid then State_Monad.return False
     else cache_fields cls fs
   }"

definition termios_fields :: "((bool \<Rightarrow> globals \<Rightarrow> globals) \<times> string \<times> string) list" where
  "termios_fields =
     [(\<lambda>b. id_fd_update (\<lambda>_. b), ''fd'', ''I''),
      (\<lambda>b. id_closeEventReadFd_update (\<lambda>_. b), ''closeEventReadFd'', ''I''),
      (\<lambda>b. id_closeEventWriteFd_update (\<lambda>_. b), ''closeEventWriteFd'', ''I''),
      (\<lambda>b. id_interByteReadTimeout_update (\<lambda>_. b), ''interByteReadTimeout'', ''I''),
      (\<lambda>b. id_pollReadTimeout_update (\<lambda>_. b), ''pollReadTimeout'', ''I''),
      (\<lambda>b. id_pollWriteTimeout_update (\<lambda>_. b), ''pollWriteTimeout'', ''I''),
      (\<lambda>b. id_portName_update (\<lambda>_. b), ''portName'', ''Ljava/lang/String;'')]"

definition win_fields :: "((bool \<Rightarrow> globals \<Rightarrow> globals) \<times> string \<times> string) list" where
  "win_fields =
     [(\<lambda>b. id_fd_update (\<lambda>_. b), ''fd'', ''J''),
      (\<lambda>b. id_portName_update (\<lambda>_. b), ''portName'', ''Ljava/lang/String;'')]"

definition port_fields :: "platform \<Rightarrow> ('w, 'c, bool) loading" where
  "port_fields pl = (case pl of
     Termios \<Rightarrow> cache_fields GENERIC_TERMIOS_SERIAL_PORT_SOCKET termios_fields
   | Windows \<Rightarrow> cache_fields GENERIC_WIN_SERIAL_PORT_SOCKET win_fields)"

definition JNI_OnLoad :: "('w, 'c, int) loading" where
  "JNI_OnLoad = do {
     s \<leftarrow> on_vm State_Monad.get;
     if \<not> vm_GetEnv (vm s) then State_Monad.return JNI_ERR
     else do {
       ok \<leftarrow> and_then initExceptions (port_fields (vm_platform (vm s)));
       State_Monad.return (if ok then JNI_VERSION_10 else JNI_ERR)
     }
   }"

text \<open>The code cleans up when \<open>GetEnv\<close> has failed: its result is 0 for success.\<close>

definition JNI_OnUnLoad :: "('w, 'c, unit) loading" where
  "JNI_OnUnLoad = do {
     s \<leftarrow> on_vm State_Monad.get;
     (if \<not> vm_GetEnv (vm s) then cleanupExceptions else State_Monad.return ());
     (case vm_platform (vm s) of
        Termios \<Rightarrow> set_global (\<lambda>g. g\<lparr>id_fd := False, id_closeEventReadFd := False,
          id_closeEventWriteFd := False, id_interByteReadTimeout := False, id_pollReadTimeout := False,
          id_pollWriteTimeout := False, id_portName := False\<rparr>)
      | Windows \<Rightarrow> State_Monad.return ())
   }"

section \<open>Weakest preconditions\<close>

lemma wp_on_vm [wp_simps]: "wp (on_vm m) Q (g, s) \<longleftrightarrow> wp m (\<lambda>a s'. Q a (g, s')) s"
  by (simp add: wp_def on_vm_def split: prod.splits)

lemma wp_set_global [wp_simps]: "wp (set_global upd) Q (g, s) \<longleftrightarrow> Q () (upd g, s)"
  by (simp add: set_global_def wp_simps)

lemma wp_get_global [wp_simps]: "wp (get_global f) Q (g, s) \<longleftrightarrow> Q (f g) (g, s)"
  by (simp add: get_global_def wp_simps)

lemma wp_and_then [wp_simps]:
  "wp (and_then m n) Q x \<longleftrightarrow> wp m (\<lambda>ok y. if ok then wp n Q y else Q False y) x"
  by (simp add: and_then_def wp_def split: prod.splits)

section \<open>What the variables say\<close>

text \<open>
  A class that is set has its ids set; the library holds one reference for every class that is
  set, and no NULL class has been used.
\<close>

definition consistent :: "globals \<Rightarrow> bool" where
  "consistent g \<longleftrightarrow>
     (InterruptedIOExceptionClass g \<longrightarrow> InterruptedIOExceptionInit g \<and> InterruptedIOException_bytesTransferred g) \<and>
     (AsynchronousCloseExceptionClass g \<longrightarrow> AsynchronousCloseExceptionInit g) \<and>
     (TimeoutIOExceptionClass g \<longrightarrow> TimeoutIOExceptionInit g)"

definition class_count :: "globals \<Rightarrow> nat" where
  "class_count g = of_bool (RuntimeExceptionClass g) + of_bool (IOExceptionClass g)
     + of_bool (InterruptedIOExceptionClass g) + of_bool (AsynchronousCloseExceptionClass g)
     + of_bool (TimeoutIOExceptionClass g)"

definition refs_match :: "globals \<Rightarrow> bool" where
  "refs_match g \<longleftrightarrow> global_refs g = class_count g"

definition classes_set :: "globals \<Rightarrow> bool" where
  "classes_set g \<longleftrightarrow> RuntimeExceptionClass g \<and> IOExceptionClass g \<and> InterruptedIOExceptionClass g
     \<and> AsynchronousCloseExceptionClass g \<and> TimeoutIOExceptionClass g \<and> consistent g"

definition fields_set :: "platform \<Rightarrow> globals \<Rightarrow> bool" where
  "fields_set pl g \<longleftrightarrow> id_fd g \<and> id_portName g \<and>
     (pl = Termios \<longrightarrow> id_closeEventReadFd g \<and> id_closeEventWriteFd g \<and> id_interByteReadTimeout g \<and>
       id_pollReadTimeout g \<and> id_pollWriteTimeout g)"

text \<open>How a step of the initialisation ends: \<open>P\<close> when it succeeds, an exception otherwise.\<close>

definition step_ok :: "(globals \<Rightarrow> bool) \<Rightarrow> globals \<times> ('w, 'c) jni \<Rightarrow> bool \<Rightarrow> globals \<times> ('w, 'c) jni \<Rightarrow> bool" where
  "step_ok P x ok y \<longleftrightarrow> refs_match (fst y) \<and> vm (snd y) = vm (snd x) \<and>
     (if ok then P (fst y) \<and> pending (snd y) = pending (snd x) else is_pending (snd y) \<or> null_class (fst y))"

definition step_safe :: "(globals \<Rightarrow> bool) \<Rightarrow> (globals \<Rightarrow> bool) \<Rightarrow> ('w, 'c, bool) loading \<Rightarrow> bool" where
  "step_safe P0 P m \<longleftrightarrow> (\<forall>x. refs_match (fst x) \<and> P0 (fst x) \<longrightarrow> wp m (step_ok P x) x)"

lemma step_safe_then:
  assumes "step_safe P0 P m" and "step_safe P R n"
  shows "step_safe P0 R (and_then m n)"
  unfolding step_safe_def
proof (intro allI impI)
  fix x :: "globals \<times> ('a, 'b) jni"
  assume x: "refs_match (fst x) \<and> P0 (fst x)"
  then have "wp m (step_ok P x) x" using assms(1) unfolding step_safe_def by blast
  then show "wp (and_then m n) (step_ok R x) x"
    unfolding wp_and_then
  proof (rule wp_mono)
    fix ok y
    assume y: "step_ok P x ok y"
    show "if ok then wp n (step_ok R x) y else step_ok R x False y"
    proof (cases ok)
      case True
      then have "refs_match (fst y) \<and> P (fst y)" using y by (simp add: step_ok_def)
      then have "wp n (step_ok R y) y" using assms(2) unfolding step_safe_def by blast
      then have "wp n (step_ok R x) y"
        by (rule wp_mono) (use True y in \<open>simp add: step_ok_def split: if_splits\<close>)
      then show ?thesis using True by simp
    qed (use y in \<open>simp add: step_ok_def\<close>)
  qed
qed

definition set_upto :: "nat \<Rightarrow> globals \<Rightarrow> bool" where
  "set_upto n g \<longleftrightarrow> consistent g \<and> (0 < n \<longrightarrow> RuntimeExceptionClass g) \<and> (1 < n \<longrightarrow> IOExceptionClass g)
     \<and> (2 < n \<longrightarrow> InterruptedIOExceptionClass g) \<and> (3 < n \<longrightarrow> AsynchronousCloseExceptionClass g)
     \<and> (4 < n \<longrightarrow> TimeoutIOExceptionClass g)"

lemmas init_defs = getGlobalClassRef_def getMethodIdOfClassRef_def getFieldIdOfClassRef_def FindClass_def
  GetMethodID_def GetFieldID_def throw_RuntimeException_def

lemmas step_defs = step_safe_def step_ok_def set_upto_def consistent_def refs_match_def class_count_def is_pending_def

lemma init_steps:
  "step_safe (set_upto 0) (set_upto 1) init_RuntimeException"
  "step_safe (set_upto 1) (set_upto 2) init_IOException"
  "step_safe (set_upto 2) (set_upto 3) init_InterruptedIOException"
  "step_safe (set_upto 3) (set_upto 4) init_AsynchronousCloseException"
  "step_safe (set_upto 4) (set_upto 5) init_TimeoutIOException"
  by (auto simp: step_defs init_RuntimeException_def init_IOException_def init_InterruptedIOException_def
      init_AsynchronousCloseException_def init_TimeoutIOException_def init_defs wp_simps)

lemma initExceptions_upto: "step_safe (set_upto 0) (set_upto 5) initExceptions"
  unfolding initExceptions_def
  by (rule step_safe_then [OF init_steps(1) step_safe_then [OF init_steps(2) step_safe_then [OF init_steps(3)
      step_safe_then [OF init_steps(4) init_steps(5)]]]])

lemma set_upto_ends: "set_upto 0 = consistent" "set_upto 5 = classes_set"
  by (auto simp: fun_eq_iff set_upto_def classes_set_def)

lemmas initExceptions_safe = initExceptions_upto [unfolded set_upto_ends]

text \<open>The field ids.\<close>

lemma termios_fields_safe: "step_safe classes_set (\<lambda>g. classes_set g \<and> fields_set Termios g)
    (cache_fields GENERIC_TERMIOS_SERIAL_PORT_SOCKET termios_fields)"
  by (auto simp: step_safe_def step_ok_def termios_fields_def getFieldId_def init_defs wp_simps
      classes_set_def fields_set_def consistent_def refs_match_def class_count_def is_pending_def)

lemma win_fields_safe: "step_safe classes_set (\<lambda>g. classes_set g \<and> fields_set Windows g)
    (cache_fields GENERIC_WIN_SERIAL_PORT_SOCKET win_fields)"
  by (auto simp: step_safe_def step_ok_def win_fields_def getFieldId_def init_defs wp_simps
      classes_set_def fields_set_def consistent_def refs_match_def class_count_def is_pending_def)

lemma port_fields_safe: "step_safe classes_set (\<lambda>g. classes_set g \<and> fields_set pl g) (port_fields pl)"
  by (cases pl) (simp_all add: port_fields_def termios_fields_safe win_fields_safe)

lemmas load_safe = step_safe_then [OF initExceptions_safe port_fields_safe]

lemma JNI_OnLoad_wp:
  assumes "consistent g" and "refs_match g"
  shows "wp JNI_OnLoad (\<lambda>r (g', s'). refs_match g' \<and>
    (if r = JNI_VERSION_10 then classes_set g' \<and> fields_set (vm_platform (vm s)) g' \<and> pending s' = pending s
     else r = JNI_ERR \<and> (\<not> vm_GetEnv (vm s) \<or> is_pending s' \<or> null_class g'))) (g, s)"
proof -
  have "wp (and_then initExceptions (port_fields (vm_platform (vm s))))
    (step_ok (\<lambda>g. classes_set g \<and> fields_set (vm_platform (vm s)) g) (g, s)) (g, s)"
    using load_safe [of "vm_platform (vm s)", unfolded step_safe_def, rule_format, of "(g, s)"] assms by simp
  then show ?thesis
    unfolding JNI_OnLoad_def wp_bind wp_on_vm wp_get wp_if wp_return
    using assms(2)
    by (auto simp: JNI_ERR_def JNI_VERSION_10_def step_ok_def elim!: wp_mono split: if_splits)
qed

section \<open>Properties\<close>

text \<open>
  C29: when \<open>JNI_OnLoad\<close> reports success, every exception class, constructor and field id the
  library uses later has been found and nothing was thrown; otherwise the VM is too old, an
  exception is pending or a NULL class was used. In every case the library holds exactly one global
  reference for each class it remembers.
\<close>

theorem JNI_OnLoad_caches:
  assumes "consistent g" and "refs_match g"
  shows "case run_state JNI_OnLoad (g, s) of (r, g', s') \<Rightarrow> refs_match g' \<and>
    (if r = JNI_VERSION_10 then classes_set g' \<and> fields_set (vm_platform (vm s)) g' \<and> pending s' = pending s
     else r = JNI_ERR \<and> (\<not> vm_GetEnv (vm s) \<or> is_pending s' \<or> null_class g'))"
  using JNI_OnLoad_wp [OF assms, of s] by (auto simp: wp_def split: prod.splits)

definition loading_state :: "platform \<Rightarrow> (unit, unit) jni" where
  "loading_state pl = \<lparr>sps = \<lparr>spsw_fd = 0, spsw_closeEventReadFd = 0, spsw_closeEventWriteFd = 0,
       spsw_interByteReadTimeout = 0, spsw_pollReadTimeout = 0, spsw_pollWriteTimeout = 0\<rparr>,
     world = (), errno = 0, last_error = 0, pending = None, calls = [], native_blocks = 0, uninit_read = False,
     vm = \<lparr>vm_platform = pl, vm_FindClass = (\<lambda>_. True), vm_GetMethodID = (\<lambda>_ _ _. True),
       vm_GetFieldID = (\<lambda>_ _ _. True), vm_NewGlobalRef = (\<lambda>_. True), vm_GetEnv = True,
       vm_strerror = (\<lambda>_. []), vm_malloc = (\<lambda>_. True)\<rparr>\<rparr>"

lemma loading_state_sel: "pending (loading_state pl) = None" "vm_platform (vm (loading_state pl)) = pl"
    "vm_GetEnv (vm (loading_state pl))" "consistent globals0" "refs_match globals0"
  by (simp_all add: loading_state_def consistent_def refs_match_def class_count_def globals0_def)

lemma load_run:
  "case run_state JNI_OnLoad (globals0, loading_state Termios) of (r, g', s') \<Rightarrow> r = JNI_VERSION_10"
  by code_simp

theorem JNI_OnLoad_caches_witness:
  "case run_state JNI_OnLoad (globals0, loading_state Termios) of (r, g', s') \<Rightarrow>
    r = JNI_VERSION_10 \<and> refs_match g' \<and> classes_set g' \<and> fields_set Termios g' \<and> pending s' = None"
  using JNI_OnLoad_caches [of globals0 "loading_state Termios"] load_run
  by (auto simp: loading_state_sel split: prod.splits if_splits)

text \<open>
  Unloading the library in a VM it has been loaded in gives back none of the global
  references: the classes stay remembered and referenced. They are given back exactly when
  \<open>GetEnv\<close> fails, where the environment they are given back with does not exist.
\<close>

theorem JNI_OnUnLoad_keeps:
  "case run_state JNI_OnUnLoad (g, s) of (_, g', s') \<Rightarrow> s' = s \<and>
    (if vm_GetEnv (vm s) then global_refs g' = global_refs g \<and> classes_set g' = classes_set g
     else global_refs g' = global_refs g - class_count g \<and> class_count g' = 0)"
proof -
  have "wp JNI_OnUnLoad (\<lambda>_ (g', s'). s' = s \<and>
    (if vm_GetEnv (vm s) then global_refs g' = global_refs g \<and> classes_set g' = classes_set g
     else global_refs g' = global_refs g - class_count g \<and> class_count g' = 0)) (g, s)"
    unfolding JNI_OnUnLoad_def wp_bind wp_on_vm wp_get wp_if
    by (cases "vm_platform (vm s)")
      (auto simp: wp_simps cleanupExceptions_def cleanup_def delete_global_ref_def classes_set_def consistent_def
        class_count_def Let_def)
  then show ?thesis by (auto simp: wp_def split: prod.splits)
qed

end
