(* ===== verification/NativeNames.thy ===== *)
theory NativeNames
  imports ParamBits
begin

text \<open>
  The seam between Java and C: the native methods the Java classes declare, the headers
  \<open>javac -h\<close> generated from them, the functions the C files export, and the constants
  that the headers hand from Java to C. A native method is found by the VM under a name made from
  its class and its own name, if need be with its signature; the C types of the function follow
  from the signature.
\<close>

section \<open>Signatures and names\<close>

datatype ctype = C_void | C_jboolean | C_jchar | C_jint | C_jlong | C_jobject | C_jclass | C_jstring | C_jbyteArray

text \<open>The parameters of a C function behind the environment: first the object or, if static, the class.\<close>

record prototype =
  pt_name :: string
  pt_result :: ctype
  pt_args :: "ctype list"

record native_method =
  nm_class :: string
  nm_method :: string
  nm_signature :: string
  nm_static :: bool

text \<open>The C types of the field descriptors in a signature; \<open>None\<close> for a descriptor that has none here.\<close>

function ctypes :: "string \<Rightarrow> ctype list option" where
  "ctypes cs = (case cs of
     [] \<Rightarrow> Some []
   | c # rest \<Rightarrow>
       if c = CHR ''L'' then
         map_option (Cons (if takeWhile (\<lambda>d. d \<noteq> CHR '';'') rest = ''java/lang/String'' then C_jstring else C_jobject))
           (ctypes (tl (dropWhile (\<lambda>d. d \<noteq> CHR '';'') rest)))
       else if c = CHR ''['' then
         (if rest \<noteq> [] \<and> hd rest = CHR ''B'' then map_option (Cons C_jbyteArray) (ctypes (tl rest)) else None)
       else (case map_of [(CHR ''I'', C_jint), (CHR ''Z'', C_jboolean), (CHR ''C'', C_jchar), (CHR ''J'', C_jlong),
             (CHR ''V'', C_void)] c of
           None \<Rightarrow> None
         | Some t \<Rightarrow> map_option (Cons t) (ctypes rest)))"
  by pat_completeness auto

termination
proof (relation "measure length", goal_cases)
  case (2 cs c rest)
  have "length (tl (dropWhile (\<lambda>d. d \<noteq> CHR '';'') rest)) \<le> length rest"
    using length_dropWhile_le [of "\<lambda>d. d \<noteq> CHR '';''" rest] by simp
  with 2 show ?case by simp
qed auto

declare ctypes.simps [simp del]

definition sig_args :: "string \<Rightarrow> string" where
  "sig_args sig = takeWhile (\<lambda>c. c \<noteq> CHR '')'') (tl sig)"

definition sig_result :: "string \<Rightarrow> string" where
  "sig_result sig = tl (dropWhile (\<lambda>c. c \<noteq> CHR '')'') sig)"

text \<open>The characters of a Java name that are not letters or digits, in a C name.\<close>

definition mangle :: "string \<Rightarrow> string" where
  "mangle name = concat (map (\<lambda>c.
     if c = CHR ''/'' then ''_'' else if c = CHR ''_'' then ''_1'' else if c = CHR '';'' then ''_2''
     else if c = CHR ''['' then ''_3'' else if c = CHR ''$'' then ''_00024'' else [c]) name)"

definition short_name :: "native_method \<Rightarrow> string" where
  "short_name m = ''Java_'' @ mangle (nm_class m) @ ''_'' @ mangle (nm_method m)"

definition long_name :: "native_method \<Rightarrow> string" where
  "long_name m = short_name m @ ''__'' @ mangle (sig_args (nm_signature m))"

text \<open>The types a C function for the method must have.\<close>

definition types_of :: "native_method \<Rightarrow> (ctype \<times> ctype list) option" where
  "types_of m =
     (case (ctypes (sig_result (nm_signature m)), ctypes (sig_args (nm_signature m))) of
        (Some [r], Some as) \<Rightarrow> Some (r, (if nm_static m then C_jclass else C_jobject) # as)
      | _ \<Rightarrow> None)"

text \<open>A function the VM links the method to, and that has the right types.\<close>

definition implements :: "native_method \<Rightarrow> prototype \<Rightarrow> bool" where
  "implements m p \<longleftrightarrow> (pt_name p = short_name m \<or> pt_name p = long_name m) \<and>
     types_of m = Some (pt_result p, pt_args p)"

text \<open>What the header has for a method.\<close>

definition header_entry :: "native_method \<Rightarrow> string \<times> string \<times> prototype option" where
  "header_entry m = (nm_method m, nm_signature m,
     map_option (\<lambda>(r, as). \<lparr>pt_name = short_name m, pt_result = r, pt_args = as\<rparr>) (types_of m))"

section \<open>The native methods of the Java classes\<close>

definition AbstractSerialPortSocket_natives :: "native_method list" where
  "AbstractSerialPortSocket_natives =
     [\<lparr>nm_class = ''de/ibapl/spsw/jniprovider/AbstractSerialPortSocket'', nm_method = ''read_ArgsOK'', nm_signature = ''(Ljava/nio/ByteBuffer;II)I'', nm_static = False\<rparr>,
      \<lparr>nm_class = ''de/ibapl/spsw/jniprovider/AbstractSerialPortSocket'', nm_method = ''readBytes'', nm_signature = ''([B)I'', nm_static = False\<rparr>,
      \<lparr>nm_class = ''de/ibapl/spsw/jniprovider/AbstractSerialPortSocket'', nm_method = ''write_ArgsOK'', nm_signature = ''(Ljava/nio/ByteBuffer;II)I'', nm_static = False\<rparr>,
      \<lparr>nm_class = ''de/ibapl/spsw/jniprovider/AbstractSerialPortSocket'', nm_method = ''writeBytes'', nm_signature = ''([B)V'', nm_static = False\<rparr>,
      \<lparr>nm_class = ''de/ibapl/spsw/jniprovider/AbstractSerialPortSocket'', nm_method = ''readBytes_ArgsOK'', nm_signature = ''([BII)I'', nm_static = False\<rparr>,
      \<lparr>nm_class = ''de/ibapl/spsw/jniprovider/AbstractSerialPortSocket'', nm_method = ''readSingle'', nm_signature = ''()I'', nm_static = False\<rparr>,
      \<lparr>nm_class = ''de/ibapl/spsw/jniprovider/AbstractSerialPortSocket'', nm_method = ''sendBreak0'', nm_signature = ''(I)V'', nm_static = False\<rparr>,
      \<lparr>nm_class = ''de/ibapl/spsw/jniprovider/AbstractSerialPortSocket'', nm_method = ''setBreak0'', nm_signature = ''(Z)V'', nm_static = False\<rparr>,
      \<lparr>nm_class = ''de/ibapl/spsw/jniprovider/AbstractSerialPortSocket'', nm_method = ''getXOFFChar'', nm_signature = ''()C'', nm_static = False\<rparr>,
      \<lparr>nm_class = ''de/ibapl/spsw/jniprovider/AbstractSerialPortSocket'', nm_method = ''getXONChar'', nm_signature = ''()C'', nm_static = False\<rparr>,
      \<lparr>nm_class = ''de/ibapl/spsw/jniprovider/AbstractSerialPortSocket'', nm_method = ''isCTS'', nm_signature = ''()Z'', nm_static = False\<rparr>,
      \<lparr>nm_class = ''de/ibapl/spsw/jniprovider/AbstractSerialPortSocket'', nm_method = ''isDSR'', nm_signature = ''()Z'', nm_static = False\<rparr>,
      \<lparr>nm_class = ''de/ibapl/spsw/jniprovider/AbstractSerialPortSocket'', nm_method = ''isDCD'', nm_signature = ''()Z'', nm_static = False\<rparr>,
      \<lparr>nm_class = ''de/ibapl/spsw/jniprovider/AbstractSerialPortSocket'', nm_method = ''isRI'', nm_signature = ''()Z'', nm_static = False\<rparr>,
      \<lparr>nm_class = ''de/ibapl/spsw/jniprovider/AbstractSerialPortSocket'', nm_method = ''getParameters'', nm_signature = ''(I)I'', nm_static = False\<rparr>,
      \<lparr>nm_class = ''de/ibapl/spsw/jniprovider/AbstractSerialPortSocket'', nm_method = ''getInBufferBytesCount'', nm_signature = ''()I'', nm_static = False\<rparr>,
      \<lparr>nm_class = ''de/ibapl/spsw/jniprovider/AbstractSerialPortSocket'', nm_method = ''getOutBufferBytesCount'', nm_signature = ''()I'', nm_static = False\<rparr>,
      \<lparr>nm_class = ''de/ibapl/spsw/jniprovider/AbstractSerialPortSocket'', nm_method = ''setDTR'', nm_signature = ''(Z)V'', nm_static = False\<rparr>,
      \<lparr>nm_class = ''de/ibapl/spsw/jniprovider/AbstractSerialPortSocket'', nm_method = ''setParameters'', nm_signature = ''(I)V'', nm_static = False\<rparr>,
      \<lparr>nm_class = ''de/ibapl/spsw/jniprovider/AbstractSerialPortSocket'', nm_method = ''setXOFFChar'', nm_signature = ''(C)V'', nm_static = False\<rparr>,
      \<lparr>nm_class = ''de/ibapl/spsw/jniprovider/AbstractSerialPortSocket'', nm_method = ''setXONChar'', nm_signature = ''(C)V'', nm_static = False\<rparr>,
      \<lparr>nm_class = ''de/ibapl/spsw/jniprovider/AbstractSerialPortSocket'', nm_method = ''writeBytes_ParamsOK'', nm_signature = ''([BII)V'', nm_static = False\<rparr>,
      \<lparr>nm_class = ''de/ibapl/spsw/jniprovider/AbstractSerialPortSocket'', nm_method = ''writeSingle'', nm_signature = ''(I)V'', nm_static = False\<rparr>,
      \<lparr>nm_class = ''de/ibapl/spsw/jniprovider/AbstractSerialPortSocket'', nm_method = ''setRTS'', nm_signature = ''(Z)V'', nm_static = False\<rparr>]"

definition GenericTermiosSerialPortSocket_natives :: "native_method list" where
  "GenericTermiosSerialPortSocket_natives =
     [\<lparr>nm_class = ''de/ibapl/spsw/jniprovider/GenericTermiosSerialPortSocket'', nm_method = ''open0'', nm_signature = ''(Ljava/lang/String;I)V'', nm_static = False\<rparr>,
      \<lparr>nm_class = ''de/ibapl/spsw/jniprovider/GenericTermiosSerialPortSocket'', nm_method = ''close0'', nm_signature = ''()V'', nm_static = False\<rparr>,
      \<lparr>nm_class = ''de/ibapl/spsw/jniprovider/GenericTermiosSerialPortSocket'', nm_method = ''drainOutputBuffer'', nm_signature = ''()V'', nm_static = False\<rparr>,
      \<lparr>nm_class = ''de/ibapl/spsw/jniprovider/GenericTermiosSerialPortSocket'', nm_method = ''getInSpeed0'', nm_signature = ''()I'', nm_static = False\<rparr>,
      \<lparr>nm_class = ''de/ibapl/spsw/jniprovider/GenericTermiosSerialPortSocket'', nm_method = ''getOutSpeed0'', nm_signature = ''()I'', nm_static = False\<rparr>,
      \<lparr>nm_class = ''de/ibapl/spsw/jniprovider/GenericTermiosSerialPortSocket'', nm_method = ''isDTR'', nm_signature = ''()Z'', nm_static = False\<rparr>,
      \<lparr>nm_class = ''de/ibapl/spsw/jniprovider/GenericTermiosSerialPortSocket'', nm_method = ''isRTS'', nm_signature = ''()Z'', nm_static = False\<rparr>,
      \<lparr>nm_class = ''de/ibapl/spsw/jniprovider/GenericTermiosSerialPortSocket'', nm_method = ''sendXOFF'', nm_signature = ''()V'', nm_static = False\<rparr>,
      \<lparr>nm_class = ''de/ibapl/spsw/jniprovider/GenericTermiosSerialPortSocket'', nm_method = ''sendXON'', nm_signature = ''()V'', nm_static = False\<rparr>,
      \<lparr>nm_class = ''de/ibapl/spsw/jniprovider/GenericTermiosSerialPortSocket'', nm_method = ''setInSpeed0'', nm_signature = ''(I)V'', nm_static = False\<rparr>,
      \<lparr>nm_class = ''de/ibapl/spsw/jniprovider/GenericTermiosSerialPortSocket'', nm_method = ''setOutSpeed0'', nm_signature = ''(I)V'', nm_static = False\<rparr>]"

definition GenericTermiosSerialPortSocket_FdCleaner_natives :: "native_method list" where
  "GenericTermiosSerialPortSocket_FdCleaner_natives =
     [\<lparr>nm_class = ''de/ibapl/spsw/jniprovider/GenericTermiosSerialPortSocket$FdCleaner'', nm_method = ''closeFds'', nm_signature = ''(III)V'', nm_static = True\<rparr>]"

definition GenericWinSerialPortSocket_natives :: "native_method list" where
  "GenericWinSerialPortSocket_natives =
     [\<lparr>nm_class = ''de/ibapl/spsw/jniprovider/GenericWinSerialPortSocket'', nm_method = ''getWindowsBasedPortNames'', nm_signature = ''(Ljava/util/List;)V'', nm_static = True\<rparr>,
      \<lparr>nm_class = ''de/ibapl/spsw/jniprovider/GenericWinSerialPortSocket'', nm_method = ''close0'', nm_signature = ''()V'', nm_static = False\<rparr>,
      \<lparr>nm_class = ''de/ibapl/spsw/jniprovider/GenericWinSerialPortSocket'', nm_method = ''open0'', nm_signature = ''(Ljava/lang/String;I)V'', nm_static = False\<rparr>,
      \<lparr>nm_class = ''de/ibapl/spsw/jniprovider/GenericWinSerialPortSocket'', nm_method = ''getInterByteReadTimeout'', nm_signature = ''()I'', nm_static = False\<rparr>,
      \<lparr>nm_class = ''de/ibapl/spsw/jniprovider/GenericWinSerialPortSocket'', nm_method = ''getOverallReadTimeout'', nm_signature = ''()I'', nm_static = False\<rparr>,
      \<lparr>nm_class = ''de/ibapl/spsw/jniprovider/GenericWinSerialPortSocket'', nm_method = ''getOverallWriteTimeout'', nm_signature = ''()I'', nm_static = False\<rparr>,
      \<lparr>nm_class = ''de/ibapl/spsw/jniprovider/GenericWinSerialPortSocket'', nm_method = ''sendXOFF'', nm_signature = ''()V'', nm_static = False\<rparr>,
      \<lparr>nm_class = ''de/ibapl/spsw/jniprovider/GenericWinSerialPortSocket'', nm_method = ''sendXON'', nm_signature = ''()V'', nm_static = False\<rparr>,
      \<lparr>nm_class = ''de/ibapl/spsw/jniprovider/GenericWinSerialPortSocket'', nm_method = ''setTimeouts'', nm_signature = ''(III)V'', nm_static = False\<rparr>]"

definition GenericWinSerialPortSocket_FdCleaner_natives :: "native_method list" where
  "GenericWinSerialPortSocket_FdCleaner_natives =
     [\<lparr>nm_class = ''de/ibapl/spsw/jniprovider/GenericWinSerialPortSocket$FdCleaner'', nm_method = ''closeFd'', nm_signature = ''(J)V'', nm_static = True\<rparr>]"

section \<open>The generated headers\<close>

text \<open>The comment over each declaration (class, method, signature) and the declaration.\<close>

definition AbstractSerialPortSocket_methods_1 :: "(string \<times> string \<times> string \<times> prototype) list" where
  "AbstractSerialPortSocket_methods_1 =
     [(''de_ibapl_spsw_jniprovider_AbstractSerialPortSocket'', ''read_ArgsOK'', ''(Ljava/nio/ByteBuffer;II)I'', \<lparr>pt_name = ''Java_de_ibapl_spsw_jniprovider_AbstractSerialPortSocket_read_1ArgsOK'', pt_result = C_jint, pt_args = [C_jobject, C_jobject, C_jint, C_jint]\<rparr>),
      (''de_ibapl_spsw_jniprovider_AbstractSerialPortSocket'', ''readBytes'', ''([B)I'', \<lparr>pt_name = ''Java_de_ibapl_spsw_jniprovider_AbstractSerialPortSocket_readBytes'', pt_result = C_jint, pt_args = [C_jobject, C_jbyteArray]\<rparr>),
      (''de_ibapl_spsw_jniprovider_AbstractSerialPortSocket'', ''write_ArgsOK'', ''(Ljava/nio/ByteBuffer;II)I'', \<lparr>pt_name = ''Java_de_ibapl_spsw_jniprovider_AbstractSerialPortSocket_write_1ArgsOK'', pt_result = C_jint, pt_args = [C_jobject, C_jobject, C_jint, C_jint]\<rparr>),
      (''de_ibapl_spsw_jniprovider_AbstractSerialPortSocket'', ''writeBytes'', ''([B)V'', \<lparr>pt_name = ''Java_de_ibapl_spsw_jniprovider_AbstractSerialPortSocket_writeBytes'', pt_result = C_void, pt_args = [C_jobject, C_jbyteArray]\<rparr>),
      (''de_ibapl_spsw_jniprovider_AbstractSerialPortSocket'', ''readBytes_ArgsOK'', ''([BII)I'', \<lparr>pt_name = ''Java_de_ibapl_spsw_jniprovider_AbstractSerialPortSocket_readBytes_1ArgsOK'', pt_result = C_jint, pt_args = [C_jobject, C_jbyteArray, C_jint, C_jint]\<rparr>),
      (''de_ibapl_spsw_jniprovider_AbstractSerialPortSocket'', ''readSingle'', ''()I'', \<lparr>pt_name = ''Java_de_ibapl_spsw_jniprovider_AbstractSerialPortSocket_readSingle'', pt_result = C_jint, pt_args = [C_jobject]\<rparr>),
      (''de_ibapl_spsw_jniprovider_AbstractSerialPortSocket'', ''sendBreak0'', ''(I)V'', \<lparr>pt_name = ''Java_de_ibapl_spsw_jniprovider_AbstractSerialPortSocket_sendBreak0'', pt_result = C_void, pt_args = [C_jobject, C_jint]\<rparr>),
      (''de_ibapl_spsw_jniprovider_AbstractSerialPortSocket'', ''setBreak0'', ''(Z)V'', \<lparr>pt_name = ''Java_de_ibapl_spsw_jniprovider_AbstractSerialPortSocket_setBreak0'', pt_result = C_void, pt_args = [C_jobject, C_jboolean]\<rparr>),
      (''de_ibapl_spsw_jniprovider_AbstractSerialPortSocket'', ''getXOFFChar'', ''()C'', \<lparr>pt_name = ''Java_de_ibapl_spsw_jniprovider_AbstractSerialPortSocket_getXOFFChar'', pt_result = C_jchar, pt_args = [C_jobject]\<rparr>),
      (''de_ibapl_spsw_jniprovider_AbstractSerialPortSocket'', ''getXONChar'', ''()C'', \<lparr>pt_name = ''Java_de_ibapl_spsw_jniprovider_AbstractSerialPortSocket_getXONChar'', pt_result = C_jchar, pt_args = [C_jobject]\<rparr>),
      (''de_ibapl_spsw_jniprovider_AbstractSerialPortSocket'', ''isCTS'', ''()Z'', \<lparr>pt_name = ''Java_de_ibapl_spsw_jniprovider_AbstractSerialPortSocket_isCTS'', pt_result = C_jboolean, pt_args = [C_jobject]\<rparr>),
      (''de_ibapl_spsw_jniprovider_AbstractSerialPortSocket'', ''isDSR'', ''()Z'', \<lparr>pt_name = ''Java_de_ibapl_spsw_jniprovider_AbstractSerialPortSocket_isDSR'', pt_result = C_jboolean, pt_args = [C_jobject]\<rparr>),
      (''de_ibapl_spsw_jniprovider_AbstractSerialPortSocket'', ''isDCD'', ''()Z'', \<lparr>pt_name = ''Java_de_ibapl_spsw_jniprovider_AbstractSerialPortSocket_isDCD'', pt_result = C_jboolean, pt_args = [C_jobject]\<rparr>),
      (''de_ibapl_spsw_jniprovider_AbstractSerialPortSocket'', ''isRI'', ''()Z'', \<lparr>pt_name = ''Java_de_ibapl_spsw_jniprovider_AbstractSerialPortSocket_isRI'', pt_result = C_jboolean, pt_args = [C_jobject]\<rparr>)]"

definition AbstractSerialPortSocket_methods_2 :: "(string \<times> string \<times> string \<times> prototype) list" where
  "AbstractSerialPortSocket_methods_2 =
     [(''de_ibapl_spsw_jniprovider_AbstractSerialPortSocket'', ''getParameters'', ''(I)I'', \<lparr>pt_name = ''Java_de_ibapl_spsw_jniprovider_AbstractSerialPortSocket_getParameters'', pt_result = C_jint, pt_args = [C_jobject, C_jint]\<rparr>),
      (''de_ibapl_spsw_jniprovider_AbstractSerialPortSocket'', ''getInBufferBytesCount'', ''()I'', \<lparr>pt_name = ''Java_de_ibapl_spsw_jniprovider_AbstractSerialPortSocket_getInBufferBytesCount'', pt_result = C_jint, pt_args = [C_jobject]\<rparr>),
      (''de_ibapl_spsw_jniprovider_AbstractSerialPortSocket'', ''getOutBufferBytesCount'', ''()I'', \<lparr>pt_name = ''Java_de_ibapl_spsw_jniprovider_AbstractSerialPortSocket_getOutBufferBytesCount'', pt_result = C_jint, pt_args = [C_jobject]\<rparr>),
      (''de_ibapl_spsw_jniprovider_AbstractSerialPortSocket'', ''setDTR'', ''(Z)V'', \<lparr>pt_name = ''Java_de_ibapl_spsw_jniprovider_AbstractSerialPortSocket_setDTR'', pt_result = C_void, pt_args = [C_jobject, C_jboolean]\<rparr>),
      (''de_ibapl_spsw_jniprovider_AbstractSerialPortSocket'', ''setParameters'', ''(I)V'', \<lparr>pt_name = ''Java_de_ibapl_spsw_jniprovider_AbstractSerialPortSocket_setParameters'', pt_result = C_void, pt_args = [C_jobject, C_jint]\<rparr>),
      (''de_ibapl_spsw_jniprovider_AbstractSerialPortSocket'', ''setXOFFChar'', ''(C)V'', \<lparr>pt_name = ''Java_de_ibapl_spsw_jniprovider_AbstractSerialPortSocket_setXOFFChar'', pt_result = C_void, pt_args = [C_jobject, C_jchar]\<rparr>),
      (''de_ibapl_spsw_jniprovider_AbstractSerialPortSocket'', ''setXONChar'', ''(C)V'', \<lparr>pt_name = ''Java_de_ibapl_spsw_jniprovider_AbstractSerialPortSocket_setXONChar'', pt_result = C_void, pt_args = [C_jobject, C_jchar]\<rparr>),
      (''de_ibapl_spsw_jniprovider_AbstractSerialPortSocket'', ''writeBytes_ParamsOK'', ''([BII)V'', \<lparr>pt_name = ''Java_de_ibapl_spsw_jniprovider_AbstractSerialPortSocket_writeBytes_1ParamsOK'', pt_result = C_void, pt_args = [C_jobject, C_jbyteArray, C_jint, C_jint]\<rparr>),
      (''de_ibapl_spsw_jniprovider_AbstractSerialPortSocket'', ''writeSingle'', ''(I)V'', \<lparr>pt_name = ''Java_de_ibapl_spsw_jniprovider_AbstractSerialPortSocket_writeSingle'', pt_result = C_void, pt_args = [C_jobject, C_jint]\<rparr>),
      (''de_ibapl_spsw_jniprovider_AbstractSerialPortSocket'', ''setRTS'', ''(Z)V'', \<lparr>pt_name = ''Java_de_ibapl_spsw_jniprovider_AbstractSerialPortSocket_setRTS'', pt_result = C_void, pt_args = [C_jobject, C_jboolean]\<rparr>)]"

definition GenericTermiosSerialPortSocket_methods :: "(string \<times> string \<times> string \<times> prototype) list" where
  "GenericTermiosSerialPortSocket_methods =
     [(''de_ibapl_spsw_jniprovider_GenericTermiosSerialPortSocket'', ''open0'', ''(Ljava/lang/String;I)V'', \<lparr>pt_name = ''Java_de_ibapl_spsw_jniprovider_GenericTermiosSerialPortSocket_open0'', pt_result = C_void, pt_args = [C_jobject, C_jstring, C_jint]\<rparr>),
      (''de_ibapl_spsw_jniprovider_GenericTermiosSerialPortSocket'', ''close0'', ''()V'', \<lparr>pt_name = ''Java_de_ibapl_spsw_jniprovider_GenericTermiosSerialPortSocket_close0'', pt_result = C_void, pt_args = [C_jobject]\<rparr>),
      (''de_ibapl_spsw_jniprovider_GenericTermiosSerialPortSocket'', ''drainOutputBuffer'', ''()V'', \<lparr>pt_name = ''Java_de_ibapl_spsw_jniprovider_GenericTermiosSerialPortSocket_drainOutputBuffer'', pt_result = C_void, pt_args = [C_jobject]\<rparr>),
      (''de_ibapl_spsw_jniprovider_GenericTermiosSerialPortSocket'', ''getInSpeed0'', ''()I'', \<lparr>pt_name = ''Java_de_ibapl_spsw_jniprovider_GenericTermiosSerialPortSocket_getInSpeed0'', pt_result = C_jint, pt_args = [C_jobject]\<rparr>),
      (''de_ibapl_spsw_jniprovider_GenericTermiosSerialPortSocket'', ''getOutSpeed0'', ''()I'', \<lparr>pt_name = ''Java_de_ibapl_spsw_jniprovider_GenericTermiosSerialPortSocket_getOutSpeed0'', pt_result = C_jint, pt_args = [C_jobject]\<rparr>),
      (''de_ibapl_spsw_jniprovider_GenericTermiosSerialPortSocket'', ''isDTR'', ''()Z'', \<lparr>pt_name = ''Java_de_ibapl_spsw_jniprovider_GenericTermiosSerialPortSocket_isDTR'', pt_result = C_jboolean, pt_args = [C_jobject]\<rparr>),
      (''de_ibapl_spsw_jniprovider_GenericTermiosSerialPortSocket'', ''isRTS'', ''()Z'', \<lparr>pt_name = ''Java_de_ibapl_spsw_jniprovider_GenericTermiosSerialPortSocket_isRTS'', pt_result = C_jboolean, pt_args = [C_jobject]\<rparr>),
      (''de_ibapl_spsw_jniprovider_GenericTermiosSerialPortSocket'', ''sendXOFF'', ''()V'', \<lparr>pt_name = ''Java_de_ibapl_spsw_jniprovider_GenericTermiosSerialPortSocket_sendXOFF'', pt_result = C_void, pt_args = [C_jobject]\<rparr>),
      (''de_ibapl_spsw_jniprovider_GenericTermiosSerialPortSocket'', ''sendXON'', ''()V'', \<lparr>pt_name = ''Java_de_ibapl_spsw_jniprovider_GenericTermiosSerialPortSocket_sendXON'', pt_result = C_void, pt_args = [C_jobject]\<rparr>),
      (''de_ibapl_spsw_jniprovider_GenericTermiosSerialPortSocket'', ''setInSpeed0'', ''(I)V'', \<lparr>pt_name = ''Java_de_ibapl_spsw_jniprovider_GenericTermiosSerialPortSocket_setInSpeed0'', pt_result = C_void, pt_args = [C_jobject, C_jint]\<rparr>),
      (''de_ibapl_spsw_jniprovider_GenericTermiosSerialPortSocket'', ''setOutSpeed0'', ''(I)V'', \<lparr>pt_name = ''Java_de_ibapl_spsw_jniprovider_GenericTermiosSerialPortSocket_setOutSpeed0'', pt_result = C_void, pt_args = [C_jobject, C_jint]\<rparr>)]"

definition GenericTermiosSerialPortSocket_FdCleaner_methods :: "(string \<times> string \<times> string \<times> prototype) list" where
  "GenericTermiosSerialPortSocket_FdCleaner_methods =
     [(''de_ibapl_spsw_jniprovider_GenericTermiosSerialPortSocket_FdCleaner'', ''closeFds'', ''(III)V'', \<lparr>pt_name = ''Java_de_ibapl_spsw_jniprovider_GenericTermiosSerialPortSocket_00024FdCleaner_closeFds'', pt_result = C_void, pt_args = [C_jclass, C_jint, C_jint, C_jint]\<rparr>)]"

definition GenericWinSerialPortSocket_methods :: "(string \<times> string \<times> string \<times> prototype) list" where
  "GenericWinSerialPortSocket_methods =
     [(''de_ibapl_spsw_jniprovider_GenericWinSerialPortSocket'', ''getWindowsBasedPortNames'', ''(Ljava/util/List;)V'', \<lparr>pt_name = ''Java_de_ibapl_spsw_jniprovider_GenericWinSerialPortSocket_getWindowsBasedPortNames'', pt_result = C_void, pt_args = [C_jclass, C_jobject]\<rparr>),
      (''de_ibapl_spsw_jniprovider_GenericWinSerialPortSocket'', ''close0'', ''()V'', \<lparr>pt_name = ''Java_de_ibapl_spsw_jniprovider_GenericWinSerialPortSocket_close0'', pt_result = C_void, pt_args = [C_jobject]\<rparr>),
      (''de_ibapl_spsw_jniprovider_GenericWinSerialPortSocket'', ''open0'', ''(Ljava/lang/String;I)V'', \<lparr>pt_name = ''Java_de_ibapl_spsw_jniprovider_GenericWinSerialPortSocket_open0'', pt_result = C_void, pt_args = [C_jobject, C_jstring, C_jint]\<rparr>),
      (''de_ibapl_spsw_jniprovider_GenericWinSerialPortSocket'', ''getInterByteReadTimeout'', ''()I'', \<lparr>pt_name = ''Java_de_ibapl_spsw_jniprovider_GenericWinSerialPortSocket_getInterByteReadTimeout'', pt_result = C_jint, pt_args = [C_jobject]\<rparr>),
      (''de_ibapl_spsw_jniprovider_GenericWinSerialPortSocket'', ''getOverallReadTimeout'', ''()I'', \<lparr>pt_name = ''Java_de_ibapl_spsw_jniprovider_GenericWinSerialPortSocket_getOverallReadTimeout'', pt_result = C_jint, pt_args = [C_jobject]\<rparr>),
      (''de_ibapl_spsw_jniprovider_GenericWinSerialPortSocket'', ''getOverallWriteTimeout'', ''()I'', \<lparr>pt_name = ''Java_de_ibapl_spsw_jniprovider_GenericWinSerialPortSocket_getOverallWriteTimeout'', pt_result = C_jint, pt_args = [C_jobject]\<rparr>),
      (''de_ibapl_spsw_jniprovider_GenericWinSerialPortSocket'', ''sendXOFF'', ''()V'', \<lparr>pt_name = ''Java_de_ibapl_spsw_jniprovider_GenericWinSerialPortSocket_sendXOFF'', pt_result = C_void, pt_args = [C_jobject]\<rparr>),
      (''de_ibapl_spsw_jniprovider_GenericWinSerialPortSocket'', ''sendXON'', ''()V'', \<lparr>pt_name = ''Java_de_ibapl_spsw_jniprovider_GenericWinSerialPortSocket_sendXON'', pt_result = C_void, pt_args = [C_jobject]\<rparr>),
      (''de_ibapl_spsw_jniprovider_GenericWinSerialPortSocket'', ''setTimeouts'', ''(III)V'', \<lparr>pt_name = ''Java_de_ibapl_spsw_jniprovider_GenericWinSerialPortSocket_setTimeouts'', pt_result = C_void, pt_args = [C_jobject, C_jint, C_jint, C_jint]\<rparr>)]"

definition GenericWinSerialPortSocket_FdCleaner_methods :: "(string \<times> string \<times> string \<times> prototype) list" where
  "GenericWinSerialPortSocket_FdCleaner_methods =
     [(''de_ibapl_spsw_jniprovider_GenericWinSerialPortSocket_FdCleaner'', ''closeFd'', ''(J)V'', \<lparr>pt_name = ''Java_de_ibapl_spsw_jniprovider_GenericWinSerialPortSocket_00024FdCleaner_closeFd'', pt_result = C_void, pt_args = [C_jclass, C_jlong]\<rparr>)]"

section \<open>The functions the C files export\<close>

definition AbstractSerialPortSocketIO_exports :: "prototype list" where
  "AbstractSerialPortSocketIO_exports =
     [\<lparr>pt_name = ''Java_de_ibapl_spsw_jniprovider_AbstractSerialPortSocket_readBytes_1ArgsOK___3BII'', pt_result = C_jint, pt_args = [C_jobject, C_jbyteArray, C_jint, C_jint]\<rparr>,
      \<lparr>pt_name = ''Java_de_ibapl_spsw_jniprovider_AbstractSerialPortSocket_readBytes___3B'', pt_result = C_jint, pt_args = [C_jobject, C_jbyteArray]\<rparr>,
      \<lparr>pt_name = ''Java_de_ibapl_spsw_jniprovider_AbstractSerialPortSocket_readSingle'', pt_result = C_jint, pt_args = [C_jobject]\<rparr>,
      \<lparr>pt_name = ''Java_de_ibapl_spsw_jniprovider_AbstractSerialPortSocket_read_1ArgsOK'', pt_result = C_jint, pt_args = [C_jobject, C_jobject, C_jint, C_jint]\<rparr>,
      \<lparr>pt_name = ''Java_de_ibapl_spsw_jniprovider_AbstractSerialPortSocket_writeBytes_1ArgsOK___3BII'', pt_result = C_void, pt_args = [C_jobject, C_jbyteArray, C_jint, C_jint]\<rparr>,
      \<lparr>pt_name = ''Java_de_ibapl_spsw_jniprovider_AbstractSerialPortSocket_write_1ArgsOK'', pt_result = C_jint, pt_args = [C_jobject, C_jobject, C_jint, C_jint]\<rparr>,
      \<lparr>pt_name = ''Java_de_ibapl_spsw_jniprovider_AbstractSerialPortSocket_writeBytes___3B'', pt_result = C_void, pt_args = [C_jobject, C_jbyteArray]\<rparr>,
      \<lparr>pt_name = ''Java_de_ibapl_spsw_jniprovider_AbstractSerialPortSocket_writeSingle'', pt_result = C_void, pt_args = [C_jobject, C_jint]\<rparr>]"

definition TermiosCommon_exports :: "prototype list" where
  "TermiosCommon_exports =
     [\<lparr>pt_name = ''Java_de_ibapl_spsw_jniprovider_GenericTermiosSerialPortSocket_00024FdCleaner_closeFds'', pt_result = C_void, pt_args = [C_jclass, C_jint, C_jint, C_jint]\<rparr>,
      \<lparr>pt_name = ''Java_de_ibapl_spsw_jniprovider_GenericTermiosSerialPortSocket_close0'', pt_result = C_void, pt_args = [C_jobject]\<rparr>,
      \<lparr>pt_name = ''Java_de_ibapl_spsw_jniprovider_AbstractSerialPortSocket_getInBufferBytesCount'', pt_result = C_jint, pt_args = [C_jobject]\<rparr>,
      \<lparr>pt_name = ''Java_de_ibapl_spsw_jniprovider_AbstractSerialPortSocket_getOutBufferBytesCount'', pt_result = C_jint, pt_args = [C_jobject]\<rparr>,
      \<lparr>pt_name = ''Java_de_ibapl_spsw_jniprovider_GenericTermiosSerialPortSocket_open0'', pt_result = C_void, pt_args = [C_jobject, C_jstring, C_jint]\<rparr>,
      \<lparr>pt_name = ''Java_de_ibapl_spsw_jniprovider_GenericTermiosSerialPortSocket_drainOutputBuffer'', pt_result = C_void, pt_args = [C_jobject]\<rparr>]"

definition TermiosIO_exports :: "prototype list" where
  "TermiosIO_exports =
     [\<lparr>pt_name = ''Java_de_ibapl_spsw_jniprovider_AbstractSerialPortSocket_sendBreak0'', pt_result = C_void, pt_args = [C_jobject, C_jint]\<rparr>,
      \<lparr>pt_name = ''Java_de_ibapl_spsw_jniprovider_GenericTermiosSerialPortSocket_sendXOFF'', pt_result = C_void, pt_args = [C_jobject]\<rparr>,
      \<lparr>pt_name = ''Java_de_ibapl_spsw_jniprovider_GenericTermiosSerialPortSocket_sendXON'', pt_result = C_void, pt_args = [C_jobject]\<rparr>]"

definition TermiosSettings_exports :: "prototype list" where
  "TermiosSettings_exports =
     [\<lparr>pt_name = ''Java_de_ibapl_spsw_jniprovider_GenericTermiosSerialPortSocket_getInSpeed0'', pt_result = C_jint, pt_args = [C_jobject]\<rparr>,
      \<lparr>pt_name = ''Java_de_ibapl_spsw_jniprovider_GenericTermiosSerialPortSocket_getOutSpeed0'', pt_result = C_jint, pt_args = [C_jobject]\<rparr>,
      \<lparr>pt_name = ''Java_de_ibapl_spsw_jniprovider_GenericTermiosSerialPortSocket_setInSpeed0'', pt_result = C_void, pt_args = [C_jobject, C_jint]\<rparr>,
      \<lparr>pt_name = ''Java_de_ibapl_spsw_jniprovider_GenericTermiosSerialPortSocket_setOutSpeed0'', pt_result = C_void, pt_args = [C_jobject, C_jint]\<rparr>,
      \<lparr>pt_name = ''Java_de_ibapl_spsw_jniprovider_AbstractSerialPortSocket_getParameters'', pt_result = C_jint, pt_args = [C_jobject, C_jint]\<rparr>,
      \<lparr>pt_name = ''Java_de_ibapl_spsw_jniprovider_AbstractSerialPortSocket_getXOFFChar'', pt_result = C_jchar, pt_args = [C_jobject]\<rparr>,
      \<lparr>pt_name = ''Java_de_ibapl_spsw_jniprovider_AbstractSerialPortSocket_getXONChar'', pt_result = C_jchar, pt_args = [C_jobject]\<rparr>,
      \<lparr>pt_name = ''Java_de_ibapl_spsw_jniprovider_AbstractSerialPortSocket_isCTS'', pt_result = C_jboolean, pt_args = [C_jobject]\<rparr>,
      \<lparr>pt_name = ''Java_de_ibapl_spsw_jniprovider_AbstractSerialPortSocket_isDSR'', pt_result = C_jboolean, pt_args = [C_jobject]\<rparr>,
      \<lparr>pt_name = ''Java_de_ibapl_spsw_jniprovider_AbstractSerialPortSocket_isDCD'', pt_result = C_jboolean, pt_args = [C_jobject]\<rparr>,
      \<lparr>pt_name = ''Java_de_ibapl_spsw_jniprovider_AbstractSerialPortSocket_isRI'', pt_result = C_jboolean, pt_args = [C_jobject]\<rparr>,
      \<lparr>pt_name = ''Java_de_ibapl_spsw_jniprovider_AbstractSerialPortSocket_setBreak0'', pt_result = C_void, pt_args = [C_jobject, C_jboolean]\<rparr>,
      \<lparr>pt_name = ''Java_de_ibapl_spsw_jniprovider_AbstractSerialPortSocket_setDTR'', pt_result = C_void, pt_args = [C_jobject, C_jboolean]\<rparr>,
      \<lparr>pt_name = ''Java_de_ibapl_spsw_jniprovider_AbstractSerialPortSocket_setParameters'', pt_result = C_void, pt_args = [C_jobject, C_jint]\<rparr>,
      \<lparr>pt_name = ''Java_de_ibapl_spsw_jniprovider_AbstractSerialPortSocket_setRTS'', pt_result = C_void, pt_args = [C_jobject, C_jboolean]\<rparr>,
      \<lparr>pt_name = ''Java_de_ibapl_spsw_jniprovider_AbstractSerialPortSocket_setXOFFChar'', pt_result = C_void, pt_args = [C_jobject, C_jchar]\<rparr>,
      \<lparr>pt_name = ''Java_de_ibapl_spsw_jniprovider_AbstractSerialPortSocket_setXONChar'', pt_result = C_void, pt_args = [C_jobject, C_jchar]\<rparr>,
      \<lparr>pt_name = ''Java_de_ibapl_spsw_jniprovider_GenericTermiosSerialPortSocket_isDTR'', pt_result = C_jboolean, pt_args = [C_jobject]\<rparr>,
      \<lparr>pt_name = ''Java_de_ibapl_spsw_jniprovider_GenericTermiosSerialPortSocket_isRTS'', pt_result = C_jboolean, pt_args = [C_jobject]\<rparr>]"

definition WinApiCommon_exports :: "prototype list" where
  "WinApiCommon_exports =
     [\<lparr>pt_name = ''Java_de_ibapl_spsw_jniprovider_GenericWinSerialPortSocket_00024FdCleaner_closeFd'', pt_result = C_void, pt_args = [C_jclass, C_jlong]\<rparr>,
      \<lparr>pt_name = ''Java_de_ibapl_spsw_jniprovider_AbstractSerialPortSocket_isCTS'', pt_result = C_jboolean, pt_args = [C_jobject]\<rparr>,
      \<lparr>pt_name = ''Java_de_ibapl_spsw_jniprovider_AbstractSerialPortSocket_isDSR'', pt_result = C_jboolean, pt_args = [C_jobject]\<rparr>,
      \<lparr>pt_name = ''Java_de_ibapl_spsw_jniprovider_AbstractSerialPortSocket_isDCD'', pt_result = C_jboolean, pt_args = [C_jobject]\<rparr>,
      \<lparr>pt_name = ''Java_de_ibapl_spsw_jniprovider_AbstractSerialPortSocket_isRI'', pt_result = C_jboolean, pt_args = [C_jobject]\<rparr>,
      \<lparr>pt_name = ''Java_de_ibapl_spsw_jniprovider_GenericWinSerialPortSocket_close0'', pt_result = C_void, pt_args = [C_jobject]\<rparr>,
      \<lparr>pt_name = ''Java_de_ibapl_spsw_jniprovider_AbstractSerialPortSocket_getInBufferBytesCount'', pt_result = C_jint, pt_args = [C_jobject]\<rparr>,
      \<lparr>pt_name = ''Java_de_ibapl_spsw_jniprovider_AbstractSerialPortSocket_getOutBufferBytesCount'', pt_result = C_jint, pt_args = [C_jobject]\<rparr>,
      \<lparr>pt_name = ''Java_de_ibapl_spsw_jniprovider_GenericWinSerialPortSocket_open0'', pt_result = C_void, pt_args = [C_jobject, C_jstring, C_jint]\<rparr>,
      \<lparr>pt_name = ''Java_de_ibapl_spsw_jniprovider_GenericWinSerialPortSocket_getWindowsBasedPortNames'', pt_result = C_void, pt_args = [C_jclass, C_jobject]\<rparr>]"

definition WinApiIO_exports :: "prototype list" where
  "WinApiIO_exports =
     [\<lparr>pt_name = ''Java_de_ibapl_spsw_jniprovider_AbstractSerialPortSocket_sendBreak0'', pt_result = C_void, pt_args = [C_jobject, C_jint]\<rparr>,
      \<lparr>pt_name = ''Java_de_ibapl_spsw_jniprovider_GenericWinSerialPortSocket_sendXOFF'', pt_result = C_void, pt_args = [C_jobject]\<rparr>,
      \<lparr>pt_name = ''Java_de_ibapl_spsw_jniprovider_GenericWinSerialPortSocket_sendXON'', pt_result = C_void, pt_args = [C_jobject]\<rparr>]"

definition WinApiSettings_exports :: "prototype list" where
  "WinApiSettings_exports =
     [\<lparr>pt_name = ''Java_de_ibapl_spsw_jniprovider_AbstractSerialPortSocket_getParameters'', pt_result = C_jint, pt_args = [C_jobject, C_jint]\<rparr>,
      \<lparr>pt_name = ''Java_de_ibapl_spsw_jniprovider_AbstractSerialPortSocket_getXOFFChar'', pt_result = C_jchar, pt_args = [C_jobject]\<rparr>,
      \<lparr>pt_name = ''Java_de_ibapl_spsw_jniprovider_AbstractSerialPortSocket_getXONChar'', pt_result = C_jchar, pt_args = [C_jobject]\<rparr>,
      \<lparr>pt_name = ''Java_de_ibapl_spsw_jniprovider_AbstractSerialPortSocket_setBreak0'', pt_result = C_void, pt_args = [C_jobject, C_jboolean]\<rparr>,
      \<lparr>pt_name = ''Java_de_ibapl_spsw_jniprovider_AbstractSerialPortSocket_setDTR'', pt_result = C_void, pt_args = [C_jobject, C_jboolean]\<rparr>,
      \<lparr>pt_name = ''Java_de_ibapl_spsw_jniprovider_AbstractSerialPortSocket_setParameters'', pt_result = C_void, pt_args = [C_jobject, C_jint]\<rparr>,
      \<lparr>pt_name = ''Java_de_ibapl_spsw_jniprovider_AbstractSerialPortSocket_setRTS'', pt_result = C_void, pt_args = [C_jobject, C_jboolean]\<rparr>,
      \<lparr>pt_name = ''Java_de_ibapl_spsw_jniprovider_AbstractSerialPortSocket_setXOFFChar'', pt_result = C_void, pt_args = [C_jobject, C_jchar]\<rparr>,
      \<lparr>pt_name = ''Java_de_ibapl_spsw_jniprovider_AbstractSerialPortSocket_setXONChar'', pt_result = C_void, pt_args = [C_jobject, C_jchar]\<rparr>,
      \<lparr>pt_name = ''Java_de_ibapl_spsw_jniprovider_GenericWinSerialPortSocket_getInterByteReadTimeout'', pt_result = C_jint, pt_args = [C_jobject]\<rparr>,
      \<lparr>pt_name = ''Java_de_ibapl_spsw_jniprovider_GenericWinSerialPortSocket_getOverallReadTimeout'', pt_result = C_jint, pt_args = [C_jobject]\<rparr>,
      \<lparr>pt_name = ''Java_de_ibapl_spsw_jniprovider_GenericWinSerialPortSocket_getOverallWriteTimeout'', pt_result = C_jint, pt_args = [C_jobject]\<rparr>,
      \<lparr>pt_name = ''Java_de_ibapl_spsw_jniprovider_GenericWinSerialPortSocket_setTimeouts'', pt_result = C_void, pt_args = [C_jobject, C_jint, C_jint, C_jint]\<rparr>]"

section \<open>The constants\<close>

definition AbstractSerialPortSocket_h :: "(string \<times> int) list" where
  "AbstractSerialPortSocket_h =
     [(''SPEED_0_BPS'', 1),
      (''SPEED_50_BPS'', 2),
      (''SPEED_75_BPS'', 3),
      (''SPEED_110_BPS'', 4),
      (''SPEED_134_BPS'', 5),
      (''SPEED_150_BPS'', 6),
      (''SPEED_200_BPS'', 7),
      (''SPEED_300_BPS'', 8),
      (''SPEED_600_BPS'', 9),
      (''SPEED_1200_BPS'', 10),
      (''SPEED_1800_BPS'', 11),
      (''SPEED_2400_BPS'', 12),
      (''SPEED_4800_BPS'', 13),
      (''SPEED_9600_BPS'', 14),
      (''SPEED_19200_BPS'', 15),
      (''SPEED_38400_BPS'', 16),
      (''SPEED_57600_BPS'', 17),
      (''SPEED_115200_BPS'', 18),
      (''SPEED_230400_BPS'', 19),
      (''SPEED_460800_BPS'', 20),
      (''SPEED_500000_BPS'', 21),
      (''SPEED_576000_BPS'', 22),
      (''SPEED_921600_BPS'', 23),
      (''SPEED_1000000_BPS'', 24),
      (''SPEED_1152000_BPS'', 25),
      (''SPEED_1500000_BPS'', 26),
      (''SPEED_2000000_BPS'', 27),
      (''SPEED_2500000_BPS'', 28),
      (''SPEED_3000000_BPS'', 29),
      (''SPEED_3500000_BPS'', 30),
      (''SPEED_4000000_BPS'', 31),
      (''SPEED_MASK'', 255),
      (''DATA_BITS_DB5'', 4096),
      (''DATA_BITS_DB6'', 8192),
      (''DATA_BITS_DB7'', 12288),
      (''DATA_BITS_DB8'', 16384),
      (''DATA_BITS_MASK'', 61440),
      (''FLOW_CONTROL_NONE'', 65536),
      (''FLOW_CONTROL_RTS_CTS_IN'', 1048576),
      (''FLOW_CONTROL_RTS_CTS_OUT'', 2097152),
      (''FLOW_CONTROL_XON_XOFF_IN'', 4194304),
      (''FLOW_CONTROL_XON_XOFF_OUT'', 8388608),
      (''FLOW_CONTROL_MASK'', 16711680),
      (''STOP_BITS_1'', 16777216),
      (''STOP_BITS_1_5'', 33554432),
      (''STOP_BITS_2'', 50331648),
      (''STOP_BITS_MASK'', 251658240),
      (''PARITY_NONE'', 268435456),
      (''PARITY_ODD'', 536870912),
      (''PARITY_EVEN'', 805306368),
      (''PARITY_MARK'', 1073741824),
      (''PARITY_SPACE'', 1342177280),
      (''PARITY_MASK'', - 268435456),
      (''NO_PARAMS_TO_SET'', 0)]"

definition GenericTermiosSerialPortSocket_h :: "(string \<times> int) list" where
  "GenericTermiosSerialPortSocket_h =
     [(''SPEED_0_BPS'', 1),
      (''SPEED_50_BPS'', 2),
      (''SPEED_75_BPS'', 3),
      (''SPEED_110_BPS'', 4),
      (''SPEED_134_BPS'', 5),
      (''SPEED_150_BPS'', 6),
      (''SPEED_200_BPS'', 7),
      (''SPEED_300_BPS'', 8),
      (''SPEED_600_BPS'', 9),
      (''SPEED_1200_BPS'', 10),
      (''SPEED_1800_BPS'', 11),
      (''SPEED_2400_BPS'', 12),
      (''SPEED_4800_BPS'', 13),
      (''SPEED_9600_BPS'', 14),
      (''SPEED_19200_BPS'', 15),
      (''SPEED_38400_BPS'', 16),
      (''SPEED_57600_BPS'', 17),
      (''SPEED_115200_BPS'', 18),
      (''SPEED_230400_BPS'', 19),
      (''SPEED_460800_BPS'', 20),
      (''SPEED_500000_BPS'', 21),
      (''SPEED_576000_BPS'', 22),
      (''SPEED_921600_BPS'', 23),
      (''SPEED_1000000_BPS'', 24),
      (''SPEED_1152000_BPS'', 25),
      (''SPEED_1500000_BPS'', 26),
      (''SPEED_2000000_BPS'', 27),
      (''SPEED_2500000_BPS'', 28),
      (''SPEED_3000000_BPS'', 29),
      (''SPEED_3500000_BPS'', 30),
      (''SPEED_4000000_BPS'', 31),
      (''SPEED_MASK'', 255),
      (''DATA_BITS_DB5'', 4096),
      (''DATA_BITS_DB6'', 8192),
      (''DATA_BITS_DB7'', 12288),
      (''DATA_BITS_DB8'', 16384),
      (''DATA_BITS_MASK'', 61440),
      (''FLOW_CONTROL_NONE'', 65536),
      (''FLOW_CONTROL_RTS_CTS_IN'', 1048576),
      (''FLOW_CONTROL_RTS_CTS_OUT'', 2097152),
      (''FLOW_CONTROL_XON_XOFF_IN'', 4194304),
      (''FLOW_CONTROL_XON_XOFF_OUT'', 8388608),
      (''FLOW_CONTROL_MASK'', 16711680),
      (''STOP_BITS_1'', 16777216),
      (''STOP_BITS_1_5'', 33554432),
      (''STOP_BITS_2'', 50331648),
      (''STOP_BITS_MASK'', 251658240),
      (''PARITY_NONE'', 268435456),
      (''PARITY_ODD'', 536870912),
      (''PARITY_EVEN'', 805306368),
      (''PARITY_MARK'', 1073741824),
      (''PARITY_SPACE'', 1342177280),
      (''PARITY_MASK'', - 268435456),
      (''NO_PARAMS_TO_SET'', 0),
      (''INVALID_FD'', - 1)]"

definition GenericWinSerialPortSocket_h :: "(string \<times> int) list" where
  "GenericWinSerialPortSocket_h =
     [(''SPEED_0_BPS'', 1),
      (''SPEED_50_BPS'', 2),
      (''SPEED_75_BPS'', 3),
      (''SPEED_110_BPS'', 4),
      (''SPEED_134_BPS'', 5),
      (''SPEED_150_BPS'', 6),
      (''SPEED_200_BPS'', 7),
      (''SPEED_300_BPS'', 8),
      (''SPEED_600_BPS'', 9),
      (''SPEED_1200_BPS'', 10),
      (''SPEED_1800_BPS'', 11),
      (''SPEED_2400_BPS'', 12),
      (''SPEED_4800_BPS'', 13),
      (''SPEED_9600_BPS'', 14),
      (''SPEED_19200_BPS'', 15),
      (''SPEED_38400_BPS'', 16),
      (''SPEED_57600_BPS'', 17),
      (''SPEED_115200_BPS'', 18),
      (''SPEED_230400_BPS'', 19),
      (''SPEED_460800_BPS'', 20),
      (''SPEED_500000_BPS'', 21),
      (''SPEED_576000_BPS'', 22),
      (''SPEED_921600_BPS'', 23),
      (''SPEED_1000000_BPS'', 24),
      (''SPEED_1152000_BPS'', 25),
      (''SPEED_1500000_BPS'', 26),
      (''SPEED_2000000_BPS'', 27),
      (''SPEED_2500000_BPS'', 28),
      (''SPEED_3000000_BPS'', 29),
      (''SPEED_3500000_BPS'', 30),
      (''SPEED_4000000_BPS'', 31),
      (''SPEED_MASK'', 255),
      (''DATA_BITS_DB5'', 4096),
      (''DATA_BITS_DB6'', 8192),
      (''DATA_BITS_DB7'', 12288),
      (''DATA_BITS_DB8'', 16384),
      (''DATA_BITS_MASK'', 61440),
      (''FLOW_CONTROL_NONE'', 65536),
      (''FLOW_CONTROL_RTS_CTS_IN'', 1048576),
      (''FLOW_CONTROL_RTS_CTS_OUT'', 2097152),
      (''FLOW_CONTROL_XON_XOFF_IN'', 4194304),
      (''FLOW_CONTROL_XON_XOFF_OUT'', 8388608),
      (''FLOW_CONTROL_MASK'', 16711680),
      (''STOP_BITS_1'', 16777216),
      (''STOP_BITS_1_5'', 33554432),
      (''STOP_BITS_2'', 50331648),
      (''STOP_BITS_MASK'', 251658240),
      (''PARITY_NONE'', 268435456),
      (''PARITY_ODD'', 536870912),
      (''PARITY_EVEN'', 805306368),
      (''PARITY_MARK'', 1073741824),
      (''PARITY_SPACE'', 1342177280),
      (''PARITY_MASK'', - 268435456),
      (''NO_PARAMS_TO_SET'', 0),
      (''INVALID_FD'', - 1)]"

definition AbstractSerialPortSocket_java :: "(string \<times> jint) list" where
  "AbstractSerialPortSocket_java =
     [(''SPEED_0_BPS'', 0x00000001),
      (''SPEED_50_BPS'', 0x00000002),
      (''SPEED_75_BPS'', 0x00000003),
      (''SPEED_110_BPS'', 0x00000004),
      (''SPEED_134_BPS'', 0x00000005),
      (''SPEED_150_BPS'', 0x00000006),
      (''SPEED_200_BPS'', 0x00000007),
      (''SPEED_300_BPS'', 0x00000008),
      (''SPEED_600_BPS'', 0x00000009),
      (''SPEED_1200_BPS'', 0x0000000A),
      (''SPEED_1800_BPS'', 0x0000000B),
      (''SPEED_2400_BPS'', 0x0000000C),
      (''SPEED_4800_BPS'', 0x0000000D),
      (''SPEED_9600_BPS'', 0x0000000E),
      (''SPEED_19200_BPS'', 0x0000000F),
      (''SPEED_38400_BPS'', 0x00000010),
      (''SPEED_57600_BPS'', 0x00000011),
      (''SPEED_115200_BPS'', 0x00000012),
      (''SPEED_230400_BPS'', 0x00000013),
      (''SPEED_460800_BPS'', 0x00000014),
      (''SPEED_500000_BPS'', 0x00000015),
      (''SPEED_576000_BPS'', 0x00000016),
      (''SPEED_921600_BPS'', 0x00000017),
      (''SPEED_1000000_BPS'', 0x00000018),
      (''SPEED_1152000_BPS'', 0x00000019),
      (''SPEED_1500000_BPS'', 0x0000001A),
      (''SPEED_2000000_BPS'', 0x0000001B),
      (''SPEED_2500000_BPS'', 0x0000001C),
      (''SPEED_3000000_BPS'', 0x0000001D),
      (''SPEED_3500000_BPS'', 0x0000001E),
      (''SPEED_4000000_BPS'', 0x0000001F),
      (''SPEED_MASK'', 0x000000FF),
      (''DATA_BITS_DB5'', 0x00001000),
      (''DATA_BITS_DB6'', 0x00002000),
      (''DATA_BITS_DB7'', 0x00003000),
      (''DATA_BITS_DB8'', 0x00004000),
      (''DATA_BITS_MASK'', 0x0000F000),
      (''FLOW_CONTROL_NONE'', 0x00010000),
      (''FLOW_CONTROL_RTS_CTS_IN'', 0x00100000),
      (''FLOW_CONTROL_RTS_CTS_OUT'', 0x00200000),
      (''FLOW_CONTROL_XON_XOFF_IN'', 0x00400000),
      (''FLOW_CONTROL_XON_XOFF_OUT'', 0x00800000),
      (''FLOW_CONTROL_MASK'', 0x00FF0000),
      (''STOP_BITS_1'', 0x01000000),
      (''STOP_BITS_1_5'', 0x02000000),
      (''STOP_BITS_2'', 0x03000000),
      (''STOP_BITS_MASK'', 0x0F000000),
      (''PARITY_NONE'', 0x10000000),
      (''PARITY_ODD'', 0x20000000),
      (''PARITY_EVEN'', 0x30000000),
      (''PARITY_MARK'', 0x40000000),
      (''PARITY_SPACE'', 0x50000000),
      (''PARITY_MASK'', 0xF0000000),
      (''NO_PARAMS_TO_SET'', 0x00000000)]"

definition spsw_jni_h :: "(string \<times> jint) list" where
  "spsw_jni_h =
     [(''SPEED_0_BPS'', SPSW_SPEED_0_BPS),
      (''SPEED_50_BPS'', SPSW_SPEED_50_BPS),
      (''SPEED_75_BPS'', SPSW_SPEED_75_BPS),
      (''SPEED_110_BPS'', SPSW_SPEED_110_BPS),
      (''SPEED_134_BPS'', SPSW_SPEED_134_BPS),
      (''SPEED_150_BPS'', SPSW_SPEED_150_BPS),
      (''SPEED_200_BPS'', SPSW_SPEED_200_BPS),
      (''SPEED_300_BPS'', SPSW_SPEED_300_BPS),
      (''SPEED_600_BPS'', SPSW_SPEED_600_BPS),
      (''SPEED_1200_BPS'', SPSW_SPEED_1200_BPS),
      (''SPEED_1800_BPS'', SPSW_SPEED_1800_BPS),
      (''SPEED_2400_BPS'', SPSW_SPEED_2400_BPS),
      (''SPEED_4800_BPS'', SPSW_SPEED_4800_BPS),
      (''SPEED_9600_BPS'', SPSW_SPEED_9600_BPS),
      (''SPEED_19200_BPS'', SPSW_SPEED_19200_BPS),
      (''SPEED_38400_BPS'', SPSW_SPEED_38400_BPS),
      (''SPEED_57600_BPS'', SPSW_SPEED_57600_BPS),
      (''SPEED_115200_BPS'', SPSW_SPEED_115200_BPS),
      (''SPEED_230400_BPS'', SPSW_SPEED_230400_BPS),
      (''SPEED_460800_BPS'', SPSW_SPEED_460800_BPS),
      (''SPEED_500000_BPS'', SPSW_SPEED_500000_BPS),
      (''SPEED_576000_BPS'', SPSW_SPEED_576000_BPS),
      (''SPEED_921600_BPS'', SPSW_SPEED_921600_BPS),
      (''SPEED_1000000_BPS'', SPSW_SPEED_1000000_BPS),
      (''SPEED_1152000_BPS'', SPSW_SPEED_1152000_BPS),
      (''SPEED_1500000_BPS'', SPSW_SPEED_1500000_BPS),
      (''SPEED_2000000_BPS'', SPSW_SPEED_2000000_BPS),
      (''SPEED_2500000_BPS'', SPSW_SPEED_2500000_BPS),
      (''SPEED_3000000_BPS'', SPSW_SPEED_3000000_BPS),
      (''SPEED_3500000_BPS'', SPSW_SPEED_3500000_BPS),
      (''SPEED_4000000_BPS'', SPSW_SPEED_4000000_BPS),
      (''SPEED_MASK'', SPSW_SPEED_MASK),
      (''DATA_BITS_DB5'', SPSW_DATA_BITS_DB5),
      (''DATA_BITS_DB6'', SPSW_DATA_BITS_DB6),
      (''DATA_BITS_DB7'', SPSW_DATA_BITS_DB7),
      (''DATA_BITS_DB8'', SPSW_DATA_BITS_DB8),
      (''DATA_BITS_MASK'', SPSW_DATA_BITS_MASK),
      (''FLOW_CONTROL_NONE'', SPSW_FLOW_CONTROL_NONE),
      (''FLOW_CONTROL_RTS_CTS_IN'', SPSW_FLOW_CONTROL_RTS_CTS_IN),
      (''FLOW_CONTROL_RTS_CTS_OUT'', SPSW_FLOW_CONTROL_RTS_CTS_OUT),
      (''FLOW_CONTROL_XON_XOFF_IN'', SPSW_FLOW_CONTROL_XON_XOFF_IN),
      (''FLOW_CONTROL_XON_XOFF_OUT'', SPSW_FLOW_CONTROL_XON_XOFF_OUT),
      (''FLOW_CONTROL_MASK'', SPSW_FLOW_CONTROL_MASK),
      (''STOP_BITS_1'', SPSW_STOP_BITS_1),
      (''STOP_BITS_1_5'', SPSW_STOP_BITS_1_5),
      (''STOP_BITS_2'', SPSW_STOP_BITS_2),
      (''STOP_BITS_MASK'', SPSW_STOP_BITS_MASK),
      (''PARITY_NONE'', SPSW_PARITY_NONE),
      (''PARITY_ODD'', SPSW_PARITY_ODD),
      (''PARITY_EVEN'', SPSW_PARITY_EVEN),
      (''PARITY_MARK'', SPSW_PARITY_MARK),
      (''PARITY_SPACE'', SPSW_PARITY_SPACE),
      (''PARITY_MASK'', SPSW_PARITY_MASK),
      (''NO_PARAMS_TO_SET'', SPSW_NO_PARAMS_TO_SET)]"

section \<open>The two libraries\<close>

definition termios_natives :: "native_method list" where
  "termios_natives = AbstractSerialPortSocket_natives @ GenericTermiosSerialPortSocket_natives
     @ GenericTermiosSerialPortSocket_FdCleaner_natives"

definition win_natives :: "native_method list" where
  "win_natives = AbstractSerialPortSocket_natives @ GenericWinSerialPortSocket_natives
     @ GenericWinSerialPortSocket_FdCleaner_natives"

definition termios_exports :: "prototype list" where
  "termios_exports = AbstractSerialPortSocketIO_exports @ TermiosCommon_exports @ TermiosIO_exports @ TermiosSettings_exports"

definition win_exports :: "prototype list" where
  "win_exports = AbstractSerialPortSocketIO_exports @ WinApiCommon_exports @ WinApiIO_exports @ WinApiSettings_exports"

definition unlinked :: "native_method list \<Rightarrow> prototype list \<Rightarrow> native_method list" where
  "unlinked ms ps = filter (\<lambda>m. \<not> list_ex (implements m) ps) ms"

text \<open>The declarations of a header, without the class of the comment.\<close>

definition declarations :: "(string \<times> string \<times> string \<times> prototype) list \<Rightarrow> (string \<times> string \<times> prototype option) list" where
  "declarations hs = map (\<lambda>(_, m, sig, p). (m, sig, Some p)) hs"

text \<open>
  The unlinked methods with the names computed once and compared from their ends, which
  evaluates quickly.
\<close>

definition unlinked_table ::
  "(native_method \<times> string \<times> string \<times> (ctype \<times> ctype list) option) list \<Rightarrow> (string \<times> ctype \<times> ctype list) list
     \<Rightarrow> native_method list" where
  "unlinked_table ms ps = map fst (filter (\<lambda>(m, s, l, t). \<not> list_ex (\<lambda>(n, q). (n = s \<or> n = l) \<and> t = Some q) ps) ms)"

lemma unlinked_eval: "unlinked ms ps = unlinked_table
    (map (\<lambda>m. (m, rev (short_name m), rev (long_name m), types_of m)) ms)
    (map (\<lambda>p. (rev (pt_name p), pt_result p, pt_args p)) ps)"
  by (induction ms) (auto simp: unlinked_def unlinked_table_def implements_def list_ex_iff)

section \<open>Properties\<close>

text \<open>
  C37: every native method of the Java classes but one finds a C function of its name, and this
  function has the C types of its signature; the same on both platforms. The one is
  \<open>writeBytes_ParamsOK\<close>, which the output stream calls for a part of an array: the C
  function is called \<open>writeBytes_ArgsOK\<close>, so the call ends in an \<open>UnsatisfiedLinkError\<close>.
\<close>

theorem native_methods_linked:
  "map (\<lambda>m. (nm_method m, nm_signature m)) (unlinked termios_natives termios_exports) = [(''writeBytes_ParamsOK'', ''([BII)V'')] \<and>
   map (\<lambda>m. (nm_method m, nm_signature m)) (unlinked win_natives win_exports) = [(''writeBytes_ParamsOK'', ''([BII)V'')]"
  unfolding unlinked_eval by (rule conjI) code_simp+

text \<open>
  The generated headers agree with the Java classes: they declare exactly the native
  methods, in their order, under the names and with the types the VM expects; the constants of
  the three headers are the ones of the Java class, and \<open>spsw-jni.h\<close> hands them on with
  their 32-bit values.
\<close>

theorem headers_agree:
  "declarations (AbstractSerialPortSocket_methods_1 @ AbstractSerialPortSocket_methods_2)
     = map header_entry AbstractSerialPortSocket_natives \<and>
   declarations GenericTermiosSerialPortSocket_methods = map header_entry GenericTermiosSerialPortSocket_natives \<and>
   declarations GenericTermiosSerialPortSocket_FdCleaner_methods = map header_entry GenericTermiosSerialPortSocket_FdCleaner_natives \<and>
   declarations GenericWinSerialPortSocket_methods = map header_entry GenericWinSerialPortSocket_natives \<and>
   declarations GenericWinSerialPortSocket_FdCleaner_methods = map header_entry GenericWinSerialPortSocket_FdCleaner_natives \<and>
   map (\<lambda>(n, v). (n, word_of_int v)) AbstractSerialPortSocket_h = AbstractSerialPortSocket_java \<and>
   GenericTermiosSerialPortSocket_h = AbstractSerialPortSocket_h @ [(''INVALID_FD'', - 1)] \<and>
   GenericWinSerialPortSocket_h = AbstractSerialPortSocket_h @ [(''INVALID_FD'', - 1)] \<and>
   spsw_jni_h = AbstractSerialPortSocket_java"
proof (intro conjI)
  show "map (\<lambda>(n, v). (n, word_of_int v)) AbstractSerialPortSocket_h = AbstractSerialPortSocket_java"
    by (simp add: AbstractSerialPortSocket_h_def AbstractSerialPortSocket_java_def)
  show "spsw_jni_h = AbstractSerialPortSocket_java"
    by (simp add: spsw_jni_h_def AbstractSerialPortSocket_java_def bits_simps)
qed code_simp+

end
