(* ===== verification/TermiosDeadline.thy ===== *)
theory TermiosDeadline
  imports TermiosIO
begin

text \<open>
  The timeouts of \<open>TermiosIO.c\<close> in real time: how the end time and the remaining time are
  computed, that a transfer with an overall timeout is over at its deadline whatever the
  device does, and that it does not time out before. The clock is not part of the state the
  C code sees: \<open>ns\<close> observes in the world how many nanoseconds have passed, and the device
  is described by how long it may take to answer (\<open>timely\<close>).
\<close>

section \<open>Arithmetic on times\<close>

definition nanos :: "int \<times> int \<Rightarrow> int" where
  "nanos t = fst t * 1000000000 + snd t"

text \<open>The end time \<open>end_time\<close> computes from the reading of the clock.\<close>

lemma end_time_arith:
  fixes p s n :: int
  defines "e \<equiv> if 1000000000 < n + (p smod 1000) * 1000000 then (s + p sdiv 1000 + 1, n + (p smod 1000) * 1000000 - 1000000000)
      else (s + p sdiv 1000, n + (p smod 1000) * 1000000)"
  assumes p: "0 < p"
  shows "nanos e = nanos (s, n) + p * 1000000"
    and "0 \<le> n \<Longrightarrow> n < 1000000000 \<Longrightarrow> 0 \<le> snd e \<and> snd e \<le> 1000000000"
proof -
  have div: "p sdiv 1000 = p div 1000" and mod: "p smod 1000 = p mod 1000"
    using p by (simp_all add: signed_divide_int_def signed_modulo_int_def)
  have "p = p div 1000 * 1000 + p mod 1000" by simp
  then have "p * 1000000 = p mod 1000 * 1000000 + p div 1000 * 1000000000" by linarith
  then show "nanos e = nanos (s, n) + p * 1000000"
    by (simp add: e_def nanos_def algebra_simps div mod)
  have "0 \<le> p mod 1000" "p mod 1000 \<le> 999" using pos_mod_bound [of 1000 p] by simp_all
  then show "0 \<le> n \<Longrightarrow> n < 1000000000 \<Longrightarrow> 0 \<le> snd e \<and> snd e \<le> 1000000000"
    by (simp add: e_def mod)
qed

text \<open>Reductions in the middle of the computation do not change its last 32 bits.\<close>

lemma int32_inner [simp]: "int32 (int32 a + b) = int32 (a + b)" "int32 (a + int32 b) = int32 (a + b)"
  "int32 (int32 a * b) = int32 (a * b)"
  by (simp_all add: int32_def signed_take_bit_add signed_take_bit_mult)
     (metis signed_take_bit_add signed_take_bit_signed_take_bit min.idem, metis signed_take_bit_add signed_take_bit_signed_take_bit min.idem, metis signed_take_bit_mult signed_take_bit_signed_take_bit min.idem)

lemma sdiv_million:
  fixes x :: int
  shows "- 1000000 < (x sdiv 1000000) * 1000000 - x" "(x sdiv 1000000) * 1000000 - x < 1000000"
proof -
  have "x sdiv 1000000 = (if 0 \<le> x then x div 1000000 else - ((- x) div 1000000))"
    by (auto simp: signed_divide_int_def sgn_if)
  moreover have "x div 1000000 * 1000000 = x - x mod 1000000" "(- x) div 1000000 * 1000000 = - x - (- x) mod 1000000"
    by (simp_all add: minus_mod_eq_div_mult)
  moreover have "0 \<le> x mod 1000000" "x mod 1000000 < 1000000" "0 \<le> (- x) mod 1000000" "(- x) mod 1000000 < 1000000"
    by simp_all
  ultimately show "- 1000000 < (x sdiv 1000000) * 1000000 - x" "(x sdiv 1000000) * 1000000 - x < 1000000"
    by (auto split: if_splits)
qed

text \<open>
  The remaining time in milliseconds, exact to a millisecond as long as it fits into 31 bits.
\<close>

lemma remaining_exact:
  fixes e n :: "int \<times> int"
  defines "rem \<equiv> int32 (int32 (int32 (fst e - fst n) * 1000) + int32 ((snd e - snd n) sdiv 1000000))"
  assumes sec: "0 \<le> snd e" "snd e \<le> 1000000000" "0 \<le> snd n" "snd n < 1000000000"
    and range: "- (2147483647 * 1000000) \<le> nanos e - nanos n" "nanos e - nanos n \<le> 2147483647 * 1000000"
  shows "\<bar>rem * 1000000 - (nanos e - nanos n)\<bar> < 1000000" "- (2 ^ 31) \<le> rem" "rem < 2 ^ 31"
proof -
  define x where "x = (fst e - fst n) * 1000 + (snd e - snd n) sdiv 1000000"
  have x: "x * 1000000 - (nanos e - nanos n) = (snd e - snd n) sdiv 1000000 * 1000000 - (snd e - snd n)"
    by (simp add: x_def nanos_def algebra_simps)
  have close: "- 1000000 < x * 1000000 - (nanos e - nanos n)" "x * 1000000 - (nanos e - nanos n) < 1000000"
    using sdiv_million [of "snd e - snd n"] unfolding x by simp_all
  then have fits: "- (2 ^ 31) \<le> x" "x < 2 ^ 31" using range by simp_all
  have "rem = x"
    using int32_id [OF fits] by (simp add: rem_def x_def)
  then show "\<bar>rem * 1000000 - (nanos e - nanos n)\<bar> < 1000000" "- (2 ^ 31) \<le> rem" "rem < 2 ^ 31"
    using close fits by simp_all
qed

section \<open>A device that answers in time\<close>

text \<open>How long a call of the transfers may wait by its own arguments; None without a bound.\<close>

definition max_wait :: "pcall \<Rightarrow> int option" where
  "max_wait call = (case call of Poll fds t \<Rightarrow> if 0 \<le> t then Some (t * 1000000) else None
     | Read fd n \<Rightarrow> Some 0 | Write fd bs \<Rightarrow> Some 0 | Clock_gettime \<Rightarrow> Some 0 | _ \<Rightarrow> None)"

text \<open>
  Every call takes some time, and at most \<open>delay\<close> nanoseconds more than it may wait: the
  port has been opened with \<open>O_NONBLOCK\<close>, so only \<open>poll\<close> waits. The clock gives the time
  at some moment of the call, and \<open>poll\<close> gives 0 only when its timeout is over. No other
  thread changes the object meanwhile.
\<close>

definition timely :: "'w os \<Rightarrow> ('w \<Rightarrow> int) \<Rightarrow> int \<Rightarrow> bool" where
  "timely os ns delay \<longleftrightarrow> (\<forall>c obj w. case os c (obj, w) of (r, obj', w') \<Rightarrow>
     obj' = obj \<and> ns w < ns w' \<and>
     (case max_wait c of None \<Rightarrow> True | Some t \<Rightarrow> ns w' \<le> ns w + t + delay) \<and>
     (c = Clock_gettime \<longrightarrow> 0 \<le> r_nsec r \<and> r_nsec r < 1000000000 \<and>
        ns w \<le> nanos (r_sec r, r_nsec r) \<and> nanos (r_sec r, r_nsec r) \<le> ns w') \<and>
     (\<forall>fds t. c = Poll fds t \<longrightarrow> r_ret r = 0 \<longrightarrow> ns w + t * 1000000 \<le> ns w'))"

lemma timely_syscall:
  assumes "timely os ns delay"
    and "\<And>r s'. sps s' = sps s \<Longrightarrow> pending s' = pending s \<Longrightarrow> ns (world s) < ns (world s') \<Longrightarrow>
      (case max_wait c of None \<Rightarrow> True | Some t \<Rightarrow> ns (world s') \<le> ns (world s) + t + delay) \<Longrightarrow>
      (c = Clock_gettime \<Longrightarrow> 0 \<le> r_nsec r \<and> r_nsec r < 1000000000 \<and>
        ns (world s) \<le> nanos (r_sec r, r_nsec r) \<and> nanos (r_sec r, r_nsec r) \<le> ns (world s')) \<Longrightarrow>
      (\<And>fds t. c = Poll fds t \<Longrightarrow> r_ret r = 0 \<Longrightarrow> ns (world s) + t * 1000000 \<le> ns (world s')) \<Longrightarrow> Q r s'"
  shows "wp (syscall os c) Q s"
proof (rule syscall_wp)
  fix r obj w assume call: "os c (sps s, world s) = (r, obj, w)"
  show "Q r (answered c r obj w s)"
    using spec [OF spec [OF spec [OF assms(1) [unfolded timely_def], of c], of "sps s"], of "world s"] call
    by (intro assms(2)) (auto split: option.splits)
qed

lemma max_wait_simps [simp]:
  "max_wait (Read fd n) = Some 0" "max_wait (Write fd bs) = Some 0" "max_wait Clock_gettime = Some 0"
  "max_wait (Poll fds t) = (if 0 \<le> t then Some (t * 1000000) else None)"
  by (simp_all add: max_wait_def)

text \<open>
  A step of a transfer that keeps the object and ends between \<open>lo\<close> and \<open>hi\<close>. When it has
  thrown a timeout, it was not before \<open>due\<close>.
\<close>

definition timed :: "('w \<Rightarrow> int) \<Rightarrow> int \<Rightarrow> 'w pstate \<Rightarrow> int \<Rightarrow> 'w pstate \<Rightarrow> bool" where
  "timed ns due t hi t' \<longleftrightarrow> sps t' = sps t \<and> ns (world t) < ns (world t') \<and> ns (world t') \<le> hi \<and>
     (\<forall>m k. pending t' = Some (TimeoutIOException m k) \<longrightarrow>
        pending t = Some (TimeoutIOException m k) \<or> due \<le> ns (world t'))"

lemma timed_trans:
  "timed ns due t hi t' \<Longrightarrow> timed ns due t' hi' t'' \<Longrightarrow> timed ns due t hi' t''"
  by (auto simp: timed_def)

lemma timed_mono: "timed ns due t hi t' \<Longrightarrow> hi \<le> hi' \<Longrightarrow> timed ns due t hi' t'"
  by (auto simp: timed_def)

lemma timed_call:
  "sps t' = sps t \<Longrightarrow> pending t' = pending t \<Longrightarrow> ns (world t) < ns (world t') \<Longrightarrow> ns (world t') \<le> hi \<Longrightarrow> timed ns due t hi t'"
  by (simp add: timed_def)

lemma timed_other: "timed ns due t hi t' \<Longrightarrow> other e \<Longrightarrow> timed ns due t hi (t'\<lparr>pending := Some e\<rparr>)"
  by (auto simp: timed_def other_def)

lemma timed_late: "timed ns due t hi t' \<Longrightarrow> due \<le> ns (world t') \<Longrightarrow> timed ns due t hi (t'\<lparr>pending := Some e\<rparr>)"
  by (auto simp: timed_def)

lemma timed_sps: "timed ns due t hi t' \<Longrightarrow> sps t' = sps t"
  by (simp add: timed_def)

section \<open>The parts in time\<close>

lemma end_time_timely:
  assumes tm: "timely os ns delay" and p: "0 < p"
    and Q: "\<And>e t'. timed ns due t (ns (world t) + delay) t' \<Longrightarrow> pending t' = pending t \<Longrightarrow> 
      ns (world t) + p * 1000000 \<le> nanos e \<Longrightarrow> nanos e \<le> ns (world t') + p * 1000000 \<Longrightarrow>
      0 \<le> snd e \<Longrightarrow> snd e \<le> 1000000000 \<Longrightarrow> Q (Some e) t'"
  shows "wp (end_time os p) Q t"
  unfolding end_time_def if_P [OF p] wp_bind
  by (rule timely_syscall [OF tm], unfold Let_def wp_return, rule Q)
    (use end_time_arith [OF p] in \<open>auto intro: timed_call\<close>)

lemma remaining_time_timely:
  assumes tm: "timely os ns delay" and e: "0 \<le> snd e" "snd e \<le> 1000000000"
    and early: "nanos e - ns (world t) \<le> 2147483647 * 1000000"
    and late: "ns (world t) + delay \<le> nanos e + 2147483647 * 1000000"
    and Q: "\<And>x t' now. timed ns due t (ns (world t) + delay) t' \<Longrightarrow> pending t' = pending t \<Longrightarrow>
      ns (world t) \<le> now \<Longrightarrow> now \<le> ns (world t') \<Longrightarrow> ns (world t') \<le> now + delay \<Longrightarrow>
      \<bar>x * 1000000 - (nanos e - now)\<bar> < 1000000 \<Longrightarrow> Q x t'"
  shows "wp (remaining_time os junk (Some e)) Q t"
  unfolding remaining_time_def wp_bind
proof (rule timely_syscall [OF tm], unfold option.case wp_bind wp_return)
  fix r :: presp and t' :: "'a pstate"
  assume r: "sps t' = sps t" "pending t' = pending t" "ns (world t) < ns (world t')"
    "case max_wait Clock_gettime of None \<Rightarrow> True | Some u \<Rightarrow> ns (world t') \<le> ns (world t) + u + delay"
    "Clock_gettime = Clock_gettime \<Longrightarrow> 0 \<le> r_nsec r \<and> r_nsec r < 1000000000 \<and>
        ns (world t) \<le> nanos (r_sec r, r_nsec r) \<and> nanos (r_sec r, r_nsec r) \<le> ns (world t')"
  then show "Q (int32 (int32 (int32 (fst e - r_sec r) * 1000) + int32 ((snd e - r_nsec r) sdiv 1000000))) t'"
    using remaining_exact(1) [of e "(r_sec r, r_nsec r)"] e early late
    by (intro Q [of _ "nanos (r_sec r, r_nsec r)"]) (auto intro: timed_call)
qed

section \<open>Reading in time\<close>

lemma read_events_timed:
  assumes "timed ns due t hi t1" and "r_revents0 p = POLLIN c \<Longrightarrow> Q True t1"
    and "\<And>e. timed ns due t hi (t1\<lparr>pending := Some e\<rparr>) \<Longrightarrow> Q False (t1\<lparr>pending := Some e\<rparr>)"
  shows "wp (read_events c p) Q t1"
  using assms by (intro read_events_wp) (auto intro: timed_other)

lemma sys_read_timed:
  assumes tm: "timely os ns delay" and t1: "timed ns due t hi t1" "ns (world t1) + delay \<le> hi'"
    and Q: "\<And>n b' t2. timed ns due t hi' t2 \<Longrightarrow> Q (n, b') t2"
  shows "wp (sys_read os fd b off n) Q t1"
  unfolding sys_read_def wp_bind
  by (rule timely_syscall [OF tm], unfold wp_return, rule Q)
    (use t1(2) in \<open>auto intro!: timed_trans [OF t1(1)] timed_call\<close>)

lemma read_chunk_timed:
  assumes tm: "timely os ns delay" and t1: "timed ns due t hi t1" "ns (world t1) + delay \<le> hi'" "hi \<le> hi'"
  shows "wp (read_chunk c os fd len n b p) (\<lambda>x t'. timed ns due t hi' t') t1"
  unfolding read_chunk_def wp_bind
  by (rule read_events_timed [OF timed_mono [OF t1(1,3)]])
    (auto simp: wp_simps intro!: sys_read_timed [OF tm t1(1,2)] wp_other timed_other)

lemma read_wait_timed:
  assumes tm: "timely os ns delay" and pt: "0 < pt" and delay: "0 \<le> delay"
    and due: "due \<le> ns (world t) + pt * 1000000"
  shows "wp (read_wait c os fd cfd pt b len) (\<lambda>x t'. timed ns due t (ns (world t) + pt * 1000000 + 2 * delay) t') t"
  unfolding read_wait_def wp_bind
proof (rule timely_syscall [OF tm])
  let ?c = "Poll [(fd, POLLIN c), (cfd, POLLIN c)] pt" and ?hi = "ns (world t) + pt * 1000000 + 2 * delay"
  fix p :: presp and t1 :: "'a pstate"
  assume r: "sps t1 = sps t" "pending t1 = pending t" "ns (world t) < ns (world t1)"
    "case max_wait ?c of None \<Rightarrow> True | Some u \<Rightarrow> ns (world t1) \<le> ns (world t) + u + delay"
    "\<And>fds u. ?c = Poll fds u \<Longrightarrow> r_ret p = 0 \<Longrightarrow> ns (world t) + u * 1000000 \<le> ns (world t1)"
  then have t1: "timed ns due t (ns (world t) + pt * 1000000 + delay) t1" "ns (world t1) + delay \<le> ?hi" "timed ns due t ?hi t1"
    "r_ret p = 0 \<Longrightarrow> due \<le> ns (world t1)"
    using pt delay due by (auto intro!: timed_call)
  show "wp (if r_ret p = 0 then do {
       throw_TimeoutIOException 0 ''readBuffer poll timeout'';
       State_Monad.return (Inl (- 1, b))
     } else if r_ret p < 0 then do {
       throw_InterruptedIOExceptionWithError 0 ''readBytes poll: Error during poll'';
       State_Monad.return (Inl (- 1, b))
     } else do {
       ready \<leftarrow> read_events c p;
       if \<not> ready then State_Monad.return (Inl (- 1, b))
       else do {
         (nread, buff1) \<leftarrow> sys_read os fd b 0 (nat (uint32 len));
         if nread < 0 then do {
           now \<leftarrow> GetField spsw_fd;
           (if now = INVALID_FD then throw_AsynchronousCloseException
            else throw_InterruptedIOExceptionWithError 0 ''readBytes read error: Should never happen'');
           State_Monad.return (Inl (- 1, buff1))
         } else if nread = len then State_Monad.return (Inl (int32 nread, buff1))
         else State_Monad.return (Inr (nread, buff1))
       }
     }) (\<lambda>x t'. timed ns due t ?hi t') t1"
    using timed_late [OF t1(3) t1(4)] timed_other [OF t1(3)]
    by (auto simp: wp_simps throw_TimeoutIOException_def intro!: wp_other read_events_timed [OF t1(3)]
        sys_read_timed [OF tm t1(1,2)] elim!: timed_other)
qed

text \<open>
  A round: it begins at most \<open>grace\<close> after the deadline, and so does the next one.
\<close>

abbreviation grace :: "int \<Rightarrow> int" where
  "grace delay \<equiv> 1000000 + 3 * delay"

lemma read_round_timed:
  assumes tm: "timely os ns delay" and e: "0 \<le> snd e" "snd e \<le> 1000000000" and ib: "0 \<le> ib" and pt: "pt \<noteq> - 1"
    and early: "nanos e - ns (world t) \<le> 2147483647 * 1000000"
    and late: "ns (world t) \<le> nanos e + grace delay" and delay: "0 \<le> delay" "4 * delay \<le> 2147483646 * 1000000"
  shows "wp (read_round c os junk fd cfd pt (Some e) ib len (n, b))
    (\<lambda>x t'. timed ns due t (nanos e + grace delay + (case x of Inl _ \<Rightarrow> delay | Inr _ \<Rightarrow> 0)) t') t"
  unfolding read_round_def prod.case wp_bind read_timeout_def if_not_P [OF pt]
proof (rule remaining_time_timely [OF tm e early, where due = due], unfold wp_return)
  show "ns (world t) + delay \<le> nanos e + 2147483647 * 1000000" using late delay by simp
  fix x t1 now
  assume t1: "timed ns due t (ns (world t) + delay) t1" "ns (world t) \<le> now" "now \<le> ns (world t1)"
    "ns (world t1) \<le> now + delay" "\<bar>x * 1000000 - (nanos e - now)\<bar> < 1000000"
  let ?Q = "\<lambda>x t'. timed ns due t (nanos e + grace delay + (case x of Inl _ \<Rightarrow> delay | Inr _ \<Rightarrow> 0)) t'"
  show "wp (case if x < 0 then None else Some (if ib < x then ib else x) of
       None \<Rightarrow> State_Monad.return (Inl (int32 n, b))
     | Some tm \<Rightarrow> do {
         p \<leftarrow> syscall os (Poll [(fd, POLLIN c), (cfd, POLLIN c)] tm);
         if r_ret p = 0 then State_Monad.return (Inl (int32 n, b))
         else if r_ret p < 0 then do {
           throw_InterruptedIOExceptionWithError 0 ''readBytes poll: Error during poll'';
           State_Monad.return (Inl (- 1, b))
         } else read_chunk c os fd len n b p
       }) ?Q t1"
  proof (cases "x < 0")
    case True
    then show ?thesis using late by (auto simp: wp_return intro: timed_mono [OF t1(1)])
  next
    case False
    let ?tm = "if ib < x then ib else x"
    have poll: "wp (if r_ret p = 0 then State_Monad.return (Inl (int32 n, b))
         else if r_ret p < 0 then do {
           throw_InterruptedIOExceptionWithError 0 ''readBytes poll: Error during poll'';
           State_Monad.return (Inl (- 1, b))
         } else read_chunk c os fd len n b p) ?Q t2"
      if "timed ns due t (nanos e + 1000000 + 2 * delay) t2" for p t2
    proof -
      have t2: "timed ns due t (nanos e + grace delay + delay) t2" "timed ns due t (nanos e + grace delay) t2"
        by (rule timed_mono [OF that], use delay in simp)+
      have stop: "?Q (Inl y) t2" "other ex \<Longrightarrow> ?Q (Inl y) (t2\<lparr>pending := Some ex\<rparr>)" for y ex
        using t2(1) timed_other [OF t2(1)] by simp_all
      have chunk: "wp (read_chunk c os fd len n b p) ?Q t2"
        by (rule wp_mono [OF read_chunk_timed [OF tm that, of "nanos e + grace delay"]])
          (use that delay in \<open>auto simp: timed_def split: sum.splits\<close>)
      show ?thesis
        unfolding wp_if wp_bind wp_return by (auto intro!: stop chunk wp_other simp del: sum.case)
    qed
    have tm': "0 \<le> ?tm" "?tm \<le> x" using False ib by auto
    show ?thesis
      unfolding if_not_P [OF False] option.case wp_bind
      by (rule timely_syscall [OF tm], rule poll, rule timed_trans [OF t1(1)])
        (use t1 tm' in \<open>auto intro!: timed_call split del: if_split\<close>)
  qed
qed

lemma read_first_timed:
  assumes tm: "timely os ns delay"
  shows "wp (read_first c os fd b len) (\<lambda>x t'. timed ns due t (ns (world t) + delay) t' \<and>
    (case x of Inl _ \<Rightarrow> True | Inr _ \<Rightarrow> pending t' = pending t)) t"
  unfolding read_first_def sys_read_def wp_bind
  by (rule timely_syscall [OF tm])
    (auto simp: wp_simps intro!: wp_other timed_other intro: timed_call)

lemma read_start_timed:
  fixes c :: posix and os :: "'w os" and s :: "'w pstate"
  assumes tm: "timely os ns delay" and delay: "0 \<le> delay"
    and pt: "0 < spsw_pollReadTimeout (sps s)"
  defines "start \<equiv> ns (world s)" and "p \<equiv> spsw_pollReadTimeout (sps s)"
  shows "wp (read_start c os b0 len) (\<lambda>x t'. timed ns (start + p * 1000000) s (start + p * 1000000 + 4 * delay) t' \<and> (case x of
      Inl ret \<Rightarrow> True
    | Inr (fd, cfd, pt, et, ib, n, b) \<Rightarrow> pt = p \<and> ib = spsw_interByteReadTimeout (sps s) \<and> 
        (\<exists>e. et = Some e \<and> 0 \<le> snd e \<and> snd e \<le> 1000000000 \<and>
          start + p * 1000000 \<le> nanos e \<and> nanos e \<le> start + 2 * delay + p * 1000000 \<and>
          ns (world t') \<le> nanos e + 3 * delay \<and> nanos e \<le> ns (world t') + p * 1000000))) s"
proof -
  let ?Q = "\<lambda>x t'. timed ns (start + p * 1000000) s (start + p * 1000000 + 4 * delay) t' \<and> (case x of
      Inl (ret :: int \<times> bytes) \<Rightarrow> True
    | Inr (fd :: int, cfd :: int, pt, et, ib, n :: int, b :: bytes) \<Rightarrow> pt = p \<and> ib = spsw_interByteReadTimeout (sps s) \<and> 
        (\<exists>e. et = Some e \<and> 0 \<le> snd e \<and> snd e \<le> 1000000000 \<and>
          start + p * 1000000 \<le> nanos e \<and> nanos e \<le> start + 2 * delay + p * 1000000 \<and>
          ns (world t') \<le> nanos e + 3 * delay \<and> nanos e \<le> ns (world t') + p * 1000000))"
  have pt': "0 < p" using pt by (simp add: p_def)
  have rest: "wp (if n = 0 then read_wait c os fd cfd p b len else State_Monad.return (Inr (n, b)))
      (\<lambda>x. wp (case x of Inl ret \<Rightarrow> State_Monad.return (Inl ret)
         | Inr (overallRead, buff2) \<Rightarrow> do {
             interByteTimeout \<leftarrow> GetField spsw_interByteReadTimeout;
             State_Monad.return (Inr (fd, cfd, p, Some e, interByteTimeout, overallRead, buff2))
           }) ?Q) t2"
    if t2: "timed ns (start + p * 1000000) s (start + 2 * delay) t2" 
      and e: "start + p * 1000000 \<le> nanos e" "nanos e \<le> start + 2 * delay + p * 1000000" "ns (world t2) + p * 1000000 \<le> nanos e + delay"
         "nanos e \<le> ns (world t2) + p * 1000000"
         "0 \<le> snd e" "snd e \<le> 1000000000" for n b t2 e fd cfd
  proof (cases "n = 0")
    case True
    have "start + p * 1000000 \<le> ns (world t2) + p * 1000000" using t2 by (simp add: timed_def start_def)
    from read_wait_timed [OF tm pt' delay this, of c fd cfd b len]
    show ?thesis
      unfolding if_P [OF True]
      by (rule wp_mono)
        (use t2 e delay in \<open>auto simp: wp_simps timed_def simp del: split_paired_Ex split: sum.splits\<close>)
  qed (use t2 e pt' delay in \<open>auto simp: wp_simps timed_def simp del: split_paired_Ex split: sum.splits\<close>)
  show ?thesis
    unfolding read_start_def wp_bind wp_GetField
  proof (rule wp_mono [OF read_first_timed [OF tm, where due = "start + p * 1000000"]])
    fix x :: "(int \<times> bytes) + (int \<times> bytes)" and t1 :: "'w pstate"
    assume first: "timed ns (start + p * 1000000) s (ns (world s) + delay) t1 \<and>
      (case x of Inl _ \<Rightarrow> True | Inr _ \<Rightarrow> pending t1 = pending s)"
    then have sps: "sps t1 = sps s" by (simp add: timed_def)
    show "wp (case x of Inl ret \<Rightarrow> State_Monad.return (Inl ret)
     | Inr (nread, buff1) \<Rightarrow> do {
         pollTimeout \<leftarrow> GetField spsw_pollReadTimeout;
         endTime \<leftarrow> end_time os pollTimeout;
         waited \<leftarrow> (if nread = 0 then read_wait c os (spsw_fd (sps s)) (spsw_closeEventReadFd (sps s)) pollTimeout buff1 len
                    else State_Monad.return (Inr (nread, buff1)));
         case waited of Inl ret \<Rightarrow> State_Monad.return (Inl ret)
         | Inr (overallRead, buff2) \<Rightarrow> do {
             interByteTimeout \<leftarrow> GetField spsw_interByteReadTimeout;
             State_Monad.return (Inr (spsw_fd (sps s), spsw_closeEventReadFd (sps s), pollTimeout, endTime, interByteTimeout, overallRead, buff2))
           }
       }) ?Q t1"
    proof (cases x)
      case (Inl ret)
      then show ?thesis using first delay pt' by (auto simp: wp_return start_def intro: timed_mono)
    next
      case (Inr y)
      obtain n b where y: "y = (n, b)" by (cases y)
      show ?thesis
        unfolding Inr y sum.case prod.case wp_bind wp_GetField sps p_def [symmetric]
        by (rule end_time_timely [OF tm pt', where due = "start + p * 1000000"], rule rest)
          (use first in \<open>auto simp: timed_def start_def\<close>)
    qed
  qed
qed

lemma readBuffer_timed:
  fixes c :: posix and os :: "'w os" and s :: "'w pstate"
  defines "p \<equiv> spsw_pollReadTimeout (sps s)"
  assumes tm: "timely os ns delay" and delay: "0 \<le> delay" "4 * delay \<le> 2147483646 * 1000000"
    and p: "0 < p" "p < 2 ^ 31" and ib: "0 \<le> spsw_interByteReadTimeout (sps s)"
  shows "\<exists>x s'. readBuffer c os junk b0 len s = Some (x, s') \<and>
    timed ns (ns (world s) + p * 1000000) s (ns (world s) + p * 1000000 + 1000000 + 6 * delay) s'"
proof -
  let ?due = "ns (world s) + p * 1000000" and ?ib = "spsw_interByteReadTimeout (sps s)"
  obtain y s1 where run: "run_state (read_start c os b0 len) s = (y, s1)" by fastforce
  note start = wpD [OF read_start_timed [OF tm delay(1) p(1) [unfolded p_def]] run, folded p_def]
  show ?thesis
  proof (cases y)
    case (Inl r)
    then show ?thesis using start delay by (auto simp: readBuffer_def run intro: timed_mono)
  next
    case (Inr z)
    then obtain fd cfd e n b where y: "y = Inr (fd, cfd, p, Some e, ?ib, n, b)"
      and e: "0 \<le> snd e" "snd e \<le> 1000000000" "?due \<le> nanos e" "nanos e \<le> ?due + 2 * delay"
      and s1: "ns (world s1) \<le> nanos e + 3 * delay" "nanos e \<le> ns (world s1) + p * 1000000"
      using start by (cases z) (auto simp del: split_paired_Ex)
    let ?I = "\<lambda>_ t. timed ns ?due s (nanos e + grace delay) t \<and> nanos e \<le> ns (world t) + p * 1000000"
    let ?m = "\<lambda>_ t. nat (nanos e + grace delay - ns (world t))"
    let ?body = "read_round c os junk fd cfd p (Some e) ?ib len"
    have "\<exists>x s'. do_while (\<lambda>a. run_state (?body a)) (n, b) s1 = Some (x, s') \<and>
        timed ns ?due s (nanos e + grace delay + delay) s'"
    proof (rule do_while_total_wp [where I = ?I and m = ?m])
      show "?I (n, b) s1" using start s1 by (auto simp: timed_def)
      fix a :: "int \<times> bytes" and t :: "'w pstate" assume I: "?I a t"
      then have t: "nanos e - ns (world t) \<le> 2147483647 * 1000000" "ns (world t) \<le> nanos e + grace delay"
        using e p delay start s1 by (auto simp: timed_def y)
      show "wp (?body a) (\<lambda>x t'. case x of Inl r \<Rightarrow> timed ns ?due s (nanos e + grace delay + delay) t'
          | Inr a' \<Rightarrow> ?I a' t' \<and> ?m a' t' < ?m a t) t"
        using I p(1) by (cases a) (auto intro!: wp_mono [OF read_round_timed [OF tm e(1,2) ib _ t delay, where due = ?due]]
          simp: timed_def split: sum.splits)
    qed
    then show ?thesis using e by (auto simp: readBuffer_def run y elim!: timed_mono)
  qed
qed

section \<open>Writing in time\<close>

lemma write_first_timed:
  assumes tm: "timely os ns delay"
  shows "wp (write_first c os fd buff len) (\<lambda>x t'. timed ns due t (ns (world t) + delay) t') t"
  unfolding write_first_def wp_bind
  by (rule timely_syscall [OF tm])
    (auto simp: wp_simps Let_def intro!: wp_other timed_other intro: timed_call)

lemma write_start_timed:
  fixes c :: posix and os :: "'w os" and s :: "'w pstate"
  assumes tm: "timely os ns delay" and delay: "0 \<le> delay"
    and pt: "0 < spsw_pollWriteTimeout (sps s)"
  defines "start \<equiv> ns (world s)" and "p \<equiv> spsw_pollWriteTimeout (sps s)"
  shows "wp (write_start c os buff len) (\<lambda>x t'. timed ns due s (start + 2 * delay) t' \<and> (case x of
      Inl ret \<Rightarrow> True
    | Inr (fd, cfd, pt, et, w) \<Rightarrow> pt = p \<and>
        (\<exists>e. et = Some e \<and> 0 \<le> snd e \<and> snd e \<le> 1000000000 \<and> start + p * 1000000 \<le> nanos e \<and>
          nanos e \<le> start + 2 * delay + p * 1000000 \<and>
          nanos e \<le> ns (world t') + p * 1000000))) s"
  unfolding write_start_def wp_bind wp_GetField
proof (rule wp_mono [OF write_first_timed [OF tm, where due = due]])
  fix x :: "int + int" and t1 :: "'w pstate"
  assume first: "timed ns due s (ns (world s) + delay) t1"
  let ?Q = "\<lambda>x t'. timed ns due s (start + 2 * delay) t' \<and> (case x of
      Inl (ret :: int) \<Rightarrow> True
    | Inr (fd :: int, cfd :: int, pt, et, w :: int) \<Rightarrow> pt = p \<and>
        (\<exists>e. et = Some e \<and> 0 \<le> snd e \<and> snd e \<le> 1000000000 \<and> start + p * 1000000 \<le> nanos e \<and>
          nanos e \<le> start + 2 * delay + p * 1000000 \<and>
          nanos e \<le> ns (world t') + p * 1000000))"
  have pt': "0 < p" using pt by (simp add: p_def)
  show "wp (case x of Inl ret \<Rightarrow> State_Monad.return (Inl ret)
     | Inr written \<Rightarrow> do {
         endTime \<leftarrow> end_time os (spsw_pollWriteTimeout (sps s));
         close_fd \<leftarrow> GetField spsw_closeEventReadFd;
         State_Monad.return (Inr (spsw_fd (sps s), close_fd, spsw_pollWriteTimeout (sps s), endTime, written))
       }) ?Q t1"
  proof (cases x)
    case (Inl ret)
    then show ?thesis using first delay by (auto simp: wp_return start_def intro: timed_mono)
  next
    case (Inr w)
    show ?thesis
      unfolding Inr sum.case p_def [symmetric] wp_bind [of "end_time _ _"]
      by (rule end_time_timely [OF tm pt', where due = due])
        (use first in \<open>auto simp: wp_simps timed_def start_def simp del: split_paired_Ex\<close>)
  qed
qed

lemma write_events_timed:
  assumes "timed ns due t hi t1" and "r_revents0 p = POLLOUT c \<Longrightarrow> Q None t1"
    and "\<And>e r. timed ns due t hi (t1\<lparr>pending := Some e\<rparr>) \<Longrightarrow> Q (Some r) (t1\<lparr>pending := Some e\<rparr>)"
  shows "wp (write_events c p w n) Q t1"
  unfolding write_events_def wp_if wp_bind wp_return
  using assms by (auto intro!: wp_other intro: timed_other)

lemma write_chunk_timed:
  assumes tm: "timely os ns delay" and t1: "timed ns due t hi t1" "ns (world t1) + delay \<le> hi'" "hi \<le> hi'"
  shows "wp (write_chunk c os fd buff len w n p) (\<lambda>x t'. timed ns due t hi' t') t1"
  unfolding write_chunk_def wp_bind
  by (rule write_events_timed [OF timed_mono [OF t1(1,3)]], unfold option.case wp_bind, rule timely_syscall [OF tm])
    (use t1(2) in \<open>auto simp: wp_simps intro!: wp_other timed_other timed_trans [OF t1(1)] timed_call\<close>)

lemma write_round_timed:
  assumes tm: "timely os ns delay" and e: "0 \<le> snd e" "snd e \<le> 1000000000" and pt: "0 \<le> pt"
    and early: "nanos e - ns (world t) \<le> 2147483647 * 1000000"
    and late: "ns (world t) \<le> nanos e + grace delay" and delay: "0 \<le> delay" "4 * delay \<le> 2147483646 * 1000000"
    and due: "due \<le> nanos e - 1000000"
  shows "wp (write_round c os junk fd cfd pt (Some e) buff len (w, n))
    (\<lambda>x t'. timed ns due t (nanos e + grace delay + (case x of Inl _ \<Rightarrow> delay | Inr _ \<Rightarrow> 0)) t') t"
  unfolding write_round_def prod.case wp_bind write_timeout_def if_P [OF pt]
proof (rule remaining_time_timely [OF tm e early, where due = due])
  show "ns (world t) + delay \<le> nanos e + 2147483647 * 1000000" using late delay by simp
  fix x t1 now
  assume t1: "timed ns due t (ns (world t) + delay) t1" "ns (world t) \<le> now" "now \<le> ns (world t1)"
    "ns (world t1) \<le> now + delay" "\<bar>x * 1000000 - (nanos e - now)\<bar> < 1000000"
  let ?Q = "\<lambda>x t'. timed ns due t (nanos e + grace delay + (case x of Inl _ \<Rightarrow> delay | Inr _ \<Rightarrow> 0)) t'"
  let ?polled = "\<lambda>p. if r_ret p = 0 then do {
           throw_TimeoutIOException n ''writeBuffer poll timeout'';
           State_Monad.return (Inl (int32 w))
         } else if r_ret p < 0 then do {
           throw_InterruptedIOExceptionWithError n ''poll timeout with error writeBytes'';
           State_Monad.return (Inl (int32 w))
         } else write_chunk c os fd buff len w n p"
  let ?next = "\<lambda>timeout. case timeout of Inl ret \<Rightarrow> State_Monad.return (Inl ret)
     | Inr tm \<Rightarrow> do {
         p \<leftarrow> syscall os (Poll [(fd, POLLOUT c), (cfd, POLLIN c)] tm);
         ?polled p
       }"
  have poll: "wp (?polled p) ?Q t2"
    if t2: "timed ns due t (nanos e + 1000000 + 2 * delay) t2" "r_ret p = 0 \<Longrightarrow> due \<le> ns (world t2)" for p t2
  proof -
    have hi: "timed ns due t (nanos e + grace delay + delay) t2"
      by (rule timed_mono [OF t2(1)]) (use delay in simp)
    have stop: "other ex \<Longrightarrow> ?Q (Inl y) (t2\<lparr>pending := Some ex\<rparr>)"
      "r_ret p = 0 \<Longrightarrow> ?Q (Inl y) (t2\<lparr>pending := Some ex\<rparr>)" for y ex
      using timed_other [OF hi] timed_late [OF hi t2(2)] by simp_all
    have chunk: "wp (write_chunk c os fd buff len w n p) ?Q t2"
      by (rule wp_mono [OF write_chunk_timed [OF tm t2(1), of "nanos e + grace delay"]])
        (use t2(1) delay in \<open>auto simp: timed_def split: sum.splits\<close>)
    show ?thesis
      unfolding wp_if wp_bind wp_return throw_TimeoutIOException_def wp_Throw
      using stop chunk by (cases "r_ret p = 0") (auto intro!: wp_other)
  qed
  show "wp (if x < 0 then do {
          throw_TimeoutIOException w ''writeBuffer overallWriteTimeout'';
          State_Monad.return (Inl (int32 w))
        } else State_Monad.return (Inr x)) (\<lambda>y. wp (?next y) ?Q) t1"
  proof (cases "x < 0")
    case True
    then have "due \<le> ns (world t1)" using t1 due by auto
    then have "timed ns due t (nanos e + grace delay + delay) (t1\<lparr>pending := Some ex\<rparr>)" for ex
      using late by (intro timed_late timed_mono [OF t1(1)]) auto
    then show ?thesis using True by (simp add: wp_simps throw_TimeoutIOException_def)
  next
    case False
    then show ?thesis
      unfolding if_not_P [OF False] wp_return sum.case wp_bind
      by (intro timely_syscall [OF tm] poll timed_trans [OF t1(1)] timed_call)
        (use t1 due in auto)
  qed
qed

lemma writeBuffer_timed:
  fixes c :: posix and os :: "'w os" and s :: "'w pstate"
  defines "p \<equiv> spsw_pollWriteTimeout (sps s)"
  assumes tm: "timely os ns delay" and delay: "0 \<le> delay" "4 * delay \<le> 2147483646 * 1000000"
    and p: "0 < p" "p < 2 ^ 31"
  shows "\<exists>x s'. writeBuffer c os junk buff len s = Some (x, s') \<and>
    timed ns (ns (world s) + p * 1000000 - 1000000) s (ns (world s) + p * 1000000 + 1000000 + 6 * delay) s'"
proof -
  let ?due = "ns (world s) + p * 1000000 - 1000000"
  obtain y s1 where run: "run_state (write_start c os buff len) s = (y, s1)" by fastforce
  note start = wpD [OF write_start_timed [OF tm delay(1) p(1) [unfolded p_def], where due = ?due] run, folded p_def]
  show ?thesis
  proof (cases y)
    case (Inl r)
    then show ?thesis using start delay p by (auto simp: writeBuffer_def run elim!: timed_mono)
  next
    case (Inr z)
    then obtain fd cfd e w where y: "y = Inr (fd, cfd, p, Some e, w)"
      and e: "0 \<le> snd e" "snd e \<le> 1000000000" "?due \<le> nanos e - 1000000" "nanos e \<le> ?due + 1000000 + 2 * delay"
        "nanos e \<le> ns (world s1) + p * 1000000"
      using start by (cases z) (auto simp del: split_paired_Ex)
    let ?I = "\<lambda>_ t. timed ns ?due s (nanos e + grace delay) t \<and> nanos e \<le> ns (world t) + p * 1000000"
    let ?m = "\<lambda>_ t. nat (nanos e + grace delay - ns (world t))"
    let ?body = "write_round c os junk fd cfd p (Some e) buff len"
    have "\<exists>x s'. do_while (\<lambda>a. run_state (?body a)) (w, w) s1 = Some (x, s') \<and>
        timed ns ?due s (nanos e + grace delay + delay) s'"
    proof (rule do_while_total_wp [where I = ?I and m = ?m])
      show "?I (w, w) s1" using start e p delay by (auto simp: timed_def)
      fix a :: "int \<times> int" and t :: "'w pstate" assume I: "?I a t"
      then have t: "nanos e - ns (world t) \<le> 2147483647 * 1000000" "ns (world t) \<le> nanos e + grace delay"
        using p by (auto simp: timed_def)
      have p': "0 \<le> p" using p by simp
      show "wp (?body a) (\<lambda>x t'. case x of Inl r \<Rightarrow> timed ns ?due s (nanos e + grace delay + delay) t'
          | Inr a' \<Rightarrow> ?I a' t' \<and> ?m a' t' < ?m a t) t"
        using I by (cases a) (auto intro!: wp_mono [OF write_round_timed [OF tm e(1,2) p' t delay e(3)]]
          simp: timed_def split: sum.splits)
    qed
    then show ?thesis using e by (auto simp: writeBuffer_def run y elim!: timed_mono)
  qed
qed

section \<open>Properties\<close>

lemma setTimeouts_sel:
  assumes "setTimeouts ib rt wt obj = Inr obj'"
  shows "0 \<le> spsw_interByteReadTimeout obj'" "0 < rt \<Longrightarrow> spsw_pollReadTimeout obj' = rt"
    "0 < wt \<Longrightarrow> spsw_pollWriteTimeout obj' = wt"
  using assms by (auto simp: setTimeouts_def split: if_splits)

text \<open>
  C38: the remaining time is exact to less than a millisecond: while the deadline is less than
  \<open>2 ^ 31\<close> milliseconds away, in the past or in the future, the computation in 32 bits does
  not lose it, although the product in the middle may overflow.
\<close>

theorem remaining_time_exact:
  assumes "0 \<le> snd e" and "snd e \<le> 1000000000"
  shows "case run_state (remaining_time os junk (Some e)) s of (x, s') \<Rightarrow>
    (\<exists>r. calls s' = calls s @ [(Clock_gettime, r)] \<and> uninit_read s' = uninit_read s \<and>
      (let d = nanos e - nanos (r_sec r, r_nsec r) in
        0 \<le> r_nsec r \<and> r_nsec r < 1000000000 \<and> \<bar>d\<bar> \<le> 2147483647 * 1000000 \<longrightarrow>
          \<bar>x * 1000000 - d\<bar> < 1000000))"
proof -
  have "wp (remaining_time os junk (Some e)) (\<lambda>x s'. 
    (\<exists>r. calls s' = calls s @ [(Clock_gettime, r)] \<and> uninit_read s' = uninit_read s \<and>
      (let d = nanos e - nanos (r_sec r, r_nsec r) in
        0 \<le> r_nsec r \<and> r_nsec r < 1000000000 \<and> \<bar>d\<bar> \<le> 2147483647 * 1000000 \<longrightarrow>
          \<bar>x * 1000000 - d\<bar> < 1000000))) s"
    unfolding remaining_time_def wp_bind
    by (rule syscall_wp) (use remaining_exact(1) [OF assms] in \<open>force simp: wp_simps Let_def\<close>)
  then show ?thesis by (simp add: wp_def)
qed

text \<open>
  A device that is always ready and never takes or gives a byte. Each call takes a nanosecond.
\<close>

definition clock_device :: "int os" where
  "clock_device c x = (case x of (obj, w) \<Rightarrow>
     (resp0\<lparr>r_ret := (case c of Poll fds t \<Rightarrow> 1 | _ \<Rightarrow> 0), r_revents0 := 1,
        r_sec := (w + 1) div 1000000000, r_nsec := (w + 1) mod 1000000000\<rparr>, obj, w + 1))"

theorem remaining_time_exact_witness:
  "case run_state (remaining_time clock_device (0, 0) (Some (2147483, 600000000))) (example_state 0) of (x, s') \<Rightarrow>
    \<bar>x * 1000000 - 2147483599999999\<bar> < 1000000"
  using remaining_time_exact [where e = "(2147483, 600000000)" and os = clock_device and junk = "(0, 0)" and s = "example_state 0"]
  by (simp add: remaining_time_def syscall_def clock_device_def resp0_def nanos_def answered_def example_state_def)

text \<open>
  C10: with an overall timeout that \<open>setTimeouts\<close> has accepted, \<open>readBuffer\<close> returns
  whatever the device does, also when it never gives a byte: at the latest a millisecond and
  six latencies of a call after the timeout. When it throws the timeout, the time is over.
\<close>

theorem readBuffer_in_time:
  assumes "setTimeouts ib rt wt obj = Inr (sps s)" and "0 < rt" and "rt < 2 ^ 31"
    and "timely os ns delay" and "0 \<le> delay" and "delay \<le> 10 ^ 14" and "pending s = None"
  shows "\<exists>n b s'. readBuffer c os junk b0 len s = Some ((n, b), s') \<and>
    ns (world s') \<le> ns (world s) + rt * 1000000 + 1000000 + 6 * delay \<and>
    (\<forall>m k. pending s' = Some (TimeoutIOException m k) \<longrightarrow> ns (world s) + rt * 1000000 \<le> ns (world s'))"
  using readBuffer_timed [of os ns delay s c junk b0 len] setTimeouts_sel [OF assms(1)] assms(2-)
  by (auto simp: timed_def)

lemma clock_device_timely: "timely clock_device (\<lambda>w. w) 1"
  by (auto simp: timely_def clock_device_def resp0_def nanos_def max_wait_def split: pcall.splits)

theorem readBuffer_in_time_witness:
  "\<exists>n b s'. readBuffer linux_consts clock_device (0, 0) [0, 0, 0] 3 ((example_state 0)\<lparr>sps := open_sps\<lparr>spsw_pollReadTimeout := 50\<rparr>\<rparr>)
      = Some ((n, b), s') \<and> world s' \<le> 51000006"
proof -
  let ?s = "(example_state 0)\<lparr>sps := open_sps\<lparr>spsw_pollReadTimeout := 50\<rparr>\<rparr>"
  have obj: "setTimeouts 100 50 0 open_sps = Inr (sps ?s)" by (simp add: setTimeouts_def open_sps_def)
  show ?thesis
    using readBuffer_in_time [OF obj _ _ clock_device_timely, of linux_consts "(0, 0)" "[0, 0, 0]" 3] by auto
qed

text \<open>
  C20: the same for \<open>writeBuffer\<close>, whose timeout may come up to a millisecond early,
  because the remaining time is cut to milliseconds.
\<close>

theorem writeBuffer_in_time:
  assumes "setTimeouts ib rt wt obj = Inr (sps s)" and "0 < wt" and "wt < 2 ^ 31"
    and "timely os ns delay" and "0 \<le> delay" and "delay \<le> 10 ^ 14" and "pending s = None"
  shows "\<exists>n s'. writeBuffer c os junk buff len s = Some (n, s') \<and>
    ns (world s') \<le> ns (world s) + wt * 1000000 + 1000000 + 6 * delay \<and>
    (\<forall>m k. pending s' = Some (TimeoutIOException m k) \<longrightarrow> ns (world s) + wt * 1000000 - 1000000 \<le> ns (world s'))"
  using writeBuffer_timed [of os ns delay s c junk buff len] setTimeouts_sel [OF assms(1)] assms(2-)
  by (auto simp: timed_def)

theorem writeBuffer_in_time_witness:
  "\<exists>n s'. writeBuffer linux_consts clock_device (0, 0) [1, 2, 3] 3 ((example_state 0)\<lparr>sps := open_sps\<lparr>spsw_pollWriteTimeout := 50\<rparr>\<rparr>)
      = Some (n, s') \<and> world s' \<le> 51000006"
proof -
  let ?s = "(example_state 0)\<lparr>sps := open_sps\<lparr>spsw_pollWriteTimeout := 50\<rparr>\<rparr>"
  have obj: "setTimeouts 100 0 50 open_sps = Inr (sps ?s)" by (simp add: setTimeouts_def open_sps_def)
  show ?thesis
    using writeBuffer_in_time [OF obj _ _ clock_device_timely, of linux_consts "(0, 0)" "[1, 2, 3]" 3] by auto
qed

end
