(* ===== verification/PortOrder.thy ===== *)
theory PortOrder
  imports Prelude
    "HOL-Library.List_Lexorder" "HOL-Library.Product_Lexorder" "HOL-Library.Sorting_Algorithms"
begin

text \<open>
  \<open>PortnamesComparator\<close> of the API: port names are compared so that \<open>COM2\<close> comes before
  \<open>COM10\<close>. The class feeds the shorter of two groups of digits with leading zeros while it
  walks over both names. The model is that walk, with the exception of \<open>charAt\<close> as a value
  and the loop as one that need not end; the reference is a key of each name (the groups as
  numbers, the other characters as codes) and the lexicographic order of the library.

  Characters are those of Latin-1, where the digits of \<open>Character.isDigit\<close> are 0 to 9.
\<close>

section \<open>The iterator\<close>

record iterator =
  it_value :: string
  it_pos :: nat
  it_stuffedZeros :: nat
  it_zerosToFeed :: nat

definition new_Iterator :: "string \<Rightarrow> iterator" where
  "new_Iterator value = \<lparr>it_value = value, it_pos = 0, it_stuffedZeros = 0, it_zerosToFeed = 0\<rparr>"

definition isDigit :: "char \<Rightarrow> bool" where
  "isDigit c \<longleftrightarrow> 48 \<le> (of_char c :: nat) \<and> (of_char c :: nat) \<le> 57"

text \<open>\<open>String.charAt\<close>: None is the \<open>StringIndexOutOfBoundsException\<close>.\<close>

definition charAt :: "string \<Rightarrow> nat \<Rightarrow> char option" where
  "charAt s i = (if i < length s then Some (s ! i) else None)"

function digits_from :: "string \<Rightarrow> nat \<Rightarrow> nat \<Rightarrow> nat option" where
  "digits_from value pos result = (case charAt value (pos + result) of None \<Rightarrow> None
     | Some c \<Rightarrow>
         if isDigit c then
           (if pos + (result + 1) = length value then Some (result + 1) else digits_from value pos (result + 1))
         else Some result)"
  by pat_completeness auto
termination
  by (relation "measure (\<lambda>(value, pos, result). length value - (pos + result))")
    (auto simp: charAt_def split: if_splits)

declare digits_from.simps [simp del]

definition getNumberOfDigits :: "iterator \<Rightarrow> nat option" where
  "getNumberOfDigits it = digits_from (it_value it) (it_pos it) 0"

definition addZeros :: "nat \<Rightarrow> iterator \<Rightarrow> iterator" where
  "addZeros zerosToFeed it = it\<lparr>it_zerosToFeed := zerosToFeed,
     it_stuffedZeros := it_stuffedZeros it + zerosToFeed\<rparr>"

definition getChar :: "iterator \<Rightarrow> char option" where
  "getChar it = (if 0 < it_zerosToFeed it then Some CHR ''0'' else charAt (it_value it) (it_pos it))"

definition next_char :: "iterator \<Rightarrow> bool \<times> iterator" where
  "next_char it = (let it' = (if 0 < it_zerosToFeed it then it\<lparr>it_zerosToFeed := it_zerosToFeed it - 1\<rparr>
       else it\<lparr>it_pos := it_pos it + 1\<rparr>)
     in (it_pos it' < length (it_value it'), it'))"

definition overallLength :: "iterator \<Rightarrow> int" where
  "overallLength it = int (length (it_value it)) + int (it_stuffedZeros it)"

section \<open>The comparison\<close>

text \<open>The two iterators, \<open>fisttStuffedAt\<close> and \<open>digitsFound\<close>.\<close>

type_synonym cmp_state = "iterator \<times> iterator \<times> int \<times> nat"

text \<open>The part of a round that looks for groups of digits; None is an exception.\<close>

definition stuff :: "cmp_state \<Rightarrow> cmp_state option" where
  "stuff = (\<lambda>(iterA, iterB, fisttStuffedAt, digitsFound).
     if digitsFound = 0 then
       (case getNumberOfDigits iterA of None \<Rightarrow> None | Some digitsA \<Rightarrow>
         (case getNumberOfDigits iterB of None \<Rightarrow> None | Some digitsB \<Rightarrow>
           if digitsA = digitsB then Some (iterA, iterB, fisttStuffedAt, digitsFound)
           else
             (let first = (if fisttStuffedAt = 0 then int digitsA - int digitsB else fisttStuffedAt) in
              if digitsA > digitsB then Some (iterA, addZeros (digitsA - digitsB) iterB, first, digitsA)
              else Some (addZeros (digitsB - digitsA) iterA, iterB, first, digitsB))))
     else Some (iterA, iterB, fisttStuffedAt, digitsFound - 1))"

text \<open>What the method returns behind the loop.\<close>

definition lengths_differ :: "cmp_state \<Rightarrow> int" where
  "lengths_differ = (\<lambda>(iterA, iterB, fisttStuffedAt, digitsFound).
     let lengthDifference = overallLength iterA - overallLength iterB in
     if lengthDifference = 0 then fisttStuffedAt else lengthDifference)"

text \<open>
  The loop condition and one round. \<open>Inl\<close> leaves the method, with None for an exception.
\<close>

definition cmp_round :: "cmp_state \<Rightarrow> unit \<Rightarrow> (int option + cmp_state) \<times> unit" where
  "cmp_round = (\<lambda>(iterA, iterB, fisttStuffedAt, digitsFound) u. (
     let (moreA, iterA) = next_char iterA in
     if \<not> moreA then Inl (Some (lengths_differ (iterA, iterB, fisttStuffedAt, digitsFound)))
     else
       (let (moreB, iterB) = next_char iterB in
        if \<not> moreB then Inl (Some (lengths_differ (iterA, iterB, fisttStuffedAt, digitsFound)))
        else (case stuff (iterA, iterB, fisttStuffedAt, digitsFound) of None \<Rightarrow> Inl None
          | Some (iterA, iterB, fisttStuffedAt, digitsFound) \<Rightarrow>
              (case getChar iterA of None \<Rightarrow> Inl None | Some a \<Rightarrow>
                (case getChar iterB of None \<Rightarrow> Inl None | Some b \<Rightarrow>
                  if a \<noteq> b then Inl (Some (of_char a - of_char b))
                  else Inr (iterA, iterB, fisttStuffedAt, digitsFound))))), u))"

text \<open>\<open>compare\<close>: None does not return, \<open>Some None\<close> throws.\<close>

definition compare_names :: "string \<Rightarrow> string \<Rightarrow> int option option" where
  "compare_names valueA valueB =
     map_option fst (do_while cmp_round (new_Iterator valueA, new_Iterator valueB, 0, 0) ())"

section \<open>The reference\<close>

text \<open>
  The value of the group of digits at the start of a text (0 when there is none), the next
  character, and so on; and the lengths of these groups. The first character of a name does
  not count, but that there is one does.
\<close>

definition digits_value :: "string \<Rightarrow> nat" where
  "digits_value s = foldl (\<lambda>v c. 10 * v + (of_char c - 48)) 0 s"

lemma dropWhile_shorter [termination_simp]: "dropWhile P s = c # cs \<Longrightarrow> length cs < length s"
  by (metis Suc_le_lessD length_Cons length_dropWhile_le)

fun text_key :: "string \<Rightarrow> nat list" where
  "text_key s = (if s = [] then [] else digits_value (takeWhile isDigit s) #
     (case dropWhile isDigit s of [] \<Rightarrow> [] | c # cs \<Rightarrow> of_char c # text_key cs))"

fun group_lengths :: "string \<Rightarrow> nat list" where
  "group_lengths s = (if s = [] then [] else length (takeWhile isDigit s) #
     (case dropWhile isDigit s of [] \<Rightarrow> [] | c # cs \<Rightarrow> group_lengths cs))"

declare text_key.simps [simp del] group_lengths.simps [simp del]

definition portname_key :: "string \<Rightarrow> nat list \<times> nat list" where
  "portname_key s = (if s = [] then ([], []) else (0 # text_key (tl s), group_lengths (tl s)))"


section \<open>What lies before an iterator\<close>

definition upcoming :: "iterator \<Rightarrow> string" where
  "upcoming it = (if it_zerosToFeed it = 0 then drop (it_pos it + 1) (it_value it)
     else replicate (it_zerosToFeed it - 1) CHR ''0'' @ drop (it_pos it) (it_value it))"

text \<open>Behind the start of a text that is not empty; how many characters were taken.\<close>

definition inside :: "iterator \<Rightarrow> bool" where
  "inside it \<longleftrightarrow> it_pos it < length (it_value it)"

definition place :: "iterator \<Rightarrow> int" where
  "place it = int (it_pos it) + int (it_stuffedZeros it) - int (it_zerosToFeed it)"

lemma next_empty:
  "inside it \<Longrightarrow> upcoming it = [] \<Longrightarrow> \<exists>it'. next_char it = (False, it') \<and> overallLength it' = overallLength it"
  by (auto simp: upcoming_def inside_def next_char_def overallLength_def split: if_splits)

lemma next_Cons:
  assumes "inside it" "upcoming it = c # cs"
  shows "\<exists>it'. next_char it = (True, it') \<and> inside it' \<and> upcoming it' = cs \<and> getChar it' = Some c \<and>
    place it' = place it + 1 \<and> overallLength it' = overallLength it \<and> it_zerosToFeed it' = it_zerosToFeed it - 1 \<and>
    (it_zerosToFeed it = 0 \<longrightarrow> drop (it_pos it') (it_value it') = c # cs)"
proof -
  consider "it_zerosToFeed it = 0" | "it_zerosToFeed it = 1" | k where "it_zerosToFeed it = Suc (Suc k)"
    by (metis One_nat_def not0_implies_Suc)
  then show ?thesis
  proof cases
    case 1
    then have drop: "drop (it_pos it + 1) (it_value it) = c # cs" using assms by (simp add: upcoming_def)
    then have "it_pos it + 1 < length (it_value it)" "it_value it ! (it_pos it + 1) = c" "drop (it_pos it + 2) (it_value it) = cs"
      by (metis drop_all linorder_not_less list.distinct(1), metis hd_drop_conv_nth linorder_not_less drop_all list.distinct(1) list.sel(1),
        metis add_2_eq_Suc' drop_Suc add.commute plus_1_eq_Suc list.sel(3) tl_drop drop_Suc_Cons)
    then show ?thesis
      using 1 drop by (simp add: next_char_def Let_def inside_def upcoming_def getChar_def charAt_def place_def overallLength_def)
  next
    case 2
    then have drop: "drop (it_pos it) (it_value it) = c # cs" using assms by (simp add: upcoming_def)
    then have "it_value it ! it_pos it = c" "drop (Suc (it_pos it)) (it_value it) = cs"
      using assms(1) by (metis hd_drop_conv_nth inside_def list.sel(1), metis list.sel(3) tl_drop drop_Suc)
    then show ?thesis
      using 2 assms(1) by (simp add: next_char_def Let_def inside_def upcoming_def getChar_def charAt_def place_def overallLength_def)
  next
    case 3
    then have "c = CHR ''0''" "cs = replicate k CHR ''0'' @ drop (it_pos it) (it_value it)"
      using assms(2) by (auto simp: upcoming_def)
    then show ?thesis
      using 3 assms(1) by (simp add: next_char_def Let_def inside_def upcoming_def getChar_def place_def overallLength_def)
  qed
qed

lemma overall_place: "inside it \<Longrightarrow> overallLength it = place it + 1 + int (length (upcoming it))"
  by (auto simp: overallLength_def place_def upcoming_def inside_def of_nat_diff)

lemma digits_from_eq:
  "pos + result < length value \<Longrightarrow>
    digits_from value pos result = Some (result + length (takeWhile isDigit (drop (pos + result) value)))"
proof (induction "value" pos result rule: digits_from.induct)
  case (1 "value" pos result)
  have "drop (pos + result) value = value ! (pos + result) # drop (pos + (result + 1)) value"
    using 1(2) by (simp add: Cons_nth_drop_Suc)
  then show ?case
    using 1 by (subst digits_from.simps) (auto simp: charAt_def)
qed

lemma getNumberOfDigits_eq:
  "inside it \<Longrightarrow> getNumberOfDigits it = Some (length (takeWhile isDigit (drop (it_pos it) (it_value it))))"
  using digits_from_eq [of "it_pos it" 0] by (simp add: getNumberOfDigits_def inside_def)

lemma addZeros_eq:
  assumes "inside it" "it_zerosToFeed it = 0" "0 < k"
  shows "inside (addZeros k it)" "getChar (addZeros k it) = Some CHR ''0''" "place (addZeros k it) = place it"
    "upcoming (addZeros k it) = replicate (k - 1) CHR ''0'' @ drop (it_pos it) (it_value it)"
    "it_zerosToFeed (addZeros k it) = k"
  using assms by (auto simp: addZeros_def inside_def getChar_def place_def upcoming_def)

section \<open>The rounds\<close>

text \<open>Both iterators are inside their names, at the same place, with \<open>ua\<close> and \<open>ub\<close> before them.\<close>

definition both_at :: "iterator \<Rightarrow> iterator \<Rightarrow> string \<Rightarrow> string \<Rightarrow> bool" where
  "both_at a b ua ub \<longleftrightarrow> inside a \<and> inside b \<and> upcoming a = ua \<and> upcoming b = ub \<and> place a = place b"

definition run_cmp :: "cmp_state \<Rightarrow> int option option" where
  "run_cmp x = map_option fst (do_while cmp_round x ())"

lemma run_cmp_done: "cmp_round x () = (Inl r, ()) \<Longrightarrow> run_cmp x = Some r"
  by (simp add: run_cmp_def do_while_done)

lemma run_cmp_more: "cmp_round x () = (Inr y, ()) \<Longrightarrow> run_cmp x = run_cmp y"
  by (simp add: run_cmp_def do_while_more)

lemma round_end:
  assumes at: "both_at a b ua ub" and no_more: "ua = [] \<or> ub = []"
  shows "run_cmp (a, b, f, m) = Some (Some (if length ua = length ub then f else int (length ua) - int (length ub)))"
proof -
  have len: "overallLength a - overallLength b = int (length ua) - int (length ub)"
    using at by (simp add: both_at_def overall_place)
  show ?thesis
  proof (cases ua)
    case Nil
    then obtain a' where "next_char a = (False, a')" "overallLength a' = overallLength a"
      using next_empty at by (metis both_at_def)
    then show ?thesis
      using len by (intro run_cmp_done) (simp add: cmp_round_def lengths_differ_def Let_def)
  next
    case (Cons c cs)
    then obtain a' where a': "next_char a = (True, a')" "overallLength a' = overallLength a"
      using next_Cons at by (metis both_at_def)
    obtain b' where "next_char b = (False, b')" "overallLength b' = overallLength b"
      using next_empty at no_more Cons by (metis both_at_def list.distinct(1))
    then show ?thesis
      using len a' by (intro run_cmp_done) (simp add: cmp_round_def lengths_differ_def Let_def)
  qed
qed

text \<open>A round behind which the walk goes on at \<open>ua\<close> and \<open>ub\<close>, unless the characters differ.\<close>

definition goes_on :: "cmp_state \<Rightarrow> char \<Rightarrow> string \<Rightarrow> char \<Rightarrow> string \<Rightarrow> int \<Rightarrow> nat \<Rightarrow> nat \<Rightarrow> nat \<Rightarrow> bool" where
  "goes_on x c ua d ub f m za zb \<longleftrightarrow>
     (if c \<noteq> d then run_cmp x = Some (Some (of_char c - of_char d))
      else \<exists>a b. run_cmp x = run_cmp (a, b, f, m) \<and> both_at a b ua ub \<and> it_zerosToFeed a = za \<and> it_zerosToFeed b = zb)"

lemma goes_onI:
  assumes "next_char a = (True, a1)" "next_char b = (True, b1)" "stuff (a1, b1, f, m) = Some (a2, b2, f', m')"
    and "getChar a2 = Some c" "getChar b2 = Some d" and "both_at a2 b2 ua ub" "it_zerosToFeed a2 = za" "it_zerosToFeed b2 = zb"
  shows "goes_on (a, b, f, m) c ua d ub f' m' za zb"
proof (cases "c = d")
  case True
  have "cmp_round (a, b, f, m) () = (Inr (a2, b2, f', m'), ())"
    using assms True by (simp add: cmp_round_def)
  from run_cmp_more [OF this] show ?thesis
    using assms(6-8) True by (auto simp: goes_on_def)
next
  case False
  have "cmp_round (a, b, f, m) () = (Inl (Some (of_char c - of_char d)), ())"
    using assms False by (simp add: cmp_round_def)
  from run_cmp_done [OF this] show ?thesis
    using False by (simp add: goes_on_def)
qed

lemma round_inside:
  assumes at: "both_at a b (c # ua) (d # ub)" and m: "0 < m"
  shows "goes_on (a, b, f, m) c ua d ub f (m - 1) (it_zerosToFeed a - 1) (it_zerosToFeed b - 1)"
proof -
  obtain a' where "next_char a = (True, a')" "inside a'" "upcoming a' = ua" "getChar a' = Some c"
    "place a' = place a + 1" "it_zerosToFeed a' = it_zerosToFeed a - 1"
    using next_Cons at by (metis both_at_def)
  moreover obtain b' where "next_char b = (True, b')" "inside b'" "upcoming b' = ub" "getChar b' = Some d"
    "place b' = place b + 1" "it_zerosToFeed b' = it_zerosToFeed b - 1"
    using next_Cons at by (metis both_at_def)
  ultimately show ?thesis
    using at m by (intro goes_onI [where ?a1.0 = a' and ?b1.0 = b' and ?a2.0 = a' and ?b2.0 = b'])
      (auto simp: stuff_def both_at_def)
qed

abbreviation digits :: "string \<Rightarrow> nat" where
  "digits s \<equiv> length (takeWhile isDigit s)"

text \<open>A round at the start of two groups of digits: the shorter one is filled up with zeros.\<close>

lemma round_groups:
  fixes ua ub :: string
  defines "D \<equiv> max (digits ua) (digits ub)"
  defines "sa \<equiv> replicate (D - digits ua) CHR ''0'' @ ua" and "sb \<equiv> replicate (D - digits ub) CHR ''0'' @ ub"
  assumes at: "both_at a b ua ub" and z: "it_zerosToFeed a = 0" "it_zerosToFeed b = 0" and ne: "ua \<noteq> []" "ub \<noteq> []"
  shows "goes_on (a, b, f, 0) (hd sa) (tl sa) (hd sb) (tl sb)
    (if f = 0 then int (digits ua) - int (digits ub) else f)
    (if digits ua = digits ub then 0 else D) (D - digits ua) (D - digits ub)"
proof -
  obtain c ua' d ub' where u: "ua = c # ua'" "ub = d # ub'" using ne by (metis neq_Nil_conv)
  obtain a' where a': "next_char a = (True, a')" "inside a'" "upcoming a' = ua'" "getChar a' = Some c"
    "place a' = place a + 1" "it_zerosToFeed a' = 0" "drop (it_pos a') (it_value a') = ua"
    using next_Cons at u z by (metis both_at_def diff_0_eq_0)
  obtain b' where b': "next_char b = (True, b')" "inside b'" "upcoming b' = ub'" "getChar b' = Some d"
    "place b' = place b + 1" "it_zerosToFeed b' = 0" "drop (it_pos b') (it_value b') = ub"
    using next_Cons at u z by (metis both_at_def diff_0_eq_0)
  have num: "getNumberOfDigits a' = Some (digits ua)" "getNumberOfDigits b' = Some (digits ub)"
    using getNumberOfDigits_eq a' b' by simp_all
  have place: "place a' = place b'" using at a' b' by (simp add: both_at_def)
  have hdtl: "hd ua = c" "tl ua = ua'" "hd ub = d" "tl ub = ub'" using u by simp_all
  let ?f = "if f = 0 then int (digits ua) - int (digits ub) else f"
  consider "digits ua = digits ub" | "digits ua > digits ub" | "digits ua < digits ub" by linarith
  then show ?thesis
  proof cases
    case 1
    then have "stuff (a', b', f, 0) = Some (a', b', ?f, if digits ua = digits ub then 0 else D)"
      by (simp add: stuff_def num)
    then show ?thesis
      by (rule goes_onI [OF a'(1) b'(1)]) (simp_all add: a'(2,3,4,6) b'(2,3,4,6) place both_at_def sa_def sb_def D_def hdtl 1)
  next
    case 2
    then have k: "0 < digits ua - digits ub" and D: "D = digits ua" and sa: "sa = ua" by (simp_all add: D_def sa_def)
    have sb: "sb = CHR ''0'' # replicate (digits ua - digits ub - 1) CHR ''0'' @ ub"
      using k by (cases "digits ua - digits ub") (simp_all add: sb_def D)
    note add = addZeros_eq [OF b'(2,6) k]
    have "stuff (a', b', f, 0) = Some (a', addZeros (digits ua - digits ub) b', ?f, if digits ua = digits ub then 0 else D)"
      using 2 by (simp add: stuff_def num D Let_def)
    then show ?thesis
      by (rule goes_onI [OF a'(1) b'(1)]) (simp_all add: a'(2,3,4,6) b'(7) place add both_at_def sa sb hdtl D)
  next
    case 3
    then have k: "0 < digits ub - digits ua" and D: "D = digits ub" and sb: "sb = ub" by (simp_all add: D_def sb_def)
    have sa: "sa = CHR ''0'' # replicate (digits ub - digits ua - 1) CHR ''0'' @ ua"
      using k by (cases "digits ub - digits ua") (simp_all add: sa_def D)
    note add = addZeros_eq [OF a'(2,6) k]
    have "stuff (a', b', f, 0) = Some (addZeros (digits ub - digits ua) a', b', ?f, if digits ua = digits ub then 0 else D)"
      using 3 by (simp add: stuff_def num D Let_def)
    then show ?thesis
      by (rule goes_onI [OF a'(1) b'(1)]) (simp_all add: b'(2,3,4,6) a'(7) place add both_at_def sa sb hdtl D)
  qed
qed

section \<open>Keys\<close>

text \<open>The sign of a comparison in a linear order.\<close>

definition order_sign :: "'a::linorder \<Rightarrow> 'a \<Rightarrow> int" where
  "order_sign x y = (if x < y then - 1 else if x = y then 0 else 1)"

lemma order_sign_Cons [simp]:
  "order_sign (x # xs) (y # ys) = (if x = y then order_sign xs ys else order_sign x y)"
  by (auto simp: order_sign_def)

lemma order_sign_Nil [simp]:
  "order_sign [] [] = 0" "order_sign [] (y # ys) = - 1" "order_sign (x # xs) [] = 1"
  for x y :: "'a::linorder"
  by (auto simp: order_sign_def)

lemma order_sign_nat: "order_sign m n = sgn (int m - int n)"
  by (auto simp: order_sign_def sgn_if)

text \<open>The code of a character, read as \<open>int\<close>.\<close>

lemma of_char_int [simp]: "(of_char c :: int) = int (of_char c)"
  by (simp add: of_nat_of_char)

lemma digits_value_Cons:
  "digits_value (c # s) = (of_char c - 48) * 10 ^ length s + digits_value s"
proof -
  have "foldl (\<lambda>v c. 10 * v + (of_char c - 48)) a s = a * 10 ^ length s + foldl (\<lambda>v c. 10 * v + (of_char c - 48)) 0 s" for a :: nat
  proof (induction s arbitrary: a)
    case (Cons c s)
    show ?case
      by simp (subst Cons.IH, subst (2) Cons.IH, simp add: algebra_simps)
  qed simp
  from this [of "of_char c - 48"] show ?thesis by (simp add: digits_value_def)
qed

lemma digits_value_less: "list_all isDigit s \<Longrightarrow> digits_value s < 10 ^ length s"
proof (induction s)
  case (Cons c s)
  then have "(of_char c - 48 :: nat) \<le> 9" by (auto simp: isDigit_def)
  then have "(of_char c - 48) * 10 ^ length s \<le> (9 :: nat) * 10 ^ length s" by (rule mult_le_mono1)
  moreover have "digits_value s < 10 ^ length s" using Cons by simp
  ultimately show ?case unfolding digits_value_Cons length_Cons power_Suc by linarith
qed (simp add: digits_value_def)

lemma digits_value_zeros [simp]: "digits_value (replicate k CHR ''0'' @ s) = digits_value s"
  by (induction k) (simp_all add: digits_value_Cons)

text \<open>Of two groups with the same number of digits, the first difference decides.\<close>

lemma digits_value_differ:
  assumes "list_all isDigit (c # s)" "list_all isDigit (d # t)" "length s = length t" "c \<noteq> d"
  shows "order_sign (digits_value (c # s)) (digits_value (d # t)) = sgn (of_char c - of_char d :: int)"
proof -
  have less: "digits_value (c # s) < digits_value (d # t)"
    if "list_all isDigit (c # s)" "list_all isDigit (d # t)" "length s = length t" "(of_char c :: nat) < of_char d" for c d s t
  proof -
    have "(of_char c - 48 :: nat) + 1 \<le> of_char d - 48" using that by (auto simp: isDigit_def)
    then have "((of_char c - 48) + 1) * 10 ^ length s \<le> (of_char d - 48 :: nat) * 10 ^ length s" by (rule mult_le_mono1)
    then show ?thesis
      using digits_value_less [of s] that by (simp add: digits_value_Cons algebra_simps)
  qed
  have "(of_char c :: nat) \<noteq> of_char d" using assms(4) by simp
  then consider "(of_char c :: nat) < of_char d" | "(of_char d :: nat) < of_char c" by linarith
  then show ?thesis
  proof cases
    case 1
    then show ?thesis using less [OF assms(1-3) 1] by (simp add: order_sign_def)
  next
    case 2
    then show ?thesis using less [OF assms(2,1) assms(3) [symmetric] 2] by (simp add: order_sign_def)
  qed
qed

lemma digits_value_inject:
  "length s = length t \<Longrightarrow> list_all isDigit s \<Longrightarrow> list_all isDigit t \<Longrightarrow> digits_value s = digits_value t \<Longrightarrow> s = t"
proof (induction s t rule: list_induct2)
  case (Cons c s d t)
  have "c = d"
    using digits_value_differ [OF Cons.prems(1,2) Cons.hyps] Cons.prems(3)
    by (rule_tac ccontr) (auto simp: order_sign_def sgn_if split: if_splits)
  then show ?case using Cons by (simp add: digits_value_Cons)
qed simp

lemma text_key_Nil [simp]: "text_key [] = []" and group_lengths_Nil [simp]: "group_lengths [] = []"
  by (simp_all add: text_key.simps group_lengths.simps)

text \<open>What follows the first group.\<close>

definition rest_key :: "string \<Rightarrow> nat list" where
  "rest_key s = (case s of [] \<Rightarrow> [] | c # cs \<Rightarrow> of_char c # text_key cs)"

definition rest_lengths :: "string \<Rightarrow> nat list" where
  "rest_lengths s = (case s of [] \<Rightarrow> [] | c # cs \<Rightarrow> group_lengths cs)"

lemma text_key_groups:
  assumes "list_all isDigit ds" and "r = [] \<or> \<not> isDigit (hd r)" and "ds @ r \<noteq> []"
  shows "text_key (ds @ r) = digits_value ds # rest_key r" "group_lengths (ds @ r) = length ds # rest_lengths r"
proof -
  have "takeWhile isDigit (ds @ r) = ds" "dropWhile isDigit (ds @ r) = r"
    using assms(1,2) by (cases r; auto simp: list_all_iff takeWhile_append dropWhile_append)+
  then show "text_key (ds @ r) = digits_value ds # rest_key r" "group_lengths (ds @ r) = length ds # rest_lengths r"
    using assms(3) by (simp_all add: text_key.simps [of "ds @ r"] group_lengths.simps [of "ds @ r"] rest_key_def rest_lengths_def)
qed

text \<open>The reference for a walk that has \<open>ua\<close> and \<open>ub\<close> before it.\<close>

definition outcome :: "int \<Rightarrow> string \<Rightarrow> string \<Rightarrow> int" where
  "outcome f ua ub =
     (if text_key ua \<noteq> text_key ub then order_sign (text_key ua) (text_key ub)
      else if f \<noteq> 0 then sgn f else order_sign (group_lengths ua) (group_lengths ub))"

lemma outcome_groups:
  assumes "list_all isDigit da" "ra = [] \<or> \<not> isDigit (hd ra)" "da @ ra \<noteq> []"
    and "list_all isDigit db" "rb = [] \<or> \<not> isDigit (hd rb)" "db @ rb \<noteq> []"
  shows "outcome f (da @ ra) (db @ rb) =
    (if digits_value da \<noteq> digits_value db then order_sign (digits_value da) (digits_value db)
     else if rest_key ra \<noteq> rest_key rb then order_sign (rest_key ra) (rest_key rb)
     else if f \<noteq> 0 then sgn f
     else if length da \<noteq> length db then sgn (int (length da) - int (length db))
     else order_sign (rest_lengths ra) (rest_lengths rb))"
  by (auto simp: outcome_def text_key_groups [OF assms(1-3)] text_key_groups [OF assms(4-6)] order_sign_nat)

lemma outcome_rest:
  assumes "ra = [] \<or> \<not> isDigit (hd ra)" "rb = [] \<or> \<not> isDigit (hd rb)"
  shows "outcome f ra rb =
    (if rest_key ra \<noteq> rest_key rb then order_sign (rest_key ra) (rest_key rb)
     else if f \<noteq> 0 then sgn f else order_sign (rest_lengths ra) (rest_lengths rb))"
proof -
  have key: "text_key r = (if r = [] then [] else 0 # rest_key r)" "group_lengths r = (if r = [] then [] else 0 # rest_lengths r)"
    if "r = [] \<or> \<not> isDigit (hd r)" for r
    using text_key_groups [of "[]" r] that by (auto simp: digits_value_def)
  have "rest_key r = [] \<longleftrightarrow> r = []" for r by (cases r) (simp_all add: rest_key_def)
  then show ?thesis
    using assms by (auto simp: outcome_def key rest_key_def rest_lengths_def split: list.splits)
qed

section \<open>The walk gives the order of the keys\<close>

text \<open>Inside two groups of the same length the walk goes on, or the first difference decides.\<close>

lemma walk_groups:
  assumes "both_at a b (sa @ ra) (sb @ rb)" "length sa = length sb" "length sa \<le> m"
    and "list_all isDigit sa" "list_all isDigit sb"
  shows "(sa \<noteq> sb \<and> (\<exists>r. run_cmp (a, b, f, m) = Some (Some r) \<and> sgn r = order_sign (digits_value sa) (digits_value sb))) \<or>
    (sa = sb \<and> (\<exists>a' b'. run_cmp (a, b, f, m) = run_cmp (a', b', f, m - length sa) \<and> both_at a' b' ra rb \<and>
      it_zerosToFeed a' = it_zerosToFeed a - length sa \<and> it_zerosToFeed b' = it_zerosToFeed b - length sa))"
  using assms
proof (induction sa arbitrary: sb a b m)
  case Nil
  then show ?case by auto
next
  case (Cons c sa)
  then obtain d sb' where sb: "sb = d # sb'" by (cases sb) auto
  have go: "goes_on (a, b, f, m) c (sa @ ra) d (sb' @ rb) f (m - 1) (it_zerosToFeed a - 1) (it_zerosToFeed b - 1)"
    using Cons.prems by (intro round_inside) (auto simp: sb)
  show ?case
  proof (cases "c = d")
    case False
    then have "run_cmp (a, b, f, m) = Some (Some (of_char c - of_char d))"
      using go by (simp add: goes_on_def)
    then show ?thesis
      using Cons.prems digits_value_differ [of c sa d sb'] False by (simp add: sb)
  next
    case True
    then obtain a1 b1 where r: "run_cmp (a, b, f, m) = run_cmp (a1, b1, f, m - 1)"
      and at: "both_at a1 b1 (sa @ ra) (sb' @ rb)" "it_zerosToFeed a1 = it_zerosToFeed a - 1" "it_zerosToFeed b1 = it_zerosToFeed b - 1"
      using go by (auto simp: goes_on_def)
    have "length sa = length sb'" "length sa \<le> m - 1" "list_all isDigit sa" "list_all isDigit sb'"
      using Cons.prems by (auto simp: sb)
    from Cons.IH [OF at(1) this] show ?thesis
      using True by (auto simp: sb r at digits_value_Cons order_sign_nat \<open>length sa = length sb'\<close>)
  qed
qed

text \<open>
  Where the walk looks for groups of digits: between two characters, or in front of
  something that is no digit with one round of the last group left to count.
\<close>

definition at_head :: "iterator \<Rightarrow> iterator \<Rightarrow> nat \<Rightarrow> string \<Rightarrow> string \<Rightarrow> bool" where
  "at_head a b m ua ub \<longleftrightarrow> both_at a b ua ub \<and>
     (m = 0 \<and> it_zerosToFeed a = 0 \<and> it_zerosToFeed b = 0 \<or>
      m = 1 \<and> it_zerosToFeed a \<le> 1 \<and> it_zerosToFeed b \<le> 1 \<and>
        (ua = [] \<or> \<not> isDigit (hd ua)) \<and> (ub = [] \<or> \<not> isDigit (hd ub)))"

lemma rest_key_Cons [simp]: "rest_key (c # s) = of_char c # text_key s" "rest_key [] = []"
  and rest_lengths_Cons [simp]: "rest_lengths (c # s) = group_lengths s" "rest_lengths [] = []"
  by (simp_all add: rest_key_def rest_lengths_def)

lemma char_sign: "c \<noteq> d \<Longrightarrow> order_sign (of_char c :: nat) (of_char d) = sgn (of_char c - of_char d :: int)"
  by (simp add: order_sign_nat)

lemma outcome_other:
  assumes "\<not> isDigit c" "\<not> isDigit d"
  shows "outcome f (c # ua) (d # ub) = (if c = d then outcome f ua ub else sgn (of_char c - of_char d))"
  using assms by (simp add: outcome_rest char_sign) (simp add: outcome_def)

lemma split_digits:
  obtains ds r where "u = ds @ r" "list_all isDigit ds" "r = [] \<or> \<not> isDigit (hd r)" "digits u = length ds"
proof
  show "u = takeWhile isDigit u @ dropWhile isDigit u" by simp
  show "list_all isDigit (takeWhile isDigit u)" by (auto simp: list_all_iff dest: set_takeWhileD)
  show "dropWhile isDigit u = [] \<or> \<not> isDigit (hd (dropWhile isDigit u))" using hd_dropWhile by blast
qed simp

lemma outcome_same:
  assumes "digits (c # ua) = digits (d # ub)"
  shows "outcome f (c # ua) (d # ub) = (if c = d then outcome f ua ub else sgn (of_char c - of_char d))"
proof (cases "isDigit c")
  case False
  then have "\<not> isDigit d" using assms by (auto split: if_splits)
  then show ?thesis using False by (rule outcome_other [rotated])
next
  case True
  then have d: "isDigit d" using assms by (auto split: if_splits)
  obtain da ra where ua: "ua = da @ ra" "list_all isDigit da" "ra = [] \<or> \<not> isDigit (hd ra)" "digits ua = length da"
    by (rule split_digits)
  obtain db rb where ub: "ub = db @ rb" "list_all isDigit db" "rb = [] \<or> \<not> isDigit (hd rb)" "digits ub = length db"
    by (rule split_digits)
  have len: "length da = length db" using assms True d ua ub by simp
  have whole: "outcome f ((c # da) @ ra) ((d # db) @ rb) =
    (if digits_value (c # da) \<noteq> digits_value (d # db) then order_sign (digits_value (c # da)) (digits_value (d # db))
     else outcome f ra rb)"
    using True d ua ub len by (subst outcome_groups) (auto simp: outcome_rest)
  show ?thesis
  proof (cases "c = d")
    case False
    then have "order_sign (digits_value (c # da)) (digits_value (d # db)) = sgn (of_char c - of_char d)"
      using True d ua ub len by (intro digits_value_differ) auto
    moreover from this have "digits_value (c # da) \<noteq> digits_value (d # db)"
      using False by (auto simp: order_sign_def sgn_if split: if_splits)
    ultimately show ?thesis using whole False ua ub by simp
  next
    case same: True
    have "outcome f (da @ ra) (db @ rb) =
      (if digits_value da \<noteq> digits_value db then order_sign (digits_value da) (digits_value db) else outcome f ra rb)"
    proof (cases "da @ ra = [] \<or> db @ rb = []")
      case True
      then show ?thesis using len by (auto simp: digits_value_def)
    next
      case False
      then show ?thesis using ua ub len by (subst outcome_groups) (auto simp: outcome_rest)
    qed
    then show ?thesis using whole same ua ub len by (auto simp: digits_value_Cons order_sign_nat)
  qed
qed

lemma walk:
  assumes "at_head a b m ua ub"
  shows "\<exists>r. run_cmp (a, b, f, m) = Some (Some r) \<and> sgn r = outcome f ua ub"
  using assms
proof (induction "length ua + length ub" arbitrary: a b m ua ub f rule: less_induct)
  case less
  note IH = less.hyps
  have at: "both_at a b ua ub" using less.prems by (simp add: at_head_def)
  have go: "\<exists>r. run_cmp x = Some (Some r) \<and> sgn r = out"
    if "goes_on x c ua' d ub' f' m' za zb" "c \<noteq> d \<Longrightarrow> out = sgn (of_char c - of_char d)"
      "\<And>a b. c = d \<Longrightarrow> both_at a b ua' ub' \<Longrightarrow> it_zerosToFeed a = za \<Longrightarrow> it_zerosToFeed b = zb \<Longrightarrow>
        \<exists>r. run_cmp (a, b, f', m') = Some (Some r) \<and> sgn r = out" for x c ua' d ub' f' m' za zb out
    using that by (cases "c = d") (auto simp: goes_on_def)
  show ?case
  proof (cases "ua = [] \<or> ub = []")
    case True
    then show ?thesis
      using round_end [OF at True, of f m] by (cases ua; cases ub) (auto simp: outcome_def text_key.simps [of "_ # _"])
  next
    case False
    then obtain c ua' d ub' where u: "ua = c # ua'" "ub = d # ub'" by (metis neq_Nil_conv)
    consider (groups) "m = 0" "it_zerosToFeed a = 0" "it_zerosToFeed b = 0"
      | (count) "m = 1" "it_zerosToFeed a \<le> 1" "it_zerosToFeed b \<le> 1" "\<not> isDigit c" "\<not> isDigit d"
      using less.prems False by (auto simp: at_head_def u)
    then show ?thesis
    proof cases
      case count
      show ?thesis
        by (rule go [OF round_inside [of a b c ua' d ub' m f]])
          (use at count u in \<open>auto simp: outcome_other at_head_def intro!: IH\<close>)
    next
      case groups
      have ne: "ua \<noteq> []" "ub \<noteq> []" using u by simp_all
      note rd = round_groups [OF at groups(2,3) ne, of f]
      show ?thesis
      proof (cases "digits ua = digits ub")
        case True
        then show ?thesis
          using rd u by (intro go [where x = "(a, b, f, m)"]) (auto simp: outcome_same at_head_def groups intro!: IH)
      next
        case False
        obtain da ra where ua: "ua = da @ ra" "list_all isDigit da" "ra = [] \<or> \<not> isDigit (hd ra)" "digits ua = length da"
          by (rule split_digits)
        obtain db rb where ub: "ub = db @ rb" "list_all isDigit db" "rb = [] \<or> \<not> isDigit (hd rb)" "digits ub = length db"
          by (rule split_digits)
        define D where "D = max (length da) (length db)"
        define za where "za = replicate (D - length da) CHR ''0'' @ da"
        define zb where "zb = replicate (D - length db) CHR ''0'' @ db"
        let ?f = "if f = 0 then int (length da) - int (length db) else f"
        have D: "0 < D" "length za = D" "length zb = D" "D - length da - (D - 1) \<le> 1" "D - length db - (D - 1) \<le> 1"
          using False ua ub by (auto simp: D_def za_def zb_def max_def)
        have dig: "list_all isDigit za" "list_all isDigit zb"
          using ua ub by (auto simp: za_def zb_def list_all_iff isDigit_def)
        have val: "digits_value za = digits_value da" "digits_value zb = digits_value db"
          by (simp_all add: za_def zb_def)
        obtain c1 ta d1 tb where z: "za = c1 # ta" "zb = d1 # tb" using D by (metis length_greater_0_conv neq_Nil_conv)
        have f: "?f \<noteq> 0" "sgn ?f = (if f \<noteq> 0 then sgn f else sgn (int (length da) - int (length db)))"
          using False ua ub by auto
        have out: "outcome f ua ub = (if digits_value za \<noteq> digits_value zb then order_sign (digits_value za) (digits_value zb)
            else outcome ?f ra rb)"
          unfolding val ua(1) ub(1)
          by (subst outcome_groups) (use ua ub u False f in \<open>auto simp: outcome_rest\<close>)
        have first: "goes_on (a, b, f, 0) c1 (ta @ ra) d1 (tb @ rb) ?f D (D - length da) (D - length db)"
        proof -
          have "goes_on (a, b, f, 0) (hd (za @ ra)) (tl (za @ ra)) (hd (zb @ rb)) (tl (zb @ rb)) ?f
              (if length da = length db then 0 else D) (D - length da) (D - length db)"
            using rd by (simp only: za_def zb_def D_def append_assoc ua(1) [symmetric] ub(1) [symmetric]
                ua(4) [symmetric] ub(4) [symmetric])
          then show ?thesis using False ua(4) ub(4) by (simp add: z)
        qed
        show ?thesis
          unfolding groups(1)
        proof (rule go [OF first])
          show "outcome f ua ub = sgn (of_char c1 - of_char d1)" if "c1 \<noteq> d1"
            using digits_value_differ [of c1 ta d1 tb] digits_value_inject [of za zb] dig D that out by (auto simp: z)
          fix a' b' assume same: "c1 = d1" and at': "both_at a' b' (ta @ ra) (tb @ rb)"
            "it_zerosToFeed a' = D - length da" "it_zerosToFeed b' = D - length db"
          have len: "length ta = D - 1" "length tb = D - 1" using D z by auto
          have "length ta = length tb" "length ta \<le> D" "list_all isDigit ta" "list_all isDigit tb"
            using len dig z by auto
          from walk_groups [OF at'(1) this, of ?f]
          consider (differ) r where "ta \<noteq> tb" "run_cmp (a', b', ?f, D) = Some (Some r)" "sgn r = order_sign (digits_value ta) (digits_value tb)"
            | (equal) a2 b2 where "ta = tb" "run_cmp (a', b', ?f, D) = run_cmp (a2, b2, ?f, D - length ta)" "both_at a2 b2 ra rb"
              "it_zerosToFeed a2 = it_zerosToFeed a' - length ta" "it_zerosToFeed b2 = it_zerosToFeed b' - length ta"
            by blast
          then show "\<exists>r. run_cmp (a', b', ?f, D) = Some (Some r) \<and> sgn r = outcome f ua ub"
          proof cases
            case differ
            then have "digits_value ta \<noteq> digits_value tb"
              using digits_value_inject [of ta tb] dig len z by auto
            then have "outcome f ua ub = order_sign (digits_value ta) (digits_value tb)"
              using out same len by (auto simp: z digits_value_Cons order_sign_nat)
            then show ?thesis using differ by simp
          next
            case equal
            have "at_head a2 b2 1 ra rb" 
              using equal at' D ua ub len by (auto simp: at_head_def)
            moreover have "length ra + length rb < length ua + length ub"
              using False ua ub by auto
            moreover have "D - length ta = 1" using D len by simp
            moreover have "outcome f ua ub = outcome ?f ra rb"
              using out equal(1) same z by simp
            ultimately show ?thesis
              using IH [of ra rb a2 b2 1 ?f] equal(2) by simp
          qed
        qed
      qed
    qed
  qed
qed

section \<open>The order of port names\<close>

lemma order_sign_Pair:
  "order_sign (x, y) (x', y') = (if x \<noteq> x' then order_sign x x' else order_sign y y')"
  for x x' :: "'a::linorder" and y y' :: "'b::linorder"
  by (auto simp: order_sign_def)

lemma compare_names_eq:
  "\<exists>r. compare_names a b = Some (Some r) \<and> sgn r = order_sign (portname_key a) (portname_key b)"
proof -
  have run: "compare_names a b = run_cmp (new_Iterator a, new_Iterator b, 0, 0)"
    by (simp add: compare_names_def run_cmp_def)
  show ?thesis
  proof (cases "a = [] \<or> b = []")
    case True
    then have "cmp_round (new_Iterator a, new_Iterator b, 0, 0) () = (Inl (Some (int (length a) - int (length b))), ())"
      by (auto simp: cmp_round_def next_char_def new_Iterator_def lengths_differ_def overallLength_def Let_def)
    from run_cmp_done [OF this] show ?thesis
      using True unfolding run by (cases a; cases b) (auto simp: portname_key_def order_sign_Pair)
  next
    case False
    then have "at_head (new_Iterator a) (new_Iterator b) 0 (tl a) (tl b)"
      by (simp add: at_head_def both_at_def inside_def upcoming_def place_def new_Iterator_def drop_Suc)
    from walk [OF this, of 0] show ?thesis
      using False unfolding run by (auto simp: outcome_def portname_key_def order_sign_Pair)
  qed
qed

text \<open>What the library sort sees of the comparison.\<close>

definition portname_order :: "string \<Rightarrow> string \<Rightarrow> comp" where
  "portname_order a b = (case compare_names a b of
       Some (Some r) \<Rightarrow> if r < 0 then Less else if r = 0 then Equiv else Greater
     | _ \<Rightarrow> Equiv)"

lemma portname_order_key:
  "portname_order a b = (if portname_key a < portname_key b then Less
     else if portname_key a = portname_key b then Equiv else Greater)"
proof -
  obtain r where r: "compare_names a b = Some (Some r)" "sgn r = order_sign (portname_key a) (portname_key b)"
    using compare_names_eq by blast
  then have "r < 0 \<longleftrightarrow> portname_key a < portname_key b" "r = 0 \<longleftrightarrow> portname_key a = portname_key b"
    by (auto simp: order_sign_def sgn_if split: if_splits)
  then show ?thesis using r(1) by (simp add: portname_order_def)
qed

lemma portname_order_simps:
  "portname_order a b = Less \<longleftrightarrow> portname_key a < portname_key b"
  "portname_order a b = Equiv \<longleftrightarrow> portname_key a = portname_key b"
  "portname_order a b = Greater \<longleftrightarrow> portname_key b < portname_key a"
  by (auto simp: portname_order_key)

text \<open>The contract of \<open>java.util.Comparator\<close>: the library's locale of comparisons.\<close>

interpretation portnames: comparator portname_order
  by unfold_locales (auto simp: portname_order_key split: if_splits)

lift_definition portname_comparator :: "string comparator" is portname_order
  by (rule portnames.comparator_axioms)

text \<open>\<open>List.sort\<close> with the comparator: the stable sort of the library.\<close>

definition sort_names :: "string list \<Rightarrow> string list" where
  "sort_names names = Sorting_Algorithms.sort portname_comparator names"

lemma compare_portname [simp]: "Comparator.compare portname_comparator = portname_order"
  by (rule portname_comparator.rep_eq)

lemma mset_sort_names [simp]: "mset (sort_names names) = mset names"
  by (simp add: sort_names_def)

lemma set_sort_names [simp]: "set (sort_names names) = set names"
  by (metis mset_sort_names set_mset_mset)

lemma sorted_sort_names: "sorted_wrt (\<lambda>a b. portname_key a \<le> portname_key b) (sort_names names)"
proof -
  have "Sorting_Algorithms.sorted portname_comparator xs \<Longrightarrow> sorted_wrt (\<lambda>a b. portname_key a \<le> portname_key b) xs" for xs
    by (induction xs rule: sorted_induct) (auto simp: portname_order_simps not_less)
  then show ?thesis by (simp add: sort_names_def)
qed

lemma stable_sort_names:
  "filter (\<lambda>b. portname_key b = k) (sort_names names) = filter (\<lambda>b. portname_key b = k) names"
proof (cases "\<exists>a. portname_key a = k")
  case True
  then obtain a where k: "k = portname_key a" by blast
  have "filter (\<lambda>b. Comparator.compare portname_comparator a b = Equiv) (Sorting_Algorithms.sort portname_comparator names)
      = filter (\<lambda>b. Comparator.compare portname_comparator a b = Equiv) names"
    by (rule stable_sort)
  then show ?thesis
    by (simp add: sort_names_def k portname_order_simps eq_commute [of "portname_key a"])
next
  case False
  then show ?thesis by (auto simp: filter_False)
qed

section \<open>Numbers in names\<close>

lemma show_nat_digits: "show_nat n \<noteq> [] \<and> list_all isDigit (show_nat n) \<and> digits_value (show_nat n) = n"
proof (induction n rule: less_induct)
  case (less n)
  have value_snoc: "digits_value (s @ [c]) = 10 * digits_value s + (of_char c - 48)" for s c
    by (simp add: digits_value_def)
  show ?case
  proof (cases "n < 10")
    case True
    then show ?thesis
      by (simp add: show_nat.simps [of n] digits_value_def isDigit_def of_char_of take_bit_nat_eq_self)
  next
    case False
    then show ?thesis
      using less.IH [of "n div 10"]
      by (simp add: show_nat.simps [of n] value_snoc isDigit_def of_char_of take_bit_nat_eq_self)
  qed
qed

lemma text_key_prefix:
  "q = [] \<or> \<not> isDigit (last q) \<Longrightarrow> x \<noteq> [] \<Longrightarrow> y \<noteq> [] \<Longrightarrow>
    order_sign (text_key (q @ x)) (text_key (q @ y)) = order_sign (text_key x) (text_key y)"
proof (induction q rule: length_induct)
  case (1 q)
  show ?case
  proof (cases "q = []")
    case False
    obtain ds r where q: "q = ds @ r" "list_all isDigit ds" "r = [] \<or> \<not> isDigit (hd r)" "digits q = length ds"
      by (rule split_digits)
    have "r \<noteq> []" using False 1 q by (auto simp: list_all_iff)
    then obtain c cs where r: "r = c # cs" by (cases r) auto
    have key: "text_key (q @ z) = digits_value ds # of_char c # text_key (cs @ z)" for z
      using text_key_groups(1) [of ds "c # cs @ z"] q r by simp
    have "order_sign (text_key (cs @ x)) (text_key (cs @ y)) = order_sign (text_key x) (text_key y)"
      using 1 q r by (auto simp: last_append split: if_splits)
    then show ?thesis by (simp add: key)
  qed simp
qed

section \<open>Properties\<close>

text \<open>
  C11: the comparison always returns, never reads behind the end of a name, and its sign is
  the order of the keys of the two names: first the numbers and the characters between them,
  then the lengths of the groups of digits.
\<close>

theorem compare_names_key:
  "\<exists>r. compare_names a b = Some (Some r) \<and>
    sgn r = (if portname_key a < portname_key b then - 1 else if portname_key a = portname_key b then 0 else 1)"
  using compare_names_eq [of a b] by (simp add: order_sign_def)

text \<open>
  The comparison keeps the contract of \<open>Comparator\<close>, which \<open>List.sort\<close> relies on:
  exchanging the names changes the sign, the order is transitive, and names that compare
  equal compare in the same way to every other name.
\<close>

theorem compare_contract:
  "\<exists>f. (\<forall>a b. compare_names a b = Some (Some (f a b)) \<and> sgn (f a b) = - sgn (f b a)) \<and>
    (\<forall>a b d. 0 < f a b \<longrightarrow> 0 < f b d \<longrightarrow> 0 < f a d) \<and>
    (\<forall>a b d. f a b = 0 \<longrightarrow> sgn (f a d) = sgn (f b d))"
proof -
  define f where "f a b = the (the (compare_names a b))" for a b
  have f: "compare_names a b = Some (Some (f a b))" "sgn (f a b) = order_sign (portname_key a) (portname_key b)" for a b
    using compare_names_eq [of a b] by (auto simp: f_def)
  have "0 < f a b \<longleftrightarrow> portname_key b < portname_key a" "f a b = 0 \<longleftrightarrow> portname_key a = portname_key b" for a b
    using f(2) [of a b] by (auto simp: order_sign_def sgn_if split: if_splits)
  then show ?thesis
    using f by (intro exI [of _ f]) (auto simp: order_sign_def)
qed

theorem compare_contract_witness:
  "\<exists>r r'. compare_names ''COM1'' ''COM10'' = Some (Some r) \<and> compare_names ''COM10'' ''COM1'' = Some (Some r') \<and>
    sgn r = - sgn r'"
proof -
  obtain f where "\<forall>a b. compare_names a b = Some (Some (f a b)) \<and> sgn (f a b) = - sgn (f b a)"
    using compare_contract by blast
  then show ?thesis by blast
qed

text \<open>
  Names that differ only in a number at their end are in the order of the numbers, so
  \<open>COM2\<close> comes before \<open>COM10\<close>.
\<close>

theorem numbers_in_order:
  assumes "p \<noteq> []" and "\<not> isDigit (last p)"
  shows "\<exists>r. compare_names (p @ show_nat m) (p @ show_nat n) = Some (Some r) \<and> (r < 0 \<longleftrightarrow> m < n) \<and> (r = 0 \<longleftrightarrow> m = n)"
proof -
  obtain c q where p: "p = c # q" using assms(1) by (cases p) auto
  have q: "q = [] \<or> \<not> isDigit (last q)" using assms p by (auto split: if_splits)
  have key: "text_key (show_nat k) = [k]" for k
    using text_key_groups(1) [of "show_nat k" "[]"] show_nat_digits [of k] by simp
  have "order_sign (text_key (q @ show_nat m)) (text_key (q @ show_nat n)) = order_sign m n"
    using text_key_prefix [OF q] show_nat_digits key by (auto simp: order_sign_def)
  moreover have "text_key (q @ show_nat m) = text_key (q @ show_nat n) \<longleftrightarrow> m = n"
    using calculation by (auto simp: order_sign_def split: if_splits)
  ultimately have "order_sign (portname_key (p @ show_nat m)) (portname_key (p @ show_nat n)) = order_sign m n"
    by (auto simp: p portname_key_def order_sign_Pair) (simp add: order_sign_def)
  then show ?thesis
    using compare_names_eq [of "p @ show_nat m" "p @ show_nat n"]
    by (auto simp: order_sign_def sgn_if split: if_splits)
qed

theorem numbers_in_order_witness:
  "\<exists>r. compare_names ''COM2'' ''COM10'' = Some (Some r) \<and> r < 0"
proof -
  have "show_nat 2 = ''2''" "show_nat 10 = ''10''" by code_simp+
  then show ?thesis using numbers_in_order [of "''COM''" 2 10] by (auto simp: isDigit_def)
qed

end
