(* ===== verification/WinApi.thy ===== *)
theory WinApi
  imports ParamBits
begin

text \<open>
  The interface of the Windows build to the operating system. As for POSIX, the constants of
  \<open>windows.h\<close> are a record and the functions of the Windows API one function \<open>os\<close> that
  answers a call in the current world; the answer may come with a change of the fields of the
  Java object made by other threads. A \<open>HANDLE\<close> is the 64-bit number kept in the field
  \<open>fd\<close>, a \<open>BOOL\<close> an integer that is false when it is 0.
\<close>

section \<open>Constants of windows.h\<close>

record winapi =
  ONESTOPBIT :: byte
  ONE5STOPBITS :: byte
  TWOSTOPBITS :: byte
  NOPARITY :: byte
  ODDPARITY :: byte
  EVENPARITY :: byte
  MARKPARITY :: byte
  SPACEPARITY :: byte
  RTS_CONTROL_DISABLE :: "2 word"
  RTS_CONTROL_HANDSHAKE :: "2 word"
  MS_CTS_ON :: "32 word"
  MS_DSR_ON :: "32 word"
  MS_RING_ON :: "32 word"
  MS_RLSD_ON :: "32 word"
  ERROR_FILE_NOT_FOUND :: int
  ERROR_ACCESS_DENIED :: int
  ERROR_GEN_FAILURE :: int
  ERROR_INVALID_PARAMETER :: int
  ERROR_NO_MORE_ITEMS :: int
  ERROR_IO_PENDING :: int
  ERROR_NOT_FOUND :: int
  ERROR_SUCCESS :: int
  WAIT_OBJECT_0 :: int
  REG_SZ :: "32 word"

definition MAXDWORD :: "32 word" where
  "MAXDWORD = - 1"

section \<open>Data\<close>

text \<open>
  The fields of a \<open>DCB\<close> the code reads or writes; \<open>dcb_rest\<close> is the representation of
  the others. The one-bit flags are truth values.
\<close>

record dcb =
  BaudRate :: "32 word"
  ByteSize :: byte
  StopBits :: byte
  Parity :: byte
  fRtsControl :: "2 word"
  fOutxCtsFlow :: bool
  fInX :: bool
  fOutX :: bool
  XonChar :: byte
  XoffChar :: byte
  dcb_rest :: bytes

record commtimeouts =
  ReadIntervalTimeout :: "32 word"
  ReadTotalTimeoutMultiplier :: "32 word"
  ReadTotalTimeoutConstant :: "32 word"
  WriteTotalTimeoutMultiplier :: "32 word"
  WriteTotalTimeoutConstant :: "32 word"

section \<open>Calls\<close>

datatype comm_function = SETBREAK | CLRBREAK | SETDTR | CLRDTR | SETRTS | CLRRTS

text \<open>
  \<open>NewString\<close> is a function of the Java VM: like the others it may fail, then its result
  is 0.
\<close>

datatype wcall =
    CreateFile string
  | CloseHandle int
  | CancelIo int
  | GetCommState int
  | SetCommState int dcb
  | GetCommTimeouts int
  | SetCommTimeouts int commtimeouts
  | GetCommModemStatus int
  | EscapeCommFunction int comm_function
  | SetCommBreak int
  | ClearCommBreak int
  | Sleep int
  | ClearCommError int
  | CreateEventA
  | ReadFile int int int
  | WriteFile int bytes int
  | WaitForSingleObject int
  | GetOverlappedResult int int
  | RegOpenKeyExW string
  | RegEnumValueW int int
  | NewString "16 word list" int

text \<open>
  An answer: the result, what \<open>GetLastError\<close> gives afterwards, and the out-parameters.
  \<open>w_data\<close> is what an overlapped operation has stored in its buffer when its result is
  fetched, or the value of a registry entry.
\<close>

record wresp =
  w_ret :: int
  w_error :: int
  w_dcb :: dcb
  w_timeouts :: commtimeouts
  w_dword :: "32 word"
  w_dword2 :: "32 word"
  w_data :: bytes
  w_chars :: "16 word list"
  w_handle :: int

type_synonym 'w wos = "wcall \<Rightarrow> sps \<times> 'w \<Rightarrow> wresp \<times> sps \<times> 'w"
type_synonym 'w wstate = "('w, wcall \<times> wresp) jni"

definition wanswered :: "wcall \<Rightarrow> wresp \<Rightarrow> sps \<Rightarrow> 'w \<Rightarrow> 'w wstate \<Rightarrow> 'w wstate" where
  "wanswered c r obj w s =
     s\<lparr>sps := obj, world := w, last_error := w_error r, calls := calls s @ [(c, r)]\<rparr>"

definition wincall :: "'w wos \<Rightarrow> wcall \<Rightarrow> ('w wstate, wresp) state" where
  "wincall os c = State (\<lambda>s. case os c (sps s, world s) of (r, obj, w) \<Rightarrow> (r, wanswered c r obj w s))"

lemma wanswered_sel [simp]:
  "sps (wanswered c r obj w s) = obj" "world (wanswered c r obj w s) = w"
  "last_error (wanswered c r obj w s) = w_error r" "errno (wanswered c r obj w s) = errno s"
  "pending (wanswered c r obj w s) = pending s" "calls (wanswered c r obj w s) = calls s @ [(c, r)]"
  "native_blocks (wanswered c r obj w s) = native_blocks s"
  "uninit_read (wanswered c r obj w s) = uninit_read s" "vm (wanswered c r obj w s) = vm s"
  by (simp_all add: wanswered_def)

lemma wp_wincall [wp_simps]:
  "wp (wincall os c) Q s \<longleftrightarrow> (case os c (sps s, world s) of (r, obj, w) \<Rightarrow> Q r (wanswered c r obj w s))"
  by (simp add: wincall_def wp_def split: prod.splits)

lemma wincall_wp:
  assumes "\<And>r obj w. os c (sps s, world s) = (r, obj, w) \<Longrightarrow> Q r (wanswered c r obj w s)"
  shows "wp (wincall os c) Q s"
  using assms by (simp add: wp_wincall split: prod.splits)

text \<open>\<open>GetLastError\<close>.\<close>

definition GetLastError :: "('w wstate, int) state" where
  "GetLastError = gets last_error"

lemma wp_GetLastError [wp_simps]: "wp GetLastError Q s \<longleftrightarrow> Q (last_error s) s"
  by (simp add: GetLastError_def wp_simps)

lemma frame_wincall [frame_intros]: "frame native_blocks (wincall os c)"
  by (simp add: wincall_def frame_def split: prod.splits)

lemma frame_GetLastError [frame_intros]: "frame native_blocks GetLastError"
  by (simp add: GetLastError_def frame_gets)

section \<open>Documented behaviour\<close>

definition wf_win :: "winapi \<Rightarrow> bool" where
  "wf_win c \<longleftrightarrow> distinct [ONESTOPBIT c, ONE5STOPBITS c, TWOSTOPBITS c] \<and>
     distinct [NOPARITY c, ODDPARITY c, EVENPARITY c, MARKPARITY c, SPACEPARITY c] \<and>
     RTS_CONTROL_DISABLE c \<noteq> RTS_CONTROL_HANDSHAKE c \<and>
     ERROR_SUCCESS c = 0 \<and> ERROR_NO_MORE_ITEMS c \<noteq> 0"

text \<open>No other thread touches the Java object while the calls run.\<close>

definition wquiet :: "'w wos \<Rightarrow> bool" where
  "wquiet os \<longleftrightarrow> (\<forall>c obj w. fst (snd (os c (obj, w))) = obj)"

lemma wquietD: "wquiet os \<Longrightarrow> os c (obj, w) = (r, obj', w') \<Longrightarrow> obj' = obj"
  unfolding wquiet_def by (metis fst_conv snd_conv)

text \<open>
  A driver that keeps the settings and timeouts it is given and reports them back; \<open>attr\<close>
  observes the settings and \<open>tmo\<close> the timeouts in the world.
\<close>

definition faithful_port ::
  "'w wos \<Rightarrow> int \<Rightarrow> ('w \<Rightarrow> dcb) \<Rightarrow> ('w \<Rightarrow> commtimeouts) \<Rightarrow> bool" where
  "faithful_port os h attr tmo \<longleftrightarrow>
     (\<forall>obj w. case os (GetCommState h) (obj, w) of (r, obj', w') \<Rightarrow>
        w_ret r \<noteq> 0 \<and> w_dcb r = attr w \<and> obj' = obj \<and> attr w' = attr w \<and> tmo w' = tmo w) \<and>
     (\<forall>d obj w. case os (SetCommState h d) (obj, w) of (r, obj', w') \<Rightarrow>
        w_ret r \<noteq> 0 \<and> obj' = obj \<and> attr w' = d \<and> tmo w' = tmo w) \<and>
     (\<forall>obj w. case os (GetCommTimeouts h) (obj, w) of (r, obj', w') \<Rightarrow>
        w_ret r \<noteq> 0 \<and> w_timeouts r = tmo w \<and> obj' = obj \<and> attr w' = attr w \<and> tmo w' = tmo w) \<and>
     (\<forall>t obj w. case os (SetCommTimeouts h t) (obj, w) of (r, obj', w') \<Rightarrow>
        w_ret r \<noteq> 0 \<and> obj' = obj \<and> attr w' = attr w \<and> tmo w' = t)"

lemma faithful_portD:
  assumes "faithful_port os h attr tmo"
  shows "os (GetCommState h) (obj, w) = (r, obj', w') \<Longrightarrow>
      w_ret r \<noteq> 0 \<and> w_dcb r = attr w \<and> obj' = obj \<and> attr w' = attr w \<and> tmo w' = tmo w"
    "os (SetCommState h d) (obj, w) = (r, obj', w') \<Longrightarrow>
      w_ret r \<noteq> 0 \<and> obj' = obj \<and> attr w' = d \<and> tmo w' = tmo w"
    "os (GetCommTimeouts h) (obj, w) = (r, obj', w') \<Longrightarrow>
      w_ret r \<noteq> 0 \<and> w_timeouts r = tmo w \<and> obj' = obj \<and> attr w' = attr w \<and> tmo w' = tmo w"
    "os (SetCommTimeouts h t) (obj, w) = (r, obj', w') \<Longrightarrow>
      w_ret r \<noteq> 0 \<and> obj' = obj \<and> attr w' = attr w \<and> tmo w' = t"
  using assms unfolding faithful_port_def by (metis (mono_tags, lifting) case_prod_conv)+

section \<open>Concrete instances\<close>

text \<open>The values of \<open>winbase.h\<close> and \<open>winerror.h\<close>, a port that plays back answers, and one that is its settings.\<close>

definition windows_consts :: winapi where
  "windows_consts = \<lparr>
     ONESTOPBIT = 0, ONE5STOPBITS = 1, TWOSTOPBITS = 2,
     NOPARITY = 0, ODDPARITY = 1, EVENPARITY = 2, MARKPARITY = 3, SPACEPARITY = 4,
     RTS_CONTROL_DISABLE = 0, RTS_CONTROL_HANDSHAKE = 2,
     MS_CTS_ON = 16, MS_DSR_ON = 32, MS_RING_ON = 64, MS_RLSD_ON = 128,
     ERROR_FILE_NOT_FOUND = 2, ERROR_ACCESS_DENIED = 5, ERROR_GEN_FAILURE = 31,
     ERROR_INVALID_PARAMETER = 87, ERROR_NO_MORE_ITEMS = 259, ERROR_IO_PENDING = 997,
     ERROR_NOT_FOUND = 1168, ERROR_SUCCESS = 0, WAIT_OBJECT_0 = 0, REG_SZ = 1\<rparr>"

lemma wf_windows [simp]: "wf_win windows_consts"
  by (simp add: wf_win_def windows_consts_def)

definition no_dcb :: dcb where
  "no_dcb = \<lparr>BaudRate = 0, ByteSize = 8, StopBits = 0, Parity = 0, fRtsControl = 0, fOutxCtsFlow = False,
     fInX = False, fOutX = False, XonChar = 17, XoffChar = 19, dcb_rest = []\<rparr>"

definition no_timeouts :: commtimeouts where
  "no_timeouts = \<lparr>ReadIntervalTimeout = 0, ReadTotalTimeoutMultiplier = 0, ReadTotalTimeoutConstant = 0,
     WriteTotalTimeoutMultiplier = 0, WriteTotalTimeoutConstant = 0\<rparr>"

definition wresp0 :: wresp where
  "wresp0 = \<lparr>w_ret = 1, w_error = 0, w_dcb = no_dcb, w_timeouts = no_timeouts, w_dword = 0, w_dword2 = 0,
     w_data = [], w_chars = [], w_handle = 0\<rparr>"

definition wscripted :: "wresp list wos" where
  "wscripted c x = (case x of (obj, rs) \<Rightarrow> (case rs of [] \<Rightarrow> (wresp0, obj, []) | r # rs' \<Rightarrow> (r, obj, rs')))"

definition port_device :: "(dcb \<times> commtimeouts) wos" where
  "port_device c x = (case x of (obj, d, t) \<Rightarrow> (case c of
       GetCommState h \<Rightarrow> (wresp0\<lparr>w_dcb := d\<rparr>, obj, d, t)
     | SetCommState h d' \<Rightarrow> (wresp0, obj, d', t)
     | GetCommTimeouts h \<Rightarrow> (wresp0\<lparr>w_timeouts := t\<rparr>, obj, d, t)
     | SetCommTimeouts h t' \<Rightarrow> (wresp0, obj, d, t')
     | _ \<Rightarrow> (wresp0, obj, d, t)))"

definition windows_vm :: vm where
  "windows_vm = \<lparr>vm_platform = Windows, vm_FindClass = (\<lambda>_. True),
     vm_GetMethodID = (\<lambda>_ _ _. True), vm_GetFieldID = (\<lambda>_ _ _. True), vm_NewGlobalRef = (\<lambda>_. True),
     vm_GetEnv = True, vm_strerror = (\<lambda>_. ''error''), vm_malloc = (\<lambda>_. True)\<rparr>"

definition windows_sps :: sps where
  "windows_sps = \<lparr>spsw_fd = 8, spsw_closeEventReadFd = - 1, spsw_closeEventWriteFd = - 1,
     spsw_interByteReadTimeout = 0, spsw_pollReadTimeout = 0, spsw_pollWriteTimeout = 0\<rparr>"

definition windows_state :: "'w \<Rightarrow> 'w wstate" where
  "windows_state w = \<lparr>sps = windows_sps, world = w, errno = 0, last_error = 0, pending = None,
     calls = [], native_blocks = 0, uninit_read = False, vm = windows_vm\<rparr>"

lemma windows_state_sel [simp]:
  "sps (windows_state w) = windows_sps" "world (windows_state w) = w" "errno (windows_state w) = 0"
  "last_error (windows_state w) = 0"
  "pending (windows_state w) = None" "calls (windows_state w) = []" "vm (windows_state w) = windows_vm"
  "native_blocks (windows_state w) = 0" "uninit_read (windows_state w) = False"
  by (simp_all add: windows_state_def)

lemma wquiet_wscripted [simp]: "wquiet wscripted"
  by (simp add: wquiet_def wscripted_def split: list.splits)

lemma wquiet_port_device [simp]: "wquiet port_device"
  by (simp add: wquiet_def port_device_def split: wcall.splits)

lemma faithful_port_device [simp]: "faithful_port port_device h fst snd"
  by (simp add: faithful_port_def port_device_def wresp0_def)

end
