(* ===== verification/WinApiSettings.thy ===== *)
theory WinApiSettings
  imports WinApi
begin

text \<open>
  \<open>WinApiSettings.c\<close>: line parameters, modem lines, break, flow control characters and
  timeouts of a Windows port. The names of the POSIX build carry the suffix \<open>_win\<close> here.
  A C function that throws and then returns an error value has \<open>None\<close> for that value,
  except where its caller compares it.
\<close>

section \<open>Speeds\<close>

definition DCB_BaudrateToSpswSpeed_cases :: "(32 word \<times> jint) list" where
  "DCB_BaudrateToSpswSpeed_cases =
     [(0, SPSW_SPEED_0_BPS),
      (50, SPSW_SPEED_50_BPS),
      (75, SPSW_SPEED_75_BPS),
      (110, SPSW_SPEED_110_BPS),
      (134, SPSW_SPEED_134_BPS),
      (150, SPSW_SPEED_150_BPS),
      (200, SPSW_SPEED_200_BPS),
      (300, SPSW_SPEED_300_BPS),
      (600, SPSW_SPEED_600_BPS),
      (1200, SPSW_SPEED_1200_BPS),
      (1800, SPSW_SPEED_1800_BPS),
      (2400, SPSW_SPEED_2400_BPS),
      (4800, SPSW_SPEED_4800_BPS),
      (9600, SPSW_SPEED_9600_BPS),
      (19200, SPSW_SPEED_19200_BPS),
      (38400, SPSW_SPEED_38400_BPS),
      (57600, SPSW_SPEED_57600_BPS),
      (115200, SPSW_SPEED_115200_BPS),
      (230400, SPSW_SPEED_230400_BPS),
      (460800, SPSW_SPEED_460800_BPS),
      (500000, SPSW_SPEED_500000_BPS),
      (576000, SPSW_SPEED_576000_BPS),
      (921600, SPSW_SPEED_921600_BPS),
      (1000000, SPSW_SPEED_1000000_BPS),
      (1152000, SPSW_SPEED_1152000_BPS),
      (1500000, SPSW_SPEED_1500000_BPS),
      (2000000, SPSW_SPEED_2000000_BPS),
      (2500000, SPSW_SPEED_2500000_BPS),
      (3000000, SPSW_SPEED_3000000_BPS),
      (3500000, SPSW_SPEED_3500000_BPS),
      (4000000, SPSW_SPEED_4000000_BPS)]"

definition DCB_BaudrateToSpswSpeed :: "32 word \<Rightarrow> ('w wstate, jint) state" where
  "DCB_BaudrateToSpswSpeed speed =
     (case map_of DCB_BaudrateToSpswSpeed_cases speed of
        Some v \<Rightarrow> State_Monad.return v
      | None \<Rightarrow> do {
          throw_IllegalArgumentException ''Speed not supported'';
          State_Monad.return (- 1)
        })"

definition setDCB_Baudrate_cases :: "(jint \<times> 32 word) list" where
  "setDCB_Baudrate_cases =
     [(SPSW_SPEED_0_BPS, 0),
      (SPSW_SPEED_50_BPS, 50),
      (SPSW_SPEED_75_BPS, 75),
      (SPSW_SPEED_110_BPS, 110),
      (SPSW_SPEED_134_BPS, 134),
      (SPSW_SPEED_150_BPS, 150),
      (SPSW_SPEED_200_BPS, 200),
      (SPSW_SPEED_300_BPS, 300),
      (SPSW_SPEED_600_BPS, 600),
      (SPSW_SPEED_1200_BPS, 1200),
      (SPSW_SPEED_1800_BPS, 1800),
      (SPSW_SPEED_2400_BPS, 2400),
      (SPSW_SPEED_4800_BPS, 4800),
      (SPSW_SPEED_9600_BPS, 9600),
      (SPSW_SPEED_19200_BPS, 19200),
      (SPSW_SPEED_38400_BPS, 38400),
      (SPSW_SPEED_57600_BPS, 57600),
      (SPSW_SPEED_115200_BPS, 115200),
      (SPSW_SPEED_230400_BPS, 230400),
      (SPSW_SPEED_460800_BPS, 460800),
      (SPSW_SPEED_500000_BPS, 500000),
      (SPSW_SPEED_576000_BPS, 576000),
      (SPSW_SPEED_921600_BPS, 921600),
      (SPSW_SPEED_1000000_BPS, 1000000),
      (SPSW_SPEED_1152000_BPS, 1152000),
      (SPSW_SPEED_1500000_BPS, 1500000),
      (SPSW_SPEED_2000000_BPS, 2000000),
      (SPSW_SPEED_2500000_BPS, 2500000),
      (SPSW_SPEED_3000000_BPS, 3000000),
      (SPSW_SPEED_3500000_BPS, 3500000),
      (SPSW_SPEED_4000000_BPS, 4000000)]"

text \<open>\<open>None\<close> is the result \<open>-1\<close>, \<open>Some dcb\<close> the result 0 with the changed settings.\<close>

definition setDCB_Baudrate :: "jint \<Rightarrow> dcb \<Rightarrow> ('w wstate, dcb option) state" where
  "setDCB_Baudrate speed dcb =
     (case map_of setDCB_Baudrate_cases speed of
        Some v \<Rightarrow> State_Monad.return (Some (dcb\<lparr>BaudRate := v\<rparr>))
      | None \<Rightarrow> do {
          throw_IllegalArgumentException ''Speed not supported'';
          State_Monad.return None
        })"

section \<open>Reading the line parameters\<close>

definition get_dataBits_win :: "dcb \<Rightarrow> jint option" where
  "get_dataBits_win dcb =
     (if ByteSize dcb = 5 then Some SPSW_DATA_BITS_DB5
      else if ByteSize dcb = 6 then Some SPSW_DATA_BITS_DB6
      else if ByteSize dcb = 7 then Some SPSW_DATA_BITS_DB7
      else if ByteSize dcb = 8 then Some SPSW_DATA_BITS_DB8
      else None)"

definition get_stopBits_win :: "winapi \<Rightarrow> dcb \<Rightarrow> jint option" where
  "get_stopBits_win c dcb =
     (if StopBits dcb = ONESTOPBIT c then Some SPSW_STOP_BITS_1
      else if StopBits dcb = ONE5STOPBITS c then Some SPSW_STOP_BITS_1_5
      else if StopBits dcb = TWOSTOPBITS c then Some SPSW_STOP_BITS_2
      else None)"

definition get_parity_win :: "winapi \<Rightarrow> dcb \<Rightarrow> jint option" where
  "get_parity_win c dcb =
     (if Parity dcb = NOPARITY c then Some SPSW_PARITY_NONE
      else if Parity dcb = ODDPARITY c then Some SPSW_PARITY_ODD
      else if Parity dcb = EVENPARITY c then Some SPSW_PARITY_EVEN
      else if Parity dcb = MARKPARITY c then Some SPSW_PARITY_MARK
      else if Parity dcb = SPACEPARITY c then Some SPSW_PARITY_SPACE
      else None)"

definition get_flowControl_win :: "winapi \<Rightarrow> dcb \<Rightarrow> jint \<Rightarrow> jint" where
  "get_flowControl_win c dcb result0 = (
     let result1 = result0 OR SPSW_FLOW_CONTROL_NONE;
         result2 = (if fRtsControl dcb = RTS_CONTROL_HANDSHAKE c
           then (result1 OR SPSW_FLOW_CONTROL_RTS_CTS_IN) AND NOT SPSW_FLOW_CONTROL_NONE else result1);
         result3 = (if fOutxCtsFlow dcb
           then (result2 OR SPSW_FLOW_CONTROL_RTS_CTS_OUT) AND NOT SPSW_FLOW_CONTROL_NONE else result2);
         result4 = (if fInX dcb
           then (result3 OR SPSW_FLOW_CONTROL_XON_XOFF_IN) AND NOT SPSW_FLOW_CONTROL_NONE else result3)
     in (if fOutX dcb
           then (result4 OR SPSW_FLOW_CONTROL_XON_XOFF_OUT) AND NOT SPSW_FLOW_CONTROL_NONE else result4))"

text \<open>The fields behind the speed, in the order of the code.\<close>

definition getFields_win :: "winapi \<Rightarrow> jint \<Rightarrow> dcb \<Rightarrow> jint \<Rightarrow> ('w wstate, jint option) state" where
  "getFields_win c paramBitSet dcb speed =
         (case (if paramBitSet AND SPSW_DATA_BITS_MASK \<noteq> 0 then get_dataBits_win dcb else Some 0) of
            None \<Rightarrow> do {
              throw_IllegalArgumentException ''getParams Unknown databits'';
              State_Monad.return None
            }
          | Some bits \<Rightarrow>
         (case (if paramBitSet AND SPSW_STOP_BITS_MASK \<noteq> 0 then get_stopBits_win c dcb else Some 0) of
            None \<Rightarrow> do {
              throw_IllegalArgumentException ''getParams Unknown stopbits'';
              State_Monad.return None
            }
          | Some stop \<Rightarrow>
         (case (if paramBitSet AND SPSW_PARITY_MASK \<noteq> 0 then get_parity_win c dcb else Some 0) of
            None \<Rightarrow> do {
              throw_IllegalArgumentException ''getParams unknown Parity'';
              State_Monad.return None
            }
          | Some parity \<Rightarrow> (
              let result = ((speed OR bits) OR stop) OR parity
              in State_Monad.return (Some
                   (if paramBitSet AND SPSW_FLOW_CONTROL_MASK \<noteq> 0
                    then get_flowControl_win c dcb result else result))))))"

text \<open>\<open>None\<close> is the result \<open>-1\<close>, \<open>Some r\<close> the result 0 with \<open>*paramBitSet = r\<close>.\<close>

definition getParams_win :: "winapi \<Rightarrow> 'w wos \<Rightarrow> jint \<Rightarrow> ('w wstate, jint option) state" where
  "getParams_win c os paramBitSet = do {
     hFile \<leftarrow> GetField spsw_fd;
     r \<leftarrow> wincall os (GetCommState hFile);
     if w_ret r = 0 then do {
       throw_ClosedOrNativeException ''getParams GetCommState'';
       State_Monad.return None
     } else do {
       let dcb = w_dcb r;
       speed \<leftarrow> (if paramBitSet AND SPSW_SPEED_MASK \<noteq> 0 then DCB_BaudrateToSpswSpeed (BaudRate dcb)
                 else State_Monad.return 0);
       if paramBitSet AND SPSW_SPEED_MASK \<noteq> 0 \<and> speed = - 1 then State_Monad.return None
       else
         getFields_win c paramBitSet dcb speed
     }
   }"

section \<open>Setting the line parameters\<close>

text \<open>
  The parts of \<open>setParams\<close> that work on the settings: \<open>Inl msg\<close> is the
  \<open>IllegalArgumentException\<close> they throw.
\<close>

definition set_dataBits_win :: "winapi \<Rightarrow> jint \<Rightarrow> dcb \<Rightarrow> string + dcb" where
  "set_dataBits_win c paramBitSet dcb =
     (if paramBitSet AND SPSW_DATA_BITS_MASK = 0 then Inr dcb
      else let b = paramBitSet AND SPSW_DATA_BITS_MASK;
               wide = (\<lambda>n. let d = dcb\<lparr>ByteSize := n\<rparr> in
                 if StopBits d = ONE5STOPBITS c then d\<lparr>StopBits := TWOSTOPBITS c\<rparr> else d) in
        if b = SPSW_DATA_BITS_DB5 then
          Inr (let d = dcb\<lparr>ByteSize := 5\<rparr> in
            if StopBits d = TWOSTOPBITS c then d\<lparr>StopBits := ONE5STOPBITS c\<rparr> else d)
        else if b = SPSW_DATA_BITS_DB6 then Inr (wide 6)
        else if b = SPSW_DATA_BITS_DB7 then Inr (wide 7)
        else if b = SPSW_DATA_BITS_DB8 then Inr (wide 8)
        else Inl ''setParams Wrong databits'')"

definition set_stopBits_win :: "winapi \<Rightarrow> jint \<Rightarrow> dcb \<Rightarrow> string + dcb" where
  "set_stopBits_win c paramBitSet dcb =
     (if paramBitSet AND SPSW_STOP_BITS_MASK = 0 then Inr dcb
      else let b = paramBitSet AND SPSW_STOP_BITS_MASK in
        if b = SPSW_STOP_BITS_1 then Inr (dcb\<lparr>StopBits := ONESTOPBIT c\<rparr>)
        else if b = SPSW_STOP_BITS_1_5 then
          (if ByteSize dcb = 5 then Inr (dcb\<lparr>StopBits := ONE5STOPBITS c\<rparr>)
           else Inl ''setParams setStopBits to 1.5: only for 5 dataBits 1.5 stoppbits are supported'')
        else if b = SPSW_STOP_BITS_2 then
          (if ByteSize dcb = 5
           then Inl ''setParams setStopBits to 2: 5 dataBits only 1.5 stoppbits are supported''
           else Inr (dcb\<lparr>StopBits := TWOSTOPBITS c\<rparr>))
        else Inl ''setParams Unknown stopbits'')"

definition set_parity_win :: "winapi \<Rightarrow> jint \<Rightarrow> dcb \<Rightarrow> string + dcb" where
  "set_parity_win c paramBitSet dcb =
     (if paramBitSet AND SPSW_PARITY_MASK = 0 then Inr dcb
      else let p = paramBitSet AND SPSW_PARITY_MASK in
        if p = SPSW_PARITY_NONE then Inr (dcb\<lparr>Parity := NOPARITY c\<rparr>)
        else if p = SPSW_PARITY_ODD then Inr (dcb\<lparr>Parity := ODDPARITY c\<rparr>)
        else if p = SPSW_PARITY_EVEN then Inr (dcb\<lparr>Parity := EVENPARITY c\<rparr>)
        else if p = SPSW_PARITY_MARK then Inr (dcb\<lparr>Parity := MARKPARITY c\<rparr>)
        else if p = SPSW_PARITY_SPACE then Inr (dcb\<lparr>Parity := SPACEPARITY c\<rparr>)
        else Inl ''setParams Wrong Parity'')"

definition set_flowControl_win :: "winapi \<Rightarrow> jint \<Rightarrow> dcb \<Rightarrow> dcb" where
  "set_flowControl_win c paramBitSet dcb =
     (if paramBitSet AND SPSW_FLOW_CONTROL_MASK = 0 then dcb
      else let d = dcb\<lparr>fRtsControl := RTS_CONTROL_DISABLE c, fOutxCtsFlow := False,
                       fOutX := False, fInX := False\<rparr> in
        if paramBitSet AND SPSW_FLOW_CONTROL_NONE \<noteq> 0 then d
        else let
          d1 = (if paramBitSet AND SPSW_FLOW_CONTROL_RTS_CTS_IN = SPSW_FLOW_CONTROL_RTS_CTS_IN
                then d\<lparr>fRtsControl := RTS_CONTROL_HANDSHAKE c\<rparr> else d);
          d2 = (if paramBitSet AND SPSW_FLOW_CONTROL_RTS_CTS_OUT = SPSW_FLOW_CONTROL_RTS_CTS_OUT
                then d1\<lparr>fOutxCtsFlow := True\<rparr> else d1);
          d3 = (if paramBitSet AND SPSW_FLOW_CONTROL_XON_XOFF_IN = SPSW_FLOW_CONTROL_XON_XOFF_IN
                then d2\<lparr>fInX := True\<rparr> else d2)
        in (if paramBitSet AND SPSW_FLOW_CONTROL_XON_XOFF_OUT = SPSW_FLOW_CONTROL_XON_XOFF_OUT
            then d3\<lparr>fOutX := True\<rparr> else d3))"

definition set_line_win :: "winapi \<Rightarrow> jint \<Rightarrow> dcb \<Rightarrow> string + dcb" where
  "set_line_win c paramBitSet d0 =
     (case set_dataBits_win c paramBitSet d0 of Inl e \<Rightarrow> Inl e
      | Inr d1 \<Rightarrow> (case set_stopBits_win c paramBitSet d1 of Inl e \<Rightarrow> Inl e
      | Inr d2 \<Rightarrow> (case set_parity_win c paramBitSet d2 of Inl e \<Rightarrow> Inl e
      | Inr d3 \<Rightarrow> Inr (set_flowControl_win c paramBitSet d3))))"

definition set_speed_win :: "jint \<Rightarrow> dcb \<Rightarrow> ('w wstate, dcb option) state" where
  "set_speed_win paramBitSet dcb =
     (if paramBitSet AND SPSW_SPEED_MASK = 0 then State_Monad.return (Some dcb)
      else setDCB_Baudrate (paramBitSet AND SPSW_SPEED_MASK) dcb)"

text \<open>
  \<open>SetCommState\<close> with the translation of its errors: \<open>wrong\<close> is the text of the two
  errors that mean a wrong value, \<open>failed\<close> the text of the others.
\<close>

definition write_state_win ::
  "winapi \<Rightarrow> 'w wos \<Rightarrow> string \<Rightarrow> string \<Rightarrow> int \<Rightarrow> dcb \<Rightarrow> ('w wstate, bool) state" where
  "write_state_win c os wrong failed hFile dcb = do {
     r \<leftarrow> wincall os (SetCommState hFile dcb);
     if w_ret r = 0 then do {
       e \<leftarrow> GetLastError;
       (if e = ERROR_INVALID_PARAMETER c
        then throw_IllegalArgumentException (wrong @ [CHR 0x0A] @ '' GetLastError() == ERROR_INVALID_PARAMETER'')
        else if e = ERROR_GEN_FAILURE c
        then throw_IllegalArgumentException (wrong @ [CHR 0x0A] @ '' GetLastError() == ERROR_GEN_FAILURE'')
        else throw_ClosedOrNativeException failed);
       State_Monad.return False
     } else State_Monad.return True
   }"

definition setParams_win :: "winapi \<Rightarrow> 'w wos \<Rightarrow> dcb \<Rightarrow> jint \<Rightarrow> ('w wstate, int) state" where
  "setParams_win c os dcb paramBitSet = do {
     d \<leftarrow> set_speed_win paramBitSet dcb;
     case d of None \<Rightarrow> State_Monad.return (- 1)
     | Some d0 \<Rightarrow> (case set_line_win c paramBitSet d0 of
         Inl msg \<Rightarrow> do {
           throw_IllegalArgumentException msg;
           State_Monad.return (- 1)
         }
       | Inr d4 \<Rightarrow> do {
           hFile \<leftarrow> GetField spsw_fd;
           written \<leftarrow> write_state_win c os ''setParams: Wrong FlowControl'' ''setParams SetCommState'' hFile d4;
           if \<not> written then State_Monad.return (- 1)
           else do {
             got \<leftarrow> getParams_win c os (params_to_read paramBitSet);
             case got of None \<Rightarrow> State_Monad.return (- 1)
             | Some paramsRead \<Rightarrow>
                 if paramsRead \<noteq> paramBitSet then do {
                   throw_IllegalArgumentException (mismatch_text paramsRead paramBitSet);
                   State_Monad.return (- 1)
                 } else State_Monad.return 0
           }
         })
   }"

definition getParameters_win :: "winapi \<Rightarrow> 'w wos \<Rightarrow> jint \<Rightarrow> ('w wstate, jint) state" where
  "getParameters_win c os parameterBitSetMask = do {
     got \<leftarrow> getParams_win c os parameterBitSetMask;
     State_Monad.return (case got of None \<Rightarrow> 0 | Some r \<Rightarrow> r)
   }"

definition setParameters_win :: "winapi \<Rightarrow> 'w wos \<Rightarrow> jint \<Rightarrow> ('w wstate, unit) state" where
  "setParameters_win c os parameterBitSet = do {
     hFile \<leftarrow> GetField spsw_fd;
     r \<leftarrow> wincall os (GetCommState hFile);
     if w_ret r = 0 then throw_ClosedOrNativeException ''setXOFFChar GetCommState''
     else do {
       _ \<leftarrow> setParams_win c os (w_dcb r) parameterBitSet;
       State_Monad.return ()
     }
   }"

section \<open>Flow control characters\<close>

definition getXOFFChar_win :: "'w wos \<Rightarrow> ('w wstate, 16 word) state" where
  "getXOFFChar_win os = do {
     hFile \<leftarrow> GetField spsw_fd;
     r \<leftarrow> wincall os (GetCommState hFile);
     if w_ret r = 0 then do {
       throw_ClosedOrNativeException ''getXOFFChar GetCommState'';
       State_Monad.return 0
     } else State_Monad.return (ucast (XoffChar (w_dcb r)))
   }"

definition getXONChar_win :: "'w wos \<Rightarrow> ('w wstate, 16 word) state" where
  "getXONChar_win os = do {
     hFile \<leftarrow> GetField spsw_fd;
     r \<leftarrow> wincall os (GetCommState hFile);
     if w_ret r = 0 then do {
       throw_ClosedOrNativeException ''getXONChar GetCommState'';
       State_Monad.return 0
     } else State_Monad.return (ucast (XonChar (w_dcb r)))
   }"

definition setXOFFChar_win :: "winapi \<Rightarrow> 'w wos \<Rightarrow> 16 word \<Rightarrow> ('w wstate, unit) state" where
  "setXOFFChar_win c os ch = do {
     hFile \<leftarrow> GetField spsw_fd;
     r \<leftarrow> wincall os (GetCommState hFile);
     if w_ret r = 0 then throw_ClosedOrNativeException ''setXOFFChar GetCommState''
     else do {
       _ \<leftarrow> write_state_win c os ''etXOFFChar: Wrong value'' ''setXOFFChar SetCommState'' hFile
         ((w_dcb r)\<lparr>XoffChar := ucast ch\<rparr>);
       State_Monad.return ()
     }
   }"

definition setXONChar_win :: "winapi \<Rightarrow> 'w wos \<Rightarrow> 16 word \<Rightarrow> ('w wstate, unit) state" where
  "setXONChar_win c os ch = do {
     hFile \<leftarrow> GetField spsw_fd;
     r \<leftarrow> wincall os (GetCommState hFile);
     if w_ret r = 0 then throw_ClosedOrNativeException ''setXONChar GetCommState''
     else do {
       _ \<leftarrow> write_state_win c os ''setXONChar: Wrong value'' ''setXONChar SetCommState'' hFile
         ((w_dcb r)\<lparr>XonChar := ucast ch\<rparr>);
       State_Monad.return ()
     }
   }"

section \<open>Break and modem lines\<close>

definition escape_comm :: "winapi \<Rightarrow> 'w wos \<Rightarrow> comm_function \<Rightarrow> string \<Rightarrow> string \<Rightarrow> ('w wstate, unit) state" where
  "escape_comm c os dwFunc wrong failed = do {
     hFile \<leftarrow> GetField spsw_fd;
     r \<leftarrow> wincall os (EscapeCommFunction hFile dwFunc);
     if w_ret r = 0 then do {
       e \<leftarrow> GetLastError;
       (if e = ERROR_INVALID_PARAMETER c then throw_IllegalArgumentException wrong
        else throw_ClosedOrNativeException failed)
     } else State_Monad.return ()
   }"

definition setBreak0_win :: "winapi \<Rightarrow> 'w wos \<Rightarrow> bool \<Rightarrow> ('w wstate, unit) state" where
  "setBreak0_win c os enabled =
     escape_comm c os (if enabled then SETBREAK else CLRBREAK) ''setBreak0: Wrong value'' ''Can't set/clear BREAK''"

definition setDTR_win :: "winapi \<Rightarrow> 'w wos \<Rightarrow> bool \<Rightarrow> ('w wstate, unit) state" where
  "setDTR_win c os enabled =
     escape_comm c os (if enabled then SETDTR else CLRDTR) ''setDTR: Wrong value'' ''Can't set/clear DTR''"

definition setRTS_win :: "winapi \<Rightarrow> 'w wos \<Rightarrow> bool \<Rightarrow> ('w wstate, unit) state" where
  "setRTS_win c os enabled =
     escape_comm c os (if enabled then SETRTS else CLRRTS) ''setRTS: Wrong value'' ''Can't set/clear RTS''"

section \<open>Timeouts\<close>

text \<open>A \<open>DWORD\<close> read as an \<open>int32_t\<close>; a negative one is thrown, and returned all the same.\<close>

definition dword_timeout :: "32 word \<Rightarrow> string \<Rightarrow> ('w wstate, int) state" where
  "dword_timeout v msg = do {
     (if sint v < 0 then throw_RuntimeException msg else State_Monad.return ());
     State_Monad.return (sint v)
   }"

definition getInterByteReadTimeout :: "'w wos \<Rightarrow> ('w wstate, int) state" where
  "getInterByteReadTimeout os = do {
     hFile \<leftarrow> GetField spsw_fd;
     r \<leftarrow> wincall os (GetCommTimeouts hFile);
     if w_ret r = 0 then do {
       throw_ClosedOrNativeException ''getInterByteReadTimeout'';
       State_Monad.return (- 1)
     } else if ReadIntervalTimeout (w_timeouts r) = MAXDWORD
         \<and> ReadTotalTimeoutMultiplier (w_timeouts r) = MAXDWORD then State_Monad.return 0
     else dword_timeout (ReadIntervalTimeout (w_timeouts r))
       ''COMMTIMEOUTS.ReadIntervalTimeout overflow from long to int occured''
   }"

definition getOverallReadTimeout :: "'w wos \<Rightarrow> ('w wstate, int) state" where
  "getOverallReadTimeout os = do {
     hFile \<leftarrow> GetField spsw_fd;
     r \<leftarrow> wincall os (GetCommTimeouts hFile);
     if w_ret r = 0 then do {
       throw_ClosedOrNativeException ''getOverallReadTimeout'';
       State_Monad.return (- 1)
     } else dword_timeout (ReadTotalTimeoutConstant (w_timeouts r))
       ''COMMTIMEOUTS.ReadTotalTimeoutConstant overflow from long to int occured''
   }"

definition getOverallWriteTimeout :: "'w wos \<Rightarrow> ('w wstate, int) state" where
  "getOverallWriteTimeout os = do {
     hFile \<leftarrow> GetField spsw_fd;
     r \<leftarrow> wincall os (GetCommTimeouts hFile);
     if w_ret r = 0 then do {
       throw_ClosedOrNativeException ''getOverallWriteTimeout'';
       State_Monad.return (- 1)
     } else dword_timeout (WriteTotalTimeoutConstant (w_timeouts r))
       ''COMMTIMEOUTS.WriteTotalTimeoutConstant overflow from long to int occured''
   }"

text \<open>The timeouts of the driver; the C integers are positive where they are converted.\<close>

definition comm_timeouts :: "int \<Rightarrow> int \<Rightarrow> int \<Rightarrow> commtimeouts \<Rightarrow> commtimeouts" where
  "comm_timeouts interByteReadTimeout overallReadTimeout overallWriteTimeout t = (
     let t1 = (if interByteReadTimeout = 0 \<and> 0 < overallReadTimeout
               then t\<lparr>ReadIntervalTimeout := MAXDWORD, ReadTotalTimeoutMultiplier := MAXDWORD,
                      ReadTotalTimeoutConstant := of_int overallReadTimeout\<rparr>
               else t\<lparr>ReadIntervalTimeout := of_int interByteReadTimeout, ReadTotalTimeoutMultiplier := 0,
                      ReadTotalTimeoutConstant := of_int overallReadTimeout\<rparr>)
     in t1\<lparr>WriteTotalTimeoutMultiplier := 0, WriteTotalTimeoutConstant := of_int overallWriteTimeout\<rparr>)"

definition setTimeouts_win :: "winapi \<Rightarrow> 'w wos \<Rightarrow> int \<Rightarrow> int \<Rightarrow> int \<Rightarrow> ('w wstate, unit) state" where
  "setTimeouts_win c os interByteReadTimeout overallReadTimeout overallWriteTimeout = do {
     hFile \<leftarrow> GetField spsw_fd;
     r \<leftarrow> wincall os (GetCommTimeouts hFile);
     if w_ret r = 0 then throw_ClosedOrNativeException ''setTimeouts''
     else if overallWriteTimeout < 0
     then throw_IllegalArgumentException ''setTimeouts: overallWriteTimeout must >= 0''
     else if overallReadTimeout < 0
     then throw_IllegalArgumentException ''setTimeouts: overallReadTimeout must >= 0''
     else if interByteReadTimeout < 0
     then throw_IllegalArgumentException ''setReadTimeouts: interByteReadTimeout must >= 0''
     else do {
       w \<leftarrow> wincall os (SetCommTimeouts hFile
         (comm_timeouts interByteReadTimeout overallReadTimeout overallWriteTimeout (w_timeouts r)));
       if w_ret w = 0 then do {
         e \<leftarrow> GetLastError;
         (if e = ERROR_INVALID_PARAMETER c then throw_IllegalArgumentException ''setTimeouts: Wrong Timeouts''
          else throw_ClosedOrNativeException ''setTimeouts SetCommTimeouts'')
       } else State_Monad.return ()
     }
   }"

end
