(* ===== verification/WinApiLine.thy ===== *)
theory WinApiLine
  imports WinApiSettings LineSpec
begin

text \<open>
  The correctness of the line parameter code of \<open>WinApiSettings.c\<close> against the abstract
  line of \<open>LineSpec\<close>: reading back, the invariant of a \<open>DCB\<close>, the refinement of a
  request, and the properties of parameters, control characters and timeouts.
\<close>

section \<open>What a DCB shows\<close>

definition dcb_speed :: "dcb \<Rightarrow> Speed option" where
  "dcb_speed d = Option.bind (map_of DCB_BaudrateToSpswSpeed_cases (BaudRate d)) speedFromBitSet"

definition dcb_dataBits :: "dcb \<Rightarrow> DataBits option" where
  "dcb_dataBits d =
     (if ByteSize d = 5 then Some DB_5 else if ByteSize d = 6 then Some DB_6
      else if ByteSize d = 7 then Some DB_7 else if ByteSize d = 8 then Some DB_8 else None)"

definition dcb_stopBits :: "winapi \<Rightarrow> dcb \<Rightarrow> StopBits option" where
  "dcb_stopBits c d =
     (if StopBits d = ONESTOPBIT c then Some SB_1 else if StopBits d = ONE5STOPBITS c then Some SB_1_5
      else if StopBits d = TWOSTOPBITS c then Some SB_2 else None)"

definition dcb_parity :: "winapi \<Rightarrow> dcb \<Rightarrow> Parity option" where
  "dcb_parity c d =
     (if Parity d = NOPARITY c then Some NONE else if Parity d = ODDPARITY c then Some ODD
      else if Parity d = EVENPARITY c then Some EVEN else if Parity d = MARKPARITY c then Some MARK
      else if Parity d = SPACEPARITY c then Some SPACE else None)"

definition dcb_flow :: "winapi \<Rightarrow> dcb \<Rightarrow> FlowControl list" where
  "dcb_flow c d = (if fRtsControl d = RTS_CONTROL_HANDSHAKE c then [RTS_CTS_IN] else [])
     @ (if fOutxCtsFlow d then [RTS_CTS_OUT] else [])
     @ (if fInX d then [XON_XOFF_IN] else []) @ (if fOutX d then [XON_XOFF_OUT] else [])"

definition shows_win :: "winapi \<Rightarrow> dcb \<Rightarrow> params \<Rightarrow> bool" where
  "shows_win c d p = agrees (dcb_speed d) (dcb_dataBits d) (dcb_stopBits c d) (dcb_parity c d) (dcb_flow c d) p"

text \<open>The two speed tables are inverse to each other.\<close>

lemma baud_cases_swap: "setDCB_Baudrate_cases = map prod.swap DCB_BaudrateToSpswSpeed_cases"
  by (simp only: setDCB_Baudrate_cases_def DCB_BaudrateToSpswSpeed_cases_def list.map swap_simp)

lemma baud_cases_speeds: "map snd DCB_BaudrateToSpswSpeed_cases = map toBitSet_Speed speed_order"
  by (simp only: DCB_BaudrateToSpswSpeed_cases_def speed_order_def list.map snd_conv toBitSet_Speed.simps)

lemma baud_cases_distinct:
  "distinct (map fst DCB_BaudrateToSpswSpeed_cases)" "distinct (map snd DCB_BaudrateToSpswSpeed_cases)"
  by (simp add: DCB_BaudrateToSpswSpeed_cases_def, simp only: baud_cases_speeds speed_order_distinct)

lemma baud_tables_inverse:
  "map_of setDCB_Baudrate_cases v = Some b \<longleftrightarrow> map_of DCB_BaudrateToSpswSpeed_cases b = Some v"
  using baud_cases_distinct
  by (auto simp add: map_of_eq_Some_iff baud_cases_swap comp_def)

lemma baud_speed: "map_of DCB_BaudrateToSpswSpeed_cases b = Some v \<Longrightarrow> \<exists>s. v = toBitSet_Speed s"
proof -
  assume "map_of DCB_BaudrateToSpswSpeed_cases b = Some v"
  then have "v \<in> set (map snd DCB_BaudrateToSpswSpeed_cases)" using map_of_SomeD by force
  then show ?thesis unfolding baud_cases_speeds by auto
qed

lemma toBitSet_Speed_minus_one [simp]: "toBitSet_Speed s \<noteq> - 1"
  by (cases s) (simp_all add: bits_simps)

text \<open>Every speed of the Java enumeration is in the table.\<close>

lemma baud_total: "map_of setDCB_Baudrate_cases (toBitSet_Speed s) \<noteq> None"
proof -
  have "s \<in> set speed_order" by (cases s) (simp_all add: speed_order_def)
  then have "toBitSet_Speed s \<in> set (map snd DCB_BaudrateToSpswSpeed_cases)"
    unfolding baud_cases_speeds by simp
  then show ?thesis by (simp add: map_of_eq_None_iff baud_cases_swap image_image)
qed

lemma baud_dcb_speed: "map_of DCB_BaudrateToSpswSpeed_cases (BaudRate d) = map_option toBitSet_Speed (dcb_speed d)"
proof (cases "map_of DCB_BaudrateToSpswSpeed_cases (BaudRate d)")
  case (Some v)
  then obtain s where "v = toBitSet_Speed s" using baud_speed by blast
  then show ?thesis using Some decode_speed [of v s] by (simp add: dcb_speed_def speed_field)
qed (simp add: dcb_speed_def)

lemma get_win_dcb:
  "get_dataBits_win d = map_option toBitSet_DataBits (dcb_dataBits d)"
  "get_stopBits_win c d = map_option toBitSet_StopBits (dcb_stopBits c d)"
  "get_parity_win c d = map_option toBitSet_Parity (dcb_parity c d)"
  by (simp_all add: get_dataBits_win_def dcb_dataBits_def get_stopBits_win_def dcb_stopBits_def
      get_parity_win_def dcb_parity_def)

lemma get_flowControl_dcb:
  assumes "r AND SPSW_FLOW_CONTROL_MASK = 0"
  shows "get_flowControl_win c d r = r OR toBitSet_FlowControl (dcb_flow c d)"
  using flow_clean [OF assms]
  by (simp add: get_flowControl_win_def dcb_flow_def toBitSet_FlowControl_def Let_def
      bit.conj_disj_distrib2 or.assoc) (simp add: bits_simps)

text \<open>What \<open>getParams\<close> makes of a \<open>DCB\<close>; \<open>None\<close> when it throws.\<close>

definition decode_win :: "winapi \<Rightarrow> dcb \<Rightarrow> jint \<Rightarrow> jint option" where
  "decode_win c d m =
     Option.bind (if m AND SPSW_SPEED_MASK \<noteq> 0 then map_of DCB_BaudrateToSpswSpeed_cases (BaudRate d) else Some 0) (\<lambda>s.
     Option.bind (if m AND SPSW_DATA_BITS_MASK \<noteq> 0 then get_dataBits_win d else Some 0) (\<lambda>b.
     Option.bind (if m AND SPSW_STOP_BITS_MASK \<noteq> 0 then get_stopBits_win c d else Some 0) (\<lambda>t.
     Option.bind (if m AND SPSW_PARITY_MASK \<noteq> 0 then get_parity_win c d else Some 0) (\<lambda>q.
     Some (if m AND SPSW_FLOW_CONTROL_MASK \<noteq> 0 then get_flowControl_win c d (((s OR b) OR t) OR q)
           else ((s OR b) OR t) OR q)))))"

interpretation windows: parameter_reader True "decode_win c" dcb_speed dcb_dataBits "dcb_stopBits c"
    "dcb_parity c" "dcb_flow c"
  for c
proof (unfold_locales, unfold collect_fields [symmetric])
  fix d and p :: params
  show "decode_win c d (params_to_read (encode_params p)) =
      Option.bind (if p_speed p = None then Some 0 else map_option toBitSet_Speed (dcb_speed d)) (\<lambda>s.
      Option.bind (if p_dataBits p = None then Some 0 else map_option toBitSet_DataBits (dcb_dataBits d)) (\<lambda>b.
      Option.bind (if p_stopBits p = None then Some 0 else map_option toBitSet_StopBits (dcb_stopBits c d)) (\<lambda>t.
      Option.bind (if p_parity p = None then Some 0 else map_option toBitSet_Parity (dcb_parity c d)) (\<lambda>q.
      Some ((((s OR b) OR t) OR q) OR (if p_flow p = None then 0 else toBitSet_FlowControl (dcb_flow c d)))))))"
    unfolding decode_win_def params_to_read_fields encode_fields field_zero baud_dcb_speed get_win_dcb
    by (cases "p_speed p"; cases "p_dataBits p"; cases "p_stopBits p"; cases "p_parity p"; cases "p_flow p")
      (simp_all add: bind_map_option comp_def get_flowControl_dcb bit.conj_disj_distrib2 speed_field
        dataBits_field stopBits_field parity_field)
qed

section \<open>The abstract line of a DCB\<close>

text \<open>
  The invariant of the settings: the values are the ones the code knows, and one and a half
  stop bits go with five data bits, two stop bits with more.
\<close>

definition dcb_ok :: "winapi \<Rightarrow> dcb \<Rightarrow> bool" where
  "dcb_ok c d \<longleftrightarrow> dcb_dataBits d \<noteq> None \<and> dcb_stopBits c d \<noteq> None \<and> dcb_parity c d \<noteq> None \<and>
     (StopBits d = ONE5STOPBITS c \<longrightarrow> ByteSize d = 5) \<and> (StopBits d = TWOSTOPBITS c \<longrightarrow> ByteSize d \<noteq> 5)"

definition abs_dcb :: "winapi \<Rightarrow> dcb \<Rightarrow> line" where
  "abs_dcb c d = \<lparr>l_dataBits = the (dcb_dataBits d), l_two = (StopBits d \<noteq> ONESTOPBIT c),
     l_parity = the (dcb_parity c d), l_rts = (fRtsControl d = RTS_CONTROL_HANDSHAKE c),
     l_cts = fOutxCtsFlow d, l_xin = fInX d, l_xout = fOutX d\<rparr>"

definition same_rest :: "dcb \<Rightarrow> dcb \<Rightarrow> bool" where
  "same_rest d d' \<longleftrightarrow> BaudRate d' = BaudRate d \<and> XonChar d' = XonChar d \<and> XoffChar d' = XoffChar d
     \<and> dcb_rest d' = dcb_rest d"

lemma same_rest_refl [simp]: "same_rest d d"
  by (simp add: same_rest_def)

lemma same_rest_trans: "same_rest d e \<Longrightarrow> same_rest e f \<Longrightarrow> same_rest d f"
  by (simp add: same_rest_def)

lemma dcb_ok_shows:
  assumes "wf_win c" "dcb_ok c d"
  shows "dcb_dataBits d = Some (l_dataBits (abs_dcb c d))" "dcb_stopBits c d = Some (line_stop (abs_dcb c d))"
    "dcb_parity c d = Some (l_parity (abs_dcb c d))" "dcb_flow c d = line_flow (abs_dcb c d)"
  using assms
  by (auto simp: dcb_ok_def abs_dcb_def line_stop_def line_flow_def dcb_stopBits_def dcb_flow_def
      wf_win_def dcb_dataBits_def split: if_splits)

text \<open>One part of \<open>set_line\<close> against its abstract counterpart.\<close>

definition stage_win :: "winapi \<Rightarrow> dcb \<Rightarrow> string + dcb \<Rightarrow> line option \<Rightarrow> bool" where
  "stage_win c d res l \<longleftrightarrow>
     (case l of None \<Rightarrow> isl res
      | Some l' \<Rightarrow> (\<exists>d'. res = Inr d' \<and> abs_dcb c d' = l' \<and> dcb_ok c d' \<and> same_rest d d'))"

lemma stage_winI: "dcb_ok c d' \<Longrightarrow> same_rest d d' \<Longrightarrow> abs_dcb c d' = l \<Longrightarrow> stage_win c d (Inr d') (Some l)"
  by (simp add: stage_win_def)

lemma stage_win_bind:
  assumes "stage_win c d res l"
    and "\<And>d' l'. l = Some l' \<Longrightarrow> abs_dcb c d' = l' \<Longrightarrow> dcb_ok c d' \<Longrightarrow> stage_win c d' (f d') (g l')"
  shows "stage_win c d (case res of Inl e \<Rightarrow> Inl e | Inr d' \<Rightarrow> f d') (Option.bind l g)"
proof (cases l)
  case None
  with assms(1) show ?thesis by (cases res) (simp_all add: stage_win_def)
next
  case (Some l')
  then obtain d' where d': "res = Inr d'" "abs_dcb c d' = l'" "dcb_ok c d'" "same_rest d d'"
    using assms(1) by (auto simp: stage_win_def)
  with assms(2) [OF Some d'(2,3)] Some show ?thesis
    by (auto simp: stage_win_def intro: same_rest_trans split: option.splits)
qed

lemma set_dataBits_win_apply:
  assumes "wf_win c" "dcb_ok c d" "p AND SPSW_DATA_BITS_MASK = field toBitSet_DataBits x"
  shows "stage_win c d (set_dataBits_win c p d) (Some (apply_dataBits x (abs_dcb c d)))"
proof (cases x)
  case None
  then show ?thesis
    using assms by (simp add: set_dataBits_win_def apply_dataBits_def field_def stage_win_def)
next
  case (Some b)
  then show ?thesis
    using assms
    by (cases b) (auto simp: set_dataBits_win_def apply_dataBits_def field_def Let_def bits_simps
      intro!: stage_winI, auto simp: dcb_ok_def dcb_dataBits_def dcb_stopBits_def dcb_parity_def wf_win_def same_rest_def
      abs_dcb_def split: if_splits)
qed

lemma set_stopBits_win_apply:
  assumes "wf_win c" "dcb_ok c d" "p AND SPSW_STOP_BITS_MASK = field toBitSet_StopBits x"
  shows "stage_win c d (set_stopBits_win c p d) (apply_stopBits x (abs_dcb c d))"
proof (cases x)
  case None
  then show ?thesis
    using assms by (simp add: set_stopBits_win_def apply_stopBits_def field_def stage_win_def)
next
  case (Some b)
  have five: "l_dataBits (abs_dcb c d) = DB_5 \<longleftrightarrow> ByteSize d = 5"
    using assms(2) by (auto simp: dcb_ok_def abs_dcb_def dcb_dataBits_def split: if_splits)
  from Some show ?thesis
    using assms
    by (cases b) (auto simp: set_stopBits_win_def apply_stopBits_def field_def Let_def bits_simps five
      stage_win_def, auto simp: dcb_ok_def dcb_dataBits_def dcb_stopBits_def dcb_parity_def wf_win_def same_rest_def
      abs_dcb_def split: if_splits)
qed

lemma set_parity_win_apply:
  assumes "wf_win c" "dcb_ok c d" "p AND SPSW_PARITY_MASK = field toBitSet_Parity x"
  shows "stage_win c d (set_parity_win c p d) (Some (apply_parity x (abs_dcb c d)))"
proof (cases x)
  case None
  then show ?thesis
    using assms by (simp add: set_parity_win_def apply_parity_def field_def stage_win_def)
next
  case (Some b)
  then show ?thesis
    using assms
    by (cases b) (auto simp: set_parity_win_def apply_parity_def field_def Let_def bits_simps
      stage_win_def, auto simp: dcb_ok_def dcb_dataBits_def dcb_stopBits_def dcb_parity_def wf_win_def same_rest_def
      abs_dcb_def split: if_splits)
qed

text \<open>The bits of a flow control field, as \<open>set_flowControl\<close> tests them in the whole bit set.\<close>

lemma flow_tests:
  assumes "p AND SPSW_FLOW_CONTROL_MASK = toBitSet_FlowControl F"
  shows "p AND SPSW_FLOW_CONTROL_NONE \<noteq> 0 \<longleftrightarrow> set F = {}"
    and "p AND flow_bit fc = flow_bit fc \<longleftrightarrow> fc \<in> set F"
proof -
  have none: "p AND SPSW_FLOW_CONTROL_NONE = toBitSet_FlowControl F AND SPSW_FLOW_CONTROL_NONE"
    unfolding assms [symmetric] by (simp add: and.assoc bits_simps)
  have "flow_bits G AND SPSW_FLOW_CONTROL_NONE = 0" for G
    by (simp add: flow_bits_def bits_simps)
  then show "p AND SPSW_FLOW_CONTROL_NONE \<noteq> 0 \<longleftrightarrow> set F = {}"
    unfolding none by (simp add: toBitSet_FlowControl_set bits_simps)
  have "p AND flow_bit fc = toBitSet_FlowControl F AND flow_bit fc"
    unfolding and_flow_bit [of p] assms ..
  then show "p AND flow_bit fc = flow_bit fc \<longleftrightarrow> fc \<in> set F"
  proof (cases "F = []")
    case True
    then show ?thesis using \<open>p AND flow_bit fc = toBitSet_FlowControl F AND flow_bit fc\<close>
      by (cases fc) (simp_all add: toBitSet_FlowControl_def bits_simps)
  qed (simp add: toBitSet_FlowControl_set flow_bits_member)
qed

lemma set_flowControl_win_apply:
  assumes "wf_win c" "dcb_ok c d" "p AND SPSW_FLOW_CONTROL_MASK = field toBitSet_FlowControl x"
  shows "stage_win c d (Inr (set_flowControl_win c p d)) (apply_flow False x (abs_dcb c d))"
proof (cases x)
  case None
  then show ?thesis
    using assms by (simp add: set_flowControl_win_def apply_flow_def field_def stage_win_def)
next
  case (Some F)
  then have F: "p AND SPSW_FLOW_CONTROL_MASK = toBitSet_FlowControl F"
    using assms(3) by (simp add: field_def)
  note tests = flow_tests(1) [OF F] flow_tests(2) [OF F, of RTS_CTS_IN, simplified]
    flow_tests(2) [OF F, of RTS_CTS_OUT, simplified] flow_tests(2) [OF F, of XON_XOFF_IN, simplified]
    flow_tests(2) [OF F, of XON_XOFF_OUT, simplified]
  define d' where "d' = d\<lparr>fRtsControl := (if RTS_CTS_IN \<in> set F then RTS_CONTROL_HANDSHAKE c else RTS_CONTROL_DISABLE c),
    fOutxCtsFlow := RTS_CTS_OUT \<in> set F, fOutX := XON_XOFF_OUT \<in> set F, fInX := XON_XOFF_IN \<in> set F\<rparr>"
  have "set_flowControl_win c p d = d'"
    unfolding set_flowControl_win_def Let_def tests F d'_def by (simp add: tests)
  moreover have keep: "dcb_dataBits d' = dcb_dataBits d" "dcb_stopBits c d' = dcb_stopBits c d"
      "dcb_parity c d' = dcb_parity c d" "StopBits d' = StopBits d" "ByteSize d' = ByteSize d"
    by (simp_all add: d'_def dcb_dataBits_def dcb_stopBits_def dcb_parity_def)
  then have "dcb_ok c d'" using assms(2) by (simp add: dcb_ok_def)
  moreover have "abs_dcb c d' = (abs_dcb c d)\<lparr>l_rts := RTS_CTS_IN \<in> set F, l_cts := RTS_CTS_OUT \<in> set F,
      l_xin := XON_XOFF_IN \<in> set F, l_xout := XON_XOFF_OUT \<in> set F\<rparr>"
    using assms(1) by (simp add: abs_dcb_def keep) (simp add: d'_def wf_win_def)
  ultimately show ?thesis
    by (simp add: Some apply_flow_def stage_win_def) (simp add: d'_def same_rest_def)
qed

lemma set_line_win_apply:
  assumes wf: "wf_win c" and ok: "dcb_ok c d"
  shows "stage_win c d (set_line_win c (encode_params p) d) (apply_params False p (abs_dcb c d))"
proof -
  have rest: "stage_win c d (case set_stopBits_win c (encode_params p) d of Inl e \<Rightarrow> Inl e
      | Inr d2 \<Rightarrow> (case set_parity_win c (encode_params p) d2 of Inl e \<Rightarrow> Inl e
      | Inr d3 \<Rightarrow> Inr (set_flowControl_win c (encode_params p) d3))) (apply_rest False p (abs_dcb c d))"
    if "dcb_ok c d" for d
    unfolding apply_rest_def using that
    by (auto simp only: intro!: stage_win_bind set_stopBits_win_apply [OF wf] set_parity_win_apply [OF wf]
        set_flowControl_win_apply [OF wf] encode_fields)
  show ?thesis
    unfolding set_line_win_def apply_params_rest using ok
    by (auto simp only: intro!: stage_win_bind set_dataBits_win_apply [OF wf] rest encode_fields)
qed

section \<open>Reading and writing through the driver\<close>

lemma DCB_BaudrateToSpswSpeed_wp:
  assumes "\<And>v. map_of DCB_BaudrateToSpswSpeed_cases b = Some v \<Longrightarrow> Q v s"
    and "\<And>e. map_of DCB_BaudrateToSpswSpeed_cases b = None \<Longrightarrow> Q (- 1) (s\<lparr>pending := Some e\<rparr>)"
  shows "wp (DCB_BaudrateToSpswSpeed b) Q s"
  using assms by (auto simp: DCB_BaudrateToSpswSpeed_def wp_simps intro!: wp_throws split: option.splits)

lemma baud_not_minus_one: "map_of DCB_BaudrateToSpswSpeed_cases b = Some v \<Longrightarrow> v \<noteq> - 1"
  using baud_speed by (metis toBitSet_Speed_minus_one)

lemma getParams_win_wp:
  fixes os :: "'w wos"
  assumes ok: "\<And>r obj w x. os (GetCommState (spsw_fd (sps s))) (sps s, world s) = (r, obj, w) \<Longrightarrow>
      w_ret r \<noteq> 0 \<Longrightarrow> decode_win c (w_dcb r) m = Some x \<Longrightarrow>
      Q (Some x) (wanswered (GetCommState (spsw_fd (sps s))) r obj w s)"
    and err: "\<And>r obj w e. os (GetCommState (spsw_fd (sps s))) (sps s, world s) = (r, obj, w) \<Longrightarrow>
      w_ret r = 0 \<or> decode_win c (w_dcb r) m = None \<Longrightarrow>
      Q None (wanswered (GetCommState (spsw_fd (sps s))) r obj w s\<lparr>pending := Some e\<rparr>)"
  shows "wp (getParams_win c os m) Q s"
proof -
  obtain r obj w where call: "os (GetCommState (spsw_fd (sps s))) (sps s, world s) = (r, obj, w)"
    by (metis prod_cases3)
  note none = err [OF call] and some = ok [OF call]
  let ?s = "wanswered (GetCommState (spsw_fd (sps s))) r obj w s"
  have rest: "wp (getFields_win c m (w_dcb r) v) Q ?s"
    if v: "(if m AND SPSW_SPEED_MASK \<noteq> 0 then map_of DCB_BaudrateToSpswSpeed_cases (BaudRate (w_dcb r)) else Some 0) = Some v"
      and ret: "w_ret r \<noteq> 0" for v
  proof -
    note d = decode_win_def [of c "w_dcb r" m, unfolded v, simplified]
    show ?thesis
      unfolding getFields_win_def using some [OF ret] none
      by (auto simp: wp_simps Let_def d intro!: wp_throws split: option.splits)
  qed
  show ?thesis
    unfolding getParams_win_def wp_bind wp_GetField wp_wincall call prod.case wp_if
    using rest none
    by (auto simp: wp_simps Let_def decode_win_def baud_not_minus_one
        intro!: wp_throws DCB_BaudrateToSpswSpeed_wp split del: if_split split: if_split)
qed

lemma write_state_win_wp:
  assumes ok: "\<And>r obj w. os (SetCommState h d) (sps s, world s) = (r, obj, w) \<Longrightarrow> w_ret r \<noteq> 0 \<Longrightarrow>
      Q True (wanswered (SetCommState h d) r obj w s)"
    and err: "\<And>r obj w e. os (SetCommState h d) (sps s, world s) = (r, obj, w) \<Longrightarrow> w_ret r = 0 \<Longrightarrow>
      Q False (wanswered (SetCommState h d) r obj w s\<lparr>pending := Some e\<rparr>)"
  shows "wp (write_state_win c os wrong failed h d) Q s"
proof -
  obtain r obj w where call: "os (SetCommState h d) (sps s, world s) = (r, obj, w)"
    by (metis prod_cases3)
  show ?thesis
    unfolding write_state_win_def wp_bind wp_wincall call
    using ok [OF call] err [OF call] by (auto simp: wp_simps intro!: wp_throws)
qed

lemma set_speed_win_wp:
  assumes "p AND SPSW_SPEED_MASK = 0 \<Longrightarrow> Q (Some d) s"
    and "\<And>b. p AND SPSW_SPEED_MASK \<noteq> 0 \<Longrightarrow> map_of setDCB_Baudrate_cases (p AND SPSW_SPEED_MASK) = Some b \<Longrightarrow>
      Q (Some (d\<lparr>BaudRate := b\<rparr>)) s"
    and "\<And>e. p AND SPSW_SPEED_MASK \<noteq> 0 \<Longrightarrow> map_of setDCB_Baudrate_cases (p AND SPSW_SPEED_MASK) = None \<Longrightarrow>
      Q None (s\<lparr>pending := Some e\<rparr>)"
  shows "wp (set_speed_win p d) Q s"
  using assms by (auto simp: set_speed_win_def setDCB_Baudrate_def wp_simps intro!: wp_throws split: option.splits)

text \<open>The end of \<open>setParams\<close>: store, read back, compare.\<close>

definition store_and_check_win :: "winapi \<Rightarrow> 'w wos \<Rightarrow> dcb \<Rightarrow> jint \<Rightarrow> ('w wstate, int) state" where
  "store_and_check_win c os d4 paramBitSet = do {
     hFile \<leftarrow> GetField spsw_fd;
     written \<leftarrow> write_state_win c os ''setParams: Wrong FlowControl'' ''setParams SetCommState'' hFile d4;
     if \<not> written then State_Monad.return (- 1)
     else do {
       got \<leftarrow> getParams_win c os (params_to_read paramBitSet);
       case got of None \<Rightarrow> State_Monad.return (- 1)
       | Some paramsRead \<Rightarrow>
           if paramsRead \<noteq> paramBitSet then do {
             throw_IllegalArgumentException (mismatch_text paramsRead paramBitSet);
             State_Monad.return (- 1)
           } else State_Monad.return 0
     }
   }"

lemma setParams_win_split:
  "setParams_win c os dcb p = do {
     d \<leftarrow> set_speed_win p dcb;
     case d of None \<Rightarrow> State_Monad.return (- 1)
     | Some d0 \<Rightarrow> (case set_line_win c p d0 of
         Inl msg \<Rightarrow> do {
           throw_IllegalArgumentException msg;
           State_Monad.return (- 1)
         }
       | Inr d4 \<Rightarrow> store_and_check_win c os d4 p)
   }"
  unfolding setParams_win_def store_and_check_win_def by (rule refl)

lemma store_and_check_win_wp:
  assumes ok: "\<And>r obj w r2 obj2 w2.
      os (SetCommState (spsw_fd (sps s)) d) (sps s, world s) = (r, obj, w) \<Longrightarrow> w_ret r \<noteq> 0 \<Longrightarrow>
      os (GetCommState (spsw_fd obj)) (obj, w) = (r2, obj2, w2) \<Longrightarrow> w_ret r2 \<noteq> 0 \<Longrightarrow>
      decode_win c (w_dcb r2) (params_to_read p) = Some p \<Longrightarrow>
      Q 0 (wanswered (GetCommState (spsw_fd obj)) r2 obj2 w2
        (wanswered (SetCommState (spsw_fd (sps s)) d) r obj w s))"
    and set_err: "\<And>r obj w e.
      os (SetCommState (spsw_fd (sps s)) d) (sps s, world s) = (r, obj, w) \<Longrightarrow> w_ret r = 0 \<Longrightarrow>
      Q (- 1) (wanswered (SetCommState (spsw_fd (sps s)) d) r obj w s\<lparr>pending := Some e\<rparr>)"
    and get_err: "\<And>r obj w r2 obj2 w2 e.
      os (SetCommState (spsw_fd (sps s)) d) (sps s, world s) = (r, obj, w) \<Longrightarrow> w_ret r \<noteq> 0 \<Longrightarrow>
      os (GetCommState (spsw_fd obj)) (obj, w) = (r2, obj2, w2) \<Longrightarrow>
      w_ret r2 = 0 \<or> decode_win c (w_dcb r2) (params_to_read p) \<noteq> Some p \<Longrightarrow>
      Q (- 1) (wanswered (GetCommState (spsw_fd obj)) r2 obj2 w2
        (wanswered (SetCommState (spsw_fd (sps s)) d) r obj w s)\<lparr>pending := Some e\<rparr>)"
  shows "wp (store_and_check_win c os d p) Q s"
  unfolding store_and_check_win_def wp_bind wp_GetField
  by (rule write_state_win_wp; simp add: wp_simps set_err; rule getParams_win_wp)
    (auto simp: wp_simps intro!: wp_throws intro: ok get_err, (rule get_err; simp)?)

lemma setParams_win_outcome:
  "wp (setParams_win c os d (encode_params p)) (\<lambda>ret s'.
     (ret = 0 \<and> pending s' = pending s \<and> (\<exists>h r. last (calls s') = (GetCommState h, r) \<and> w_ret r \<noteq> 0
        \<and> shows_win c (w_dcb r) p))
     \<or> (ret = - 1 \<and> is_pending s')) s"
proof -
  let ?Q = "\<lambda>ret s'. (ret = 0 \<and> pending s' = pending s \<and> (\<exists>h r. last (calls s') = (GetCommState h, r) \<and> w_ret r \<noteq> 0
        \<and> shows_win c (w_dcb r) p)) \<or> (ret = - 1 \<and> is_pending s')"
  have check: "wp (store_and_check_win c os d4 (encode_params p)) ?Q s" for d4
    by (rule store_and_check_win_wp) (auto simp: windows.read_back shows_win_def)
  have body: "wp (case set_line_win c (encode_params p) d0 of
         Inl msg \<Rightarrow> do { throw_IllegalArgumentException msg; State_Monad.return (- 1) }
       | Inr d4 \<Rightarrow> store_and_check_win c os d4 (encode_params p)) ?Q s" for d0
    using check by (cases "set_line_win c (encode_params p) d0")
      (auto simp: wp_bind wp_return intro!: wp_throws)
  show ?thesis
    unfolding setParams_win_split wp_bind
    by (rule set_speed_win_wp) (simp_all add: body wp_return)
qed

text \<open>A request changes the speed and the abstract line, and keeps the invariant.\<close>

lemma abs_dcb_baud [simp]:
  "abs_dcb c (d\<lparr>BaudRate := b\<rparr>) = abs_dcb c d" "dcb_ok c (d\<lparr>BaudRate := b\<rparr>) = dcb_ok c d"
  by (simp_all add: abs_dcb_def dcb_ok_def dcb_dataBits_def dcb_stopBits_def dcb_parity_def)

lemma apply_shows_win:
  assumes wf: "wf_win c" and ok: "dcb_ok c d" and l: "apply_params both p l0 = Some (abs_dcb c d)"
    and sp: "\<forall>v \<in> set_option (p_speed p). dcb_speed d = Some v"
  shows "shows_win c d p"
  unfolding shows_win_def agrees_def dcb_ok_shows [OF wf ok]
  using apply_params_shows [OF l] sp by auto

lemma setParams_win_refines:
  assumes wf: "wf_win c" and ok: "dcb_ok c d" and port: "faithful_port os (spsw_fd (sps s)) attr tmo"
  shows "wp (setParams_win c os d (encode_params p)) (\<lambda>ret s'.
    case apply_params False p (abs_dcb c d) of
      None \<Rightarrow> ret = - 1 \<and> is_pending s' \<and> calls s' = calls s \<and> world s' = world s \<and> sps s' = sps s
    | Some l \<Rightarrow> ret = 0 \<and> pending s' = pending s \<and> sps s' = sps s \<and> abs_dcb c (attr (world s')) = l
        \<and> dcb_ok c (attr (world s')) \<and> shows_win c (attr (world s')) p
        \<and> (p_speed p = None \<longrightarrow> BaudRate (attr (world s')) = BaudRate d)
        \<and> XonChar (attr (world s')) = XonChar d \<and> XoffChar (attr (world s')) = XoffChar d
        \<and> dcb_rest (attr (world s')) = dcb_rest d \<and> tmo (world s') = tmo (world s)) s"
  (is "wp _ ?Q s")
proof -
  have body: "wp (case set_line_win c (encode_params p) d0 of
         Inl msg \<Rightarrow> do { throw_IllegalArgumentException msg; State_Monad.return (- 1) }
       | Inr d4 \<Rightarrow> store_and_check_win c os d4 (encode_params p)) ?Q s"
    if d0: "dcb_ok c d0" "abs_dcb c d0 = abs_dcb c d" "XonChar d0 = XonChar d" "XoffChar d0 = XoffChar d"
      "dcb_rest d0 = dcb_rest d" "p_speed p = None \<longrightarrow> BaudRate d0 = BaudRate d"
      and sp: "\<forall>v \<in> set_option (p_speed p). dcb_speed d0 = Some v" for d0
  proof (cases "apply_params False p (abs_dcb c d)")
    case None
    then have "isl (set_line_win c (encode_params p) d0)"
      using set_line_win_apply [OF wf d0(1), of p] d0(2) by (simp add: stage_win_def)
    then show ?thesis
      using None by (auto simp: isl_def wp_bind wp_return intro!: wp_throws)
  next
    case (Some l)
    then obtain d4 where d4: "set_line_win c (encode_params p) d0 = Inr d4" "abs_dcb c d4 = l"
        "dcb_ok c d4" "same_rest d0 d4"
      using set_line_win_apply [OF wf d0(1), of p] d0(2) by (auto simp: stage_win_def)
    have sp4: "\<forall>v \<in> set_option (p_speed p). dcb_speed d4 = Some v"
      using sp d4(4) by (simp add: dcb_speed_def same_rest_def)
    have seen: "shows_win c d4 p"
      using apply_shows_win [OF wf d4(3) _ sp4] Some d4(2) by blast
    then have dec: "decode_win c d4 (params_to_read (encode_params p)) = Some (encode_params p)"
      by (simp add: windows.read_back shows_win_def)
    have "wp (store_and_check_win c os d4 (encode_params p)) ?Q s"
      by (rule store_and_check_win_wp)
        (use Some d4 d0 seen dec in \<open>auto dest!: faithful_portD [OF port] simp: same_rest_def\<close>)
    then show ?thesis using d4(1) by simp
  qed
  show ?thesis
    unfolding setParams_win_split wp_bind
  proof (rule set_speed_win_wp)
    show "wp (case Some d of None \<Rightarrow> State_Monad.return (- 1) | Some d0 \<Rightarrow> (case set_line_win c (encode_params p) d0 of
         Inl msg \<Rightarrow> do { throw_IllegalArgumentException msg; State_Monad.return (- 1) }
       | Inr d4 \<Rightarrow> store_and_check_win c os d4 (encode_params p))) ?Q s"
      if "encode_params p AND SPSW_SPEED_MASK = 0"
      using that ok by (simp add: encode_fields) (rule body; simp)
  next
    fix b
    assume "map_of setDCB_Baudrate_cases (encode_params p AND SPSW_SPEED_MASK) = Some b"
      "encode_params p AND SPSW_SPEED_MASK \<noteq> 0"
    then obtain v where v: "p_speed p = Some v" "map_of setDCB_Baudrate_cases (toBitSet_Speed v) = Some b"
      by (auto simp: encode_fields field_def split: option.splits)
    then have "dcb_speed (d\<lparr>BaudRate := b\<rparr>) = Some v"
      using baud_dcb_speed [of "d\<lparr>BaudRate := b\<rparr>"]
      by (cases "dcb_speed (d\<lparr>BaudRate := b\<rparr>)") (auto simp: baud_tables_inverse)
    then show "wp (case Some (d\<lparr>BaudRate := b\<rparr>) of None \<Rightarrow> State_Monad.return (- 1) | Some d0 \<Rightarrow> (case set_line_win c (encode_params p) d0 of
         Inl msg \<Rightarrow> do { throw_IllegalArgumentException msg; State_Monad.return (- 1) }
       | Inr d4 \<Rightarrow> store_and_check_win c os d4 (encode_params p))) ?Q s"
      using ok v by simp (rule body; simp)
  next
    fix e
    assume "encode_params p AND SPSW_SPEED_MASK \<noteq> 0"
      "map_of setDCB_Baudrate_cases (encode_params p AND SPSW_SPEED_MASK) = None"
    then show "wp (case None of None \<Rightarrow> State_Monad.return (- 1) | Some d0 \<Rightarrow> (case set_line_win c (encode_params p) d0 of
         Inl msg \<Rightarrow> do { throw_IllegalArgumentException msg; State_Monad.return (- 1) }
       | Inr d4 \<Rightarrow> store_and_check_win c os d4 (encode_params p))) ?Q (s\<lparr>pending := Some e\<rparr>)"
      using baud_total [of "the (p_speed p)"] by (auto simp: encode_fields field_def split: option.splits)
  qed
qed

section \<open>Characters and timeouts\<close>

definition setParameters_then_get_win :: "winapi \<Rightarrow> 'w wos \<Rightarrow> jint \<Rightarrow> jint \<Rightarrow> ('w wstate, jint) state" where
  "setParameters_then_get_win c os p m = do {
     setParameters_win c os p;
     getParameters_win c os m
   }"

lemma setParameters_win_back:
  assumes wf: "wf_win c" and ok: "dcb_ok c (attr (world s))" and port: "faithful_port os (spsw_fd (sps s)) attr tmo"
    and l: "apply_params False p (abs_dcb c (attr (world s))) = Some l"
  shows "wp (setParameters_then_get_win c os (encode_params p) (params_to_read (encode_params p)))
    (\<lambda>x s'. x = encode_params p \<and> pending s' = pending s \<and> abs_dcb c (attr (world s')) = l
       \<and> dcb_ok c (attr (world s'))) s"
proof -
  obtain r obj w where get: "os (GetCommState (spsw_fd (sps s))) (sps s, world s) = (r, obj, w)"
    by (metis prod_cases3)
  note g = faithful_portD(1) [OF port get]
  then have nz: "(w_ret r = 0) = False" by simp
  let ?s1 = "wanswered (GetCommState (spsw_fd (sps s))) r obj w s"
  have port1: "faithful_port os (spsw_fd (sps ?s1)) attr tmo" using port g by simp
  have ok1: "dcb_ok c (w_dcb r)" using ok g by simp
  have set: "wp (setParams_win c os (w_dcb r) (encode_params p)) (\<lambda>ret s'.
      pending s' = pending s \<and> sps s' = sps s \<and> abs_dcb c (attr (world s')) = l
        \<and> dcb_ok c (attr (world s')) \<and> shows_win c (attr (world s')) p) ?s1"
    by (rule wp_mono [OF setParams_win_refines [OF wf ok1 port1]]) (use g l in simp)
  have dec: "decode_win c d (params_to_read (encode_params p)) = Some (encode_params p)"
    if "shows_win c d p" for d
    using that by (simp add: windows.read_back shows_win_def)
  show ?thesis
    unfolding setParameters_then_get_win_def setParameters_win_def wp_bind wp_GetField wp_wincall get
    unfolding prod.case nz if_False wp_bind
  proof (rule wp_mono [OF set], unfold wp_return getParameters_win_def wp_bind, rule getParams_win_wp)
  qed (auto simp: wp_return dec dest!: faithful_portD(1) [OF port])
qed

lemma setXONChar_win_stored:
  assumes port: "faithful_port os (spsw_fd (sps s)) attr tmo"
  shows "wp (setXONChar_win c os ch) (\<lambda>_ s'. pending s' = pending s \<and> sps s' = sps s \<and>
    attr (world s') = (attr (world s))\<lparr>XonChar := ucast ch\<rparr>) s"
  unfolding setXONChar_win_def wp_bind wp_GetField
  by (rule wincall_wp, drule faithful_portD(1) [OF port])
    (auto simp: wp_simps intro!: write_state_win_wp dest!: faithful_portD(2) [OF port])

lemma getXONChar_win_read:
  assumes port: "faithful_port os (spsw_fd (sps s)) attr tmo"
  shows "wp (getXONChar_win os) (\<lambda>ch s'. pending s' = pending s \<and> sps s' = sps s \<and>
    attr (world s') = attr (world s) \<and> ch = ucast (XonChar (attr (world s)))) s"
  unfolding getXONChar_win_def wp_bind wp_GetField
  by (rule wincall_wp, drule faithful_portD(1) [OF port]) (auto simp: wp_simps)

lemma getXOFFChar_win_read:
  assumes port: "faithful_port os (spsw_fd (sps s)) attr tmo"
  shows "wp (getXOFFChar_win os) (\<lambda>ch s'. pending s' = pending s \<and> sps s' = sps s \<and>
    attr (world s') = attr (world s) \<and> ch = ucast (XoffChar (attr (world s)))) s"
  unfolding getXOFFChar_win_def wp_bind wp_GetField
  by (rule wincall_wp, drule faithful_portD(1) [OF port]) (auto simp: wp_simps)

text \<open>The three timeouts as Java reads them back.\<close>

definition getTimeouts_win :: "'w wos \<Rightarrow> ('w wstate, int \<times> int \<times> int) state" where
  "getTimeouts_win os = do {
     interByte \<leftarrow> getInterByteReadTimeout os;
     overallRead \<leftarrow> getOverallReadTimeout os;
     overallWrite \<leftarrow> getOverallWriteTimeout os;
     State_Monad.return (interByte, overallRead, overallWrite)
   }"

lemma wp_dword_timeout [wp_simps]:
  "wp (dword_timeout v msg) Q s \<longleftrightarrow>
     Q (sint v) (if sint v < 0 then s\<lparr>pending := Some (RuntimeException msg)\<rparr> else s)"
  by (simp add: dword_timeout_def wp_simps throw_RuntimeException_def)

lemma sint_small: "0 \<le> v \<Longrightarrow> v < 2 ^ 31 \<Longrightarrow> sint (word_of_int v :: 32 word) = v"
  by (simp add: sint_sbintrunc' signed_take_bit_int_eq_self)

lemma not_MAXDWORD: "0 \<le> v \<Longrightarrow> v < 2 ^ 31 \<Longrightarrow> (word_of_int v :: 32 word) \<noteq> MAXDWORD"
  using sint_small [of v] by (auto simp: MAXDWORD_def)

lemma getTimeout_win_reads:
  assumes port: "faithful_port os (spsw_fd (sps s)) attr tmo"
  defines "kept s' x \<equiv> (0 \<le> x \<longrightarrow> pending s' = pending s) \<and> sps s' = sps s \<and> tmo (world s') = tmo (world s)"
  shows "wp (getInterByteReadTimeout os) (\<lambda>x s'. kept s' x \<and> x =
      (if ReadIntervalTimeout (tmo (world s)) = MAXDWORD \<and> ReadTotalTimeoutMultiplier (tmo (world s)) = MAXDWORD
       then 0 else sint (ReadIntervalTimeout (tmo (world s))))) s"
    and "wp (getOverallReadTimeout os) (\<lambda>x s'. kept s' x \<and> x = sint (ReadTotalTimeoutConstant (tmo (world s)))) s"
    and "wp (getOverallWriteTimeout os) (\<lambda>x s'. kept s' x \<and> x = sint (WriteTotalTimeoutConstant (tmo (world s)))) s"
  unfolding getInterByteReadTimeout_def getOverallReadTimeout_def getOverallWriteTimeout_def wp_bind wp_GetField
  by (rule wincall_wp, drule faithful_portD(3) [OF port], simp add: wp_simps kept_def)+

lemma getTimeouts_win_read:
  assumes port: "faithful_port os (spsw_fd (sps s)) attr tmo"
    and t: "tmo (world s) = comm_timeouts a b d t0"
    and range: "0 \<le> a" "a < 2 ^ 31" "0 \<le> b" "b < 2 ^ 31" "0 \<le> d" "d < 2 ^ 31"
  shows "wp (getTimeouts_win os) (\<lambda>x s'. x = (a, b, d) \<and> pending s' = pending s) s"
proof -
  have f: "(if ReadIntervalTimeout (comm_timeouts a b d t0) = MAXDWORD
        \<and> ReadTotalTimeoutMultiplier (comm_timeouts a b d t0) = MAXDWORD
       then 0 else sint (ReadIntervalTimeout (comm_timeouts a b d t0))) = a"
    "sint (ReadTotalTimeoutConstant (comm_timeouts a b d t0)) = b"
    "sint (WriteTotalTimeoutConstant (comm_timeouts a b d t0)) = d"
    using range not_MAXDWORD [of a] by (simp_all add: comm_timeouts_def sint_small Let_def)
  note reads = getTimeout_win_reads(1) [OF port, unfolded t f]
    getTimeout_win_reads(2) [where os = os and attr = attr and tmo = tmo]
    getTimeout_win_reads(3) [where os = os and attr = attr and tmo = tmo]
  show ?thesis
    unfolding getTimeouts_win_def wp_bind
    by (rule wp_mono [OF reads(1)], rule wp_mono [OF reads(2)], use port in simp,
        rule wp_mono [OF reads(3)], use port in simp) (use f t range in \<open>simp add: wp_return\<close>)
qed

lemma setTimeouts_win_stored:
  assumes port: "faithful_port os (spsw_fd (sps s)) attr tmo" and "0 \<le> a" "0 \<le> b" "0 \<le> d"
  shows "wp (setTimeouts_win c os a b d) (\<lambda>_ s'. pending s' = pending s \<and> sps s' = sps s \<and>
    tmo (world s') = comm_timeouts a b d (tmo (world s)) \<and> attr (world s') = attr (world s)) s"
  unfolding setTimeouts_win_def wp_bind wp_GetField
  using assms(2-4)
  by (intro wincall_wp, drule_tac faithful_portD(3) [OF port])
    (auto simp: wp_simps split: prod.splits dest!: faithful_portD(4) [OF port])

section \<open>Properties\<close>

definition request_7E2 :: params where
  "request_7E2 = \<lparr>p_speed = Some BPS_19200, p_dataBits = Some DB_7, p_stopBits = Some SB_2,
     p_parity = Some EVEN, p_flow = Some [RTS_CTS_IN]\<rparr>"

text \<open>
  C14: whatever the driver answers, the Windows \<open>setParams\<close> returns 0 only when its last
  call was a successful \<open>GetCommState\<close> that shows every requested parameter; else it
  returns -1 and an exception is pending.
\<close>

theorem setParams_win_sound:
  "case run_state (setParams_win c os d (encode_params p)) s of (ret, s') \<Rightarrow>
     (ret = 0 \<and> pending s' = pending s \<and> (\<exists>h r. last (calls s') = (GetCommState h, r) \<and> w_ret r \<noteq> 0
        \<and> shows_win c (w_dcb r) p))
     \<or> (ret = - 1 \<and> is_pending s')"
  using setParams_win_outcome [of c os d p s] by (simp add: wp_def)

text \<open>
  C15: on a driver that keeps its settings, and from a consistent \<open>DCB\<close>, the Windows
  \<open>setParams\<close> refines the abstract update of a line. A request that the line cannot take
  throws before the driver is called; else exactly the updated line is stored, the settings stay
  consistent, and everything the request does not name is kept.
\<close>

theorem setParams_win_refinement:
  assumes "wf_win c" and "dcb_ok c d" and "faithful_port os (spsw_fd (sps s)) attr tmo"
  shows "case run_state (setParams_win c os d (encode_params p)) s of (ret, s') \<Rightarrow>
    (case apply_params False p (abs_dcb c d) of
      None \<Rightarrow> ret = - 1 \<and> is_pending s' \<and> calls s' = calls s \<and> world s' = world s \<and> sps s' = sps s
    | Some l \<Rightarrow> ret = 0 \<and> pending s' = pending s \<and> sps s' = sps s \<and> abs_dcb c (attr (world s')) = l
        \<and> dcb_ok c (attr (world s')) \<and> shows_win c (attr (world s')) p
        \<and> (p_speed p = None \<longrightarrow> BaudRate (attr (world s')) = BaudRate d)
        \<and> XonChar (attr (world s')) = XonChar d \<and> XoffChar (attr (world s')) = XoffChar d
        \<and> dcb_rest (attr (world s')) = dcb_rest d \<and> tmo (world s') = tmo (world s))"
  using setParams_win_refines [OF assms] by (simp add: wp_def split: prod.splits)

lemma dcb_ok_no_dcb [simp]: "dcb_ok windows_consts no_dcb"
  by (simp add: dcb_ok_def no_dcb_def windows_consts_def dcb_dataBits_def dcb_stopBits_def dcb_parity_def)

lemma apply_request_7E2:
  "apply_params False request_7E2 l = Some (l\<lparr>l_dataBits := DB_7, l_two := True, l_parity := EVEN, l_rts := True,
     l_cts := False, l_xin := False, l_xout := False\<rparr>)"
  by (simp add: request_7E2_def apply_params_def apply_dataBits_def apply_stopBits_def apply_parity_def apply_flow_def)

theorem setParams_win_refinement_witness:
  "case run_state (setParams_win windows_consts port_device no_dcb (encode_params request_7E2))
      (windows_state (no_dcb, no_timeouts)) of (ret, s') \<Rightarrow>
    ret = 0 \<and> pending s' = None \<and> dcb_ok windows_consts (fst (world s')) \<and>
    shows_win windows_consts (fst (world s')) request_7E2 \<and> XonChar (fst (world s')) = 17"
  using setParams_win_refinement [OF wf_windows dcb_ok_no_dcb, of port_device "windows_state (no_dcb, no_timeouts)" fst snd request_7E2]
  by (simp add: apply_request_7E2 split: prod.splits) (simp add: no_dcb_def)

text \<open>
  All five parameters, written with \<open>setParameters\<close> and read with \<open>getParameters\<close>
  on Windows, decode in Java to the enumerations that were encoded.
\<close>

theorem parameters_roundtrip_win:
  assumes "wf_win c" and "dcb_ok c (attr (world s))" and "faithful_port os (spsw_fd (sps s)) attr tmo"
    and "p = \<lparr>p_speed = Some v, p_dataBits = Some d, p_stopBits = Some b, p_parity = Some q, p_flow = Some F\<rparr>"
    and "apply_params False p (abs_dcb c (attr (world s))) = Some l"
  shows "case run_state (setParameters_then_get_win c os (open_bitset v d b q F)
      (params_to_read (open_bitset v d b q F))) s of (x, s') \<Rightarrow>
    pending s' = pending s \<and> speedFromBitSet x = Some v \<and> dataBitsFromBitSet x = Some d
    \<and> stopBitsFromBitSet x = Some b \<and> parityFromBitSet x = Some q \<and> set (flowControlFromBitSet x) = set F"
proof -
  have p: "open_bitset v d b q F = encode_params p" by (simp add: open_bitset_encode assms(4))
  have "speedFromBitSet (encode_params p) = Some v \<and> dataBitsFromBitSet (encode_params p) = Some d \<and>
    stopBitsFromBitSet (encode_params p) = Some b \<and> parityFromBitSet (encode_params p) = Some q \<and>
    set (flowControlFromBitSet (encode_params p)) = set F"
    by (simp add: assms(4) encode_fields field_def decode_speed decode_dataBits decode_stopBits decode_parity decode_flow)
  then show ?thesis
    using setParameters_win_back [OF assms(1,2,3,5)] unfolding p by (auto simp: wp_def split: prod.splits)
qed

theorem parameters_roundtrip_win_witness:
  "case run_state (setParameters_then_get_win windows_consts port_device
      (open_bitset BPS_19200 DB_7 SB_2 EVEN [RTS_CTS_IN]) (params_to_read (open_bitset BPS_19200 DB_7 SB_2 EVEN [RTS_CTS_IN])))
      (windows_state (no_dcb, no_timeouts)) of (x, s') \<Rightarrow>
    pending s' = None \<and> speedFromBitSet x = Some BPS_19200 \<and> dataBitsFromBitSet x = Some DB_7
    \<and> stopBitsFromBitSet x = Some SB_2 \<and> parityFromBitSet x = Some EVEN \<and> set (flowControlFromBitSet x) = {RTS_CTS_IN}"
  using parameters_roundtrip_win [OF wf_windows, of fst "windows_state (no_dcb, no_timeouts)" port_device snd request_7E2,
      OF _ _ request_7E2_def apply_request_7E2]
  by simp

text \<open>
  Timeouts that \<open>setTimeouts\<close> accepts on Windows are read back unchanged, also the pair
  of no inter byte timeout and an overall read timeout, which the driver holds as two \<open>MAXDWORD\<close>s.
\<close>

theorem timeouts_roundtrip_win:
  fixes os :: "'a wos"
  assumes "faithful_port os (spsw_fd (sps s)) attr tmo"
    and "0 \<le> a" "a < 2 ^ 31" "0 \<le> b" "b < 2 ^ 31" "0 \<le> d" "d < 2 ^ 31"
  shows "case run_state (do { setTimeouts_win c os a b d; getTimeouts_win os }) s of (x, s') \<Rightarrow>
    x = (a, b, d) \<and> pending s' = pending s"
proof -
  have "wp (do { setTimeouts_win c os a b d; getTimeouts_win os }) (\<lambda>x s'. x = (a, b, d) \<and> pending s' = pending s) s"
    unfolding wp_bind
  proof (rule wp_mono [OF setTimeouts_win_stored [OF assms(1,2,4,6)]])
    fix u and s' :: "'a wstate"
    assume s': "pending s' = pending s \<and> sps s' = sps s \<and> tmo (world s') = comm_timeouts a b d (tmo (world s))
      \<and> attr (world s') = attr (world s)"
    then have "faithful_port os (spsw_fd (sps s')) attr tmo" using assms(1) by simp
    from getTimeouts_win_read [OF this, of a b d "tmo (world s)"] s' assms(2-7)
    show "wp (getTimeouts_win os) (\<lambda>x s'. x = (a, b, d) \<and> pending s' = pending s) s'" by simp
  qed
  then show ?thesis by (simp add: wp_def split: prod.splits)
qed

theorem timeouts_roundtrip_win_witness:
  "case run_state (do { setTimeouts_win windows_consts port_device 0 500 1000; getTimeouts_win port_device })
      (windows_state (no_dcb, no_timeouts)) of (x, s') \<Rightarrow> x = (0, 500, 1000) \<and> pending s' = None"
  using timeouts_roundtrip_win [of port_device "windows_state (no_dcb, no_timeouts)" fst snd 0 500 1000 windows_consts]
  by simp

text \<open>
  On Windows a flow control character below 256 is read back as it was set, and the other
  one is unchanged.
\<close>

theorem setXONChar_win_getXONChar:
  assumes "faithful_port os (spsw_fd (sps s)) attr tmo" and "uint ch < 256"
  shows "case run_state (do { setXONChar_win c os ch; x \<leftarrow> getXONChar_win os; y \<leftarrow> getXOFFChar_win os;
      State_Monad.return (x, y) }) s of ((x, y), s') \<Rightarrow>
    x = ch \<and> y = ucast (XoffChar (attr (world s))) \<and> pending s' = pending s"
proof -
  have "wp (do { setXONChar_win c os ch; x \<leftarrow> getXONChar_win os; y \<leftarrow> getXOFFChar_win os;
      State_Monad.return (x, y) }) (\<lambda>(x, y) s'. x = ch \<and> y = ucast (XoffChar (attr (world s))) \<and> pending s' = pending s) s"
    unfolding wp_bind
    by (rule wp_mono [OF setXONChar_win_stored [OF assms(1)]],
        rule wp_mono [OF getXONChar_win_read [where attr = attr and tmo = tmo]], use assms(1) in simp,
        rule wp_mono [OF getXOFFChar_win_read [where attr = attr and tmo = tmo]], use assms(1) in simp)
      (simp add: wp_return ucast_low_byte [OF assms(2)])
  then show ?thesis by (simp add: wp_def split: prod.splits)
qed

theorem setXONChar_win_getXONChar_witness:
  "case run_state (do { setXONChar_win windows_consts port_device 26; x \<leftarrow> getXONChar_win port_device;
      y \<leftarrow> getXOFFChar_win port_device; State_Monad.return (x, y) }) (windows_state (no_dcb, no_timeouts))
    of ((x, y), s') \<Rightarrow> x = 26 \<and> y = 19 \<and> pending s' = None"
  using setXONChar_win_getXONChar [of port_device "windows_state (no_dcb, no_timeouts)" fst snd 26 windows_consts]
  by (simp add: no_dcb_def split: prod.splits)

end
