(* ===== verification/WinApiCommon.thy ===== *)
theory WinApiCommon
  imports WinApiLine "HOL-Library.Multiset"
begin

text \<open>
  \<open>WinApiCommon.c\<close>: opening and closing a Windows port, its modem status and buffer
  counters, and the list of the ports in the registry. The lemmas follow the handles of the
  process: what an operation opens is either recorded in the Java object or closed again.
\<close>

definition INVALID_HANDLE_VALUE :: int where
  "INVALID_HANDLE_VALUE = - 1"

section \<open>Modem status and buffer counters\<close>

definition getCommModemStatus :: "'w wos \<Rightarrow> 32 word \<Rightarrow> ('w wstate, bool) state" where
  "getCommModemStatus os bitMask = do {
     hFile \<leftarrow> GetField spsw_fd;
     r \<leftarrow> wincall os (GetCommModemStatus hFile);
     if w_ret r = 0 then do {
       throw_ClosedOrNativeException ''Can't get GetCommModemStatus'';
       State_Monad.return False
     } else State_Monad.return (w_dword r AND bitMask = bitMask)
   }"

definition isCTS_win :: "winapi \<Rightarrow> 'w wos \<Rightarrow> ('w wstate, bool) state" where
  "isCTS_win c os = getCommModemStatus os (MS_CTS_ON c)"

definition isDSR_win :: "winapi \<Rightarrow> 'w wos \<Rightarrow> ('w wstate, bool) state" where
  "isDSR_win c os = getCommModemStatus os (MS_DSR_ON c)"

definition isDCD_win :: "winapi \<Rightarrow> 'w wos \<Rightarrow> ('w wstate, bool) state" where
  "isDCD_win c os = getCommModemStatus os (MS_RLSD_ON c)"

definition isRI_win :: "winapi \<Rightarrow> 'w wos \<Rightarrow> ('w wstate, bool) state" where
  "isRI_win c os = getCommModemStatus os (MS_RING_ON c)"

text \<open>The two counters of \<open>ClearCommError\<close>: \<open>cbInQue\<close> and \<open>cbOutQue\<close>.\<close>

definition getInBufferBytesCount_win :: "'w wos \<Rightarrow> ('w wstate, int) state" where
  "getInBufferBytesCount_win os = do {
     hFile \<leftarrow> GetField spsw_fd;
     r \<leftarrow> wincall os (ClearCommError hFile);
     if w_ret r \<noteq> 0 then State_Monad.return (sint (w_dword r))
     else do {
       throw_ClosedOrNativeException ''getInBufferBytesCount ClearCommError'';
       State_Monad.return (- 1)
     }
   }"

definition getOutBufferBytesCount_win :: "'w wos \<Rightarrow> ('w wstate, int) state" where
  "getOutBufferBytesCount_win os = do {
     hFile \<leftarrow> GetField spsw_fd;
     r \<leftarrow> wincall os (ClearCommError hFile);
     if w_ret r \<noteq> 0 then State_Monad.return (sint (w_dword2 r))
     else do {
       throw_ClosedOrNativeException ''getOutBufferBytesCount ClearCommError'';
       State_Monad.return (- 1)
     }
   }"

section \<open>Closing\<close>

text \<open>What the cleaner of the Java object runs; its results are not looked at.\<close>

definition closeFd_win :: "'w wos \<Rightarrow> int \<Rightarrow> ('w wstate, unit) state" where
  "closeFd_win os hFile = do {
     _ \<leftarrow> wincall os (CancelIo hFile);
     _ \<leftarrow> wincall os (CloseHandle hFile);
     State_Monad.return ()
   }"

definition close_handle :: "'w wos \<Rightarrow> int \<Rightarrow> ('w wstate, unit) state" where
  "close_handle os hFile = do {
     r \<leftarrow> wincall os (CloseHandle hFile);
     if w_ret r = 0 then throw_IOException_NativeError ''Can't close port''
     else State_Monad.return ()
   }"

definition close0_win :: "winapi \<Rightarrow> 'w wos \<Rightarrow> ('w wstate, unit) state" where
  "close0_win c os = do {
     hFile \<leftarrow> GetField spsw_fd;
     SetField (spsw_fd_update (\<lambda>_. INVALID_HANDLE_VALUE));
     r \<leftarrow> wincall os (CancelIo hFile);
     e \<leftarrow> GetLastError;
     if w_ret r = 0 \<and> e \<noteq> ERROR_NOT_FOUND c then do {
       throw_IOException_NativeError ''Can't cancel io for closing'';
       SetField (spsw_fd_update (\<lambda>_. hFile))
     } else close_handle os hFile
   }"

section \<open>Opening\<close>

text \<open>\<open>CloseHandle(hFile)\<close> and the handle of the Java object reset, as every failure does.\<close>

definition close_again_win :: "'w wos \<Rightarrow> int \<Rightarrow> ('w wstate, unit) state" where
  "close_again_win os hFile = do {
     _ \<leftarrow> wincall os (CloseHandle hFile);
     SetField (spsw_fd_update (\<lambda>_. INVALID_HANDLE_VALUE))
   }"

definition open_error_win :: "winapi \<Rightarrow> string \<Rightarrow> ('w wstate, unit) state" where
  "open_error_win c portName = do {
     e \<leftarrow> GetLastError;
     if e = ERROR_ACCESS_DENIED c
     then throw_IOException_withPortName (''Port is busy: '' @ [CHR 0x22] @ ''%s'' @ [CHR 0x22]) portName
     else if e = ERROR_FILE_NOT_FOUND c
     then throw_IOException_withPortName (''Port not found: '' @ [CHR 0x22] @ ''%s'' @ [CHR 0x22]) portName
     else throw_IOException_NativeError ''Open''
   }"

definition open_timeouts :: "'w wos \<Rightarrow> int \<Rightarrow> ('w wstate, unit) state" where
  "open_timeouts os hFile = do {
     g \<leftarrow> wincall os (GetCommTimeouts hFile);
     if w_ret g = 0 then do {
       close_again_win os hFile;
       throw_IOException_NativeError ''Open GetCommTimeouts''
     } else do {
       t \<leftarrow> wincall os (SetCommTimeouts hFile ((w_timeouts g)\<lparr>ReadIntervalTimeout := 100,
         ReadTotalTimeoutConstant := 0, ReadTotalTimeoutMultiplier := 0,
         WriteTotalTimeoutConstant := 0, WriteTotalTimeoutMultiplier := 0\<rparr>));
       if w_ret t = 0 then do {
         close_again_win os hFile;
         throw_IOException_NativeError ''Open SetCommTimeouts''
       } else State_Monad.return ()
     }
   }"

text \<open>Everything behind \<open>CreateFile\<close>: the new handle is recorded already.\<close>

definition configure_win ::
  "winapi \<Rightarrow> 'w wos \<Rightarrow> string \<Rightarrow> int \<Rightarrow> jint \<Rightarrow> ('w wstate, unit) state" where
  "configure_win c os portName hFile paramBitSet = do {
     g \<leftarrow> wincall os (GetCommState hFile);
     if w_ret g = 0 then do {
       close_again_win os hFile;
       throw_IOException_withPortName (''Not a serial port: '' @ [CHR 0x22] @ ''%s'' @ [CHR 0x22]) portName
     } else do {
       ret \<leftarrow> (if paramBitSet \<noteq> SPSW_NO_PARAMS_TO_SET then setParams_win c os (w_dcb g) paramBitSet
              else State_Monad.return 0);
       if ret \<noteq> 0 then close_again_win os hFile
       else open_timeouts os hFile
     }
   }"

definition device_name :: "string \<Rightarrow> string" where
  "device_name port = [CHR 0x5C, CHR 0x5C, CHR ''.'', CHR 0x5C] @ port"

definition open0_win :: "winapi \<Rightarrow> 'w wos \<Rightarrow> string \<Rightarrow> jint \<Rightarrow> ('w wstate, unit) state" where
  "open0_win c os portName paramBitSet = do {
     old \<leftarrow> GetField spsw_fd;
     if old \<noteq> INVALID_HANDLE_VALUE then throw_IOException_Opend
     else do {
       f \<leftarrow> wincall os (CreateFile (device_name portName));
       if w_ret f = INVALID_HANDLE_VALUE then do {
         SetField (spsw_fd_update (\<lambda>_. INVALID_HANDLE_VALUE));
         open_error_win c portName
       } else do {
         SetField (spsw_fd_update (\<lambda>_. w_ret f));
         configure_win c os portName (w_ret f) paramBitSet
       }
     }
   }"

section \<open>The ports of the registry\<close>

text \<open>
  The method id of \<open>List.add\<close> is a static variable: whether it is set goes in and comes
  out. The result has the key of the registry when it could be opened.
\<close>

definition open_serialcomm :: "winapi \<Rightarrow> 'w wos \<Rightarrow> bool \<Rightarrow> ('w wstate, bool \<times> int option) state" where
  "open_serialcomm c os list_addID = do {
     found \<leftarrow> (if list_addID then State_Monad.return True
               else do {
                 cls \<leftarrow> FindClass ''java/util/List'';
                 if cls then GetMethodID ''java/util/List'' ''add'' ''(Ljava/lang/Object;)Z''
                 else State_Monad.return False
               });
     if \<not> found then State_Monad.return (False, None)
     else do {
       r \<leftarrow> wincall os (RegOpenKeyExW (''HARDWARE'' @ [CHR 0x5C] @ ''DEVICEMAP'' @ [CHR 0x5C] @ ''SERIALCOMM'' @ [CHR 0x5C]));
       State_Monad.return (True, if w_ret r = ERROR_SUCCESS c then Some (w_handle r) else None)
     }
   }"

text \<open>
  \<open>NewString\<close> makes a Java string of the first \<open>len\<close> UTF-16 units; a NULL result has
  thrown.
\<close>

definition NewStringJ :: "'w wos \<Rightarrow> 16 word list \<Rightarrow> int \<Rightarrow> ('w wstate, bool) state" where
  "NewStringJ os chars len = do {
     r \<leftarrow> wincall os (NewString chars len);
     if w_ret r = 0 then do {
       Throw (OutOfMemoryError '''');
       State_Monad.return False
     } else State_Monad.return True
   }"

text \<open>The number of units before the terminating zero, computed in \<open>size_t\<close> from a byte count.\<close>

definition value_length :: "32 word \<Rightarrow> int" where
  "value_length lpcbData = int32 (size_t (uint lpcbData div 2 - 1))"

text \<open>
  One round of the loop over the entries, from the index and the names added to the Java list so
  far: \<open>Inl True\<close> is the end of the loop, \<open>Inl False\<close> the \<open>return\<close> inside it.
\<close>

definition enum_round :: "winapi \<Rightarrow> 'w wos \<Rightarrow> int \<Rightarrow> int \<times> 16 word list list \<Rightarrow>
    ('w wstate, (bool \<times> 16 word list list) + (int \<times> 16 word list list)) state" where
  "enum_round c os key = (\<lambda>(dwIndex, names). do {
     r \<leftarrow> wincall os (RegEnumValueW key dwIndex);
     if w_ret r = ERROR_SUCCESS c then
       (if w_dword r = REG_SZ c then do {
          made \<leftarrow> NewStringJ os (w_chars r) (value_length (w_dword2 r));
          State_Monad.return (if \<not> made then Inl (False, names)
            else Inr (uint32 (dwIndex + 1), names @ [take (nat (value_length (w_dword2 r))) (w_chars r)]))
        } else State_Monad.return (Inr (uint32 (dwIndex + 1), names)))
     else if w_ret r = ERROR_NO_MORE_ITEMS c then State_Monad.return (Inl (True, names))
     else State_Monad.return (Inr (dwIndex, names))
   })"

definition getWindowsBasedPortNames ::
  "winapi \<Rightarrow> 'w wos \<Rightarrow> bool \<Rightarrow> 'w wstate \<Rightarrow> ((bool \<times> 16 word list list) \<times> 'w wstate) option" where
  "getWindowsBasedPortNames c os list_addID s =
     (case run_state (open_serialcomm c os list_addID) s of ((addID, key), s1) \<Rightarrow> (case key of
        None \<Rightarrow> Some ((addID, []), s1)
      | Some k \<Rightarrow> (case do_while (\<lambda>a. run_state (enum_round c os k a)) (0, []) s1 of
          None \<Rightarrow> None
        | Some ((ended, names), s2) \<Rightarrow>
            Some ((addID, names), if ended then snd (run_state (wincall os (CloseHandle k)) s2) else s2))))"

section \<open>The handles the process holds\<close>

definition whold :: "wcall \<Rightarrow> wresp \<Rightarrow> int multiset \<Rightarrow> int multiset" where
  "whold c r M = (case c of
       CreateFile _ \<Rightarrow> if w_ret r = - 1 then M else add_mset (w_ret r) M
     | CreateEventA \<Rightarrow> if w_ret r = 0 then M else add_mset (w_ret r) M
     | RegOpenKeyExW _ \<Rightarrow> if w_ret r = 0 then add_mset (w_handle r) M else M
     | CloseHandle h \<Rightarrow> M - {#h#}
     | _ \<Rightarrow> M)"

definition whandles :: "'w wstate \<Rightarrow> int multiset" where
  "whandles s = fold (\<lambda>(c, r). whold c r) (calls s) {#}"

lemma whandles_answered [simp]: "whandles (wanswered c r obj w s) = whold c r (whandles s)"
  by (simp add: whandles_def)

lemma whandles_upd [simp]: "whandles (s\<lparr>pending := e\<rparr>) = whandles s" "whandles (s\<lparr>sps := x\<rparr>) = whandles s"
  by (simp_all add: whandles_def)

text \<open>Calls that neither open nor close a handle.\<close>

definition wneutral :: "wcall \<Rightarrow> bool" where
  "wneutral c = (case c of CreateFile _ \<Rightarrow> False | CreateEventA \<Rightarrow> False | RegOpenKeyExW _ \<Rightarrow> False
     | CloseHandle _ \<Rightarrow> False | _ \<Rightarrow> True)"

lemma whold_wneutral [simp]: "wneutral c \<Longrightarrow> whold c r M = M"
  by (cases c) (simp_all add: whold_def wneutral_def)

lemma wneutral_simps [simp]:
  "wneutral (CancelIo h)" "wneutral (GetCommState h)" "wneutral (SetCommState h d)"
  "wneutral (GetCommTimeouts h)" "wneutral (SetCommTimeouts h t)" "wneutral (ReadFile h n e)"
  "wneutral (WriteFile h bs e)" "wneutral (WaitForSingleObject e)" "wneutral (GetOverlappedResult h e)"
  "wneutral (RegEnumValueW h i)" "wneutral (NewString xs n)"
  by (simp_all add: wneutral_def)

lemma whold_simps [simp]:
  "whold (CreateFile n) r M = (if w_ret r = - 1 then M else add_mset (w_ret r) M)"
  "whold CreateEventA r M = (if w_ret r = 0 then M else add_mset (w_ret r) M)"
  "whold (RegOpenKeyExW k) r M = (if w_ret r = 0 then add_mset (w_handle r) M else M)"
  "whold (CloseHandle h) r M = M - {#h#}"
  by (simp_all add: whold_def)

lemma is_pending_wupd [simp]:
  "is_pending (wanswered c r obj w s) = is_pending s"
  by (simp add: is_pending_def)

section \<open>What open0 leaves behind\<close>

lemma setParams_win_frame:
  assumes q: "wquiet os"
  shows "wp (setParams_win c os d p) (\<lambda>ret s'. sps s' = sps s \<and> whandles s' = whandles s \<and>
    (if ret = 0 then pending s' = pending s else is_pending s')) s"
proof -
  let ?Q = "\<lambda>ret s'. sps s' = sps s \<and> whandles s' = whandles s \<and> (if ret = 0 then pending s' = pending s else is_pending s')"
  have check: "wp (store_and_check_win c os d4 p) ?Q s" for d4
    by (rule store_and_check_win_wp) (auto dest!: wquietD [OF q])
  have body: "wp (case set_line_win c p d0 of
         Inl msg \<Rightarrow> do { throw_IllegalArgumentException msg; State_Monad.return (- 1) }
       | Inr d4 \<Rightarrow> store_and_check_win c os d4 p) ?Q s" for d0
    using check by (cases "set_line_win c p d0") (auto simp: wp_bind wp_return intro!: wp_throws)
  show ?thesis
    unfolding setParams_win_split wp_bind by (rule set_speed_win_wp) (simp_all add: body wp_return)
qed

text \<open>
  The outcomes of an attempt to open a port that was not open: the port is open, its handle is
  the one recorded and its read interval timeout is set; or an exception is pending and
  everything is as before.
\<close>

definition opened_win :: "'w wstate \<Rightarrow> 'w wstate \<Rightarrow> bool" where
  "opened_win s s' \<longleftrightarrow> pending s' = pending s \<and> spsw_fd (sps s') \<noteq> INVALID_HANDLE_VALUE \<and>
     sps s' = (sps s)\<lparr>spsw_fd := spsw_fd (sps s')\<rparr> \<and> whandles s' = add_mset (spsw_fd (sps s')) (whandles s) \<and>
     (\<exists>t r. last (calls s') = (SetCommTimeouts (spsw_fd (sps s')) t, r) \<and> w_ret r \<noteq> 0 \<and>
       ReadIntervalTimeout t = 100 \<and> ReadTotalTimeoutConstant t = 0 \<and> WriteTotalTimeoutConstant t = 0)"

definition not_opened_win :: "'w wstate \<Rightarrow> 'w wstate \<Rightarrow> bool" where
  "not_opened_win s s' \<longleftrightarrow> is_pending s' \<and> whandles s' = whandles s \<and>
     sps s' = (sps s)\<lparr>spsw_fd := INVALID_HANDLE_VALUE\<rparr>"

definition half_open_win :: "'w wstate \<Rightarrow> int \<Rightarrow> 'w wstate \<Rightarrow> bool" where
  "half_open_win s h s1 \<longleftrightarrow> pending s1 = pending s \<and> sps s1 = (sps s)\<lparr>spsw_fd := h\<rparr> \<and>
     whandles s1 = add_mset h (whandles s) \<and> h \<noteq> INVALID_HANDLE_VALUE"

lemma half_open_win_answered:
  assumes "wquiet os" and "half_open_win s h s1" and "os c (sps s1, world s1) = (r, obj, w)" and "wneutral c"
  shows "half_open_win s h (wanswered c r obj w s1)"
  using assms wquietD [OF assms(1,3)] by (simp add: half_open_win_def)

lemma close_again_win_wp:
  assumes "wquiet os" and "\<And>r w. Q () ((wanswered (CloseHandle h) r (sps s) w s)
    \<lparr>sps := (sps s)\<lparr>spsw_fd := INVALID_HANDLE_VALUE\<rparr>\<rparr>)"
  shows "wp (close_again_win os h) Q s"
  unfolding close_again_win_def wp_bind
  by (rule wincall_wp) (use assms(2) in \<open>auto simp: wp_simps dest!: wquietD [OF assms(1)]\<close>)

lemma is_pending_sps [simp]: "is_pending (s\<lparr>sps := x\<rparr>) = is_pending s"
  by (simp add: is_pending_def)

lemma close_again_win_throw:
  assumes "wquiet os" and "half_open_win s h s1" and "throws f" and "\<And>s'. not_opened_win s s' \<Longrightarrow> Q () s'"
  shows "wp (close_again_win os h) (\<lambda>_. wp f Q) s1"
  by (rule close_again_win_wp [OF assms(1)], rule wp_throws [OF assms(3)], rule assms(4))
    (use assms(2) in \<open>simp add: not_opened_win_def half_open_win_def\<close>)

lemma open_timeouts_wp:
  assumes q: "wquiet os" and o: "half_open_win s h s1"
  shows "wp (open_timeouts os h) (\<lambda>_ s'. opened_win s s' \<or> not_opened_win s s') s1"
proof -
  let ?Q = "\<lambda>_ s'. opened_win s s' \<or> not_opened_win s s'"
  have throw: "wp (close_again_win os h) (\<lambda>_. wp f ?Q) s2" if "half_open_win s h s2" "throws f" for f s2
    using that by (auto intro: close_again_win_throw [OF q])
  have opened: "opened_win s (wanswered (SetCommTimeouts h t) r obj w s2)"
    if "half_open_win s h (wanswered (SetCommTimeouts h t) r obj w s2)" "w_ret r \<noteq> 0"
      "ReadIntervalTimeout t = 100" "ReadTotalTimeoutConstant t = 0" "WriteTotalTimeoutConstant t = 0" for t r obj w s2
    using that unfolding half_open_win_def opened_win_def by simp
  note answered = half_open_win_answered [OF q]
  show ?thesis
    unfolding open_timeouts_def wp_bind [of "wincall _ _"]
  proof (rule wincall_wp)
    fix r obj w
    assume "os (GetCommTimeouts h) (sps s1, world s1) = (r, obj, w)"
    from answered [OF o this]
    have o2: "half_open_win s h (wanswered (GetCommTimeouts h) r obj w s1)" by simp
    show "wp (if w_ret r = 0 then do { close_again_win os h; throw_IOException_NativeError ''Open GetCommTimeouts'' }
      else do {
       t \<leftarrow> wincall os (SetCommTimeouts h ((w_timeouts r)\<lparr>ReadIntervalTimeout := 100,
         ReadTotalTimeoutConstant := 0, ReadTotalTimeoutMultiplier := 0,
         WriteTotalTimeoutConstant := 0, WriteTotalTimeoutMultiplier := 0\<rparr>));
       if w_ret t = 0 then do {
         close_again_win os h;
         throw_IOException_NativeError ''Open SetCommTimeouts''
       } else State_Monad.return ()
     }) ?Q (wanswered (GetCommTimeouts h) r obj w s1)"
      unfolding wp_if wp_bind
      by (auto intro!: throw [OF o2] wincall_wp simp: wp_if wp_bind wp_return)
        (auto intro!: throw opened answered [OF o2])
  qed
qed

lemma configure_win_outcome:
  assumes q: "wquiet os" and o: "half_open_win s h s1"
  shows "wp (configure_win c os portName h p) (\<lambda>_ s'. opened_win s s' \<or> not_opened_win s s') s1"
proof -
  let ?Q = "\<lambda>_ s'. opened_win s s' \<or> not_opened_win s s'"
  have rest: "wp (if ret \<noteq> 0 then close_again_win os h else open_timeouts os h) ?Q s2"
    if "sps s2 = sps s1 \<and> whandles s2 = whandles s1 \<and> (if ret = 0 then pending s2 = pending s1 else is_pending s2)" for ret s2
  proof (cases "ret = 0")
    case True
    then have "half_open_win s h s2" using that o by (simp add: half_open_win_def)
    then show ?thesis using True by (simp add: open_timeouts_wp [OF q])
  next
    case False
    then show ?thesis using that o
      by (auto intro!: close_again_win_wp [OF q] simp: half_open_win_def not_opened_win_def)
  qed
  have params: "wp (do {
       ret \<leftarrow> (if p \<noteq> SPSW_NO_PARAMS_TO_SET then setParams_win c os d p else State_Monad.return 0);
       if ret \<noteq> 0 then close_again_win os h else open_timeouts os h
     }) ?Q t" if t: "sps t = sps s1" "whandles t = whandles s1" "pending t = pending s1" for d t
  proof (cases "p = SPSW_NO_PARAMS_TO_SET")
    case True
    then show ?thesis using rest [of t 0] t by (simp add: wp_bind wp_return)
  next
    case False
    then show ?thesis
      unfolding wp_bind by (simp, intro wp_mono [OF setParams_win_frame [OF q] rest]) (use t in simp)
  qed
  show ?thesis
    unfolding configure_win_def wp_bind [of "wincall _ _"] wp_if [of "w_ret _ = 0"]
  proof (rule wincall_wp)
    fix r obj w
    assume "os (GetCommState h) (sps s1, world s1) = (r, obj, w)"
    from half_open_win_answered [OF q o this] wquietD [OF q this]
    show "if w_ret r = 0 then wp (do { close_again_win os h; throw_IOException_withPortName (''Not a serial port: '' @ [CHR 0x22] @ ''%s'' @ [CHR 0x22]) portName })
        ?Q (wanswered (GetCommState h) r obj w s1)
      else wp (do {
       ret \<leftarrow> (if p \<noteq> SPSW_NO_PARAMS_TO_SET then setParams_win c os (w_dcb r) p else State_Monad.return 0);
       if ret \<noteq> 0 then close_again_win os h
       else open_timeouts os h
     }) ?Q (wanswered (GetCommState h) r obj w s1)"
      by (simp add: params) (simp add: wp_bind close_again_win_throw [OF q])
  qed
qed

lemma throws_open_error_win [simp]: "throws (open_error_win c portName)"
  unfolding open_error_win_def throws_def GetLastError_def
  by (auto simp: throws_throw [unfolded throws_def])

lemma open0_win_outcome:
  assumes q: "wquiet os" and closed: "spsw_fd (sps s) = INVALID_HANDLE_VALUE"
  shows "wp (open0_win c os portName p) (\<lambda>_ s'. opened_win s s' \<or> not_opened_win s s') s"
  unfolding open0_win_def wp_bind wp_GetField wp_if
proof (simp add: closed, rule wincall_wp)
  fix r obj w
  let ?c = "CreateFile (device_name portName)"
  let ?s1 = "wanswered ?c r obj w s"
  let ?s2 = "?s1\<lparr>sps := (sps ?s1)\<lparr>spsw_fd := w_ret r\<rparr>\<rparr>"
  assume "os ?c (sps s, world s) = (r, obj, w)"
  note obj = wquietD [OF q this]
  have "half_open_win s (w_ret r) ?s2" if "w_ret r \<noteq> INVALID_HANDLE_VALUE"
    using that by (simp add: half_open_win_def obj INVALID_HANDLE_VALUE_def)
  then show "(w_ret r = INVALID_HANDLE_VALUE \<longrightarrow> wp (SetField (spsw_fd_update (\<lambda>_. INVALID_HANDLE_VALUE)))
        (\<lambda>_. wp (open_error_win c portName) (\<lambda>_ s'. opened_win s s' \<or> not_opened_win s s')) ?s1) \<and>
    (w_ret r \<noteq> INVALID_HANDLE_VALUE \<longrightarrow> wp (SetField (spsw_fd_update (\<lambda>_. w_ret r)))
        (\<lambda>_. wp (configure_win c os portName (w_ret r) p) (\<lambda>_ s'. opened_win s s' \<or> not_opened_win s s')) ?s1)"
    by (intro conjI impI; simp only: wp_SetField)
      (rule wp_throws [OF throws_open_error_win], simp add: not_opened_win_def obj INVALID_HANDLE_VALUE_def,
        rule configure_win_outcome [OF q], simp)
qed

section \<open>Closing\<close>

lemma throws_NativeError_run: "\<exists>e. run_state (throw_IOException_NativeError msg) s = ((), s\<lparr>pending := Some e\<rparr>)"
  using throws_throw(5) unfolding throws_def by blast

text \<open>The three ways \<open>close0\<close> ends.\<close>

definition close_outcome :: "winapi \<Rightarrow> 'w wstate \<Rightarrow> 'w wstate \<Rightarrow> bool" where
  "close_outcome c s s' \<longleftrightarrow> (let h = spsw_fd (sps s) in
     (\<exists>r. calls s' = calls s @ [(CancelIo h, r)] \<and> w_ret r = 0 \<and> w_error r \<noteq> ERROR_NOT_FOUND c \<and>
       is_pending s' \<and> sps s' = sps s) \<or>
     (\<exists>r r'. calls s' = calls s @ [(CancelIo h, r), (CloseHandle h, r')] \<and>
       (w_ret r = 0 \<longrightarrow> w_error r = ERROR_NOT_FOUND c) \<and> sps s' = (sps s)\<lparr>spsw_fd := INVALID_HANDLE_VALUE\<rparr> \<and>
       (w_ret r' = 0 \<longrightarrow> is_pending s') \<and> (w_ret r' \<noteq> 0 \<longrightarrow> pending s' = pending s)))"

lemma close0_win_outcome:
  assumes q: "wquiet os"
  shows "wp (close0_win c os) (\<lambda>_ s'. close_outcome c s s') s"
  unfolding close0_win_def wp_bind wp_GetField wp_SetField
proof (rule wincall_wp)
  fix r obj w
  let ?h = "spsw_fd (sps s)"
  let ?s0 = "s\<lparr>sps := (sps s)\<lparr>spsw_fd := INVALID_HANDLE_VALUE\<rparr>\<rparr>"
  assume "os (CancelIo ?h) (sps ?s0, world ?s0) = (r, obj, w)"
  note obj = wquietD [OF q this]
  show "wp GetLastError (\<lambda>a. wp (if w_ret r = 0 \<and> a \<noteq> ERROR_NOT_FOUND c then do {
      throw_IOException_NativeError ''Can't cancel io for closing'';
      SetField (spsw_fd_update (\<lambda>_. ?h))
    } else close_handle os ?h) (\<lambda>_. close_outcome c s)) (wanswered (CancelIo ?h) r obj w ?s0)"
    unfolding wp_GetLastError wp_if wp_bind close_handle_def wp_SetField
    by (auto simp: wp_return wp_if close_outcome_def obj intro!: wp_throws wincall_wp dest!: wquietD [OF q])
qed

lemma sps_fd_same: "spsw_fd x = v \<Longrightarrow> x\<lparr>spsw_fd := v\<rparr> = x"
  by (cases x) simp

text \<open>What Java does: \<open>open\<close>, and then \<open>implCloseChannel\<close> of a port that was opened.\<close>

lemma open_close_win:
  assumes q: "wquiet os" and closed: "spsw_fd (sps s) = INVALID_HANDLE_VALUE" "\<not> is_pending s"
  shows "wp (open0_win c os portName p) (\<lambda>_ s1. \<not> is_pending s1 \<longrightarrow>
    wp (close0_win c os) (\<lambda>_ s'. \<not> is_pending s' \<longrightarrow> whandles s' = whandles s \<and> sps s' = sps s) s1) s"
proof (rule wp_mono [OF open0_win_outcome [OF q closed(1)]], rule impI)
  fix u and s1 :: "'a wstate"
  assume "opened_win s s1 \<or> not_opened_win s s1" and "\<not> is_pending s1"
  then have o: "opened_win s s1" by (simp add: not_opened_win_def)
  then have "\<exists>f. sps s1 = (sps s)\<lparr>spsw_fd := f\<rparr>" unfolding opened_win_def by blast
  then have restored: "(sps s1)\<lparr>spsw_fd := INVALID_HANDLE_VALUE\<rparr> = sps s"
    using closed(1) by (auto simp: sps_fd_same)
  show "wp (close0_win c os) (\<lambda>_ s'. \<not> is_pending s' \<longrightarrow> whandles s' = whandles s \<and> sps s' = sps s) s1"
    by (rule wp_mono [OF close0_win_outcome [OF q]])
      (use o closed in \<open>auto simp: close_outcome_def Let_def opened_win_def whandles_def restored\<close>)
qed

section \<open>The registry\<close>

text \<open>
  A registry whose entries stay as they are and can be read, the documented behaviour of
  \<open>RegEnumValueW\<close>: an entry is its type, its size in bytes and the buffer it fills.
\<close>

definition registry :: "winapi \<Rightarrow> 'w wos \<Rightarrow> int \<Rightarrow> (32 word \<times> 32 word \<times> 16 word list) list \<Rightarrow> bool" where
  "registry c os key entries \<longleftrightarrow>
     (\<forall>x i. case os (RegEnumValueW key i) x of (r, _) \<Rightarrow>
        if 0 \<le> i \<and> i < int (length entries)
        then w_ret r = ERROR_SUCCESS c \<and> (w_dword r, w_dword2 r, w_chars r) = entries ! nat i
        else w_ret r = ERROR_NO_MORE_ITEMS c) \<and>
     (\<forall>x cs n. w_ret (fst (os (NewString cs n) x)) \<noteq> 0)"

definition port_names :: "winapi \<Rightarrow> (32 word \<times> 32 word \<times> 16 word list) list \<Rightarrow> 16 word list list" where
  "port_names c entries = map (\<lambda>(_, n, chars). take (nat (value_length n)) chars)
     (filter (\<lambda>(kind, _). kind = REG_SZ c) entries)"

lemma port_names_snoc: "i < length entries \<Longrightarrow> entries ! i = (t, n, cs) \<Longrightarrow>
    port_names c (take (Suc i) entries) = port_names c (take i entries)
      @ (if t = REG_SZ c then [take (nat (value_length n)) cs] else [])"
  by (simp add: port_names_def take_Suc_conv_app_nth)

lemma enum_round_registry:
  assumes wf: "wf_win c" and reg: "registry c os key entries" and i: "i \<le> length entries"
    and small: "int (length entries) < 2 ^ 32"
  shows "wp (enum_round c os key (int i, port_names c (take i entries))) (\<lambda>x s'.
    (if i < length entries then x = Inr (int (Suc i), port_names c (take (Suc i) entries))
     else x = Inl (True, port_names c entries)) \<and> whandles s' = whandles s \<and> pending s' = pending s) s"
proof -
  obtain r obj w where call: "os (RegEnumValueW key (int i)) (sps s, world s) = (r, obj, w)"
    by (metis prod_cases3)
  have r: "if i < length entries then w_ret r = ERROR_SUCCESS c \<and> (w_dword r, w_dword2 r, w_chars r) = entries ! i
      else w_ret r = ERROR_NO_MORE_ITEMS c"
    using conjunct1 [OF reg [unfolded registry_def], rule_format, of "int i" "(sps s, world s)"] call by simp
  have str: "w_ret r1 \<noteq> 0" if "os (NewString cs n) x = (r1, y)" for cs n x r1 y
    using conjunct2 [OF reg [unfolded registry_def]] that by (metis fst_conv)
  have suc: "uint32 (int i + 1) = int (Suc i)" if "i < length entries"
    using that small by (simp add: uint32_id)
  show ?thesis
    unfolding enum_round_def prod.case wp_bind wp_wincall call
    using r wf port_names_snoc [of i entries "w_dword r" "w_dword2 r" "w_chars r" c] str i
    by (auto simp: wp_simps NewStringJ_def wf_win_def suc dest: str split: if_splits prod.splits)
qed

lemma getWindowsBasedPortNames_total:
  assumes wf: "wf_win c" and reg: "registry c os key entries" and small: "int (length entries) < 2 ^ 32"
    and start: "run_state (open_serialcomm c os list_addID) s = ((addID, Some key), s1)"
  shows "\<exists>s'. getWindowsBasedPortNames c os list_addID s = Some ((addID, port_names c entries), s')
    \<and> whandles s' = whandles s1 - {#key#} \<and> pending s' = pending s1"
proof -
  let ?I = "\<lambda>a s'. (\<exists>i \<le> length entries. a = (int i, port_names c (take i entries))) \<and> whandles s' = whandles s1 \<and> pending s' = pending s1"
  let ?m = "\<lambda>a (s' :: 'a wstate). length entries - nat (fst a)"
  have "\<exists>x s'. do_while (\<lambda>a. run_state (enum_round c os key a)) (0, []) s1 = Some (x, s') \<and>
      x = (True, port_names c entries) \<and> whandles s' = whandles s1 \<and> pending s' = pending s1"
  proof (rule do_while_total_wp [where I = ?I and m = ?m])
    show "?I (0, []) s1" by (auto simp: port_names_def intro!: exI [of _ 0])
  next
    fix a and t :: "'a wstate"
    assume "?I a t"
    then obtain i where i: "i \<le> length entries" "a = (int i, port_names c (take i entries))"
      and t: "whandles t = whandles s1" "pending t = pending s1" by blast
    show "wp (enum_round c os key a) (\<lambda>x t'. case x of
        Inl x \<Rightarrow> x = (True, port_names c entries) \<and> whandles t' = whandles s1 \<and> pending t' = pending s1
      | Inr b \<Rightarrow> ?I b t' \<and> ?m b t' < ?m a t) t"
      unfolding i(2)
      by (rule wp_mono [OF enum_round_registry [OF wf reg i(1) small]])
        (use i(1) t in \<open>auto simp: Suc_le_eq split: if_splits intro!: exI [of _ "Suc i"]\<close>)
  qed
  then show ?thesis
    by (auto simp: getWindowsBasedPortNames_def start wincall_def split: prod.splits)
qed

section \<open>Opening a port that works\<close>

definition open_defaults :: "commtimeouts \<Rightarrow> bool" where
  "open_defaults t \<longleftrightarrow> ReadIntervalTimeout t = 100 \<and> ReadTotalTimeoutConstant t = 0 \<and>
     ReadTotalTimeoutMultiplier t = 0 \<and> WriteTotalTimeoutConstant t = 0 \<and> WriteTotalTimeoutMultiplier t = 0"

lemma open_timeouts_stored:
  assumes port: "faithful_port os h attr tmo"
  shows "wp (open_timeouts os h) (\<lambda>_ s'. pending s' = pending s \<and> sps s' = sps s \<and>
    attr (world s') = attr (world s) \<and> open_defaults (tmo (world s'))) s"
  unfolding open_timeouts_def wp_bind
  by (rule wincall_wp, drule faithful_portD(3) [OF port])
    (auto simp: wp_simps open_defaults_def intro!: wincall_wp dest!: faithful_portD(4) [OF port])

lemma open0_win_configures:
  assumes wf: "wf_win c" and closed: "spsw_fd (sps s) = INVALID_HANDLE_VALUE"
    and create: "os (CreateFile (device_name portName)) (sps s, world s) = (f, sps s, w)" "w_ret f \<noteq> INVALID_HANDLE_VALUE"
    and port: "faithful_port os (w_ret f) attr tmo" and ok: "dcb_ok c (attr w)"
    and l: "apply_params False p (abs_dcb c (attr w)) = Some l" and p: "encode_params p \<noteq> SPSW_NO_PARAMS_TO_SET"
  shows "wp (open0_win c os portName (encode_params p)) (\<lambda>_ s'. pending s' = pending s \<and>
    sps s' = (sps s)\<lparr>spsw_fd := w_ret f\<rparr> \<and> abs_dcb c (attr (world s')) = l \<and>
    shows_win c (attr (world s')) p \<and> open_defaults (tmo (world s'))) s"
proof -
  let ?Q = "\<lambda>_ s'. pending s' = pending s \<and> sps s' = (sps s)\<lparr>spsw_fd := w_ret f\<rparr> \<and>
    abs_dcb c (attr (world s')) = l \<and> shows_win c (attr (world s')) p \<and> open_defaults (tmo (world s'))"
  define s1 where "s1 = (wanswered (CreateFile (device_name portName)) f (sps s) w s)
    \<lparr>sps := (sps s)\<lparr>spsw_fd := w_ret f\<rparr>\<rparr>"
  have s1: "sps s1 = (sps s)\<lparr>spsw_fd := w_ret f\<rparr>" "world s1 = w" "pending s1 = pending s"
    by (simp_all add: s1_def)
  have set: "wp (setParams_win c os d (encode_params p)) (\<lambda>ret s'. ret = 0 \<and> pending s' = pending s2 \<and>
      sps s' = sps s2 \<and> abs_dcb c (attr (world s')) = l \<and> shows_win c (attr (world s')) p) s2"
    if "d = attr w" "sps s2 = sps s1" for s2 d
    by (rule wp_mono [OF setParams_win_refines [OF wf, where attr = attr and tmo = tmo]])
      (use that ok port l s1 in simp_all)
  have "wp (configure_win c os portName (w_ret f) (encode_params p)) ?Q s1"
    unfolding configure_win_def wp_bind
    by (rule wincall_wp, drule faithful_portD(1) [OF port])
      (use p in \<open>auto simp: wp_if wp_bind s1 intro!: wp_mono [OF set] wp_mono [OF open_timeouts_stored [OF port]]\<close>)
  then show ?thesis
    unfolding open0_win_def wp_bind wp_GetField wp_if wp_wincall create(1) s1_def
    using closed create(2) by (simp add: wp_SetField)
qed

section \<open>Properties\<close>

text \<open>
  Example worlds: a driver that numbers the handles it gives, each a port that keeps its
  settings, and a registry with given entries.
\<close>

definition handle_device :: "(nat \<times> dcb \<times> commtimeouts) wos" where
  "handle_device c x = (case x of (obj, n, p) \<Rightarrow> (case c of
       CreateFile _ \<Rightarrow> (wresp0\<lparr>w_ret := int n\<rparr>, obj, n + 1, p)
     | CreateEventA \<Rightarrow> (wresp0\<lparr>w_ret := int n\<rparr>, obj, n + 1, p)
     | _ \<Rightarrow> (case port_device c (obj, p) of (r, obj', p') \<Rightarrow> (r, obj', n, p'))))"

lemma wquiet_handle_device [simp]: "wquiet handle_device"
  by (simp add: wquiet_def handle_device_def port_device_def split: wcall.splits)

lemma faithful_handle_device [simp]: "faithful_port handle_device h (\<lambda>w. fst (snd w)) (\<lambda>w. snd (snd w))"
  by (simp add: faithful_port_def handle_device_def port_device_def wresp0_def)

definition registry_device :: "(32 word \<times> 32 word \<times> 16 word list) list \<Rightarrow> 'w wos" where
  "registry_device entries c x = (case c of
       RegOpenKeyExW _ \<Rightarrow> (wresp0\<lparr>w_ret := 0, w_handle := 5\<rparr>, x)
     | RegEnumValueW _ i \<Rightarrow> (if 0 \<le> i \<and> i < int (length entries)
         then (case entries ! nat i of (kind, n, chars) \<Rightarrow>
           (wresp0\<lparr>w_ret := 0, w_dword := kind, w_dword2 := n, w_chars := chars\<rparr>, x))
         else (wresp0\<lparr>w_ret := 259\<rparr>, x))
     | _ \<Rightarrow> (wresp0, x))"

lemma registry_registry_device: "registry windows_consts (registry_device entries) key entries"
  by (auto simp: registry_def registry_device_def windows_consts_def wresp0_def split: prod.splits)

definition closed_windows_state :: "'w \<Rightarrow> 'w wstate" where
  "closed_windows_state w = (windows_state w)\<lparr>sps := windows_sps\<lparr>spsw_fd := - 1\<rparr>\<rparr>"

lemma closed_windows_state_sel [simp]:
  "sps (closed_windows_state w) = windows_sps\<lparr>spsw_fd := - 1\<rparr>" "world (closed_windows_state w) = w"
  "pending (closed_windows_state w) = None" "calls (closed_windows_state w) = []"
  "whandles (closed_windows_state w) = {#}" "vm (closed_windows_state w) = windows_vm"
  by (simp_all add: closed_windows_state_def whandles_def)

text \<open>
  C18: on Windows no handle is leaked by \<open>open0\<close>. Either the port is open, nothing was
  thrown, its handle is the only new one and is recorded in the object, and the last call stored
  the default timeouts; or an exception is pending, the handle has been closed again and the
  object says closed.
\<close>

theorem open0_win_handles:
  assumes "wquiet os" and "spsw_fd (sps s) = INVALID_HANDLE_VALUE"
  shows "case run_state (open0_win c os portName p) s of (_, s') \<Rightarrow> opened_win s s' \<or> not_opened_win s s'"
  using open0_win_outcome [OF assms] by (simp add: wp_def split: prod.splits)

theorem open0_win_handles_witness:
  "case run_state (open0_win windows_consts handle_device ''COM3'' 0) (closed_windows_state (8, no_dcb, no_timeouts)) of
    (_, s') \<Rightarrow> opened_win (closed_windows_state (8, no_dcb, no_timeouts)) s'
      \<or> not_opened_win (closed_windows_state (8, no_dcb, no_timeouts)) s'"
  using open0_win_handles [OF wquiet_handle_device, of "closed_windows_state (8, no_dcb, no_timeouts)" windows_consts "''COM3''" 0]
  by (simp add: INVALID_HANDLE_VALUE_def)

text \<open>
  Opening a Windows port with parameters refines the abstract line: when the driver keeps
  what it is given and the request can be met, the port is open, its settings show the request,
  the abstract line is the one the specification says and the default timeouts are stored.
\<close>

theorem open0_win_refinement:
  assumes "wf_win c" and "spsw_fd (sps s) = INVALID_HANDLE_VALUE"
    and "os (CreateFile (device_name portName)) (sps s, world s) = (f, sps s, w)" and "w_ret f \<noteq> INVALID_HANDLE_VALUE"
    and "faithful_port os (w_ret f) attr tmo" and "dcb_ok c (attr w)"
    and "apply_params False p (abs_dcb c (attr w)) = Some l" and "encode_params p \<noteq> SPSW_NO_PARAMS_TO_SET"
  shows "case run_state (open0_win c os portName (encode_params p)) s of (_, s') \<Rightarrow> pending s' = pending s \<and>
    sps s' = (sps s)\<lparr>spsw_fd := w_ret f\<rparr> \<and> abs_dcb c (attr (world s')) = l \<and>
    shows_win c (attr (world s')) p \<and> open_defaults (tmo (world s'))"
  using open0_win_configures [OF assms] by (simp add: wp_def split: prod.splits)

lemma encode_request_7E2: "encode_params request_7E2 \<noteq> SPSW_NO_PARAMS_TO_SET"
  by (simp add: request_7E2_def encode_params_def field_def toBitSet_FlowControl_def flow_bits_def bits_simps)

theorem open0_win_refinement_witness:
  "case run_state (open0_win windows_consts handle_device ''COM3'' (encode_params request_7E2))
      (closed_windows_state (8, no_dcb, no_timeouts)) of (_, s') \<Rightarrow> pending s' = None \<and> spsw_fd (sps s') = 8 \<and>
    shows_win windows_consts (fst (snd (world s'))) request_7E2 \<and> open_defaults (snd (snd (world s')))"
  using open0_win_refinement [OF wf_windows _ _ _ faithful_handle_device, of "closed_windows_state (8, no_dcb, no_timeouts)"
      "''COM3''" "wresp0\<lparr>w_ret := 8\<rparr>" "(9, no_dcb, no_timeouts)" request_7E2]
  by (simp add: INVALID_HANDLE_VALUE_def handle_device_def dcb_ok_no_dcb apply_request_7E2 encode_request_7E2 wresp0_def
      split: prod.splits)

text \<open>
  \<open>close0\<close> on Windows cancels pending transfers first. When that fails for another
  reason than that there were none, it throws, leaves the handle open and puts it back into the
  object; otherwise it closes the handle once, the object says closed, and it throws only when
  \<open>CloseHandle\<close> fails.
\<close>

theorem close0_win_effect:
  assumes "wquiet os"
  shows "case run_state (close0_win c os) s of (_, s') \<Rightarrow> close_outcome c s s'"
  using close0_win_outcome [OF assms, of c s] by (simp add: wp_def split: prod.splits)

theorem close0_win_effect_witness:
  "case run_state (close0_win windows_consts wscripted)
      (windows_state [wresp0\<lparr>w_ret := 0, w_error := 6\<rparr>]) of (_, s') \<Rightarrow>
    close_outcome windows_consts (windows_state [wresp0\<lparr>w_ret := 0, w_error := 6\<rparr>]) s'"
  using close0_win_effect [OF wquiet_wscripted] .

text \<open>
  The life of a Windows port: when \<open>open0\<close> and then \<open>close0\<close> end without an
  exception, the process holds the handles it held before and the object is as it was.
\<close>

theorem port_lifecycle_win:
  assumes "wquiet os" and "spsw_fd (sps s) = INVALID_HANDLE_VALUE" and "\<not> is_pending s"
  shows "case run_state (open0_win c os portName p) s of (_, s1) \<Rightarrow> is_pending s1 \<or>
    (case run_state (close0_win c os) s1 of (_, s2) \<Rightarrow> is_pending s2 \<or> (whandles s2 = whandles s \<and> sps s2 = sps s))"
  using open_close_win [OF assms, of c portName p] by (auto simp: wp_def split: prod.splits)

lemma life_win_run:
  "case run_state (open0_win windows_consts handle_device ''COM3'' 0) (closed_windows_state (8, no_dcb, no_timeouts)) of (_, s1) \<Rightarrow>
    \<not> is_pending s1 \<and> spsw_fd (sps s1) = 8 \<and> (case run_state (close0_win windows_consts handle_device) s1 of (_, s2) \<Rightarrow> \<not> is_pending s2)"
  by code_simp

theorem port_lifecycle_win_witness:
  "case run_state (open0_win windows_consts handle_device ''COM3'' 0) (closed_windows_state (8, no_dcb, no_timeouts)) of
    (_, s1) \<Rightarrow> \<not> is_pending s1 \<and> spsw_fd (sps s1) = 8 \<and> (case run_state (close0_win windows_consts handle_device) s1 of (_, s2) \<Rightarrow>
      \<not> is_pending s2 \<and> whandles s2 = {#} \<and> spsw_fd (sps s2) = - 1)"
  using port_lifecycle_win [OF wquiet_handle_device, of "closed_windows_state (8, no_dcb, no_timeouts)" windows_consts "''COM3''" 0]
    life_win_run
  by (auto simp: INVALID_HANDLE_VALUE_def closed_windows_state_def whandles_def is_pending_def split: prod.splits)

text \<open>
  C40: with a registry whose entries can all be read, \<open>getWindowsBasedPortNames\<close> returns;
  it adds exactly the values of type \<open>REG_SZ\<close>, in their order and without the terminating
  zero, and closes the key.
\<close>

theorem getWindowsBasedPortNames_lists:
  assumes "wf_win c" and "registry c os key entries" and "int (length entries) < 2 ^ 32"
    and "run_state (open_serialcomm c os list_addID) s = ((addID, Some key), s1)"
  shows "\<exists>s'. getWindowsBasedPortNames c os list_addID s = Some ((addID, port_names c entries), s')
    \<and> whandles s' = whandles s1 - {#key#} \<and> pending s' = pending s1"
  by (rule getWindowsBasedPortNames_total [OF assms])

text \<open>Two ports and a number, as the serial port drivers of Windows register them.\<close>

definition com_entries :: "(32 word \<times> 32 word \<times> 16 word list) list" where
  "com_entries = [(1, 10, [67, 79, 77, 49, 0, 0]), (4, 4, [1, 0, 0, 0, 0, 0]), (1, 12, [67, 79, 77, 49, 51, 0])]"

lemma com_names: "port_names windows_consts com_entries = [[67, 79, 77, 49], [67, 79, 77, 49, 51]]"
  by (simp add: com_entries_def port_names_def windows_consts_def value_length_def size_t_id int32_small)

theorem getWindowsBasedPortNames_lists_witness:
  "\<exists>s'. getWindowsBasedPortNames windows_consts (registry_device com_entries) True (windows_state ())
    = Some ((True, [[67, 79, 77, 49], [67, 79, 77, 49, 51]]), s') \<and> whandles s' = {#}"
proof -
  have "run_state (open_serialcomm windows_consts (registry_device com_entries) True) (windows_state ())
      = ((True, Some 5), wanswered (RegOpenKeyExW (''HARDWARE'' @ [CHR 0x5C] @ ''DEVICEMAP'' @ [CHR 0x5C] @ ''SERIALCOMM'' @ [CHR 0x5C]))
          (wresp0\<lparr>w_ret := 0, w_handle := 5\<rparr>) windows_sps () (windows_state ()))"
    by (simp add: open_serialcomm_def wincall_def registry_device_def windows_consts_def)
  moreover have "int (length com_entries) < 2 ^ 32" by (simp add: com_entries_def)
  ultimately show ?thesis
    using getWindowsBasedPortNames_lists [OF wf_windows registry_registry_device, of com_entries True "windows_state ()"]
    by (fastforce simp: com_names whandles_def whold_def)
qed

text \<open>
  An entry that cannot be read (its name or value does not fit the 256 bytes the code
  offers, or any other error but the end of the list) makes the loop ask for it again and again:
  \<open>getWindowsBasedPortNames\<close> does not return.
\<close>

theorem getWindowsBasedPortNames_endless:
  assumes "run_state (open_serialcomm c os list_addID) s = ((addID, Some key), s1)"
    and "\<forall>x. w_ret (fst (os (RegEnumValueW key 0) x)) \<notin> {ERROR_SUCCESS c, ERROR_NO_MORE_ITEMS c}"
  shows "getWindowsBasedPortNames c os list_addID s = None"
proof -
  have round: "\<exists>t'. run_state (enum_round c os key (0, [])) t = (Inr (0, []), t')" for t
  proof -
    obtain r obj w where call: "os (RegEnumValueW key 0) (sps t, world t) = (r, obj, w)"
      by (metis prod_cases3)
    then have "w_ret r \<noteq> ERROR_SUCCESS c" "w_ret r \<noteq> ERROR_NO_MORE_ITEMS c"
      using spec [OF assms(2), of "(sps t, world t)"] by simp_all
    then show ?thesis by (simp add: enum_round_def wincall_def call)
  qed
  have "do_while (\<lambda>a. run_state (enum_round c os key a)) (0, []) s1 = None"
    by (rule do_while_diverges [where I = "\<lambda>a _. a = (0, [])"]) (use round in auto)
  then show ?thesis by (simp add: getWindowsBasedPortNames_def assms(1))
qed

theorem getWindowsBasedPortNames_endless_witness:
  "getWindowsBasedPortNames windows_consts (\<lambda>c x. (case c of
      RegOpenKeyExW _ \<Rightarrow> wresp0\<lparr>w_ret := 0, w_handle := 5\<rparr> | _ \<Rightarrow> wresp0\<lparr>w_ret := 234\<rparr>, x)) True (windows_state ()) = None"
proof -
  let ?os = "\<lambda>c (x :: sps \<times> unit). (case c of
      RegOpenKeyExW _ \<Rightarrow> wresp0\<lparr>w_ret := 0, w_handle := 5\<rparr> | _ \<Rightarrow> wresp0\<lparr>w_ret := 234\<rparr>, x)"
  have "\<exists>s1. run_state (open_serialcomm windows_consts ?os True) (windows_state ()) = ((True, Some 5), s1)"
    by (simp add: open_serialcomm_def wincall_def windows_consts_def)
  then show ?thesis
    using getWindowsBasedPortNames_endless [of windows_consts ?os True "windows_state ()" True 5]
    by (auto simp: windows_consts_def wresp0_def)
qed

end
