(* ===== verification/WinApiIO.thy ===== *)
theory WinApiIO
  imports WinApiCommon
begin

text \<open>
  \<open>WinApiIO.c\<close>: reading and writing a Windows port with overlapped transfers, and the
  break. Each transfer creates an event, starts the operation, waits for the event and fetches
  the result. The driver fills the buffer while the operation runs; the bytes appear in the
  model with the answer of \<open>GetOverlappedResult\<close>.
\<close>

section \<open>Transfers\<close>

text \<open>The exception of a transfer: the port may have been closed meanwhile.\<close>

definition closed_or :: "('w wstate, unit) state \<Rightarrow> ('w wstate, unit) state" where
  "closed_or throw = do {
     h \<leftarrow> GetField spsw_fd;
     if h = INVALID_HANDLE_VALUE then throw_AsynchronousCloseException else throw
   }"

text \<open>
  What follows \<open>ReadFile\<close> with the answer \<open>f\<close>: wait when the operation is pending.
  False when an exception has been thrown and the event closed.
\<close>

definition read_started :: "winapi \<Rightarrow> 'w wos \<Rightarrow> int \<Rightarrow> wresp \<Rightarrow> ('w wstate, bool) state" where
  "read_started c os hEvent f =
     (if w_ret f \<noteq> 0 then State_Monad.return True
      else do {
        e \<leftarrow> GetLastError;
        if e \<noteq> ERROR_IO_PENDING c then do {
          closed_or (throw_IOException_NativeError ''Error readBytes(GetLastError)'');
          _ \<leftarrow> wincall os (CloseHandle hEvent);
          State_Monad.return False
        } else do {
          w \<leftarrow> wincall os (WaitForSingleObject hEvent);
          if w_ret w \<noteq> WAIT_OBJECT_0 c then do {
            closed_or (throw_IOException_NativeError ''Error readBytes (WaitForSingleObject)'');
            _ \<leftarrow> wincall os (CloseHandle hEvent);
            State_Monad.return False
          } else State_Monad.return True
        }
      })"

text \<open>
  The result of the read and the buffer afterwards. The branch for a negative number of bytes
  does not exist, since \<open>dwBytesRead\<close> is unsigned.
\<close>

definition overlapped_read :: "'w wos \<Rightarrow> int \<Rightarrow> int \<Rightarrow> bytes \<Rightarrow> ('w wstate, int \<times> bytes) state" where
  "overlapped_read os hFile hEvent buff = do {
     g \<leftarrow> wincall os (GetOverlappedResult hFile hEvent);
     let dwBytesRead = w_dword g;
     let buff1 = store buff 0 (w_data g);
     _ \<leftarrow> wincall os (CloseHandle hEvent);
     if w_ret g = 0 then do {
       closed_or (throw_InterruptedIOExceptionWithError (uint dwBytesRead) ''Error readBytes (GetOverlappedResult)'');
       State_Monad.return (sint dwBytesRead, buff1)
     } else if 0 < dwBytesRead then State_Monad.return (sint dwBytesRead, buff1)
     else do {
       closed_or (throw_TimeoutIOException (uint dwBytesRead) ''Timeout readBuffer overlapped'');
       State_Monad.return (- 1, buff1)
     }
   }"

definition readBuffer_win :: "winapi \<Rightarrow> 'w wos \<Rightarrow> bytes \<Rightarrow> int \<Rightarrow> ('w wstate, int \<times> bytes) state" where
  "readBuffer_win c os buff len = do {
     hFile \<leftarrow> GetField spsw_fd;
     e \<leftarrow> wincall os CreateEventA;
     f \<leftarrow> wincall os (ReadFile hFile (uint32 len) (w_ret e));
     ready \<leftarrow> read_started c os (w_ret e) f;
     if \<not> ready then State_Monad.return (0, buff)
     else overlapped_read os hFile (w_ret e) buff
   }"

definition write_started :: "winapi \<Rightarrow> 'w wos \<Rightarrow> int \<Rightarrow> wresp \<Rightarrow> ('w wstate, bool) state" where
  "write_started c os hEvent f =
     (if w_ret f \<noteq> 0 then State_Monad.return True
      else do {
        e \<leftarrow> GetLastError;
        if e \<noteq> ERROR_IO_PENDING c then do {
          _ \<leftarrow> wincall os (CloseHandle hEvent);
          closed_or (throw_InterruptedIOExceptionWithError 0 ''unknown port error 1 writeBytes'');
          State_Monad.return False
        } else do {
          w \<leftarrow> wincall os (WaitForSingleObject hEvent);
          if w_ret w \<noteq> WAIT_OBJECT_0 c then do {
            _ \<leftarrow> wincall os (CloseHandle hEvent);
            closed_or (throw_InterruptedIOExceptionWithError 0 ''Error writeBytes (WaitForSingleObject)'');
            State_Monad.return False
          } else State_Monad.return True
        }
      })"

definition overlapped_write :: "winapi \<Rightarrow> 'w wos \<Rightarrow> int \<Rightarrow> int \<Rightarrow> int \<Rightarrow> ('w wstate, int) state" where
  "overlapped_write c os hFile hEvent len = do {
     g \<leftarrow> wincall os (GetOverlappedResult hFile hEvent);
     let dwBytesWritten = w_dword g;
     _ \<leftarrow> wincall os (CloseHandle hEvent);
     (if w_ret g = 0
      then closed_or (throw_InterruptedIOExceptionWithError 0 ''Error writeBytes (GetOverlappedResult)'')
      else if uint dwBytesWritten \<noteq> uint32 len
      then closed_or (do {
        e \<leftarrow> GetLastError;
        if e = ERROR_IO_PENDING c
        then throw_TimeoutIOException (uint dwBytesWritten) ''Timeout writeBuffer overlapped''
        else throw_InterruptedIOExceptionWithError (uint dwBytesWritten) ''Error writeBytes too view written''
      })
      else State_Monad.return ());
     State_Monad.return (sint dwBytesWritten)
   }"

definition writeBuffer_win :: "winapi \<Rightarrow> 'w wos \<Rightarrow> bytes \<Rightarrow> int \<Rightarrow> ('w wstate, int) state" where
  "writeBuffer_win c os buff len = do {
     hFile \<leftarrow> GetField spsw_fd;
     e \<leftarrow> wincall os CreateEventA;
     f \<leftarrow> wincall os (WriteFile hFile (take (nat (uint32 len)) buff) (w_ret e));
     ready \<leftarrow> write_started c os (w_ret e) f;
     if \<not> ready then State_Monad.return 0
     else overlapped_write c os hFile (w_ret e) len
   }"

section \<open>Break and software flow control\<close>

definition sendBreak0_win :: "'w wos \<Rightarrow> int \<Rightarrow> ('w wstate, unit) state" where
  "sendBreak0_win os duration =
     (if duration \<le> 0 then throw_IllegalArgumentException ''sendBreak duration must be grater than 0''
      else do {
        hFile \<leftarrow> GetField spsw_fd;
        b \<leftarrow> wincall os (SetCommBreak hFile);
        if w_ret b = 0 then throw_ClosedOrNativeException ''sendBreak SetCommBreak''
        else do {
          _ \<leftarrow> wincall os (Sleep (uint32 duration));
          e \<leftarrow> wincall os (ClearCommBreak hFile);
          if w_ret e = 0 then throw_ClosedOrNativeException ''sendBreak ClearCommBreak''
          else State_Monad.return ()
        }
      })"

definition sendXOFF_win :: "('w wstate, unit) state" where
  "sendXOFF_win = throw_IOException_NativeError ''sendXOFF not implemented yet''"

definition sendXON_win :: "('w wstate, unit) state" where
  "sendXON_win = throw_IOException_NativeError ''sendXON not implemented yet''"

section \<open>Weakest preconditions\<close>

lemma closed_or_wp:
  assumes "throws m" and "\<And>e. (spsw_fd (sps s) = INVALID_HANDLE_VALUE \<Longrightarrow> e = AsynchronousCloseException) \<Longrightarrow>
    Q () (s\<lparr>pending := Some e\<rparr>)"
  shows "wp (closed_or m) Q s"
  using assms
  by (auto simp: closed_or_def wp_simps throw_AsynchronousCloseException_def intro!: wp_throws)

text \<open>The calls of a transfer that could not be started or waited for, behind the start.\<close>

definition aborted :: "winapi \<Rightarrow> int \<Rightarrow> (wcall \<times> wresp) list \<Rightarrow> bool" where
  "aborted c ev cs \<longleftrightarrow> (\<exists>x. cs = [(CloseHandle ev, x)]) \<or>
     (\<exists>w x. cs = [(WaitForSingleObject ev, w), (CloseHandle ev, x)] \<and> w_ret w \<noteq> WAIT_OBJECT_0 c)"

definition waited :: "winapi \<Rightarrow> int \<Rightarrow> (wcall \<times> wresp) list \<Rightarrow> bool" where
  "waited c ev cs \<longleftrightarrow> cs = [] \<or> (\<exists>w. cs = [(WaitForSingleObject ev, w)] \<and> w_ret w = WAIT_OBJECT_0 c)"

lemma read_started_wp:
  assumes "\<And>s' cs. calls s' = calls s @ cs \<Longrightarrow> waited c ev cs \<Longrightarrow> pending s' = pending s \<Longrightarrow> Q True s'"
    and "\<And>s' cs. calls s' = calls s @ cs \<Longrightarrow> aborted c ev cs \<Longrightarrow> is_pending s' \<Longrightarrow> Q False s'"
  shows "wp (read_started c os ev f) Q s"
  unfolding read_started_def wp_if wp_bind wp_GetLastError
  by (auto intro!: closed_or_wp wincall_wp simp: wp_if wp_bind wp_return)
    (auto intro!: assms closed_or_wp wincall_wp simp: wp_return waited_def aborted_def is_pending_def)

lemma write_started_wp:
  assumes "\<And>s' cs. calls s' = calls s @ cs \<Longrightarrow> waited c ev cs \<Longrightarrow> pending s' = pending s \<Longrightarrow> Q True s'"
    and "\<And>s' cs. calls s' = calls s @ cs \<Longrightarrow> aborted c ev cs \<Longrightarrow> is_pending s' \<Longrightarrow> Q False s'"
  shows "wp (write_started c os ev f) Q s"
  unfolding write_started_def wp_if wp_bind wp_GetLastError
  by (auto intro!: closed_or_wp wincall_wp simp: wp_if wp_bind wp_return)
    (auto intro!: assms closed_or_wp wincall_wp simp: wp_return waited_def aborted_def is_pending_def)

text \<open>What was thrown when the port has been closed by another thread meanwhile.\<close>

definition closed_thrown :: "'w wstate \<Rightarrow> bool" where
  "closed_thrown s \<longleftrightarrow> is_pending s \<and>
     (spsw_fd (sps s) = INVALID_HANDLE_VALUE \<longrightarrow> pending s = Some AsynchronousCloseException)"

lemma closed_throws:
  assumes "throws m" and "\<And>s'. closed_thrown s' \<Longrightarrow> sps s' = sps s \<Longrightarrow> calls s' = calls s \<Longrightarrow> Q () s'"
  shows "wp (closed_or m) Q s"
  using assms(1) by (rule closed_or_wp) (auto intro!: assms(2) simp: closed_thrown_def)

text \<open>How the result of a read was made of the answer \<open>g\<close> of \<open>GetOverlappedResult\<close>.\<close>

definition read_answer :: "wresp \<Rightarrow> int \<Rightarrow> 'w wstate \<Rightarrow> 'w wstate \<Rightarrow> bool" where
  "read_answer g ret s s' \<longleftrightarrow>
     (if w_ret g = 0 then ret = sint (w_dword g) \<and> closed_thrown s'
      else if w_dword g \<noteq> 0 then ret = sint (w_dword g) \<and> pending s' = pending s
      else ret = - 1 \<and> pending s' = Some (if spsw_fd (sps s') = INVALID_HANDLE_VALUE then AsynchronousCloseException
        else TimeoutIOException ''Timeout readBuffer overlapped'' 0))"

definition answers :: "'w wos \<Rightarrow> wcall \<Rightarrow> wresp \<Rightarrow> bool" where
  "answers os c r \<longleftrightarrow> (\<exists>x y. os c x = (r, y))"

lemma answersI: "os c x = (r, y) \<Longrightarrow> answers os c r"
  unfolding answers_def by blast

lemma overlapped_read_wp:
  "wp (overlapped_read os h ev buff) (\<lambda>(ret, b) s'. \<exists>g x. calls s' = calls s @ [(GetOverlappedResult h ev, g), (CloseHandle ev, x)]
     \<and> answers os (GetOverlappedResult h ev) g \<and> b = store buff 0 (w_data g) \<and> read_answer g ret s s') s"
  (is "wp _ ?Q s")
proof -
  define Q where "Q = ?Q"
  have "wp (overlapped_read os h ev buff) Q s"
    unfolding overlapped_read_def wp_bind
  proof (intro wincall_wp, simp only: wp_let wp_bind, rule wincall_wp)
    fix g :: wresp and obj w x obj' w'
    assume "os (GetOverlappedResult h ev) (sps s, world s) = (g, obj, w)"
    then have g: "answers os (GetOverlappedResult h ev) g" by (rule answersI)
    let ?s = "wanswered (CloseHandle ev) x obj' w' (wanswered (GetOverlappedResult h ev) g obj w s)"
    have Q: "Q (ret, store buff 0 (w_data g)) s'" if "calls s' = calls ?s" "read_answer g ret s s'" for ret s'
      using that g by (auto simp: Q_def)
    have failed: "wp (closed_or (throw_InterruptedIOExceptionWithError n msg))
        (\<lambda>_. wp (State_Monad.return (sint (w_dword g), store buff 0 (w_data g))) Q) ?s" if "w_ret g = 0" for n msg
      by (rule closed_throws) (use that in \<open>auto simp: read_answer_def wp_return intro!: Q\<close>)
    have zero: "wp (closed_or (throw_TimeoutIOException 0 ''Timeout readBuffer overlapped''))
        (\<lambda>_. wp (State_Monad.return (- 1, store buff 0 (w_data g))) Q) ?s" if "w_ret g \<noteq> 0" "w_dword g = 0"
      using that by (auto simp: closed_or_def wp_simps throw_AsynchronousCloseException_def throw_TimeoutIOException_def
          read_answer_def int32_small intro!: Q)
    show "wp (if w_ret g = 0 then do {
         closed_or (throw_InterruptedIOExceptionWithError (uint (w_dword g)) ''Error readBytes (GetOverlappedResult)'');
         State_Monad.return (sint (w_dword g), store buff 0 (w_data g))
       } else if 0 < w_dword g then State_Monad.return (sint (w_dword g), store buff 0 (w_data g))
       else do {
         closed_or (throw_TimeoutIOException (uint (w_dword g)) ''Timeout readBuffer overlapped'');
         State_Monad.return (- 1, store buff 0 (w_data g))
       }) Q ?s"
      using failed zero by (auto simp: wp_if wp_bind wp_return read_answer_def word_gt_0 intro!: Q)
  qed
  then show ?thesis by (simp add: Q_def)
qed

text \<open>The whole of \<open>readBuffer\<close>: the calls it made and what it gave.\<close>

definition read_outcome ::
  "winapi \<Rightarrow> 'w wos \<Rightarrow> bytes \<Rightarrow> int \<Rightarrow> int \<Rightarrow> bytes \<Rightarrow> 'w wstate \<Rightarrow> 'w wstate \<Rightarrow> bool" where
  "read_outcome c os buff len ret b s s' \<longleftrightarrow> (\<exists>e f cs.
     let h = spsw_fd (sps s); ev = w_ret e;
       start = calls s @ (CreateEventA, e) # (ReadFile h (uint32 len) ev, f) # cs in
     (aborted c ev cs \<and> calls s' = start \<and> is_pending s' \<and> ret = 0 \<and> b = buff) \<or>
     (waited c ev cs \<and> (\<exists>g x. calls s' = start @ [(GetOverlappedResult h ev, g), (CloseHandle ev, x)] \<and>
       answers os (GetOverlappedResult h ev) g \<and> b = store buff 0 (w_data g) \<and> read_answer g ret s s')))"

lemma read_outcome_abortedI:
  "aborted c (w_ret e) cs \<Longrightarrow>
     calls s' = calls s @ (CreateEventA, e) # (ReadFile (spsw_fd (sps s)) (uint32 len) (w_ret e), f) # cs \<Longrightarrow>
     is_pending s' \<Longrightarrow> read_outcome c os buff len 0 buff s s'"
  unfolding read_outcome_def Let_def by blast

lemma read_outcome_waitedI:
  "waited c (w_ret e) cs \<Longrightarrow>
     calls s' = (calls s @ (CreateEventA, e) # (ReadFile (spsw_fd (sps s)) (uint32 len) (w_ret e), f) # cs)
       @ [(GetOverlappedResult (spsw_fd (sps s)) (w_ret e), g), (CloseHandle (w_ret e), x)] \<Longrightarrow>
     answers os (GetOverlappedResult (spsw_fd (sps s)) (w_ret e)) g \<Longrightarrow> read_answer g ret s s' \<Longrightarrow>
     read_outcome c os buff len ret (store buff 0 (w_data g)) s s'"
  unfolding read_outcome_def Let_def by blast

lemma read_answer_cong: "pending t = pending s \<Longrightarrow> read_answer g ret t s' \<Longrightarrow> read_answer g ret s s'"
  by (auto simp: read_answer_def split: if_splits)

lemma readBuffer_win_wp: "wp (readBuffer_win c os buff len) (\<lambda>(ret, b) s'. read_outcome c os buff len ret b s s') s"
  unfolding readBuffer_win_def wp_bind wp_GetField
proof (intro wincall_wp)
  fix e f :: wresp and obj w obj' w'
  let ?h = "spsw_fd (sps s)" and ?ev = "w_ret e"
  let ?s = "wanswered (ReadFile ?h (uint32 len) ?ev) f obj' w' (wanswered CreateEventA e obj w s)"
  show "wp (read_started c os ?ev f) (\<lambda>ready. wp (if \<not> ready then State_Monad.return (0, buff)
      else overlapped_read os ?h ?ev buff) (\<lambda>(ret, b). read_outcome c os buff len ret b s)) ?s"
  proof (rule read_started_wp)
    fix s' :: "'a wstate" and cs
    assume s': "calls s' = calls ?s @ cs" "waited c ?ev cs" "pending s' = pending ?s"
    show "wp (if \<not> True then State_Monad.return (0, buff) else overlapped_read os ?h ?ev buff)
        (\<lambda>(ret, b). read_outcome c os buff len ret b s) s'"
      by (simp, rule wp_mono [OF overlapped_read_wp])
        (use s' in \<open>auto intro!: read_outcome_waitedI intro: read_answer_cong\<close>)
  next
    fix s' :: "'a wstate" and cs
    assume "calls s' = calls ?s @ cs" "aborted c ?ev cs" "is_pending s'"
    then show "wp (if \<not> False then State_Monad.return (0, buff) else overlapped_read os ?h ?ev buff)
        (\<lambda>(ret, b). read_outcome c os buff len ret b s) s'"
      by (auto simp: wp_return intro: read_outcome_abortedI)
  qed
qed

text \<open>The same for a write; \<open>len\<close> bytes were asked for.\<close>

definition write_answer :: "wresp \<Rightarrow> int \<Rightarrow> int \<Rightarrow> 'w wstate \<Rightarrow> 'w wstate \<Rightarrow> bool" where
  "write_answer g len ret s s' \<longleftrightarrow> ret = sint (w_dword g) \<and>
     (if w_ret g \<noteq> 0 \<and> uint (w_dword g) = uint32 len then pending s' = pending s else closed_thrown s')"

lemma throws_few:
  "throws (do {
     e \<leftarrow> GetLastError;
     if e = ERROR_IO_PENDING c then throw_TimeoutIOException n msg
     else throw_InterruptedIOExceptionWithError n msg'
   })"
  by (auto simp: GetLastError_def throws_def throws_throw [unfolded throws_def])

lemma overlapped_write_wp:
  "wp (overlapped_write c os h ev len) (\<lambda>ret s'. \<exists>g x. calls s' = calls s @ [(GetOverlappedResult h ev, g), (CloseHandle ev, x)]
     \<and> answers os (GetOverlappedResult h ev) g \<and> write_answer g len ret s s') s"
  (is "wp _ ?Q s")
proof -
  define Q where "Q = ?Q"
  have "wp (overlapped_write c os h ev len) Q s"
    unfolding overlapped_write_def wp_bind
  proof (intro wincall_wp, simp only: wp_let wp_bind, rule wincall_wp, simp only: wp_bind)
    fix g x :: wresp and obj w obj' w'
    assume "os (GetOverlappedResult h ev) (sps s, world s) = (g, obj, w)"
    then have g: "answers os (GetOverlappedResult h ev) g" by (rule answersI)
    let ?s = "wanswered (CloseHandle ev) x obj' w' (wanswered (GetOverlappedResult h ev) g obj w s)"
    have Q: "Q ret s'" if "calls s' = calls ?s" "write_answer g len ret s s'" for ret s'
      using that g by (auto simp: Q_def)
    have failed: "wp (closed_or m) (\<lambda>_. wp (State_Monad.return (sint (w_dword g))) Q) ?s"
      if "throws m" "\<not> (w_ret g \<noteq> 0 \<and> uint (w_dword g) = uint32 len)" for m
      by (rule closed_throws [OF that(1)]) (use that(2) in \<open>auto simp: write_answer_def wp_return intro!: Q\<close>)
    show "wp (if w_ret g = 0
        then closed_or (throw_InterruptedIOExceptionWithError 0 ''Error writeBytes (GetOverlappedResult)'')
        else if uint (w_dword g) \<noteq> uint32 len
        then closed_or (do {
          e \<leftarrow> GetLastError;
          if e = ERROR_IO_PENDING c
          then throw_TimeoutIOException (uint (w_dword g)) ''Timeout writeBuffer overlapped''
          else throw_InterruptedIOExceptionWithError (uint (w_dword g)) ''Error writeBytes too view written''
        })
        else State_Monad.return ()) (\<lambda>_. wp (State_Monad.return (sint (w_dword g))) Q) ?s"
      unfolding wp_if
      by (auto intro!: failed throws_few throws_throw Q simp: wp_return write_answer_def)
  qed
  then show ?thesis by (simp add: Q_def)
qed

definition write_outcome ::
  "winapi \<Rightarrow> 'w wos \<Rightarrow> bytes \<Rightarrow> int \<Rightarrow> int \<Rightarrow> 'w wstate \<Rightarrow> 'w wstate \<Rightarrow> bool" where
  "write_outcome c os buff len ret s s' \<longleftrightarrow> (\<exists>e f cs.
     let h = spsw_fd (sps s); ev = w_ret e;
       start = calls s @ (CreateEventA, e) # (WriteFile h (take (nat (uint32 len)) buff) ev, f) # cs in
     (aborted c ev cs \<and> calls s' = start \<and> is_pending s' \<and> ret = 0) \<or>
     (waited c ev cs \<and> (\<exists>g x. calls s' = start @ [(GetOverlappedResult h ev, g), (CloseHandle ev, x)] \<and>
       answers os (GetOverlappedResult h ev) g \<and> write_answer g len ret s s')))"

lemma write_outcome_abortedI:
  "aborted c (w_ret e) cs \<Longrightarrow>
     calls s' = calls s @ (CreateEventA, e) # (WriteFile (spsw_fd (sps s)) (take (nat (uint32 len)) buff) (w_ret e), f) # cs \<Longrightarrow>
     is_pending s' \<Longrightarrow> write_outcome c os buff len 0 s s'"
  unfolding write_outcome_def Let_def by blast

lemma write_outcome_waitedI:
  "waited c (w_ret e) cs \<Longrightarrow>
     calls s' = (calls s @ (CreateEventA, e) # (WriteFile (spsw_fd (sps s)) (take (nat (uint32 len)) buff) (w_ret e), f) # cs)
       @ [(GetOverlappedResult (spsw_fd (sps s)) (w_ret e), g), (CloseHandle (w_ret e), x)] \<Longrightarrow>
     answers os (GetOverlappedResult (spsw_fd (sps s)) (w_ret e)) g \<Longrightarrow> write_answer g len ret s s' \<Longrightarrow>
     write_outcome c os buff len ret s s'"
  unfolding write_outcome_def Let_def by blast

lemma write_answer_cong: "pending t = pending s \<Longrightarrow> write_answer g len ret t s' \<Longrightarrow> write_answer g len ret s s'"
  by (simp add: write_answer_def)

lemma writeBuffer_win_wp: "wp (writeBuffer_win c os buff len) (\<lambda>ret s'. write_outcome c os buff len ret s s') s"
  unfolding writeBuffer_win_def wp_bind wp_GetField
proof (intro wincall_wp)
  fix e f :: wresp and obj w obj' w'
  let ?h = "spsw_fd (sps s)" and ?ev = "w_ret e" and ?d = "take (nat (uint32 len)) buff"
  let ?s = "wanswered (WriteFile ?h ?d ?ev) f obj' w' (wanswered CreateEventA e obj w s)"
  show "wp (write_started c os ?ev f) (\<lambda>ready. wp (if \<not> ready then State_Monad.return 0
      else overlapped_write c os ?h ?ev len) (\<lambda>ret. write_outcome c os buff len ret s)) ?s"
  proof (rule write_started_wp)
    fix s' :: "'a wstate" and cs
    assume s': "calls s' = calls ?s @ cs" "waited c ?ev cs" "pending s' = pending ?s"
    show "wp (if \<not> True then State_Monad.return 0 else overlapped_write c os ?h ?ev len)
        (\<lambda>ret. write_outcome c os buff len ret s) s'"
      by (simp, rule wp_mono [OF overlapped_write_wp])
        (use s' in \<open>auto intro!: write_outcome_waitedI intro: write_answer_cong\<close>)
  next
    fix s' :: "'a wstate" and cs
    assume "calls s' = calls ?s @ cs" "aborted c ?ev cs" "is_pending s'"
    then show "wp (if \<not> False then State_Monad.return 0 else overlapped_write c os ?h ?ev len)
        (\<lambda>ret. write_outcome c os buff len ret s) s'"
      by (auto simp: wp_return intro: write_outcome_abortedI)
  qed
qed

section \<open>The event of a transfer\<close>

text \<open>Whatever happened, the calls of a transfer close the event they created.\<close>

lemma whandles_calls: "calls s' = calls s @ cs \<Longrightarrow> whandles s' = fold (\<lambda>(c, r). whold c r) cs (whandles s)"
  by (simp add: whandles_def)

lemma read_outcome_handles:
  assumes "read_outcome c os buff len ret b s s'" and "0 \<notin># whandles s"
  shows "whandles s' = whandles s"
  using assms unfolding read_outcome_def Let_def
  by (auto dest!: whandles_calls simp: aborted_def waited_def diff_single_trivial)

lemma write_outcome_handles:
  assumes "write_outcome c os buff len ret s s'" and "0 \<notin># whandles s"
  shows "whandles s' = whandles s"
  using assms unfolding write_outcome_def Let_def
  by (auto dest!: whandles_calls simp: aborted_def waited_def diff_single_trivial)

section \<open>The bytes that were transferred\<close>

text \<open>
  What the successful answers of \<open>GetOverlappedResult\<close> have put into buffers, in order.
\<close>

definition fetch_data :: "wcall \<Rightarrow> wresp \<Rightarrow> bytes" where
  "fetch_data c r = (case c of GetOverlappedResult h e \<Rightarrow> if w_ret r = 0 then [] else w_data r | _ \<Rightarrow> [])"

definition fetched :: "'w wstate \<Rightarrow> bytes" where
  "fetched s = concat (map (\<lambda>(c, r). fetch_data c r) (calls s))"

text \<open>
  The documented behaviour of a driver: it reports as many bytes as it has stored, and no more
  than were asked for.
\<close>

definition delivers :: "'w wos \<Rightarrow> int \<Rightarrow> bool" where
  "delivers os len \<longleftrightarrow> (\<forall>h e x. let r = fst (os (GetOverlappedResult h e) x) in
     int (length (w_data r)) = uint (w_dword r) \<and> uint (w_dword r) \<le> len)"

lemma fetched_calls: "calls s' = calls s @ cs \<Longrightarrow> fetched s' = fetched s @ concat (map (\<lambda>(c, r). fetch_data c r) cs)"
  by (simp add: fetched_def)

lemma read_outcome_data:
  assumes out: "read_outcome c os buff len ret b s s'" and ok: "\<not> is_pending s'"
    and drv: "delivers os len" and len: "len < 2 ^ 31" "len \<le> int (length buff)"
  shows "0 < ret \<and> ret \<le> len \<and> fetched s' = fetched s @ take (nat ret) b \<and> drop (nat ret) b = drop (nat ret) buff
    \<and> length b = length buff"
proof -
  from out ok obtain e f cs g x where cs: "waited c (w_ret e) cs"
    and calls: "calls s' = calls s @ (CreateEventA, e) # (ReadFile (spsw_fd (sps s)) (uint32 len) (w_ret e), f) # cs
      @ [(GetOverlappedResult (spsw_fd (sps s)) (w_ret e), g), (CloseHandle (w_ret e), x)]"
    and g: "answers os (GetOverlappedResult (spsw_fd (sps s)) (w_ret e)) g" "b = store buff 0 (w_data g)" "read_answer g ret s s'"
    unfolding read_outcome_def Let_def by auto
  from g(3) ok have ret: "w_ret g \<noteq> 0" "ret = sint (w_dword g)" "w_dword g \<noteq> 0"
    by (auto simp: read_answer_def closed_thrown_def is_pending_def split: if_splits)
  have d: "int (length (w_data g)) = uint (w_dword g)" "uint (w_dword g) \<le> len"
    using drv g(1) unfolding delivers_def answers_def Let_def by (metis fst_conv)+
  have small: "sint (w_dword g) = uint (w_dword g)"
    using d(2) len(1) order.strict_trans1 [OF d(2) len(1)] order_trans [OF _ uint_ge_0, of "- 2147483648" "w_dword g"]
    by (simp add: sint_uint signed_take_bit_int_eq_self)
  have pos: "0 < uint (w_dword g)" using ret(3) uint_ge_0 [of "w_dword g"] unsigned_eq_0_iff [of "w_dword g"] by (simp add: less_le)
  have n: "nat ret = length (w_data g)" unfolding ret(2) small d(1) [symmetric] by simp
  have "fetched s' = fetched s @ w_data g"
    using fetched_calls [OF calls] cs ret(1) by (auto simp: fetch_data_def waited_def)
  then show ?thesis
    using n d len pos by (simp add: g(2) store_def ret(2) small)
qed

text \<open>A write without an exception: the driver was given the bytes and took all of them.\<close>

definition written_all :: "winapi \<Rightarrow> bytes \<Rightarrow> int \<Rightarrow> 'w wstate \<Rightarrow> 'w wstate \<Rightarrow> bool" where
  "written_all c buff len s s' \<longleftrightarrow> (\<exists>ev e f cs g x. waited c ev cs \<and>
     calls s' = calls s @ (CreateEventA, e) # (WriteFile (spsw_fd (sps s)) (take (nat len) buff) ev, f) # cs
       @ [(GetOverlappedResult (spsw_fd (sps s)) ev, g), (CloseHandle ev, x)] \<and>
     w_ret g \<noteq> 0 \<and> uint (w_dword g) = len)"

lemma write_outcome_data:
  assumes out: "write_outcome c os buff len ret s s'" and ok: "\<not> is_pending s'"
    and len: "0 \<le> len" "len < 2 ^ 31"
  shows "ret = len \<and> written_all c buff len s s'"
proof -
  have l: "uint32 len = len" using len by (simp add: uint32_id)
  from out ok obtain e f cs g x where cs: "waited c (w_ret e) cs"
    and calls: "calls s' = calls s @ (CreateEventA, e) # (WriteFile (spsw_fd (sps s)) (take (nat len) buff) (w_ret e), f) # cs
      @ [(GetOverlappedResult (spsw_fd (sps s)) (w_ret e), g), (CloseHandle (w_ret e), x)]"
    and g: "write_answer g len ret s s'"
    unfolding write_outcome_def Let_def l by auto
  from g ok have d: "w_ret g \<noteq> 0" "uint (w_dword g) = len" "ret = sint (w_dword g)"
    by (auto simp: write_answer_def closed_thrown_def is_pending_def l split: if_splits)
  then have "ret = len" using len by (simp add: sint_uint signed_take_bit_int_eq_self)
  moreover have "written_all c buff len s s'"
    unfolding written_all_def using cs calls d(1,2) by blast
  ultimately show ?thesis by simp
qed

section \<open>Properties\<close>

text \<open>
  A port that gives at most 3 of the bytes waiting in the world, and takes all it is given;
  its events are numbered 7.
\<close>

definition queue_port :: "bytes wos" where
  "queue_port c x = (case x of (obj, q) \<Rightarrow> (case c of
       CreateEventA \<Rightarrow> (wresp0\<lparr>w_ret := 7\<rparr>, obj, q)
     | ReadFile _ _ _ \<Rightarrow> (wresp0\<lparr>w_ret := 0, w_error := 997\<rparr>, obj, q)
     | WriteFile _ bs _ \<Rightarrow> (wresp0\<lparr>w_ret := 0, w_error := 997\<rparr>, obj, bs)
     | WaitForSingleObject _ \<Rightarrow> (wresp0\<lparr>w_ret := 0\<rparr>, obj, q)
     | GetOverlappedResult _ _ \<Rightarrow>
         (wresp0\<lparr>w_dword := of_nat (length (take 3 q)), w_data := take 3 q\<rparr>, obj, drop 3 q)
     | _ \<Rightarrow> (wresp0, obj, q)))"

lemma uint_of_small: "k \<le> 3 \<Longrightarrow> uint (of_nat k :: 32 word) = int k"
  by (simp add: unsigned_of_nat take_bit_nat_eq_self)

lemma queue_port_result:
  "fst (queue_port (GetOverlappedResult h e) (obj, q)) = wresp0\<lparr>w_dword := of_nat (length (take 3 q)), w_data := take 3 q\<rparr>"
  by (simp add: queue_port_def)

lemma delivers_queue_port [simp]: "delivers queue_port 3"
  by (simp add: delivers_def split_paired_all queue_port_result uint_of_small wresp0_def)

text \<open>
  C16: a read on Windows that throws nothing gives between 1 and \<open>len\<close> bytes; they are, at the
  start of the buffer, exactly the bytes the driver delivered during the call, and the rest of
  the buffer is untouched.
\<close>

theorem readBuffer_win_correct:
  assumes "delivers os len" and "len < 2 ^ 31" and "len \<le> int (length buff)"
  shows "case run_state (readBuffer_win c os buff len) s of ((ret, b), s') \<Rightarrow> is_pending s' \<or>
    (0 < ret \<and> ret \<le> len \<and> fetched s' = fetched s @ take (nat ret) b \<and> drop (nat ret) b = drop (nat ret) buff
      \<and> length b = length buff)"
proof -
  have "wp (readBuffer_win c os buff len) (\<lambda>(ret, b) s'. is_pending s' \<or>
    (0 < ret \<and> ret \<le> len \<and> fetched s' = fetched s @ take (nat ret) b \<and> drop (nat ret) b = drop (nat ret) buff
      \<and> length b = length buff)) s"
    by (rule wp_mono [OF readBuffer_win_wp]) (use read_outcome_data [OF _ _ assms] in blast)
  then show ?thesis by (simp add: wp_def split: prod.splits)
qed

lemma read_win_run:
  "case run_state (readBuffer_win windows_consts queue_port [0, 0, 0, 0] 3) (windows_state [4, 5]) of ((ret, b), s') \<Rightarrow>
    ret = 2 \<and> b = [4, 5, 0, 0] \<and> \<not> is_pending s'"
  by code_simp

theorem readBuffer_win_correct_witness:
  "case run_state (readBuffer_win windows_consts queue_port [0, 0, 0, 0] 3) (windows_state [4, 5]) of ((ret, b), s') \<Rightarrow>
    ret = 2 \<and> b = [4, 5, 0, 0] \<and> \<not> is_pending s' \<and> fetched s' = [4, 5]"
  using readBuffer_win_correct [where os = queue_port and len = 3 and buff = "[0, 0, 0, 0]" and c = windows_consts
      and s = "windows_state [4, 5]"] read_win_run
  by (auto simp: fetched_def split: prod.splits)

text \<open>
  C17: a write on Windows that throws nothing has handed the first \<open>len\<close> bytes of the buffer
  to the port in one operation, and the driver reported that it took all of them; the result is
  \<open>len\<close>.
\<close>

theorem writeBuffer_win_correct:
  assumes "0 \<le> len" and "len < 2 ^ 31"
  shows "case run_state (writeBuffer_win c os buff len) s of (ret, s') \<Rightarrow> is_pending s' \<or>
    (ret = len \<and> written_all c buff len s s')"
proof -
  have "wp (writeBuffer_win c os buff len) (\<lambda>ret s'. is_pending s' \<or> (ret = len \<and> written_all c buff len s s')) s"
    by (rule wp_mono [OF writeBuffer_win_wp]) (use write_outcome_data [OF _ _ assms] in blast)
  then show ?thesis by (simp add: wp_def split: prod.splits)
qed

lemma write_win_run:
  "case run_state (writeBuffer_win windows_consts queue_port [4, 5, 6] 2) (windows_state []) of (ret, s') \<Rightarrow> \<not> is_pending s'"
  by code_simp

theorem writeBuffer_win_correct_witness:
  "case run_state (writeBuffer_win windows_consts queue_port [4, 5, 6] 2) (windows_state []) of (ret, s') \<Rightarrow>
    \<not> is_pending s' \<and> ret = 2 \<and> written_all windows_consts [4, 5, 6] 2 (windows_state []) s'"
  using writeBuffer_win_correct [where len = 2 and os = queue_port and buff = "[4, 5, 6]" and c = windows_consts
      and s = "windows_state []"] write_win_run
  by (auto split: prod.splits)

text \<open>
  Reading and writing on Windows close the event they create, on every path: the handles of
  the process are the same afterwards. (0 is the handle of an event that could not be created; it
  is none of the handles the process holds.)
\<close>

theorem transfers_close_event:
  assumes "0 \<notin># whandles s"
  shows "(case run_state (readBuffer_win c os buff len) s of (_, s') \<Rightarrow> whandles s' = whandles s) \<and>
    (case run_state (writeBuffer_win c os buff len) s of (_, s') \<Rightarrow> whandles s' = whandles s)"
proof (rule conjI)
  have "wp (readBuffer_win c os buff len) (\<lambda>_ s'. whandles s' = whandles s) s"
    by (rule wp_mono [OF readBuffer_win_wp]) (use read_outcome_handles [OF _ assms] in blast)
  then show "case run_state (readBuffer_win c os buff len) s of (_, s') \<Rightarrow> whandles s' = whandles s"
    by (simp add: wp_def split: prod.splits)
  have "wp (writeBuffer_win c os buff len) (\<lambda>_ s'. whandles s' = whandles s) s"
    by (rule wp_mono [OF writeBuffer_win_wp]) (use write_outcome_handles [OF _ assms] in blast)
  then show "case run_state (writeBuffer_win c os buff len) s of (_, s') \<Rightarrow> whandles s' = whandles s"
    by (simp add: wp_def split: prod.splits)
qed

theorem transfers_close_event_witness:
  "(case run_state (readBuffer_win windows_consts queue_port [0, 0, 0, 0] 3) (windows_state [4, 5]) of (_, s') \<Rightarrow> whandles s' = {#}) \<and>
    (case run_state (writeBuffer_win windows_consts queue_port [0, 0, 0, 0] 3) (windows_state [4, 5]) of (_, s') \<Rightarrow> whandles s' = {#})"
  using transfers_close_event [where s = "windows_state [4, 5]" and c = windows_consts and os = queue_port
      and buff = "[0, 0, 0, 0]" and len = 3]
  by (simp add: whandles_def)

end
