(* ===== verification/AbstractIO.thy ===== *)
theory AbstractIO
  imports TermiosIO WinApiIO
begin

text \<open>
  \<open>AbstractSerialPortSocketIO.c\<close>: the native methods of Java that move bytes between Java
  arrays or buffers and the two functions \<open>readBuffer\<close> and \<open>writeBuffer\<close>, which each
  platform provides. They are arguments here; the locale \<open>byte_channel\<close> says what the methods
  rely on, and the two platforms interpret it.

  A Java array is the list of its bytes, given to and returned by a method that changes it.
  \<open>mem\<close> is what a buffer holds before it is written. \<open>GetByteArrayElements\<close> is taken to
  succeed; the code does not ask.
\<close>

section \<open>Native buffers and Java arrays\<close>

type_synonym 's reader = "bytes \<Rightarrow> int \<Rightarrow> 's \<Rightarrow> ((int \<times> bytes) \<times> 's) option"
type_synonym 's writer = "bytes \<Rightarrow> int \<Rightarrow> 's \<Rightarrow> (int \<times> 's) option"

definition MAX_STACK_BUF_SIZE :: int where
  "MAX_STACK_BUF_SIZE = 8192"

definition fresh_buffer :: "(nat \<Rightarrow> byte) \<Rightarrow> int \<Rightarrow> bytes" where
  "fresh_buffer mem len = map mem [0..<nat len]"

definition malloc :: "int \<Rightarrow> (('w, 'c) jni, bool) state" where
  "malloc n = do {
     s \<leftarrow> State_Monad.get;
     if vm_malloc (vm s) n then do {
       modify (\<lambda>s. s\<lparr>native_blocks := native_blocks s + 1\<rparr>);
       State_Monad.return True
     } else State_Monad.return False
   }"

definition free :: "(('w, 'c) jni, unit) state" where
  "free = modify (\<lambda>s. s\<lparr>native_blocks := native_blocks s - 1\<rparr>)"

text \<open>The region functions check the range; outside it they throw and copy nothing.\<close>

definition in_range :: "bytes \<Rightarrow> int \<Rightarrow> int \<Rightarrow> bool" where
  "in_range bytes off len \<longleftrightarrow> 0 \<le> off \<and> 0 \<le> len \<and> off + len \<le> int (length bytes)"

definition SetByteArrayRegion :: "bytes \<Rightarrow> int \<Rightarrow> int \<Rightarrow> bytes \<Rightarrow> (('w, 'c) jni, bytes) state" where
  "SetByteArrayRegion bytes off len buf =
     (if in_range bytes off len then State_Monad.return (store bytes (nat off) (take (nat len) buf))
      else do {
        Throw ArrayIndexOutOfBoundsException;
        State_Monad.return bytes
      })"

definition GetByteArrayRegion :: "bytes \<Rightarrow> int \<Rightarrow> int \<Rightarrow> bytes \<Rightarrow> (('w, 'c) jni, bytes) state" where
  "GetByteArrayRegion bytes off len buf =
     (if in_range bytes off len then State_Monad.return (store buf 0 (take (nat len) (drop (nat off) bytes)))
      else do {
        Throw ArrayIndexOutOfBoundsException;
        State_Monad.return buf
      })"

text \<open>
  Where a transfer of \<open>len\<close> bytes gets its buffer: from the stack, or from \<open>malloc\<close> when it
  is large. \<open>None\<close> means that an \<open>OutOfMemoryError\<close> has been thrown.
\<close>

definition acquire :: "(nat \<Rightarrow> byte) \<Rightarrow> int \<Rightarrow> (('w, 'c) jni, bytes option) state" where
  "acquire mem len =
     (if MAX_STACK_BUF_SIZE < len then do {
        ok \<leftarrow> malloc (uint32 len);
        if \<not> ok then do {
          throw_OutOfMemoryError ''Can`t aquire native memory'';
          State_Monad.return None
        } else State_Monad.return (Some (fresh_buffer mem len))
      } else State_Monad.return (Some (fresh_buffer mem len)))"

definition release :: "int \<Rightarrow> (('w, 'c) jni, unit) state" where
  "release len = (if MAX_STACK_BUF_SIZE < len then free else State_Monad.return ())"

section \<open>Reading\<close>

text \<open>What follows \<open>readBuffer\<close> in \<open>readBytes_ArgsOK\<close>.\<close>

definition copy_out :: "bytes \<Rightarrow> int \<Rightarrow> int \<Rightarrow> int \<Rightarrow> bytes \<Rightarrow> (('w, 'c) jni, int \<times> bytes) state" where
  "copy_out bytes off len result buf = do {
     arr \<leftarrow> (if 0 < result then SetByteArrayRegion bytes off result buf else State_Monad.return bytes);
     release len;
     State_Monad.return (result, arr)
   }"

definition readBytes_ArgsOK ::
  "('w, 'c) jni reader \<Rightarrow> (nat \<Rightarrow> byte) \<Rightarrow> bytes \<Rightarrow> int \<Rightarrow> int \<Rightarrow> ('w, 'c) jni
     \<Rightarrow> ((int \<times> bytes) \<times> ('w, 'c) jni) option" where
  "readBytes_ArgsOK rd mem bytes off len s =
     (case run_state (acquire mem len) s of (acquired, s1) \<Rightarrow> (case acquired of
        None \<Rightarrow> Some ((0, bytes), s1)
      | Some buf \<Rightarrow> (case rd buf len s1 of
          None \<Rightarrow> None
        | Some ((result, buf1), s2) \<Rightarrow> Some (run_state (copy_out bytes off len result buf1) s2))))"

definition readBytes :: "'s reader \<Rightarrow> bytes \<Rightarrow> 's \<Rightarrow> ((int \<times> bytes) \<times> 's) option" where
  "readBytes rd bytes s = rd bytes (int (length bytes)) s"

text \<open>The byte is a \<open>jbyte\<close>, so it is sign-extended before the mask takes its low eight bits.\<close>

definition single_result :: "int \<Rightarrow> byte \<Rightarrow> (('w, 'c) jni, int) state" where
  "single_result result readBuff =
     (if result = - 1 then State_Monad.return (- 1)
      else if result = 0 then State_Monad.return (- 1)
      else if result = 1 then State_Monad.return (sint (scast readBuff AND (0xFF :: 32 word)))
      else do {
        throw_IllegalArgumentException
          ''Saveguard for Java_de_ibapl_spsw_jniprovider_AbstractSerialPortSocket_readSingle read single returnd unexpected result.'';
        State_Monad.return result
      })"

definition readSingle ::
  "('w, 'c) jni reader \<Rightarrow> (nat \<Rightarrow> byte) \<Rightarrow> ('w, 'c) jni \<Rightarrow> (int \<times> ('w, 'c) jni) option" where
  "readSingle rd mem s =
     (case rd (fresh_buffer mem 1) 1 s of
        None \<Rightarrow> None
      | Some ((result, buf), s1) \<Rightarrow> Some (run_state (single_result result (buf ! 0)) s1))"

text \<open>A direct buffer is read into from its position on; the bytes before it stay.\<close>

definition read_ArgsOK :: "'s reader \<Rightarrow> bytes \<Rightarrow> int \<Rightarrow> int \<Rightarrow> 's \<Rightarrow> ((int \<times> bytes) \<times> 's) option" where
  "read_ArgsOK rd byteBuffer pos len s =
     (case rd (drop (nat pos) byteBuffer) len s of
        None \<Rightarrow> None
      | Some ((result, buf), s1) \<Rightarrow> Some ((result, take (nat pos) byteBuffer @ buf), s1))"

section \<open>Writing\<close>

definition writeBytes_ArgsOK ::
  "('w, 'c) jni writer \<Rightarrow> (nat \<Rightarrow> byte) \<Rightarrow> bytes \<Rightarrow> int \<Rightarrow> int \<Rightarrow> ('w, 'c) jni
     \<Rightarrow> (unit \<times> ('w, 'c) jni) option" where
  "writeBytes_ArgsOK wr mem bytes off len s =
     (case run_state (acquire mem len) s of (acquired, s1) \<Rightarrow> (case acquired of
        None \<Rightarrow> Some ((), s1)
      | Some buf \<Rightarrow> (case run_state (GetByteArrayRegion bytes off len buf) s1 of (buf1, s2) \<Rightarrow>
          if is_pending s2 then Some ((), s2)
          else (case wr buf1 len s2 of
            None \<Rightarrow> None
          | Some (_, s3) \<Rightarrow> Some (run_state (release len) s3)))))"

definition write_ArgsOK :: "'s writer \<Rightarrow> bytes \<Rightarrow> int \<Rightarrow> int \<Rightarrow> 's \<Rightarrow> (int \<times> 's) option" where
  "write_ArgsOK wr byteBuffer pos len s = wr (drop (nat pos) byteBuffer) len s"

definition writeBytes :: "'s writer \<Rightarrow> bytes \<Rightarrow> 's \<Rightarrow> (unit \<times> 's) option" where
  "writeBytes wr bytes s = map_option (\<lambda>(_, s'). ((), s')) (wr bytes (int (length bytes)) s)"

text \<open>The object representation of a \<open>jint\<close>, whose first byte \<open>writeSingle\<close> writes.\<close>

definition jint_bytes :: "bool \<Rightarrow> jint \<Rightarrow> bytes" where
  "jint_bytes big b = (if big then rev else id) (map (\<lambda>i. ucast (drop_bit (8 * i) b)) [0, 1, 2, 3])"

definition writeSingle :: "'s writer \<Rightarrow> bool \<Rightarrow> jint \<Rightarrow> 's \<Rightarrow> (unit \<times> 's) option" where
  "writeSingle wr big b s = map_option (\<lambda>(_, s'). ((), s')) (wr (jint_bytes big b) 1 s)"

section \<open>The channel the methods rely on\<close>

text \<open>
  A source of bytes: \<open>taken\<close> is what has been received so far, \<open>ready\<close> what the environment
  promises for a transfer. A read that throws nothing has given the bytes it received at the start
  of the buffer.
\<close>

locale byte_source =
  fixes rd :: "('w, 'c) jni reader" and ready :: "int \<Rightarrow> ('w, 'c) jni \<Rightarrow> bool" and taken :: "('w, 'c) jni \<Rightarrow> bytes"
  assumes rd_data: "rd buff len s = Some ((n, b), s') \<Longrightarrow> ready len s \<Longrightarrow> 0 < len \<Longrightarrow> len < 2 ^ 31 \<Longrightarrow>
      len \<le> int (length buff) \<Longrightarrow> \<not> is_pending s' \<Longrightarrow> 0 \<le> n \<and> n \<le> len \<and> length b = length buff \<and>
      drop (nat n) b = drop (nat n) buff \<and> taken s' = taken s @ take (nat n) b"
    and rd_result: "rd buff len s = Some ((n, b), s') \<Longrightarrow> ready len s \<Longrightarrow> 0 < len \<Longrightarrow> len < 2 ^ 31 \<Longrightarrow>
      len \<le> int (length buff) \<Longrightarrow> - 1 \<le> n \<and> n \<le> len"
    and rd_blocks: "rd buff len s = Some ((n, b), s') \<Longrightarrow> native_blocks s' = native_blocks s"
    and taken_local: "taken (s\<lparr>native_blocks := k\<rparr>) = taken s" "ready len (s\<lparr>native_blocks := k\<rparr>) = ready len s"

text \<open>A sink of bytes: a write that throws nothing has sent all it was given.\<close>

locale byte_sink =
  fixes wr :: "('w, 'c) jni writer" and ready :: "int \<Rightarrow> ('w, 'c) jni \<Rightarrow> bool" and given :: "('w, 'c) jni \<Rightarrow> bytes"
  assumes wr_data: "wr buff len s = Some (n, s') \<Longrightarrow> ready len s \<Longrightarrow> 0 < len \<Longrightarrow> len < 2 ^ 31 \<Longrightarrow>
      len \<le> int (length buff) \<Longrightarrow> \<not> is_pending s' \<Longrightarrow> given s' = given s @ take (nat len) buff"
    and wr_blocks: "wr buff len s = Some (n, s') \<Longrightarrow> native_blocks s' = native_blocks s"
    and given_local: "given (s\<lparr>native_blocks := k\<rparr>) = given s" "ready len (s\<lparr>native_blocks := k\<rparr>) = ready len s"

locale byte_channel = byte_source rd ready taken + byte_sink wr ready given
  for rd :: "('w, 'c) jni reader" and wr :: "('w, 'c) jni writer" and ready taken given

text \<open>The buffer of a transfer, and the count of native blocks when it is given back.\<close>

lemma length_fresh_buffer [simp]: "0 \<le> len \<Longrightarrow> int (length (fresh_buffer mem len)) = len"
  by (simp add: fresh_buffer_def)

lemma acquire_run:
  assumes "run_state (acquire mem len) s = (Some buf, s1)"
  shows "buf = fresh_buffer mem len \<and> s1 = s\<lparr>native_blocks := native_blocks s + (if MAX_STACK_BUF_SIZE < len then 1 else 0)\<rparr>"
  using assms by (auto simp: acquire_def malloc_def split: if_splits prod.splits)

lemma acquire_failed:
  assumes "run_state (acquire mem len) s = (None, s1)"
  shows "is_pending s1 \<and> native_blocks s1 = native_blocks s"
  using assms wp_throws [OF throws_throw(8), of "\<lambda>_ s'. is_pending s' \<and> native_blocks s' = native_blocks s" s "''Can`t aquire native memory''"]
  by (auto simp: acquire_def malloc_def wp_def split: if_splits prod.splits)

lemma release_run: "run_state (release len) s = ((), s\<lparr>native_blocks := native_blocks s - (if MAX_STACK_BUF_SIZE < len then 1 else 0)\<rparr>)"
  by (simp add: release_def free_def)

lemma single_mask: "sint (scast v AND (0xFF :: 32 word)) = uint v" for v :: byte
proof -
  have "scast v AND (0xFF :: 32 word) = take_bit 8 (scast v)" by (simp add: take_bit_eq_mask mask_eq_exp_minus_1)
  also have "\<dots> = ucast v" 
  proof (rule bit_word_eqI)
    fix n
    assume "n < LENGTH(32)"
    then show "bit (take_bit 8 (scast v :: 32 word)) n = bit (ucast v :: 32 word) n"
      by (cases "n < 7"; cases "n = 7") (auto simp: bit_simps min_def dest: bit_imp_le_length)
  qed
  finally have e: "scast v AND (0xFF :: 32 word) = ucast v" .
  show ?thesis
    unfolding e using uint_lt2p [of v] order_trans [OF _ uint_ge_0, of "- 2147483648" v]
    by (simp add: sint_uint unsigned_ucast_eq take_bit_int_eq_self signed_take_bit_int_eq_self)
qed

text \<open>What \<open>readBytes_ArgsOK\<close> promises about the Java array and native memory.\<close>

definition array_read ::
  "(('w, 'c) jni \<Rightarrow> bytes) \<Rightarrow> bytes \<Rightarrow> int \<Rightarrow> int \<Rightarrow> int \<Rightarrow> bytes \<Rightarrow> ('w, 'c) jni \<Rightarrow> ('w, 'c) jni \<Rightarrow> bool" where
  "array_read taken bytes off len n arr s s' \<longleftrightarrow> native_blocks s' = native_blocks s \<and> (is_pending s' \<or>
     (0 \<le> n \<and> n \<le> len \<and> (\<exists>d. length d = nat n \<and> taken s' = taken s @ d \<and> arr = store bytes (nat off) d)))"

context byte_source
begin

lemma readBytes_ArgsOK_law:
  assumes run: "readBytes_ArgsOK rd mem bytes off len s = Some ((n, arr), s')"
    and ready: "ready len s" and len: "0 < len" "len < 2 ^ 31" and range: "in_range bytes off len"
  shows "array_read taken bytes off len n arr s s'"
proof (cases "fst (run_state (acquire mem len) s)")
  case None
  then show ?thesis
    using run acquire_failed [of mem len s] by (auto simp: readBytes_ArgsOK_def array_read_def split: prod.splits)
next
  case (Some buf)
  then obtain s1 where acq: "run_state (acquire mem len) s = (Some buf, s1)" by (metis prod.collapse)
  note s1 = acquire_run [OF acq]
  obtain r b s2 where rd: "rd buf len s1 = Some ((r, b), s2)"
    using run by (auto simp: readBytes_ArgsOK_def acq split: option.splits)
  have out: "run_state (copy_out bytes off len r b) s2 = ((n, arr), s')"
    using run by (simp add: readBytes_ArgsOK_def acq rd)
  have buf: "len \<le> int (length buf)" using s1 len by simp
  have r: "- 1 \<le> r \<and> r \<le> len" by (rule rd_result [OF rd _ len buf]) (use ready s1 in \<open>simp add: taken_local\<close>)
  have blocks: "native_blocks s2 = native_blocks s1" by (rule rd_blocks [OF rd])
  have copied: "n = r \<and> is_pending s' = is_pending s2 \<and> native_blocks s' = native_blocks s \<and> taken s' = taken s2 \<and>
      arr = (if 0 < r then store bytes (nat off) (take (nat r) b) else bytes)"
    using out range r s1 blocks
    by (auto simp: copy_out_def SetByteArrayRegion_def in_range_def release_run is_pending_def taken_local split: if_splits)
  show ?thesis
  proof (cases "is_pending s2")
    case False
    from rd_data [OF rd _ len buf False] ready s1
    have d: "0 \<le> r" "r \<le> len" "length b = length buf" "taken s2 = taken s @ take (nat r) b"
      by (simp_all add: taken_local)
    then have "length (take (nat r) b) = nat r" using buf by simp
    then show ?thesis
      using d copied unfolding array_read_def by (auto intro!: exI [of _ "take (nat r) b"])
  qed (use copied in \<open>simp add: array_read_def\<close>)
qed

lemma readSingle_law:
  assumes run: "readSingle rd mem s = Some (x, s')" and ready: "ready 1 s"
  shows "(x = - 1 \<and> (is_pending s' \<or> taken s' = taken s)) \<or>
    (0 \<le> x \<and> x < 256 \<and> (is_pending s' \<or> taken s' = taken s @ [word_of_int x]))"
proof -
  obtain r b s1 where rd: "rd (fresh_buffer mem 1) 1 s = Some ((r, b), s1)"
    and out: "run_state (single_result r (b ! 0)) s1 = (x, s')"
    using run by (auto simp: readSingle_def split: option.splits)
  have r: "- 1 \<le> r \<and> r \<le> 1" by (rule rd_result [OF rd ready]) simp_all
  then consider "r = - 1 \<or> r = 0" | "r = 1" by linarith
  then show ?thesis
  proof cases
    case 1
    moreover have "is_pending s1 \<or> (0 \<le> r \<and> taken s1 = taken s @ take (nat r) b)"
      using rd_data [OF rd ready] by auto
    ultimately show ?thesis using out by (auto simp: single_result_def)
  next
    case 2
    have "is_pending s1 \<or> (length b = 1 \<and> taken s1 = taken s @ take 1 b)"
      using rd_data [OF rd ready] 2 by (auto simp: fresh_buffer_def)
    then have "is_pending s1 \<or> taken s1 = taken s @ [b ! 0]"
      by (cases b) auto
    moreover have "x = uint (b ! 0)" "s' = s1" using out 2 by (simp_all add: single_result_def single_mask)
    ultimately show ?thesis using uint_lt2p [of "b ! 0"] by simp
  qed
qed

lemma readBytes_law:
  assumes run: "readBytes rd bytes s = Some ((n, arr), s')" and ready: "ready (int (length bytes)) s"
    and len: "bytes \<noteq> []" "int (length bytes) < 2 ^ 31"
  shows "array_read taken bytes 0 (int (length bytes)) n arr s s'"
proof -
  have rd: "rd bytes (int (length bytes)) s = Some ((n, arr), s')" using run by (simp add: readBytes_def)
  show ?thesis
  proof (cases "is_pending s'")
    case False
    from rd_data [OF rd ready _ len(2) _ False] len(1)
    have d: "0 \<le> n" "n \<le> int (length bytes)" "length arr = length bytes" "drop (nat n) arr = drop (nat n) bytes"
        "taken s' = taken s @ take (nat n) arr" by simp_all
    then have "arr = store bytes 0 (take (nat n) arr)" "length (take (nat n) arr) = nat n"
      by (simp_all add: store_def) (metis append_take_drop_id)
    then show ?thesis
      using d rd_blocks [OF rd] unfolding array_read_def by auto
  qed (use rd_blocks [OF rd] in \<open>simp add: array_read_def\<close>)
qed

end

context byte_sink
begin

lemma writeBytes_ArgsOK_law:
  assumes run: "writeBytes_ArgsOK wr mem bytes off len s = Some (u, s')" and pending: "\<not> is_pending s"
    and ready: "ready len s" and len: "0 < len" "len < 2 ^ 31" and range: "in_range bytes off len"
  shows "native_blocks s' = native_blocks s \<and>
    (is_pending s' \<or> given s' = given s @ take (nat len) (drop (nat off) bytes))"
proof (cases "fst (run_state (acquire mem len) s)")
  case None
  then show ?thesis
    using run acquire_failed [of mem len s] by (auto simp: writeBytes_ArgsOK_def split: prod.splits)
next
  case (Some buf)
  then obtain s1 where acq: "run_state (acquire mem len) s = (Some buf, s1)" by (metis prod.collapse)
  note s1 = acquire_run [OF acq]
  let ?d = "take (nat len) (drop (nat off) bytes)"
  have d: "length ?d = nat len" using range by (simp add: in_range_def) linarith
  then have st: "store buf 0 ?d = ?d"
    using s1 by (simp add: store_def fresh_buffer_def)
  have p1: "\<not> is_pending s1" using pending s1 by (simp add: is_pending_def)
  obtain n s2 where wr: "wr ?d len s1 = Some (n, s2)"
    and out: "run_state (release len) s2 = (u, s')"
    using run range p1 st by (auto simp: writeBytes_ArgsOK_def acq GetByteArrayRegion_def split: option.splits)
  have blocks: "native_blocks s2 = native_blocks s1" by (rule wr_blocks [OF wr])
  have s': "is_pending s' = is_pending s2" "native_blocks s' = native_blocks s" "given s' = given s2"
    using out blocks s1 by (auto simp: release_run is_pending_def given_local)
  show ?thesis
  proof (cases "is_pending s2")
    case False
    from wr_data [OF wr _ len _ False] ready s1 d len
    have "given s2 = given s @ ?d" by (simp add: given_local)
    then show ?thesis using s' by simp
  qed (use s' in simp)
qed

lemma writeSingle_law:
  assumes "writeSingle wr big b s = Some (u, s')" and "ready 1 s" and "\<not> is_pending s'"
  shows "given s' = given s @ [hd (jint_bytes big b)]"
proof -
  obtain n where wr: "wr (jint_bytes big b) 1 s = Some (n, s')"
    using assms(1) by (auto simp: writeSingle_def)
  have "given s' = given s @ take (nat 1) (jint_bytes big b)"
    by (rule wr_data [OF wr assms(2) _ _ _ assms(3)]) (simp_all add: jint_bytes_def)
  then show ?thesis by (simp add: jint_bytes_def take_Suc)
qed

end

section \<open>The two platforms\<close>

text \<open>
  What a transfer leaves as it is: an observation of the state that no call of the environment, no
  exception and no read of an unset time changes is the same when \<open>readBuffer\<close> or \<open>writeBuffer\<close>
  returns.
\<close>

locale transfer_observer =
  fixes os :: "'w os" and observe :: "'w pstate \<Rightarrow> 'x"
  assumes call: "os c (sps s, world s) = (r, obj, w) \<Longrightarrow> observe (answered c r obj w s) = observe s"
    and thrown: "observe (s\<lparr>pending := e\<rparr>) = observe s"
    and marked: "observe (s\<lparr>uninit_read := b\<rparr>) = observe s"
begin

lemma frame_call [frame_intros]: "frame observe (syscall os c)"
  by (auto simp: syscall_def frame_def call split: prod.splits)

lemma frame_thrower: "throws m \<Longrightarrow> frame observe m"
  unfolding frame_def throws_def by (metis snd_conv thrown)

lemmas frame_throwers [frame_intros] = throws_throw [THEN frame_thrower]

lemma frame_steps [frame_intros]: "frame observe mark_uninit" "frame observe (GetField g)"
  by (simp_all add: mark_uninit_def GetField_def frame_modify frame_gets marked)

lemma frame_parts [frame_intros]:
  "frame observe (sys_read os fd buff off n)" "frame observe (read_events c p)" "frame observe (write_events c p i j)"
  "frame observe (remaining_time os junk e)" "frame observe (end_time os t)"
  unfolding sys_read_def read_events_def write_events_def remaining_time_def end_time_def by (intro frame_intros)+

lemma frame_starts:
  "frame observe (read_start c os buff len)" "frame observe (write_start c os buff len)"
  unfolding read_start_def read_first_def read_wait_def write_start_def write_first_def by (intro frame_intros)+

lemma frame_read_round: "frame observe (read_round c os junk fd close_fd t e i len a)"
  unfolding read_round_def read_timeout_def read_chunk_def by (intro frame_intros)

lemma frame_write_round: "frame observe (write_round c os junk fd close_fd t e buff len a)"
  unfolding write_round_def write_timeout_def write_chunk_def by (intro frame_intros)

lemma readBuffer_observed:
  assumes "readBuffer c os junk buff len s = Some (x, s')"
  shows "observe s' = observe s"
  using assms frameD [OF frame_starts(1) [of c buff len], of s]
  by (auto simp: readBuffer_def split: prod.splits sum.splits dest: do_while_frame [OF _ frame_read_round])

lemma writeBuffer_observed:
  assumes "writeBuffer c os junk buff len s = Some (x, s')"
  shows "observe s' = observe s"
  using assms frameD [OF frame_starts(2) [of c buff len], of s]
  by (auto simp: writeBuffer_def split: prod.splits sum.splits dest: do_while_frame [OF _ frame_write_round])

end

interpretation native_memory: transfer_observer os native_blocks for os
  by unfold_locales simp_all

lemmas readBuffer_blocks = native_memory.readBuffer_observed
lemmas writeBuffer_blocks = native_memory.writeBuffer_observed

text \<open>
  The Termios port of the descriptor \<open>fd\<close>: what it has received and sent are the bytes of the
  \<open>read\<close> and \<open>write\<close> calls on it.
\<close>

definition termios_ready :: "'w os \<Rightarrow> int \<Rightarrow> int \<Rightarrow> 'w pstate \<Rightarrow> bool" where
  "termios_ready os fd len s \<longleftrightarrow> posix_read os \<and> posix_write os \<and> spsw_fd (sps s) = fd"

lemma received_blocks [simp]: "received fd (s\<lparr>native_blocks := k\<rparr>) = received fd s"
  "sent fd (s\<lparr>native_blocks := k\<rparr>) = sent fd s"
  by (simp_all add: received_def sent_def)

lemma frame_closed_or: "throws m \<Longrightarrow> frame native_blocks (closed_or m)"
  unfolding closed_or_def by (intro frame_intros frame_throws)

interpretation termios_io: byte_channel "readBuffer c os junk" "writeBuffer c os junk"
    "termios_ready os fd" "received fd" "sent fd"
  for c os junk fd
proof (unfold_locales, goal_cases)
  case (1 buff len s n b s')
  then show ?case
    using readBuffer_result [where os = os and len = len and ?b0.0 = buff and c = c and junk = junk and s = s]
    by (auto simp: termios_ready_def read_result_def got_def)
next
  case (2 buff len s n b s')
  then show ?case
    using readBuffer_result [where os = os and len = len and ?b0.0 = buff and c = c and junk = junk and s = s]
    by (auto simp: termios_ready_def read_result_def got_def)
next
  case (3 buff len s n b s')
  then show ?case by (rule readBuffer_blocks)
next
  case (6 buff len s n s')
  then show ?case
    using writeBuffer_result [where os = os and len = len and buff = buff and c = c and junk = junk and s = s]
    by (auto simp: termios_ready_def write_result_def put_def)
next
  case (7 buff len s n s')
  then show ?case by (rule writeBuffer_blocks)
qed (simp_all add: termios_ready_def)

text \<open>
  The Windows port: what it has received are the bytes the driver delivered, what it has been
  given the bytes of the \<open>WriteFile\<close> calls.
\<close>

definition windows_read :: "winapi \<Rightarrow> 'w wos \<Rightarrow> 'w wstate reader" where
  "windows_read c os buff len s = Some (run_state (readBuffer_win c os buff len) s)"

definition windows_write :: "winapi \<Rightarrow> 'w wos \<Rightarrow> 'w wstate writer" where
  "windows_write c os buff len s = Some (run_state (writeBuffer_win c os buff len) s)"

definition offer_data :: "wcall \<Rightarrow> bytes" where
  "offer_data c = (case c of WriteFile h bs e \<Rightarrow> bs | _ \<Rightarrow> [])"

definition offered :: "'w wstate \<Rightarrow> bytes" where
  "offered s = concat (map (\<lambda>(c, r). offer_data c) (calls s))"

lemma fetched_blocks [simp]: "fetched (s\<lparr>native_blocks := k\<rparr>) = fetched s"
  "offered (s\<lparr>native_blocks := k\<rparr>) = offered s"
  by (simp_all add: fetched_def offered_def)

lemma written_all_offered: "written_all c buff len s s' \<Longrightarrow> offered s' = offered s @ take (nat len) buff"
  by (auto simp: written_all_def offered_def waited_def offer_data_def)

lemma frame_readBuffer_win: "frame native_blocks (readBuffer_win c os buff len)"
  unfolding readBuffer_win_def read_started_def overlapped_read_def
  by (intro frame_intros frame_closed_or throws_throw)

lemma frame_writeBuffer_win: "frame native_blocks (writeBuffer_win c os buff len)"
  unfolding writeBuffer_win_def write_started_def overlapped_write_def
  by (intro frame_intros frame_closed_or throws_throw throws_few)

lemma read_outcome_result:
  assumes "read_outcome c os buff len ret b s s'" and "delivers os len" and "0 < len" "len < 2 ^ 31"
  shows "- 1 \<le> ret \<and> ret \<le> len"
proof -
  have "ret = - 1 \<or> ret = 0 \<or> (\<exists>g h e. answers os (GetOverlappedResult h e) g \<and> ret = sint (w_dword g))"
    using assms(1) unfolding read_outcome_def Let_def read_answer_def by (auto split: if_splits)
  moreover have "0 \<le> sint (w_dword g) \<and> sint (w_dword g) \<le> len" if "answers os (GetOverlappedResult h e) g" for g h e
  proof -
    have "uint (w_dword g) \<le> len"
      using assms(2) that unfolding delivers_def answers_def Let_def by (metis fst_conv)
    moreover have "sint (w_dword g) = uint (w_dword g)"
      using order.strict_trans1 [OF calculation assms(4)] order_trans [OF _ uint_ge_0, of "- 2147483648" "w_dword g"]
      by (simp add: sint_uint signed_take_bit_int_eq_self)
    ultimately show ?thesis by simp
  qed
  ultimately show ?thesis using assms(3) by (elim disjE exE) fastforce+
qed

interpretation windows_io: byte_channel "windows_read c os" "windows_write c os" "\<lambda>len s. delivers os len" fetched offered
  for c os
proof (unfold_locales, goal_cases)
  case (1 buff len s n b s')
  from 1(1) have run: "run_state (readBuffer_win c os buff len) s = ((n, b), s')" by (simp add: windows_read_def)
  have "read_outcome c os buff len n b s s'"
    using wpD [OF readBuffer_win_wp run] by simp
  from read_outcome_data [OF this 1(6) 1(2,4,5)] show ?case by simp
next
  case (2 buff len s n b s')
  from 2(1) have run: "run_state (readBuffer_win c os buff len) s = ((n, b), s')" by (simp add: windows_read_def)
  have "read_outcome c os buff len n b s s'"
    using wpD [OF readBuffer_win_wp run] by simp
  from read_outcome_result [OF this 2(2-4)] show ?case .
next
  case (3 buff len s n b s')
  then show ?case by (auto simp: windows_read_def dest: frameD [OF frame_readBuffer_win])
next
  case (6 buff len s n s')
  from 6(1) have run: "run_state (writeBuffer_win c os buff len) s = (n, s')" by (simp add: windows_write_def)
  have "write_outcome c os buff len n s s'"
    using wpD [OF writeBuffer_win_wp run] .
  from write_outcome_data [OF this 6(6)] 6(3,4) show ?case by (auto dest: written_all_offered)
next
  case (7 buff len s n s')
  then show ?case by (auto simp: windows_write_def dest: frameD [OF frame_writeBuffer_win])
qed simp_all

section \<open>Properties\<close>

text \<open>A port whose transfers all fail.\<close>

definition idle_port :: "unit wos" where
  "idle_port c x = (wresp0\<lparr>w_ret := 0\<rparr>, x)"

lemma delivers_idle_port [simp]: "0 \<le> len \<Longrightarrow> delivers idle_port len"
  by (simp add: delivers_def idle_port_def wresp0_def)

lemma transferred_start [simp]: "received fd (example_state q) = []" "sent fd (example_state q) = []"
  "spsw_fd open_sps = 3" "native_blocks (example_state q) = 0" "pending (example_state q) = None"
  by (simp_all add: received_def sent_def open_sps_def example_state_def)

text \<open>
  \<open>readSingle\<close> gives -1 or the value of a byte, 0 to 255 also for the bytes that are
  negative in Java; when it gives a byte and throws nothing, that byte has been received, and
  when it gives -1 and throws nothing, none has. The same on both platforms.
\<close>

theorem readSingle_byte:
  assumes "posix_read os" and "posix_write os" and "delivers wos 1"
  shows "(case readSingle (readBuffer c os junk) mem s of None \<Rightarrow> True
    | Some (x, s') \<Rightarrow> (let fd = spsw_fd (sps s) in
        (x = - 1 \<and> (is_pending s' \<or> received fd s' = received fd s)) \<or>
        (0 \<le> x \<and> x < 256 \<and> (is_pending s' \<or> received fd s' = received fd s @ [word_of_int x])))) \<and>
    (case readSingle (windows_read wc wos) mem ws of None \<Rightarrow> False
    | Some (x, ws') \<Rightarrow> (x = - 1 \<and> (is_pending ws' \<or> fetched ws' = fetched ws)) \<or>
        (0 \<le> x \<and> x < 256 \<and> (is_pending ws' \<or> fetched ws' = fetched ws @ [word_of_int x])))"
proof -
  have "readSingle (windows_read wc wos) mem ws \<noteq> None"
    by (simp add: readSingle_def windows_read_def split: prod.splits)
  then show ?thesis
    using termios_io.readSingle_law [of c os junk mem s _ _ "spsw_fd (sps s)"] windows_io.readSingle_law [of wc wos mem ws] assms
    by (auto simp: termios_ready_def Let_def split: option.splits)
qed

lemma single_run:
  "case readSingle (readBuffer linux_consts queue_device (0, 0)) (\<lambda>_. 0) (example_state [200]) of None \<Rightarrow> False
    | Some (x, s') \<Rightarrow> x = 200 \<and> \<not> is_pending s'"
  by code_simp

theorem readSingle_byte_witness:
  "case readSingle (readBuffer linux_consts queue_device (0, 0)) (\<lambda>_. 0) (example_state [200]) of None \<Rightarrow> False
    | Some (x, s') \<Rightarrow> x = 200 \<and> \<not> is_pending s' \<and> received 3 s' = [200]"
  using readSingle_byte [where os = queue_device and wos = idle_port and wc = windows_consts and ws = "windows_state ()" and c = linux_consts
      and junk = "(0, 0)" and mem = "\<lambda>_. 0" and s = "example_state [200]"] single_run
  by (auto simp: Let_def split: option.splits prod.splits)

text \<open>
  C26: \<open>readBytes_ArgsOK\<close> with a range inside the Java array: whatever happens, no native
  memory is left allocated; when nothing is thrown, the result counts the bytes received and
  these, and only these, have been stored in the array from the offset on. The same on both
  platforms.
\<close>

theorem readBytes_ArgsOK_array:
  assumes "posix_read os" and "posix_write os" and "delivers wos len"
    and "0 < len" and "len < 2 ^ 31" and "in_range bytes off len"
  shows "(case readBytes_ArgsOK (readBuffer c os junk) mem bytes off len s of None \<Rightarrow> True
    | Some ((n, arr), s') \<Rightarrow> array_read (received (spsw_fd (sps s))) bytes off len n arr s s') \<and>
    (case readBytes_ArgsOK (windows_read wc wos) mem bytes off len ws of None \<Rightarrow> True
    | Some ((n, arr), ws') \<Rightarrow> array_read fetched bytes off len n arr ws ws')"
  using termios_io.readBytes_ArgsOK_law [of c os junk mem bytes off len s _ _ _ "spsw_fd (sps s)"]
    windows_io.readBytes_ArgsOK_law [of wc wos mem bytes off len ws] assms
  by (auto simp: termios_ready_def split: option.splits)

lemma array_read_run:
  "case readBytes_ArgsOK (readBuffer linux_consts queue_device (0, 0)) (\<lambda>_. 0) [9, 9, 9, 9] 1 2 (example_state [200]) of
      None \<Rightarrow> False
    | Some ((n, arr), s') \<Rightarrow> n = 1 \<and> arr = [9, 200, 9, 9] \<and> \<not> is_pending s'"
  by code_simp

theorem readBytes_ArgsOK_array_witness:
  "case readBytes_ArgsOK (readBuffer linux_consts queue_device (0, 0)) (\<lambda>_. 0) [9, 9, 9, 9] 1 2 (example_state [200]) of
      None \<Rightarrow> False
    | Some ((n, arr), s') \<Rightarrow> n = 1 \<and> arr = [9, 200, 9, 9] \<and> \<not> is_pending s' \<and>
        array_read (received 3) [9, 9, 9, 9] 1 2 n arr (example_state [200]) s'"
  using readBytes_ArgsOK_array [where os = queue_device and wos = idle_port and wc = windows_consts and ws = "windows_state ()" and c = linux_consts
      and junk = "(0, 0)" and mem = "\<lambda>_. 0" and s = "example_state [200]" and len = 2 and off = 1 and bytes = "[9, 9, 9, 9]"]
    array_read_run
  by (auto simp: in_range_def split: option.splits prod.splits)

text \<open>
  C27: \<open>writeBytes_ArgsOK\<close> with a range inside the Java array: no native memory is left
  allocated, and when nothing is thrown exactly the bytes of the range have been sent. The same on
  both platforms.
\<close>

theorem writeBytes_ArgsOK_sends:
  assumes "posix_read os" and "posix_write os" and "delivers wos len"
    and "0 < len" and "len < 2 ^ 31" and "in_range bytes off len" and "\<not> is_pending s" and "\<not> is_pending ws"
  shows "(case writeBytes_ArgsOK (writeBuffer c os junk) mem bytes off len s of None \<Rightarrow> True
    | Some (_, s') \<Rightarrow> (let fd = spsw_fd (sps s) in native_blocks s' = native_blocks s \<and>
        (is_pending s' \<or> sent fd s' = sent fd s @ take (nat len) (drop (nat off) bytes)))) \<and>
    (case writeBytes_ArgsOK (windows_write wc wos) mem bytes off len ws of None \<Rightarrow> True
    | Some (_, ws') \<Rightarrow> native_blocks ws' = native_blocks ws \<and>
        (is_pending ws' \<or> offered ws' = offered ws @ take (nat len) (drop (nat off) bytes)))"
  using termios_io.writeBytes_ArgsOK_law [of c os junk mem bytes off len s _ _ "spsw_fd (sps s)"]
    windows_io.writeBytes_ArgsOK_law [of wc wos mem bytes off len ws] assms
  by (auto simp: termios_ready_def Let_def split: option.splits)

lemma array_write_run:
  "case writeBytes_ArgsOK (writeBuffer linux_consts queue_device (0, 0)) (\<lambda>_. 0) [1, 2, 3, 4, 5, 6, 7, 8] 1 6 (example_state [0]) of
      None \<Rightarrow> False
    | Some (_, s') \<Rightarrow> \<not> is_pending s'"
  by code_simp

theorem writeBytes_ArgsOK_sends_witness:
  "case writeBytes_ArgsOK (writeBuffer linux_consts queue_device (0, 0)) (\<lambda>_. 0) [1, 2, 3, 4, 5, 6, 7, 8] 1 6 (example_state [0]) of
      None \<Rightarrow> False
    | Some (_, s') \<Rightarrow> \<not> is_pending s' \<and> native_blocks s' = 0 \<and> sent 3 s' = [2, 3, 4, 5, 6, 7]"
  using writeBytes_ArgsOK_sends [where os = queue_device and wos = idle_port and wc = windows_consts and ws = "windows_state ()" and c = linux_consts
      and junk = "(0, 0)" and mem = "\<lambda>_. 0" and s = "example_state [0]"
      and len = 6 and off = 1 and bytes = "[1, 2, 3, 4, 5, 6, 7, 8]"] array_write_run
  by (auto simp: in_range_def is_pending_def Let_def split: option.splits prod.splits)

text \<open>
  \<open>writeBytes_ArgsOK\<close> with a range outside the Java array and a length that takes its
  buffer from \<open>malloc\<close>: the exception is thrown and nothing is written, but the buffer is
  never given back. Every such call leaves one block more allocated.
\<close>

theorem writeBytes_ArgsOK_leak:
  assumes "MAX_STACK_BUF_SIZE < len" and "vm_malloc (vm s) (uint32 len)" and "\<not> in_range bytes off len"
  shows "writeBytes_ArgsOK wr mem bytes off len s =
    Some ((), s\<lparr>native_blocks := native_blocks s + 1, pending := Some ArrayIndexOutOfBoundsException\<rparr>)"
  using assms
  by (simp add: writeBytes_ArgsOK_def acquire_def malloc_def GetByteArrayRegion_def Throw_def is_pending_def)

theorem writeBytes_ArgsOK_leak_witness:
  "writeBytes_ArgsOK (windows_write windows_consts queue_port) (\<lambda>_. 0) [1, 2, 3] 0 10000 (windows_state []) =
    Some ((), (windows_state [])\<lparr>native_blocks := 1, pending := Some ArrayIndexOutOfBoundsException\<rparr>)"
  using writeBytes_ArgsOK_leak [of 10000 "windows_state []" "[1, 2, 3]" 0 "windows_write windows_consts queue_port" "\<lambda>_. 0"]
  by (simp add: MAX_STACK_BUF_SIZE_def windows_vm_def in_range_def)

end
