(* ===== verification/JavaChannel.thy ===== *)
theory JavaChannel
  imports AbstractIO
begin

text \<open>
  \<open>AbstractSerialPortSocket.java\<close>: the methods of the channel and its two streams, above the
  native methods. They check their arguments, frame the native call with \<open>begin\<close> and
  \<open>end\<close> of \<open>AbstractInterruptibleChannel\<close> so that a thread that waits can be interrupted,
  and map exceptions: a stream gives -1 when the port is closed while it reads.

  A Java method gives an exception or a value. What the other threads do to the channel while a
  native call runs, and what closing the channel does, are arguments.
\<close>

section \<open>Java exceptions\<close>

datatype java_exc =
    Native throwable
  | NullPointerException
  | IndexOutOfBoundsException
  | UnsatisfiedLinkError
  | ClosedByInterruptException
  | UnsupportedOperationException string

text \<open>The subclasses of \<open>IOException\<close>.\<close>

definition is_IOException :: "java_exc \<Rightarrow> bool" where
  "is_IOException e = (case e of
       Native t \<Rightarrow> (case t of IOException m \<Rightarrow> True | InterruptedIOException m k \<Rightarrow> True
         | TimeoutIOException m k \<Rightarrow> True | AsynchronousCloseException \<Rightarrow> True | _ \<Rightarrow> False)
     | ClosedByInterruptException \<Rightarrow> True
     | _ \<Rightarrow> False)"

text \<open>
  A native call: the exception that is pending when it returns is thrown in Java. The second
  component of the value is the array or buffer it has changed.
\<close>

type_synonym ('s, 'v, 'b) call = "'s \<Rightarrow> (((java_exc + 'v) \<times> 'b) \<times> 's) option"

definition native :: "(('w, 'c) jni \<Rightarrow> (('v \<times> 'b) \<times> ('w, 'c) jni) option) \<Rightarrow> (('w, 'c) jni, 'v, 'b) call" where
  "native f s = (case f s of None \<Rightarrow> None
     | Some ((v, b), s') \<Rightarrow>
         Some ((case pending s' of None \<Rightarrow> Inr v | Some e \<Rightarrow> Inl (Native e), b), s'\<lparr>pending := None\<rparr>))"

definition no_array :: "('s \<Rightarrow> ('v \<times> 's) option) \<Rightarrow> 's \<Rightarrow> (('v \<times> unit) \<times> 's) option" where
  "no_array f s = map_option (\<lambda>(v, s'). ((v, ()), s')) (f s)"

text \<open>A \<open>native\<close> method the library has no function for.\<close>

definition writeBytes_ParamsOK :: "('s, 'v, unit) call" where
  "writeBytes_ParamsOK s = Some ((Inl UnsatisfiedLinkError, ()), s)"

section \<open>The interruptible channel\<close>

text \<open>
  The fields of \<open>AbstractInterruptibleChannel\<close>: whether the channel is closed, whether it has
  been closed by interrupting this thread, and the interrupt status of the thread.
\<close>

record channel =
  ch_closed :: bool
  ch_interrupted :: bool
  ch_status :: bool

record 's java_env =
  je_close :: "'s \<Rightarrow> 's"
  je_others :: "'s \<Rightarrow> channel \<Rightarrow> channel"

text \<open>\<open>begin\<close>: a thread that is already interrupted closes the channel.\<close>

definition begin_io :: "'s java_env \<Rightarrow> 's \<times> channel \<Rightarrow> 's \<times> channel" where
  "begin_io env = (\<lambda>(s, ch). if ch_status ch \<and> \<not> ch_closed ch
     then (je_close env s, ch\<lparr>ch_closed := True, ch_interrupted := True\<rparr>) else (s, ch))"

definition end_io :: "bool \<Rightarrow> channel \<Rightarrow> java_exc option \<times> channel" where
  "end_io completed ch =
     (if ch_interrupted ch then (Some ClosedByInterruptException, ch\<lparr>ch_interrupted := False\<rparr>)
      else if \<not> completed \<and> ch_closed ch then (Some (Native AsynchronousCloseException), ch)
      else (None, ch))"

text \<open>
  The frame of every blocking method: \<open>completed\<close> is set when the call returns and when it
  throws an \<open>IOException\<close>, and what \<open>end\<close> throws replaces the result.
\<close>

definition blocking_io ::
  "'s java_env \<Rightarrow> (java_exc \<Rightarrow> java_exc + 'v) \<Rightarrow> ('s, 'v, 'b) call \<Rightarrow> ('s \<times> channel, 'v, 'b) call" where
  "blocking_io env caught call x = (case begin_io env x of (s, ch) \<Rightarrow>
     (case call s of None \<Rightarrow> None
      | Some ((r, b), s') \<Rightarrow>
          (let completed = (case r of Inr v \<Rightarrow> True | Inl e \<Rightarrow> is_IOException e);
               result = (case r of Inr v \<Rightarrow> Inr v | Inl e \<Rightarrow> if is_IOException e then caught e else Inl e)
           in case end_io completed (je_others env s' ch) of (thrown, ch') \<Rightarrow>
             Some ((case thrown of Some e \<Rightarrow> Inl e | None \<Rightarrow> result, b), (s', ch')))))"

definition rethrow :: "java_exc \<Rightarrow> java_exc + 'v" where
  "rethrow e = Inl e"

text \<open>The streams give -1 when the port has been closed.\<close>

definition end_of_stream :: "java_exc \<Rightarrow> java_exc + int" where
  "end_of_stream e = (if e = Native AsynchronousCloseException then Inr (- 1) else Inl e)"

section \<open>The input stream\<close>

definition stream_read :: "('w, 'c) jni java_env \<Rightarrow> ('w, 'c) jni reader \<Rightarrow> (nat \<Rightarrow> byte) \<Rightarrow> (('w, 'c) jni \<times> channel, int, unit) call" where
  "stream_read env rd mem = blocking_io env end_of_stream (native (no_array (readSingle rd mem)))"

text \<open>An array is None when it is \<open>null\<close>; its length is a \<open>jint\<close>.\<close>

definition stream_read_array ::
  "('w, 'c) jni java_env \<Rightarrow> ('w, 'c) jni reader \<Rightarrow> bytes option \<Rightarrow> (('w, 'c) jni \<times> channel, int, bytes option) call" where
  "stream_read_array env rd b x = (case b of
       None \<Rightarrow> Some ((Inl NullPointerException, None), x)
     | Some bytes \<Rightarrow>
         if length bytes = 0 then Some ((Inr 0, b), x)
         else map_option (\<lambda>((r, bytes'), y). ((r, Some bytes'), y))
           (blocking_io env end_of_stream (native (readBytes rd bytes)) x))"

definition array_length :: "bytes \<Rightarrow> jint" where
  "array_length b = of_nat (length b)"

definition read_range_ok :: "bytes \<Rightarrow> jint \<Rightarrow> jint \<Rightarrow> bool" where
  "read_range_ok b off len \<longleftrightarrow> \<not> (off <s 0 \<or> len <s 0 \<or> array_length b - off <s len)"

definition stream_read_range ::
  "('w, 'c) jni java_env \<Rightarrow> ('w, 'c) jni reader \<Rightarrow> (nat \<Rightarrow> byte) \<Rightarrow> bytes option \<Rightarrow> jint \<Rightarrow> jint
     \<Rightarrow> (('w, 'c) jni \<times> channel, int, bytes option) call" where
  "stream_read_range env rd mem b off len x = (case b of
       None \<Rightarrow> Some ((Inl NullPointerException, None), x)
     | Some bytes \<Rightarrow>
         if \<not> read_range_ok bytes off len then Some ((Inl IndexOutOfBoundsException, b), x)
         else if len = 0 then Some ((Inr 0, b), x)
         else map_option (\<lambda>((r, bytes'), y). ((r, Some bytes'), y))
           (blocking_io env end_of_stream (native (readBytes_ArgsOK rd mem bytes (sint off) (sint len))) x))"

section \<open>The output stream\<close>

definition stream_write_array ::
  "('w, 'c) jni java_env \<Rightarrow> ('w, 'c) jni writer \<Rightarrow> bytes option \<Rightarrow> (('w, 'c) jni \<times> channel, unit, unit) call" where
  "stream_write_array env wr b x = (case b of
       None \<Rightarrow> Some ((Inl NullPointerException, ()), x)
     | Some bytes \<Rightarrow>
         if length bytes = 0 then Some ((Inr (), ()), x)
         else blocking_io env rethrow (native (no_array (writeBytes wr bytes))) x)"

definition write_range_ok :: "bytes \<Rightarrow> jint \<Rightarrow> jint \<Rightarrow> bool" where
  "write_range_ok b off len \<longleftrightarrow> \<not> (off <s 0 \<or> array_length b <s off \<or> len <s 0 \<or>
     array_length b <s off + len \<or> off + len <s 0)"

text \<open>It calls \<open>writeBytes_ParamsOK\<close>, where the library has \<open>writeBytes_ArgsOK\<close>.\<close>

definition stream_write_range ::
  "('w, 'c) jni java_env \<Rightarrow> bytes option \<Rightarrow> jint \<Rightarrow> jint \<Rightarrow> (('w, 'c) jni \<times> channel, unit, unit) call" where
  "stream_write_range env b off len x = (case b of
       None \<Rightarrow> Some ((Inl NullPointerException, ()), x)
     | Some bytes \<Rightarrow>
         if \<not> write_range_ok bytes off len then Some ((Inl IndexOutOfBoundsException, ()), x)
         else if len = 0 then Some ((Inr (), ()), x)
         else blocking_io env rethrow writeBytes_ParamsOK x)"

definition stream_write ::
  "('w, 'c) jni java_env \<Rightarrow> ('w, 'c) jni writer \<Rightarrow> bool \<Rightarrow> jint \<Rightarrow> (('w, 'c) jni \<times> channel, unit, unit) call" where
  "stream_write env wr big b = blocking_io env rethrow (native (no_array (writeSingle wr big b)))"

text \<open>\<open>flush\<close> drains the port, \<open>sendBreak\<close> sends a break; both are framed in the same way.\<close>

definition returns :: "('s, 'v) state \<Rightarrow> 's \<Rightarrow> (('v \<times> unit) \<times> 's) option" where
  "returns m s = (case run_state m s of (v, s') \<Rightarrow> Some ((v, ()), s'))"

definition stream_flush ::
  "'w pstate java_env \<Rightarrow> posix \<Rightarrow> 'w os \<Rightarrow> ('w pstate \<times> channel, unit, unit) call" where
  "stream_flush env c os = blocking_io env rethrow (native (returns (drainOutputBuffer c os)))"

definition java_sendBreak ::
  "'w pstate java_env \<Rightarrow> 'w os \<Rightarrow> int \<Rightarrow> ('w pstate \<times> channel, unit, unit) call" where
  "java_sendBreak env os duration = blocking_io env rethrow (native (returns (sendBreak0 os duration)))"

section \<open>The channel\<close>

text \<open>A direct buffer: its bytes, its position and its limit.\<close>

record byte_buffer =
  bb_bytes :: bytes
  bb_position :: int
  bb_limit :: int
  bb_readOnly :: bool

definition bb_remaining :: "byte_buffer \<Rightarrow> int" where
  "bb_remaining bb = bb_limit bb - bb_position bb"

text \<open>\<open>Buffer.position(int)\<close>\<close>

definition set_position :: "int \<Rightarrow> byte_buffer \<Rightarrow> java_exc + byte_buffer" where
  "set_position n bb = (if n < 0 \<or> bb_limit bb < n then Inl (Native (IllegalArgumentException ''newPosition''))
     else Inr (bb\<lparr>bb_position := n\<rparr>))"

definition channel_read ::
  "('w, 'c) jni java_env \<Rightarrow> ('w, 'c) jni reader \<Rightarrow> byte_buffer \<Rightarrow> (('w, 'c) jni \<times> channel, int, byte_buffer) call" where
  "channel_read env rd dst x =
     (if bb_readOnly dst then Some ((Inl (Native (IllegalArgumentException ''Read-only buffer'')), dst), x)
      else if \<not> 0 < bb_remaining dst then Some ((Inr 0, dst), x)
      else (case blocking_io env rethrow (native (read_ArgsOK rd (bb_bytes dst) (bb_position dst) (bb_remaining dst))) x of
          None \<Rightarrow> None
        | Some ((r, bytes), y) \<Rightarrow>
            (let dst' = dst\<lparr>bb_bytes := bytes\<rparr> in
             case r of Inl e \<Rightarrow> Some ((Inl e, dst'), y)
             | Inr result \<Rightarrow>
                 if 0 < result then
                   (case set_position (bb_position dst' + result) dst' of
                      Inl e \<Rightarrow> Some ((Inl e, dst'), y) | Inr dst'' \<Rightarrow> Some ((Inr result, dst''), y))
                 else Some ((Inr result, dst'), y))))"

definition channel_write ::
  "('w, 'c) jni java_env \<Rightarrow> ('w, 'c) jni writer \<Rightarrow> byte_buffer \<Rightarrow> (('w, 'c) jni \<times> channel, int, byte_buffer) call" where
  "channel_write env wr src x =
     (if \<not> 0 < bb_remaining src then Some ((Inr 0, src), x)
      else (case blocking_io env rethrow (native (no_array (write_ArgsOK wr (bb_bytes src) (bb_position src) (bb_remaining src)))) x of
          None \<Rightarrow> None
        | Some ((r, _), y) \<Rightarrow>
            (case r of Inl e \<Rightarrow> Some ((Inl e, src), y)
             | Inr result \<Rightarrow>
                 (case set_position (bb_position src + result) src of
                    Inl e \<Rightarrow> Some ((Inl e, src), y) | Inr src' \<Rightarrow> Some ((Inr result, src'), y)))))"

section \<open>Opening and closing the streams\<close>

text \<open>
  The two stream objects of a port, numbered in the order they are made; None is \<open>null\<close>.
\<close>

record stream_cache =
  sc_is :: "nat option"
  sc_os :: "nat option"
  sc_next :: nat

definition ensureOpen :: "channel \<Rightarrow> java_exc + unit" where
  "ensureOpen ch = (if ch_closed ch then Inl (Native (IOException PORT_IS_CLOSED)) else Inr ())"

definition getInputStream :: "channel \<Rightarrow> stream_cache \<Rightarrow> (java_exc + nat) \<times> stream_cache" where
  "getInputStream ch sc = (case ensureOpen ch of Inl e \<Rightarrow> (Inl e, sc)
     | Inr _ \<Rightarrow> (case sc_is sc of Some i \<Rightarrow> (Inr i, sc)
         | None \<Rightarrow> (Inr (sc_next sc), sc\<lparr>sc_is := Some (sc_next sc), sc_next := sc_next sc + 1\<rparr>)))"

definition getOutputStream :: "channel \<Rightarrow> stream_cache \<Rightarrow> (java_exc + nat) \<times> stream_cache" where
  "getOutputStream ch sc = (case ensureOpen ch of Inl e \<Rightarrow> (Inl e, sc)
     | Inr _ \<Rightarrow> (case sc_os sc of Some i \<Rightarrow> (Inr i, sc)
         | None \<Rightarrow> (Inr (sc_next sc), sc\<lparr>sc_os := Some (sc_next sc), sc_next := sc_next sc + 1\<rparr>)))"

text \<open>\<open>implCloseChannel\<close> of the common class; \<open>close\<close> of the channel calls it at most once.\<close>

definition forget_streams :: "stream_cache \<Rightarrow> stream_cache" where
  "forget_streams sc = sc\<lparr>sc_is := None, sc_os := None\<rparr>"

definition stream_close :: "'s java_env \<Rightarrow> 's \<times> channel \<times> stream_cache \<Rightarrow> 's \<times> channel \<times> stream_cache" where
  "stream_close env = (\<lambda>(s, ch, sc). if ch_closed ch then (s, ch, sc)
     else (je_close env s, ch\<lparr>ch_closed := True\<rparr>, forget_streams sc))"

definition stream_available :: "'w os \<Rightarrow> ('w pstate, int, unit) call" where
  "stream_available os = native (returns (getInBufferBytesCount os))"

text \<open>An open port has one stream of each kind; a closed one gives none, and closing twice is closing once.\<close>

lemma getInputStream_same:
  assumes "getInputStream ch sc = (Inr i, sc')"
  shows "getInputStream ch sc' = (Inr i, sc') \<and> sc_os sc' = sc_os sc"
  using assms by (auto simp: getInputStream_def ensureOpen_def split: if_splits option.splits)

lemma getOutputStream_same:
  assumes "getOutputStream ch sc = (Inr i, sc')"
  shows "getOutputStream ch sc' = (Inr i, sc') \<and> sc_is sc' = sc_is sc"
  using assms by (auto simp: getOutputStream_def ensureOpen_def split: if_splits option.splits)

lemma stream_close_twice: "stream_close env (stream_close env x) = stream_close env x"
  by (cases x) (simp add: stream_close_def)

lemma closed_streams:
  assumes "stream_close env (s, ch, sc) = (s', ch', sc')"
  shows "getInputStream ch' sc' = (Inl (Native (IOException PORT_IS_CLOSED)), sc')"
    and "getOutputStream ch' sc' = (Inl (Native (IOException PORT_IS_CLOSED)), sc')"
  using assms by (auto simp: stream_close_def getInputStream_def getOutputStream_def ensureOpen_def split: if_splits)

section \<open>The frame\<close>

lemma begin_io_clear [simp]: "\<not> ch_status ch \<Longrightarrow> begin_io env (s, ch) = (s, ch)"
  by (simp add: begin_io_def)

text \<open>A method that returns a value has run its native call, unless the value is the end of the stream.\<close>

lemma blocking_Inr:
  assumes "blocking_io env caught call (s, ch) = Some ((Inr v, b), (s', ch'))" and "\<not> ch_status ch"
  obtains "call s = Some ((Inr v, b), s')" | e where "call s = Some ((Inl e, b), s')" "caught e = Inr v" "is_IOException e"
  using assms by (auto simp: blocking_io_def Let_def split: option.splits sum.splits if_splits prod.splits)

lemma blocking_call:
  assumes "blocking_io env caught call (s, ch) = Some ((r, b), (s', ch'))" and "\<not> ch_status ch"
  obtains r0 where "call s = Some ((r0, b), s')"
  using assms by (auto simp: blocking_io_def Let_def split: option.splits prod.splits)

lemma native_Inr:
  assumes "native f s = Some ((Inr v, b), s')"
  obtains s1 where "f s = Some ((v, b), s1)" "\<not> is_pending s1" "s' = s1\<lparr>pending := None\<rparr>"
  using assms by (auto simp: native_def is_pending_def split: option.splits)

lemma native_any:
  assumes "native f s = Some ((r, b), s')"
  obtains v s1 where "f s = Some ((v, b), s1)" "s' = s1\<lparr>pending := None\<rparr>"
  using assms by (auto simp: native_def split: option.splits)

section \<open>Ranges of an array\<close>

lemma array_length_sint: "int (length b) < 2 ^ 31 \<Longrightarrow> sint (array_length b) = int (length b)"
  by (simp add: array_length_def sint_uint unsigned_of_nat take_bit_nat_eq_self signed_take_bit_int_eq_self)

lemma jint_range: "- (2 ^ 31) \<le> sint x \<and> sint x < 2 ^ 31" for x :: jint
  using sint_range_size [of x] by (simp add: word_size)

lemma read_range_ok_iff:
  assumes "int (length b) < 2 ^ 31"
  shows "read_range_ok b off len \<longleftrightarrow> in_range b (sint off) (sint len)"
proof (cases "0 \<le> sint off")
  case True
  have "sint (array_length b - off) = int (length b) - sint off"
    using True jint_range [of off] assms
    by (simp add: sint_word_ariths(2) array_length_sint signed_take_bit_int_eq_self)
  then show ?thesis
    using True by (auto simp: read_range_ok_def in_range_def word_sless_alt)
qed (simp add: read_range_ok_def in_range_def word_sless_alt)

lemma write_range_ok_iff:
  assumes "int (length b) < 2 ^ 31"
  shows "write_range_ok b off len \<longleftrightarrow> in_range b (sint off) (sint len)"
proof (cases "0 \<le> sint off \<and> 0 \<le> sint len")
  case True
  have sum: "sint (off + len) = (if sint off + sint len < 2 ^ 31 then sint off + sint len else sint off + sint len - 2 ^ 32)"
  proof (cases "sint off + sint len < 2 ^ 31")
    case True
    then show ?thesis using \<open>0 \<le> sint off \<and> 0 \<le> sint len\<close>
      by (simp add: sint_word_ariths(1) signed_take_bit_int_eq_self)
  next
    case False
    have "signed_take_bit 31 (sint off + sint len) = signed_take_bit 31 (sint off + sint len - 2 ^ 32)"
      by (simp add: signed_take_bit_eq_iff_take_bit_eq take_bit_eq_mod)
    then show ?thesis using False jint_range [of off] jint_range [of len]
      by (simp add: sint_word_ariths(1) signed_take_bit_int_eq_self)
  qed
  show ?thesis
    using True jint_range [of off] jint_range [of len] assms
    by (auto simp: write_range_ok_def in_range_def word_sless_alt array_length_sint sum)
qed (auto simp: write_range_ok_def in_range_def word_sless_alt)

section \<open>Streams over a source and a sink of bytes\<close>

text \<open>What has been transferred does not depend on the pending exception.\<close>

locale java_source = byte_source rd ready taken
  for rd :: "('w, 'c) jni reader" and ready taken +
  assumes taken_pending: "taken (s\<lparr>pending := e\<rparr>) = taken s"

locale java_sink = byte_sink wr ready given
  for wr :: "('w, 'c) jni writer" and ready given +
  assumes given_pending: "given (s\<lparr>pending := e\<rparr>) = given s"

text \<open>A stream read that gives \<open>n\<close>: -1 at the end of the stream, or \<open>n\<close> bytes in the array.\<close>

definition stream_got ::
  "(('w, 'c) jni \<Rightarrow> bytes) \<Rightarrow> bytes \<Rightarrow> int \<Rightarrow> int \<Rightarrow> int \<Rightarrow> bytes option \<Rightarrow> ('w, 'c) jni \<Rightarrow> ('w, 'c) jni \<Rightarrow> bool" where
  "stream_got taken bytes off len n arr s s' \<longleftrightarrow> n = - 1 \<or> (0 \<le> n \<and> n \<le> len \<and>
     (\<exists>d. length d = nat n \<and> taken s' = taken s @ d \<and> arr = Some (store bytes (nat off) d)))"

context java_source
begin

lemma stream_read_range_law:
  assumes run: "stream_read_range env rd mem (Some bytes) off len (s, ch) = Some ((Inr n, arr), (s', ch'))"
    and ch: "\<not> ch_status ch" and ready: "ready (sint len) s" and size: "int (length bytes) < 2 ^ 31"
  shows "in_range bytes (sint off) (sint len) \<and> \<not> is_pending s' \<and> stream_got taken bytes (sint off) (sint len) n arr s s'
    \<or> len = 0 \<and> n = 0 \<and> s' = s"
proof (cases "len = 0")
  case True
  then show ?thesis using run by (auto simp: stream_read_range_def split: if_splits)
next
  case False
  then have range: "in_range bytes (sint off) (sint len)"
    using run size by (auto simp: stream_read_range_def read_range_ok_iff split: if_splits)
  moreover have "sint len \<noteq> 0" using False by (simp add: signed_eq_0_iff)
  ultimately have len: "0 < sint len" "sint len < 2 ^ 31"
    using size by (auto simp: in_range_def)
  from run obtain bytes' where arr: "arr = Some bytes'"
    and io: "blocking_io env end_of_stream (native (readBytes_ArgsOK rd mem bytes (sint off) (sint len))) (s, ch) = Some ((Inr n, bytes'), (s', ch'))"
    using False range size by (auto simp: stream_read_range_def read_range_ok_iff)
  obtain r0 where "native (readBytes_ArgsOK rd mem bytes (sint off) (sint len)) s = Some ((r0, bytes'), s')"
    by (rule blocking_call [OF io ch])
  then have p: "\<not> is_pending s'" by (rule native_any) (simp add: is_pending_def)
  from io ch show ?thesis
  proof (rule blocking_Inr)
    assume "native (readBytes_ArgsOK rd mem bytes (sint off) (sint len)) s = Some ((Inr n, bytes'), s')"
    then obtain s1 where run: "readBytes_ArgsOK rd mem bytes (sint off) (sint len) s = Some ((n, bytes'), s1)"
      "\<not> is_pending s1" "s' = s1\<lparr>pending := None\<rparr>" by (rule native_Inr)
    from readBytes_ArgsOK_law [OF run(1) ready len range] run(2,3) range p show ?thesis
      by (simp add: array_read_def stream_got_def taken_pending arr)
  next
    fix e assume "end_of_stream e = Inr n"
    then show ?thesis using range p by (auto simp: stream_got_def end_of_stream_def split: if_splits)
  qed
qed

lemma stream_read_law:
  assumes run: "stream_read env rd mem (s, ch) = Some ((Inr n, u), (s', ch'))"
    and ch: "\<not> ch_status ch" and ready: "ready 1 s"
  shows "n = - 1 \<or> (0 \<le> n \<and> n < 256 \<and> taken s' = taken s @ [word_of_int n])"
  using run [unfolded stream_read_def] ch
proof (rule blocking_Inr)
  assume "native (no_array (readSingle rd mem)) s = Some ((Inr n, u), s')"
  then obtain s1 where "no_array (readSingle rd mem) s = Some ((n, u), s1)" "\<not> is_pending s1" "s' = s1\<lparr>pending := None\<rparr>"
    by (rule native_Inr)
  then show ?thesis
    using readSingle_law [of mem s n s1] ready by (auto simp: no_array_def taken_pending)
next
  fix e assume "end_of_stream e = Inr n"
  then show ?thesis by (auto simp: end_of_stream_def split: if_splits)
qed

lemma channel_read_law:
  assumes run: "channel_read env rd dst (s, ch) = Some ((Inr n, dst'), (s', ch'))" and ch: "\<not> ch_status ch"
    and ready: "ready (bb_remaining dst) s" and bb: "0 \<le> bb_position dst" "bb_limit dst \<le> int (length (bb_bytes dst))"
      "bb_limit dst < 2 ^ 31" and remaining: "0 < bb_remaining dst"
  shows "0 \<le> n \<and> n \<le> bb_remaining dst \<and> bb_position dst' = bb_position dst + n \<and> bb_limit dst' = bb_limit dst \<and>
    (\<exists>d. length d = nat n \<and> taken s' = taken s @ d \<and> bb_bytes dst' = store (bb_bytes dst) (nat (bb_position dst)) d)"
proof -
  let ?pos = "bb_position dst" and ?rem = "bb_remaining dst" and ?data = "bb_bytes dst"
  obtain bytes where io: "blocking_io env rethrow (native (read_ArgsOK rd ?data ?pos ?rem)) (s, ch) = Some ((Inr n, bytes), (s', ch'))"
    and dst': "bb_bytes dst' = bytes" "bb_limit dst' = bb_limit dst" "bb_position dst' = (if 0 < n then ?pos + n else ?pos)"
    using run remaining by (auto simp: channel_read_def Let_def set_position_def split: if_splits option.splits sum.splits prod.splits)
  from io ch obtain s1 where "read_ArgsOK rd ?data ?pos ?rem s = Some ((n, bytes), s1)" "\<not> is_pending s1" "s' = s1\<lparr>pending := None\<rparr>"
    by (rule blocking_Inr) (auto elim: native_Inr simp: rethrow_def)
  then obtain buf where rd: "rd (drop (nat ?pos) ?data) ?rem s = Some ((n, buf), s1)" and bytes: "bytes = take (nat ?pos) ?data @ buf"
    by (auto simp: read_ArgsOK_def split: option.splits)
  have len: "?rem < 2 ^ 31" "?rem \<le> int (length (drop (nat ?pos) ?data))"
    using bb remaining by (auto simp: bb_remaining_def)
  from rd_data [OF rd ready remaining len \<open>\<not> is_pending s1\<close>]
  have n: "0 \<le> n" "n \<le> ?rem" "length buf = length (drop (nat ?pos) ?data)"
    "drop (nat n) buf = drop (nat n) (drop (nat ?pos) ?data)" "taken s1 = taken s @ take (nat n) buf" by simp_all
  have pos: "nat ?pos \<le> length ?data" using bb remaining by (simp add: bb_remaining_def)
  have d: "length (take (nat n) buf) = nat n" using n len by simp
  have "bytes = store ?data (nat ?pos) (take (nat n) buf)"
    using pos n(4) d unfolding bytes store_def
    by (metis (no_types, opaque_lifting) add.commute append_take_drop_id drop_drop)
  then show ?thesis
    using n d dst' \<open>s' = s1\<lparr>pending := None\<rparr>\<close> by (auto simp: taken_pending intro!: exI [of _ "take (nat n) buf"])
qed

end

context java_sink
begin

lemma stream_write_array_law:
  assumes run: "stream_write_array env wr (Some bytes) (s, ch) = Some ((Inr u, v), (s', ch'))"
    and ch: "\<not> ch_status ch" and ready: "ready (int (length bytes)) s" and size: "int (length bytes) < 2 ^ 31"
  shows "given s' = given s @ bytes"
proof (cases "bytes = []")
  case False
  with run have io: "blocking_io env rethrow (native (no_array (writeBytes wr bytes))) (s, ch) = Some ((Inr u, v), (s', ch'))"
    by (simp add: stream_write_array_def)
  from io ch obtain s1 where "no_array (writeBytes wr bytes) s = Some ((u, v), s1)" "\<not> is_pending s1" "s' = s1\<lparr>pending := None\<rparr>"
    by (rule blocking_Inr) (auto elim: native_Inr simp: rethrow_def)
  then obtain n where wr: "wr bytes (int (length bytes)) s = Some (n, s1)" and s': "\<not> is_pending s1" "s' = s1\<lparr>pending := None\<rparr>"
    by (auto simp: no_array_def writeBytes_def)
  have "given s1 = given s @ take (nat (int (length bytes))) bytes"
    by (rule wr_data [OF wr ready _ size order_refl s'(1)]) (use False in simp)
  then show ?thesis using s' by (simp add: given_pending)
qed (use run in \<open>auto simp: stream_write_array_def\<close>)

lemma channel_write_law:
  assumes run: "channel_write env wr src (s, ch) = Some ((Inr n, src'), (s', ch'))" and ch: "\<not> ch_status ch"
    and ready: "ready (bb_remaining src) s" and bb: "0 \<le> bb_position src" "bb_limit src \<le> int (length (bb_bytes src))"
      "bb_limit src < 2 ^ 31" and remaining: "0 < bb_remaining src"
  shows "\<exists>s1. wr (drop (nat (bb_position src)) (bb_bytes src)) (bb_remaining src) s = Some (n, s1) \<and> \<not> is_pending s1 \<and>
    s' = s1\<lparr>pending := None\<rparr> \<and>
    given s' = given s @ take (nat (bb_remaining src)) (drop (nat (bb_position src)) (bb_bytes src)) \<and>
    src' = src\<lparr>bb_position := bb_position src + n\<rparr>"
proof -
  let ?pos = "bb_position src" and ?rem = "bb_remaining src" and ?data = "bb_bytes src"
  obtain v where io: "blocking_io env rethrow (native (no_array (write_ArgsOK wr ?data ?pos ?rem))) (s, ch) = Some ((Inr n, v), (s', ch'))"
    and src': "src' = src\<lparr>bb_position := ?pos + n\<rparr>"
    using run remaining by (auto simp: channel_write_def set_position_def split: if_splits option.splits sum.splits prod.splits)
  from io ch obtain s1 where "no_array (write_ArgsOK wr ?data ?pos ?rem) s = Some ((n, v), s1)" "\<not> is_pending s1" "s' = s1\<lparr>pending := None\<rparr>"
    by (rule blocking_Inr) (auto elim: native_Inr simp: rethrow_def)
  then have wr: "wr (drop (nat ?pos) ?data) ?rem s = Some (n, s1)" and s': "\<not> is_pending s1" "s' = s1\<lparr>pending := None\<rparr>"
    by (auto simp: no_array_def write_ArgsOK_def)
  have len: "?rem < 2 ^ 31" "?rem \<le> int (length (drop (nat ?pos) ?data))"
    using bb remaining by (auto simp: bb_remaining_def)
  show ?thesis
    using wr_data [OF wr ready remaining len s'(1)] wr s' src' by (simp add: given_pending)
qed

end

interpretation termios_in: java_source "readBuffer c os junk" "termios_ready os fd" "received fd"
  for c os junk fd
  by unfold_locales simp

interpretation termios_out: java_sink "writeBuffer c os junk" "termios_ready os fd" "sent fd"
  for c os junk fd
  by unfold_locales simp

lemma fetched_pending [simp]: "fetched (s\<lparr>pending := e\<rparr>) = fetched s" "offered (s\<lparr>pending := e\<rparr>) = offered s"
  by (simp_all add: fetched_def offered_def)

interpretation windows_in: java_source "windows_read c os" "\<lambda>len s. delivers os len" fetched
  for c os
  by unfold_locales simp

interpretation windows_out: java_sink "windows_write c os" "\<lambda>len s. delivers os len" offered
  for c os
  by unfold_locales simp

section \<open>Interrupting a thread\<close>

text \<open>Closing a Termios channel from \<open>begin\<close>, which ignores an \<open>IOException\<close>.\<close>

definition termios_close :: "posix \<Rightarrow> 'w os \<Rightarrow> 'w pstate \<Rightarrow> 'w pstate" where
  "termios_close c os s = (snd (run_state (close0 c os) s))\<lparr>pending := None\<rparr>"

lemma blocking_interrupted:
  assumes "ch_status ch" "\<not> ch_closed ch" "call (je_close env s) = Some ((r, b), s')"
    and keeps: "\<And>s ch. ch_interrupted ch \<Longrightarrow> ch_interrupted (je_others env s ch)"
  shows "\<exists>ch'. blocking_io env caught call (s, ch) = Some ((Inl ClosedByInterruptException, b), (s', ch')) \<and> \<not> ch_interrupted ch'"
  using assms by (auto simp: blocking_io_def begin_io_def end_io_def Let_def)

definition closed_fd_fails :: "'w os \<Rightarrow> bool" where
  "closed_fd_fails os \<longleftrightarrow> (\<forall>n x. r_ret (fst (os (Read INVALID_FD n) x)) = - 1)"

lemma closed_fd_failsD: "closed_fd_fails os \<Longrightarrow> os (Read INVALID_FD n) x = (r, y) \<Longrightarrow> r_ret r = - 1"
  unfolding closed_fd_fails_def by (metis fst_conv)

lemma readBuffer_closed:
  assumes q: "quiet os" and bad: "closed_fd_fails os" and fd: "spsw_fd (sps s) = INVALID_FD"
  shows "\<exists>s'. readBuffer c os junk buff len s = Some ((- 1, buff), s') \<and> sps s' = sps s"
proof -
  have "wp (read_start c os buff len) (\<lambda>x t. x = Inl (- 1, buff) \<and> sps t = sps s) s"
    unfolding read_start_def read_first_def sys_read_def wp_bind wp_GetField fd
    by (rule syscall_wp, frule closed_fd_failsD [OF bad], drule quietD [OF q])
      (auto simp: wp_simps fd intro!: wp_throws)
  then obtain s' where "run_state (read_start c os buff len) s = (Inl (- 1, buff), s')" "sps s' = sps s"
    by (auto simp: wp_def split: prod.splits)
  then show ?thesis by (simp add: readBuffer_def)
qed

lemma termios_close_fd:
  assumes q: "quiet os"
  shows "spsw_fd (sps (termios_close c os s)) = INVALID_FD"
proof -
  have "wp (close0 c os) (\<lambda>_ s'. spsw_fd (sps s') = INVALID_FD) s" by (rule close0_wp [OF q]) simp
  then show ?thesis by (simp add: termios_close_def wp_def split: prod.splits)
qed

lemma readBytes_closed:
  assumes q: "quiet os" and bad: "closed_fd_fails os" and fd: "spsw_fd (sps s) = INVALID_FD"
  shows "\<exists>n s'. readBytes_ArgsOK (readBuffer c os junk) mem bytes off len s = Some ((n, bytes), s') \<and> spsw_fd (sps s') = INVALID_FD"
proof (cases "run_state (acquire mem len) s")
  case (Pair buf s1)
  have s1: "sps s1 = sps s"
    using Pair by (auto simp: acquire_def malloc_def throw_OutOfMemoryError_def FindClass_def Throw_def split: if_splits prod.splits)
  show ?thesis
  proof (cases buf)
    case None
    then show ?thesis using Pair s1 fd by (simp add: readBytes_ArgsOK_def)
  next
    case (Some b)
    obtain s2 where "readBuffer c os junk b len s1 = Some ((- 1, b), s2)" "sps s2 = sps s1"
      using readBuffer_closed [OF q bad, of s1 c junk b len] s1 fd by auto
    then show ?thesis
      using Pair Some s1 fd by (auto simp: readBytes_ArgsOK_def copy_out_def release_run)
  qed
qed

section \<open>Properties\<close>

text \<open>
  C28: the argument checks of the two streams, which compute with 32-bit integers that may
  wrap around, accept exactly the ranges inside the array.
\<close>

theorem stream_range_checks:
  assumes "int (length b) < 2 ^ 31"
  shows "(read_range_ok b off len \<longleftrightarrow> in_range b (sint off) (sint len)) \<and>
    (write_range_ok b off len \<longleftrightarrow> in_range b (sint off) (sint len))"
  using read_range_ok_iff [OF assms] write_range_ok_iff [OF assms] by blast

theorem stream_range_checks_witness:
  "\<not> write_range_ok [1, 2, 3] 2 2147483647 \<and> read_range_ok [1, 2, 3] 1 2"
  using stream_range_checks [of "[1, 2, 3]" 2 2147483647] stream_range_checks [of "[1, 2, 3]" 1 2]
  by (simp add: in_range_def)

text \<open>
  C22: the input stream. When \<open>read(b, off, len)\<close> returns and the thread was not interrupted
  before, no exception stays pending below, and the result is 0 for an empty range, -1, or the
  number of bytes that were received and stored from \<open>off\<close> on. The same on both platforms,
  whatever the other threads do meanwhile.
\<close>

theorem stream_read_correct:
  assumes "posix_read os" and "posix_write os" and "delivers wos (sint len)" and "int (length bytes) < 2 ^ 31"
    and "\<not> ch_status ch"
  shows "(case stream_read_range env (readBuffer c os junk) mem (Some bytes) off len (s, ch) of
      Some ((Inr n, arr), (s', ch')) \<Rightarrow> len = 0 \<and> n = 0 \<and> s' = s \<or>
        in_range bytes (sint off) (sint len) \<and> \<not> is_pending s' \<and>
        stream_got (received (spsw_fd (sps s))) bytes (sint off) (sint len) n arr s s'
    | _ \<Rightarrow> True) \<and>
    (case stream_read_range wenv (windows_read wc wos) mem (Some bytes) off len (ws, ch) of
      Some ((Inr n, arr), (ws', ch')) \<Rightarrow> len = 0 \<and> n = 0 \<and> ws' = ws \<or>
        in_range bytes (sint off) (sint len) \<and> \<not> is_pending ws' \<and>
        stream_got fetched bytes (sint off) (sint len) n arr ws ws'
    | _ \<Rightarrow> True)"
  using termios_in.stream_read_range_law [of env c os junk mem bytes off len s ch _ _ _ _ "spsw_fd (sps s)"]
    windows_in.stream_read_range_law [of wenv wc wos mem bytes off len ws ch] assms
  by (auto simp: termios_ready_def split: option.splits sum.splits)

definition calm_env :: "'s java_env" where
  "calm_env = \<lparr>je_close = (\<lambda>s. s), je_others = (\<lambda>s ch. ch)\<rparr>"

definition open_channel :: channel where
  "open_channel = \<lparr>ch_closed = False, ch_interrupted = False, ch_status = False\<rparr>"

lemma stream_read_run:
  "case stream_read_range calm_env (readBuffer linux_consts queue_device (0, 0)) (\<lambda>_. 0) (Some [9, 9, 9, 9]) 1 2
      (example_state [200], open_channel) of
    Some ((Inr n, arr), _) \<Rightarrow> n = 1 \<and> arr = Some [9, 200, 9, 9] | _ \<Rightarrow> False"
  by code_simp

theorem stream_read_correct_witness:
  "case stream_read_range calm_env (readBuffer linux_consts queue_device (0, 0)) (\<lambda>_. 0) (Some [9, 9, 9, 9]) 1 2
      (example_state [200], open_channel) of
    Some ((Inr n, arr), (s', ch')) \<Rightarrow> n = 1 \<and> arr = Some [9, 200, 9, 9] \<and>
      stream_got (received 3) [9, 9, 9, 9] 1 2 1 arr (example_state [200]) s' | _ \<Rightarrow> False"
  using stream_read_correct [where os = queue_device and wos = idle_port and wc = windows_consts and ws = "windows_state ()" and c = linux_consts
      and junk = "(0, 0)" and mem = "\<lambda>_. 0" and s = "example_state [200]" and len = 2 and off = 1 and bytes = "[9, 9, 9, 9]"
      and env = calm_env and wenv = calm_env and ch = open_channel] stream_read_run
  by (auto simp: open_channel_def split: option.splits sum.splits prod.splits)

text \<open>
  C34: the output stream. \<open>write(b)\<close> that returns has sent all bytes of the array, on both
  platforms; \<open>write(b, off, len)\<close> never sends anything: it returns only for an empty range,
  because it calls a native method the library does not have.
\<close>

theorem stream_write_sends:
  assumes "posix_read os" and "posix_write os" and "delivers wos (int (length bytes))" and "int (length bytes) < 2 ^ 31"
    and "\<not> ch_status ch"
  shows "(case stream_write_array env (writeBuffer c os junk) (Some bytes) (s, ch) of
      Some ((Inr _, _), (s', ch')) \<Rightarrow> sent (spsw_fd (sps s)) s' = sent (spsw_fd (sps s)) s @ bytes | _ \<Rightarrow> True) \<and>
    (case stream_write_array wenv (windows_write wc wos) (Some bytes) (ws, ch) of
      Some ((Inr _, _), (ws', ch')) \<Rightarrow> offered ws' = offered ws @ bytes | _ \<Rightarrow> True) \<and>
    (case stream_write_range env' (Some bytes) off len (t, ch) of
      Some ((Inr _, _), (t', ch')) \<Rightarrow> len = 0 \<and> t' = t | Some ((Inl _, _), (t', ch')) \<Rightarrow> t' = t | None \<Rightarrow> False)"
proof (intro conjI)
  show "case stream_write_array env (writeBuffer c os junk) (Some bytes) (s, ch) of
      Some ((Inr _, _), (s', ch')) \<Rightarrow> sent (spsw_fd (sps s)) s' = sent (spsw_fd (sps s)) s @ bytes | _ \<Rightarrow> True"
    using termios_out.stream_write_array_law [of env c os junk bytes s ch _ _ _ _ "spsw_fd (sps s)"] assms
    by (auto simp: termios_ready_def split: option.splits sum.splits)
  show "case stream_write_array wenv (windows_write wc wos) (Some bytes) (ws, ch) of
      Some ((Inr _, _), (ws', ch')) \<Rightarrow> offered ws' = offered ws @ bytes | _ \<Rightarrow> True"
    using windows_out.stream_write_array_law [of wenv wc wos bytes ws ch] assms
    by (auto split: option.splits sum.splits)
  show "case stream_write_range env' (Some bytes) off len (t, ch) of
      Some ((Inr _, _), (t', ch')) \<Rightarrow> len = 0 \<and> t' = t | Some ((Inl _, _), (t', ch')) \<Rightarrow> t' = t | None \<Rightarrow> False"
    using assms(5)
    by (auto simp: stream_write_range_def blocking_io_def writeBytes_ParamsOK_def Let_def rethrow_def is_IOException_def
        split: option.splits sum.splits prod.splits if_splits)
qed

lemma stream_write_run:
  "case stream_write_array calm_env (writeBuffer linux_consts queue_device (0, 0)) (Some [1, 2, 3, 4, 5, 6]) (example_state [0], open_channel) of
    Some ((Inr _, _), _) \<Rightarrow> True | _ \<Rightarrow> False"
  "case stream_write_range calm_env (Some [1, 2, 3, 4, 5, 6]) 1 2 (example_state (), open_channel) of
    Some ((Inl e, _), _) \<Rightarrow> e = UnsatisfiedLinkError | _ \<Rightarrow> False"
  by code_simp+

theorem stream_write_sends_witness:
  "(case stream_write_array calm_env (writeBuffer linux_consts queue_device (0, 0)) (Some [1, 2, 3, 4, 5, 6]) (example_state [0], open_channel) of
    Some ((Inr _, _), (s', _)) \<Rightarrow> sent 3 s' = [1, 2, 3, 4, 5, 6] | _ \<Rightarrow> False) \<and>
   (case stream_write_range calm_env (Some [1, 2, 3, 4, 5, 6]) 1 2 (example_state (), open_channel) of
    Some ((Inl e, _), (t', _)) \<Rightarrow> e = UnsatisfiedLinkError \<and> t' = example_state () | _ \<Rightarrow> False)"
  using stream_write_sends [where os = queue_device and wos = idle_port and wc = windows_consts and ws = "windows_state ()" and c = linux_consts
      and junk = "(0, 0)" and s = "example_state [0]" and len = 2 and off = 1 and bytes = "[1, 2, 3, 4, 5, 6]"
      and env = calm_env and wenv = calm_env and ch = open_channel and env' = calm_env and t = "example_state ()"] stream_write_run
  by (auto simp: open_channel_def split: option.splits sum.splits prod.splits)

text \<open>
  C35: writing a buffer to the channel. When \<open>write\<close> returns on Termios, all remaining bytes
  have been sent, but the position has only moved by the length of the last chunk; so when
  bytes remain, a second \<open>write\<close>, as the loop every caller of a \<open>WritableByteChannel\<close>
  needs, sends these again. On Windows the position is at the limit.
\<close>

theorem channel_write_position:
  assumes "posix_read os" and "posix_write os" and "delivers wos (bb_remaining src)" and "\<not> ch_status ch"
    and "0 \<le> bb_position src" and "bb_limit src \<le> int (length (bb_bytes src))" and "bb_limit src < 2 ^ 31" and "0 < bb_remaining src"
  shows "(case channel_write env (writeBuffer c os junk) src (s, ch) of
      Some ((Inr n, src'), (s', ch')) \<Rightarrow> (let fd = spsw_fd (sps s) in
        sent fd s' = sent fd s @ take (nat (bb_remaining src)) (drop (nat (bb_position src)) (bb_bytes src)) \<and>
        0 \<le> n \<and> n \<le> bb_remaining src \<and> src' = src\<lparr>bb_position := bb_position src + n\<rparr> \<and>
        (\<exists>bs r. last (calls s') = (Write fd bs, r) \<and> r_ret r = n \<and> int (length bs) = n))
    | _ \<Rightarrow> True) \<and>
    (case channel_write wenv (windows_write wc wos) src (ws, ch) of
      Some ((Inr n, src'), (ws', ch')) \<Rightarrow> n = bb_remaining src \<and> src' = src\<lparr>bb_position := bb_limit src\<rparr> \<and>
        offered ws' = offered ws @ take (nat (bb_remaining src)) (drop (nat (bb_position src)) (bb_bytes src))
    | _ \<Rightarrow> True)"
proof (intro conjI)
  let ?data = "drop (nat (bb_position src)) (bb_bytes src)" and ?rem = "bb_remaining src"
  have len: "?rem < 2 ^ 31" "?rem \<le> int (length ?data)"
    using assms(5-8) by (auto simp: bb_remaining_def)
  have posix: "let fd = spsw_fd (sps s) in sent fd s' = sent fd s @ take (nat ?rem) ?data \<and>
        0 \<le> n \<and> n \<le> ?rem \<and> src' = src\<lparr>bb_position := bb_position src + n\<rparr> \<and>
        (\<exists>bs r. last (calls s') = (Write fd bs, r) \<and> r_ret r = n \<and> int (length bs) = n)"
    if run: "channel_write env (writeBuffer c os junk) src (s, ch) = Some ((Inr n, src'), (s', ch'))" for n src' s' ch'
  proof -
    have ready: "termios_ready os (spsw_fd (sps s)) ?rem s" using assms(1,2) by (simp add: termios_ready_def)
    obtain s1 where wr: "writeBuffer c os junk ?data ?rem s = Some (n, s1)" and s1: "\<not> is_pending s1" "s' = s1\<lparr>pending := None\<rparr>"
      and sent: "sent (spsw_fd (sps s)) s' = sent (spsw_fd (sps s)) s @ take (nat ?rem) ?data" "src' = src\<lparr>bb_position := bb_position src + n\<rparr>"
      using termios_out.channel_write_law [OF run assms(4) ready assms(5-8)] by blast
    obtain k r where "0 \<le> k" "k + n = ?rem" "0 \<le> n" "last (calls s1) = (Write (spsw_fd (sps s)) (drop (nat k) (take (nat ?rem) ?data)), r)" "r_ret r = n"
      using writeBuffer_result [OF assms(2,8) len(2,1) wr] s1(1) by (auto simp: write_result_def)
    moreover from this have "int (length (drop (nat k) (take (nat ?rem) ?data))) = n" using len by simp
    ultimately show ?thesis using sent s1 by (auto simp: Let_def)
  qed
  then show "case channel_write env (writeBuffer c os junk) src (s, ch) of
      Some ((Inr n, src'), (s', ch')) \<Rightarrow> (let fd = spsw_fd (sps s) in
        sent fd s' = sent fd s @ take (nat (bb_remaining src)) (drop (nat (bb_position src)) (bb_bytes src)) \<and>
        0 \<le> n \<and> n \<le> bb_remaining src \<and> src' = src\<lparr>bb_position := bb_position src + n\<rparr> \<and>
        (\<exists>bs r. last (calls s') = (Write fd bs, r) \<and> r_ret r = n \<and> int (length bs) = n))
    | _ \<Rightarrow> True"
    by (simp split: option.splits prod.splits sum.splits)
  have windows: "n = ?rem \<and> src' = src\<lparr>bb_position := bb_limit src\<rparr> \<and> offered ws' = offered ws @ take (nat ?rem) ?data"
    if run: "channel_write wenv (windows_write wc wos) src (ws, ch) = Some ((Inr n, src'), (ws', ch'))" for n src' ws' ch'
  proof -
    obtain w1 where wr: "windows_write wc wos ?data ?rem ws = Some (n, w1)" and w1: "\<not> is_pending w1"
      and sent: "offered ws' = offered ws @ take (nat ?rem) ?data" "src' = src\<lparr>bb_position := bb_position src + n\<rparr>"
      using windows_out.channel_write_law [OF run assms(4,3,5-8)] by blast
    from wr have "run_state (writeBuffer_win wc wos ?data ?rem) ws = (n, w1)" by (simp add: windows_write_def)
    then have "n = ?rem"
      using wpD [OF writeBuffer_win_wp] write_outcome_data [OF _ w1] len assms(8) by fastforce
    then show ?thesis using sent by (simp add: bb_remaining_def)
  qed
  then show "case channel_write wenv (windows_write wc wos) src (ws, ch) of
      Some ((Inr n, src'), (ws', ch')) \<Rightarrow> n = bb_remaining src \<and> src' = src\<lparr>bb_position := bb_limit src\<rparr> \<and>
        offered ws' = offered ws @ take (nat (bb_remaining src)) (drop (nat (bb_position src)) (bb_bytes src))
    | _ \<Rightarrow> True"
    by (simp split: option.splits prod.splits sum.splits)
qed

definition six_bytes :: byte_buffer where
  "six_bytes = \<lparr>bb_bytes = [1, 2, 3, 4, 5, 6], bb_position = 0, bb_limit = 6, bb_readOnly = False\<rparr>"

text \<open>The device takes four bytes at a time: after the first call two bytes count as written.\<close>

lemma channel_write_run:
  "case channel_write calm_env (writeBuffer linux_consts queue_device (0, 0)) six_bytes (example_state [0], open_channel) of
    Some ((Inr n, _), _) \<Rightarrow> n = 2 | _ \<Rightarrow> False"
  by code_simp

theorem channel_write_position_witness:
  "case channel_write calm_env (writeBuffer linux_consts queue_device (0, 0)) six_bytes (example_state [0], open_channel) of
    Some ((Inr n, src'), (s', _)) \<Rightarrow> sent 3 s' = [1, 2, 3, 4, 5, 6] \<and> bb_position src' = 2 | _ \<Rightarrow> False"
  using channel_write_position [where os = queue_device and wos = idle_port and wc = windows_consts and ws = "windows_state ()" and c = linux_consts
      and junk = "(0, 0)" and s = "example_state [0]" and src = six_bytes
      and env = calm_env and wenv = calm_env and ch = open_channel] channel_write_run
  by (auto simp: open_channel_def six_bytes_def bb_remaining_def Let_def split: option.splits sum.splits prod.splits)

text \<open>
  C33: a thread that was interrupted before it reads. The read returns: \<open>begin\<close> closes the
  port, the native read finds the descriptor gone, and the stream throws
  \<open>ClosedByInterruptException\<close>, not -1. The array is as before.
\<close>

theorem interrupted_read:
  assumes "quiet os" and "closed_fd_fails os" and "ch_status ch" and "\<not> ch_closed ch"
    and "je_close env = termios_close c os" and "\<forall>s ch. ch_interrupted ch \<longrightarrow> ch_interrupted (je_others env s ch)"
    and "read_range_ok bytes off len" and "len \<noteq> 0"
  shows "\<exists>s' ch'. stream_read_range env (readBuffer c os junk) mem (Some bytes) off len (s, ch) =
      Some ((Inl ClosedByInterruptException, Some bytes), (s', ch')) \<and>
    spsw_fd (sps s') = INVALID_FD \<and> \<not> ch_interrupted ch'"
proof -
  have fd: "spsw_fd (sps (je_close env s)) = INVALID_FD"
    unfolding assms(5) by (rule termios_close_fd [OF assms(1)])
  obtain n s1 where "readBytes_ArgsOK (readBuffer c os junk) mem bytes (sint off) (sint len) (je_close env s) = Some ((n, bytes), s1)"
    "spsw_fd (sps s1) = INVALID_FD"
    using readBytes_closed [OF assms(1,2) fd] by blast
  then obtain r s' where call: "native (readBytes_ArgsOK (readBuffer c os junk) mem bytes (sint off) (sint len)) (je_close env s) = Some ((r, bytes), s')"
    and s': "spsw_fd (sps s') = INVALID_FD"
    by (auto simp: native_def)
  have "\<exists>ch'. blocking_io env end_of_stream (native (readBytes_ArgsOK (readBuffer c os junk) mem bytes (sint off) (sint len))) (s, ch) =
      Some ((Inl ClosedByInterruptException, bytes), (s', ch')) \<and> \<not> ch_interrupted ch'"
    by (rule blocking_interrupted [where env = env, OF assms(3,4)], rule call) (use assms(6) in blast)
  then show ?thesis
    using assms(7,8) s' by (auto simp: stream_read_range_def)
qed

definition plain_device :: "unit os" where
  "plain_device c x = (resp0\<lparr>r_ret := (case c of Read fd n \<Rightarrow> if fd < 0 then - 1 else 0 | _ \<Rightarrow> 0)\<rparr>, x)"

lemma plain_device_laws [simp]: "quiet plain_device" "closed_fd_fails plain_device"
  by (simp_all add: quiet_def closed_fd_fails_def plain_device_def INVALID_FD_def resp0_def)

definition closing_env :: "unit pstate java_env" where
  "closing_env = \<lparr>je_close = termios_close linux_consts plain_device, je_others = (\<lambda>s ch. ch)\<rparr>"

theorem interrupted_read_witness:
  "\<exists>s' ch'. stream_read_range closing_env (readBuffer linux_consts plain_device (0, 0)) (\<lambda>_. 0) (Some [9, 9, 9]) 1 2
      (example_state (), open_channel\<lparr>ch_status := True\<rparr>) =
      Some ((Inl ClosedByInterruptException, Some [9, 9, 9]), (s', ch')) \<and> spsw_fd (sps s') = - 1"
proof -
  have "read_range_ok [9, 9, 9] 1 2" by code_simp
  then show ?thesis
    using interrupted_read [of plain_device "open_channel\<lparr>ch_status := True\<rparr>" closing_env linux_consts "[9, 9, 9]" 1 2 "(0, 0)" "\<lambda>_. 0" "example_state ()"]
    by (auto simp: open_channel_def closing_env_def INVALID_FD_def)
qed

end
