(* ===== verification/JavaPort.thy ===== *)
theory JavaPort
  imports JavaChannel
begin

text \<open>
  The parameters of a port as \<open>AbstractSerialPortSocket\<close> offers them: one getter and one setter
  for each of the five, over the native \<open>getParameters\<close> and \<open>setParameters\<close> of either platform.
  The interface \<open>java_line\<close> says what the getters and setters rely on; both native builds
  provide it, and any sequence of calls then acts as it does on an abstract line.
\<close>

section \<open>Calling native methods\<close>

text \<open>The exception a native method leaves pending is thrown when it returns.\<close>

definition take_pending :: "(('w, 'c) jni, throwable option) state" where
  "take_pending = do {
     s \<leftarrow> State_Monad.get;
     modify (\<lambda>s. s\<lparr>pending := None\<rparr>);
     State_Monad.return (pending s)
   }"

definition java_call :: "(('w, 'c) jni, 'a) state \<Rightarrow> (('w, 'c) jni, throwable + 'a) state" where
  "java_call m = do {
     x \<leftarrow> m;
     thrown \<leftarrow> take_pending;
     State_Monad.return (case thrown of Some e \<Rightarrow> Inl e | None \<Rightarrow> Inr x)
   }"

lemma wp_take_pending [wp_simps]: "wp take_pending Q s \<longleftrightarrow> Q (pending s) (s\<lparr>pending := None\<rparr>)"
  by (simp add: take_pending_def wp_simps)

lemma wp_java_call:
  "wp (java_call m) Q s \<longleftrightarrow> wp m (\<lambda>x s'. Q (case pending s' of Some e \<Rightarrow> Inl e | None \<Rightarrow> Inr x) (s'\<lparr>pending := None\<rparr>)) s"
  unfolding java_call_def wp_bind wp_take_pending wp_return by (rule refl)

lemma pending_same: "pending s = None \<Longrightarrow> s\<lparr>pending := None\<rparr> = s"
  by simp

section \<open>The names of the constants\<close>

fun speed_bps :: "Speed \<Rightarrow> int" where
  "speed_bps BPS_0 = 0"
| "speed_bps BPS_50 = 50"
| "speed_bps BPS_75 = 75"
| "speed_bps BPS_110 = 110"
| "speed_bps BPS_134 = 134"
| "speed_bps BPS_150 = 150"
| "speed_bps BPS_200 = 200"
| "speed_bps BPS_300 = 300"
| "speed_bps BPS_600 = 600"
| "speed_bps BPS_1200 = 1200"
| "speed_bps BPS_1800 = 1800"
| "speed_bps BPS_2400 = 2400"
| "speed_bps BPS_4800 = 4800"
| "speed_bps BPS_9600 = 9600"
| "speed_bps BPS_19200 = 19200"
| "speed_bps BPS_38400 = 38400"
| "speed_bps BPS_57600 = 57600"
| "speed_bps BPS_115200 = 115200"
| "speed_bps BPS_230400 = 230400"
| "speed_bps BPS_460800 = 460800"
| "speed_bps BPS_500000 = 500000"
| "speed_bps BPS_576000 = 576000"
| "speed_bps BPS_921600 = 921600"
| "speed_bps BPS_1000000 = 1000000"
| "speed_bps BPS_1152000 = 1152000"
| "speed_bps BPS_1500000 = 1500000"
| "speed_bps BPS_2000000 = 2000000"
| "speed_bps BPS_2500000 = 2500000"
| "speed_bps BPS_3000000 = 3000000"
| "speed_bps BPS_3500000 = 3500000"
| "speed_bps BPS_4000000 = 4000000"

text \<open>\<open>name()\<close> of the constants: those of the speeds have an underscore in front.\<close>

definition speed_name :: "Speed \<Rightarrow> string" where
  "speed_name v = ''_'' @ show_int (speed_bps v) @ ''_BPS''"

fun dataBits_name :: "DataBits \<Rightarrow> string" where
  "dataBits_name DB_5 = ''DB_5''"
| "dataBits_name DB_6 = ''DB_6''"
| "dataBits_name DB_7 = ''DB_7''"
| "dataBits_name DB_8 = ''DB_8''"

fun stopBits_name :: "StopBits \<Rightarrow> string" where
  "stopBits_name SB_1 = ''SB_1''"
| "stopBits_name SB_1_5 = ''SB_1_5''"
| "stopBits_name SB_2 = ''SB_2''"

text \<open>\<open>%8x\<close>: blanks in place of the leading zeros.\<close>

definition hex_padded :: "jint \<Rightarrow> string" where
  "hex_padded w = (let d = show_hex8 w; n = length (takeWhile (\<lambda>c. c = CHR ''0'') (butlast d))
     in replicate n (CHR '' '') @ drop n d)"

section \<open>Getters\<close>

definition decoded :: "string \<Rightarrow> (jint \<Rightarrow> 'a option) \<Rightarrow> throwable + jint \<Rightarrow> throwable + 'a" where
  "decoded what from_bits r = (case r of Inl e \<Rightarrow> Inl e
     | Inr bitset \<Rightarrow> (case from_bits bitset of Some x \<Rightarrow> Inr x
         | None \<Rightarrow> Inl (IllegalArgumentException (''Unknown '' @ what @ '' in bitset: '' @ hex_padded bitset))))"

definition getSpeed :: "(jint \<Rightarrow> (('w, 'c) jni, jint) state) \<Rightarrow> (('w, 'c) jni, throwable + Speed) state" where
  "getSpeed getp = do {
     r \<leftarrow> java_call (getp SPSW_SPEED_MASK);
     State_Monad.return (decoded ''speed'' speedFromBitSet r)
   }"

definition getDatatBits :: "(jint \<Rightarrow> (('w, 'c) jni, jint) state) \<Rightarrow> (('w, 'c) jni, throwable + DataBits) state" where
  "getDatatBits getp = do {
     r \<leftarrow> java_call (getp SPSW_DATA_BITS_MASK);
     State_Monad.return (decoded ''dataBits'' dataBitsFromBitSet r)
   }"

definition getFlowControl :: "(jint \<Rightarrow> (('w, 'c) jni, jint) state) \<Rightarrow> (('w, 'c) jni, throwable + FlowControl list) state" where
  "getFlowControl getp = do {
     r \<leftarrow> java_call (getp SPSW_FLOW_CONTROL_MASK);
     State_Monad.return (map_sum id flowControlFromBitSet r)
   }"

definition getParity :: "(jint \<Rightarrow> (('w, 'c) jni, jint) state) \<Rightarrow> (('w, 'c) jni, throwable + Parity) state" where
  "getParity getp = do {
     r \<leftarrow> java_call (getp SPSW_PARITY_MASK);
     State_Monad.return (decoded ''stopBits'' parityFromBitSet r)
   }"

definition getStopBits :: "(jint \<Rightarrow> (('w, 'c) jni, jint) state) \<Rightarrow> (('w, 'c) jni, throwable + StopBits) state" where
  "getStopBits getp = do {
     r \<leftarrow> java_call (getp SPSW_STOP_BITS_MASK);
     State_Monad.return (decoded ''stopBits'' stopBitsFromBitSet r)
   }"

section \<open>Setters\<close>

text \<open>\<open>catch (IllegalArgumentException ex)\<close> with a new exception around it.\<close>

definition cant_set :: "string \<Rightarrow> throwable + unit \<Rightarrow> throwable + unit" where
  "cant_set text r = (case r of Inl (IllegalArgumentException m) \<Rightarrow> Inl (IllegalArgumentException text) | _ \<Rightarrow> r)"

definition setSpeed :: "(jint \<Rightarrow> (('w, 'c) jni, unit) state) \<Rightarrow> string \<Rightarrow> Speed \<Rightarrow> (('w, 'c) jni, throwable + unit) state" where
  "setSpeed setp portName speed = do {
     r \<leftarrow> java_call (setp (toBitSet_Speed speed));
     State_Monad.return (cant_set (''Can't set speed '' @ speed_name speed @ '' on port: '' @ portName) r)
   }"

text \<open>The text of the exception asks the port for its data bits, which can throw.\<close>

definition setDataBits :: "(jint \<Rightarrow> (('w, 'c) jni, jint) state) \<Rightarrow> (jint \<Rightarrow> (('w, 'c) jni, unit) state) \<Rightarrow>
    string \<Rightarrow> DataBits \<Rightarrow> (('w, 'c) jni, throwable + unit) state" where
  "setDataBits getp setp portName dataBits = do {
     r \<leftarrow> java_call (setp (toBitSet_DataBits dataBits));
     case r of Inl (IllegalArgumentException m) \<Rightarrow> do {
         v \<leftarrow> getDatatBits getp;
         State_Monad.return (case v of Inl e \<Rightarrow> Inl e
           | Inr d \<Rightarrow> Inl (IllegalArgumentException (''Can't set dataBits '' @ dataBits_name dataBits @ '' on port: '' @
               portName @ '' value is:'' @ dataBits_name d)))
       }
     | _ \<Rightarrow> State_Monad.return r
   }"

definition setFlowControl :: "(jint \<Rightarrow> (('w, 'c) jni, unit) state) \<Rightarrow> FlowControl list \<Rightarrow> (('w, 'c) jni, throwable + unit) state" where
  "setFlowControl setp flowControls = java_call (setp (toBitSet_FlowControl flowControls))"

definition setParity :: "(jint \<Rightarrow> (('w, 'c) jni, unit) state) \<Rightarrow> Parity \<Rightarrow> (('w, 'c) jni, throwable + unit) state" where
  "setParity setp parity = java_call (setp (toBitSet_Parity parity))"

definition setStopBits :: "(jint \<Rightarrow> (('w, 'c) jni, unit) state) \<Rightarrow> string \<Rightarrow> StopBits \<Rightarrow> (('w, 'c) jni, throwable + unit) state" where
  "setStopBits setp portName stopBits = do {
     r \<leftarrow> java_call (setp (toBitSet_StopBits stopBits));
     State_Monad.return (cant_set (''Can't set stopBits '' @ stopBits_name stopBits @ '' on port: '' @ portName) r)
   }"

section \<open>The abstract view\<close>

text \<open>What the getters show: the speed and the abstract line.\<close>

type_synonym config = "Speed \<times> line"

datatype setting = Speed_is Speed | DataBits_is DataBits | StopBits_is StopBits | Parity_is Parity
  | FlowControl_is "FlowControl list"

definition request :: "setting \<Rightarrow> params" where
  "request x = (let none = \<lparr>p_speed = None, p_dataBits = None, p_stopBits = None, p_parity = None, p_flow = None\<rparr>
     in case x of Speed_is v \<Rightarrow> none\<lparr>p_speed := Some v\<rparr> | DataBits_is d \<Rightarrow> none\<lparr>p_dataBits := Some d\<rparr>
     | StopBits_is b \<Rightarrow> none\<lparr>p_stopBits := Some b\<rparr> | Parity_is q \<Rightarrow> none\<lparr>p_parity := Some q\<rparr>
     | FlowControl_is F \<Rightarrow> none\<lparr>p_flow := Some F\<rparr>)"

definition apply_config :: "bool \<Rightarrow> params \<Rightarrow> config \<Rightarrow> config option" where
  "apply_config both p cfg = map_option (\<lambda>l. (case p_speed p of None \<Rightarrow> fst cfg | Some v \<Rightarrow> v, l))
     (apply_params both p (snd cfg))"

text \<open>A setter that throws changes nothing.\<close>

definition apply_setting :: "bool \<Rightarrow> setting \<Rightarrow> config \<Rightarrow> config" where
  "apply_setting both x cfg = (case apply_config both (request x) cfg of None \<Rightarrow> cfg | Some cfg' \<Rightarrow> cfg')"

fun refusals :: "bool \<Rightarrow> setting list \<Rightarrow> config \<Rightarrow> bool list" where
  "refusals both [] cfg = []"
| "refusals both (x # xs) cfg = (apply_config both (request x) cfg = None) # refusals both xs (apply_setting both x cfg)"

definition answer :: "config \<Rightarrow> params \<Rightarrow> params" where
  "answer cfg p = \<lparr>p_speed = map_option (\<lambda>_. fst cfg) (p_speed p), p_dataBits = map_option (\<lambda>_. l_dataBits (snd cfg)) (p_dataBits p),
     p_stopBits = map_option (\<lambda>_. line_stop (snd cfg)) (p_stopBits p), p_parity = map_option (\<lambda>_. l_parity (snd cfg)) (p_parity p),
     p_flow = map_option (\<lambda>_. line_flow (snd cfg)) (p_flow p)\<rparr>"

type_synonym shown = "Speed \<times> DataBits \<times> StopBits \<times> Parity \<times> FlowControl set"

definition shown_config :: "config \<Rightarrow> shown" where
  "shown_config cfg = (fst cfg, l_dataBits (snd cfg), line_stop (snd cfg), l_parity (snd cfg), set (line_flow (snd cfg)))"

text \<open>The setters by the setting they set, several of them in turn, and the five getters.\<close>

definition java_set :: "(jint \<Rightarrow> (('w, 'c) jni, jint) state) \<Rightarrow> (jint \<Rightarrow> (('w, 'c) jni, unit) state) \<Rightarrow>
    string \<Rightarrow> setting \<Rightarrow> (('w, 'c) jni, throwable + unit) state" where
  "java_set getp setp portName x = (case x of
       Speed_is v \<Rightarrow> setSpeed setp portName v
     | DataBits_is d \<Rightarrow> setDataBits getp setp portName d
     | StopBits_is b \<Rightarrow> setStopBits setp portName b
     | Parity_is q \<Rightarrow> setParity setp q
     | FlowControl_is F \<Rightarrow> setFlowControl setp F)"

fun java_sets :: "(jint \<Rightarrow> (('w, 'c) jni, jint) state) \<Rightarrow> (jint \<Rightarrow> (('w, 'c) jni, unit) state) \<Rightarrow>
    string \<Rightarrow> setting list \<Rightarrow> (('w, 'c) jni, (throwable + unit) list) state" where
  "java_sets getp setp portName [] = State_Monad.return []"
| "java_sets getp setp portName (x # xs) = do {
     r \<leftarrow> java_set getp setp portName x;
     rs \<leftarrow> java_sets getp setp portName xs;
     State_Monad.return (r # rs)
   }"

definition java_get :: "(jint \<Rightarrow> (('w, 'c) jni, jint) state) \<Rightarrow> (('w, 'c) jni, shown option) state" where
  "java_get getp = do {
     v \<leftarrow> getSpeed getp;
     d \<leftarrow> getDatatBits getp;
     b \<leftarrow> getStopBits getp;
     q \<leftarrow> getParity getp;
     F \<leftarrow> getFlowControl getp;
     State_Monad.return (case (v, d, b, q, F) of (Inr v, Inr d, Inr b, Inr q, Inr F) \<Rightarrow> Some (v, d, b, q, set F) | _ \<Rightarrow> None)
   }"

text \<open>The masks of the getters, and the bit sets of the setters, are those of one-field requests.\<close>

lemma request_sel [simp]:
  "request (Speed_is v) = \<lparr>p_speed = Some v, p_dataBits = None, p_stopBits = None, p_parity = None, p_flow = None\<rparr>"
  "request (DataBits_is d) = \<lparr>p_speed = None, p_dataBits = Some d, p_stopBits = None, p_parity = None, p_flow = None\<rparr>"
  "request (StopBits_is b) = \<lparr>p_speed = None, p_dataBits = None, p_stopBits = Some b, p_parity = None, p_flow = None\<rparr>"
  "request (Parity_is q) = \<lparr>p_speed = None, p_dataBits = None, p_stopBits = None, p_parity = Some q, p_flow = None\<rparr>"
  "request (FlowControl_is F) = \<lparr>p_speed = None, p_dataBits = None, p_stopBits = None, p_parity = None, p_flow = Some F\<rparr>"
  by (simp_all add: request_def)

fun request_bits :: "setting \<Rightarrow> jint" where
  "request_bits (Speed_is v) = toBitSet_Speed v"
| "request_bits (DataBits_is d) = toBitSet_DataBits d"
| "request_bits (StopBits_is b) = toBitSet_StopBits b"
| "request_bits (Parity_is q) = toBitSet_Parity q"
| "request_bits (FlowControl_is F) = toBitSet_FlowControl F"

fun request_mask :: "setting \<Rightarrow> jint" where
  "request_mask (Speed_is v) = SPSW_SPEED_MASK"
| "request_mask (DataBits_is d) = SPSW_DATA_BITS_MASK"
| "request_mask (StopBits_is b) = SPSW_STOP_BITS_MASK"
| "request_mask (Parity_is q) = SPSW_PARITY_MASK"
| "request_mask (FlowControl_is F) = SPSW_FLOW_CONTROL_MASK"

lemma request_encoded: "encode_params (request x) = request_bits x"
  by (cases x) (simp_all add: encode_params_def field_def)

lemma request_mask_read: "params_to_read (encode_params (request x)) = request_mask x"
proof -
  have z: "m AND encode_params (request x) = encode_params (request x) AND m" for m by (simp add: and.commute)
  show ?thesis
    unfolding params_to_read_def z encode_fields by (cases x) (simp_all add: field_def)
qed

section \<open>The interface of the two native builds\<close>

locale java_line =
  fixes getp :: "jint \<Rightarrow> (('w, 'c) jni, jint) state"
    and setp :: "jint \<Rightarrow> (('w, 'c) jni, unit) state"
    and ready :: "('w, 'c) jni \<Rightarrow> bool"
    and config :: "('w, 'c) jni \<Rightarrow> config"
    and both :: bool
    and supported :: "params \<Rightarrow> bool"
  assumes calm: "ready s \<Longrightarrow> pending s = None"
    and reads: "ready s \<Longrightarrow> wp (getp (params_to_read (encode_params p)))
      (\<lambda>x s'. x = encode_params (answer (config s) p) \<and> ready s' \<and> config s' = config s) s"
    and writes: "ready s \<Longrightarrow> supported p \<Longrightarrow> wp (setp (encode_params p))
      (\<lambda>_ s'. case apply_config both p (config s) of
          None \<Rightarrow> is_pending s' \<and> ready (s'\<lparr>pending := None\<rparr>) \<and> config (s'\<lparr>pending := None\<rparr>) = config s
        | Some cfg \<Rightarrow> ready s' \<and> config s' = cfg) s"
begin

lemma calm_same: "ready s \<Longrightarrow> s\<lparr>pending := None\<rparr> = s"
  by (rule pending_same [OF calm])

lemma get_wp:
  assumes r: "ready s" and Q: "\<And>s'. ready s' \<Longrightarrow> config s' = config s \<Longrightarrow>
    Q (Inr (encode_params (answer (config s) (request x)))) s'"
  shows "wp (java_call (getp (request_mask x))) Q s"
  unfolding wp_java_call request_mask_read [symmetric]
  by (rule wp_mono [OF reads [OF r]]) (auto simp: calm calm_same Q)

lemma getSpeed_wp:
  assumes r: "ready s" and Q: "\<And>s'. ready s' \<Longrightarrow> config s' = config s \<Longrightarrow> Q (Inr (fst (config s))) s'"
  shows "wp (getSpeed getp) Q s"
  unfolding getSpeed_def wp_bind wp_return
  using get_wp [OF r, of _ "Speed_is undefined"]
  by (simp add: decoded_def answer_def decode_speed encode_fields field_def Q)

lemma getDatatBits_wp:
  assumes r: "ready s" and Q: "\<And>s'. ready s' \<Longrightarrow> config s' = config s \<Longrightarrow> Q (Inr (l_dataBits (snd (config s)))) s'"
  shows "wp (getDatatBits getp) Q s"
  unfolding getDatatBits_def wp_bind wp_return
  using get_wp [OF r, of _ "DataBits_is undefined"]
  by (simp add: decoded_def answer_def decode_dataBits encode_fields field_def Q)

lemma getStopBits_wp:
  assumes r: "ready s" and Q: "\<And>s'. ready s' \<Longrightarrow> config s' = config s \<Longrightarrow> Q (Inr (line_stop (snd (config s)))) s'"
  shows "wp (getStopBits getp) Q s"
  unfolding getStopBits_def wp_bind wp_return
  using get_wp [OF r, of _ "StopBits_is undefined"]
  by (simp add: decoded_def answer_def decode_stopBits encode_fields field_def Q)

lemma getParity_wp:
  assumes r: "ready s" and Q: "\<And>s'. ready s' \<Longrightarrow> config s' = config s \<Longrightarrow> Q (Inr (l_parity (snd (config s)))) s'"
  shows "wp (getParity getp) Q s"
  unfolding getParity_def wp_bind wp_return
  using get_wp [OF r, of _ "Parity_is undefined"]
  by (simp add: decoded_def answer_def decode_parity encode_fields field_def Q)

lemma getFlowControl_wp:
  assumes r: "ready s" and Q: "\<And>F s'. ready s' \<Longrightarrow> config s' = config s \<Longrightarrow>
    set F = set (line_flow (snd (config s))) \<Longrightarrow> Q (Inr F) s'"
  shows "wp (getFlowControl getp) Q s"
  unfolding getFlowControl_def wp_bind wp_return
  using get_wp [OF r, of _ "FlowControl_is undefined"]
  by (simp add: answer_def decode_flow encode_fields field_def Q)

lemma java_get_wp:
  assumes "ready s" and "\<And>s'. ready s' \<Longrightarrow> config s' = config s \<Longrightarrow> Q (Some (shown_config (config s))) s'"
  shows "wp (java_get getp) Q s"
  unfolding java_get_def wp_bind
  by (intro getSpeed_wp getDatatBits_wp getStopBits_wp getParity_wp getFlowControl_wp assms(1))
    (simp_all add: wp_return shown_config_def assms(2) [unfolded shown_config_def])

text \<open>A setter either does what the abstract line does or throws and changes nothing.\<close>

definition set_outcome :: "setting \<Rightarrow> ('w, 'c) jni \<Rightarrow> throwable + unit \<Rightarrow> ('w, 'c) jni \<Rightarrow> bool" where
  "set_outcome x s r s' \<longleftrightarrow> ready s' \<and> config s' = apply_setting both x (config s) \<and>
     isl r = (apply_config both (request x) (config s) = None)"

lemma set_call_wp:
  assumes r: "ready s" and sup: "supported (request x)"
  shows "wp (java_call (setp (request_bits x))) (set_outcome x s) s"
  unfolding wp_java_call request_encoded [symmetric]
  by (rule wp_mono [OF writes [OF r sup]])
    (auto simp: set_outcome_def apply_setting_def calm calm_same is_pending_def split: option.splits)

lemma set_outcome_isl: "set_outcome x s r s' \<Longrightarrow> isl r' = isl r \<Longrightarrow> set_outcome x s r' s'"
  by (simp add: set_outcome_def)

lemma isl_cant_set [simp]: "isl (cant_set text r) = isl r"
  by (auto simp: cant_set_def split: sum.splits throwable.splits)

lemma setDataBits_wp:
  assumes r: "ready s" and sup: "supported (request (DataBits_is d))"
  shows "wp (setDataBits getp setp portName d) (set_outcome (DataBits_is d) s) s"
  unfolding setDataBits_def wp_bind
proof (rule wp_mono [OF set_call_wp [OF r sup, simplified]])
  fix r' s' assume out: "set_outcome (DataBits_is d) s r' s'"
  have "wp (getDatatBits getp) (\<lambda>v t. set_outcome (DataBits_is d) s (Inl e) t \<and> v = Inr (l_dataBits (snd (config s')))) s'"
    if "r' = Inl e" for e
    using out that by (intro getDatatBits_wp) (auto simp: set_outcome_def)
  then show "wp (case r' of
       Inl (IllegalArgumentException m) \<Rightarrow> State_Monad.bind (getDatatBits getp) (\<lambda>v.
         State_Monad.return (case v of Inl e \<Rightarrow> Inl e
           | Inr d' \<Rightarrow> Inl (IllegalArgumentException (''Can't set dataBits '' @ dataBits_name d @ '' on port: '' @
               portName @ '' value is:'' @ dataBits_name d'))))
     | _ \<Rightarrow> State_Monad.return r') (set_outcome (DataBits_is d) s) s'"
    using out by (auto simp: wp_return wp_bind split: sum.splits throwable.splits
      elim!: wp_mono set_outcome_isl)
qed

lemma java_set_wp:
  assumes r: "ready s" and sup: "supported (request x)"
  shows "wp (java_set getp setp portName x) (set_outcome x s) s"
  using set_call_wp [OF assms] setDataBits_wp [OF r]  sup
  by (cases x) (auto simp: java_set_def setSpeed_def setStopBits_def setParity_def setFlowControl_def wp_bind wp_return
      elim!: wp_mono set_outcome_isl)

text \<open>Any sequence of setter calls acts as it does on the abstract line.\<close>

lemma java_sets_wp:
  assumes "ready s" and "\<forall>x \<in> set xs. supported (request x)"
  shows "wp (java_sets getp setp portName xs) (\<lambda>rs s'. ready s' \<and>
    config s' = fold (apply_setting both) xs (config s) \<and> map isl rs = refusals both xs (config s)) s"
  using assms
proof (induction xs arbitrary: s)
  case (Cons x xs)
  have "wp (java_set getp setp portName x) (set_outcome x s) s"
    using Cons.prems by (intro java_set_wp) simp_all
  then show ?case
    unfolding java_sets.simps wp_bind
  proof (rule wp_mono)
    fix r s1 assume out: "set_outcome x s r s1"
    then have "wp (java_sets getp setp portName xs) (\<lambda>rs s'. ready s' \<and>
        config s' = fold (apply_setting both) xs (config s1) \<and> map isl rs = refusals both xs (config s1)) s1"
      using Cons.prems by (intro Cons.IH) (simp_all add: set_outcome_def)
    then show "wp (java_sets getp setp portName xs) (\<lambda>rs. wp (State_Monad.return (r # rs)) (\<lambda>rs s'. ready s' \<and>
        config s' = fold (apply_setting both) (x # xs) (config s) \<and> map isl rs = refusals both (x # xs) (config s))) s1"
      by (rule wp_mono) (use out in \<open>auto simp: wp_return set_outcome_def\<close>)
  qed
qed (simp add: wp_return)

end

lemma collect_answer:
  "collect (Some v) (Some (l_dataBits l)) (Some (line_stop l)) (Some (l_parity l)) (line_flow l) p = Some (answer (v, l) p)"
  by (cases "p_speed p"; cases "p_dataBits p"; cases "p_stopBits p"; cases "p_parity p"; cases "p_flow p")
    (simp_all add: collect_def answer_def)

text \<open>A terminal that keeps its settings and whose speed and character size the code knows.\<close>

definition tty_ready :: "posix \<Rightarrow> termios_lib \<Rightarrow> 'w os \<Rightarrow> int \<Rightarrow> ('w \<Rightarrow> termios) \<Rightarrow> 'w pstate \<Rightarrow> bool" where
  "tty_ready c lib os fd attr s \<longleftrightarrow> wf_posix c \<and> speed_lib c lib \<and> faithful_tty os fd attr \<and> spsw_fd (sps s) = fd \<and>
     pending s = None \<and> tty_speed c lib (attr (world s)) \<noteq> None \<and> get_dataBits c (attr (world s)) \<noteq> None"

definition tty_config :: "posix \<Rightarrow> termios_lib \<Rightarrow> ('w \<Rightarrow> termios) \<Rightarrow> 'w pstate \<Rightarrow> config" where
  "tty_config c lib attr s = (the (tty_speed c lib (attr (world s))), abs_line c (attr (world s)))"

definition tty_supports :: "posix \<Rightarrow> params \<Rightarrow> bool" where
  "tty_supports c p \<longleftrightarrow> parity_supported c p \<and> speed_supported c p"

lemma tty_reads:
  assumes "tty_ready c lib os fd attr s"
  shows "wp (TermiosSettings.getParameters c lib os (params_to_read (encode_params p)))
    (\<lambda>x s'. x = encode_params (answer (tty_config c lib attr s) p) \<and> tty_ready c lib os fd attr s' \<and>
      tty_config c lib attr s' = tty_config c lib attr s) s"
proof -
  note r = assms [unfolded tty_ready_def]
  let ?t = "attr (world s)"
  have "decode c lib ?t (params_to_read (encode_params p)) = Some (encode_params (answer (tty_config c lib attr s) p))"
    using r by (auto simp: termios.decode_fields tty_dataBits_def collect_answer tty_config_def)
  then show ?thesis
    unfolding TermiosSettings.getParameters_def wp_bind
    by (intro getParams_wp) (use r in \<open>auto simp: wp_return tty_ready_def tty_config_def dest!: faithful_get\<close>)
qed

lemma tty_speed_kept:
  assumes "view_kept c lib p t t'" and "shows_params c lib t' p" and "tty_speed c lib t = Some v"
  shows "tty_speed c lib t' = Some (case p_speed p of None \<Rightarrow> v | Some v' \<Rightarrow> v')"
proof (cases "p_speed p")
  case None
  then have "line_speed c lib t' = line_speed c lib t" using assms(1) by (simp add: view_kept_def line_speed_def)
  then show ?thesis using assms(3) None by (simp add: tty_speed_def)
next
  case (Some v')
  then have "line_speed c lib t' = Some (toBitSet_Speed v')" using assms(2) by (simp add: shows_params_def)
  then show ?thesis using Some decode_speed [OF speed_field(1)] by (simp add: tty_speed_def)
qed

lemma tty_writes:
  assumes ready: "tty_ready c lib os fd attr s" and sup: "tty_supports c p"
  shows "wp (TermiosSettings.setParameters c lib os (encode_params p))
    (\<lambda>_ s'. case apply_config True p (tty_config c lib attr s) of
        None \<Rightarrow> is_pending s' \<and> tty_ready c lib os fd attr (s'\<lparr>pending := None\<rparr>) \<and>
          tty_config c lib attr (s'\<lparr>pending := None\<rparr>) = tty_config c lib attr s
      | Some cfg \<Rightarrow> tty_ready c lib os fd attr s' \<and> tty_config c lib attr s' = cfg) s"
proof -
  note r = ready [unfolded tty_ready_def] and sup = sup [unfolded tty_supports_def]
  obtain x obj w where get: "os (Tcgetattr (spsw_fd (sps s))) (sps s, world s) = (x, obj, w)" by (metis prod_cases3)
  have g: "r_ret x = 0 \<and> r_termios x = attr (world s) \<and> obj = sps s \<and> attr w = attr (world s)"
    using faithful_get get r by metis
  let ?s1 = "answered (Tcgetattr (spsw_fd (sps s))) x obj w s"
  have tty: "faithful_tty os (spsw_fd (sps ?s1)) attr" using r g by simp
  show ?thesis
    unfolding TermiosSettings.setParameters_def wp_bind wp_GetField wp_syscall get
    unfolding prod.case g [THEN conjunct1] not_sym simp_thms if_False wp_bind
    by (rule wp_mono [OF setParams_refines [OF _ _ tty, of c lib p "r_termios x"]])
      (use r g sup in \<open>auto simp: wp_return tty_ready_def tty_config_def apply_config_def view_kept_def
        dest: tty_speed_kept [rotated] split: option.splits\<close>)
qed

text \<open>A Windows port that keeps its settings, which are ones the code knows.\<close>

definition port_ready :: "winapi \<Rightarrow> 'w wos \<Rightarrow> int \<Rightarrow> ('w \<Rightarrow> dcb) \<Rightarrow> ('w \<Rightarrow> commtimeouts) \<Rightarrow> 'w wstate \<Rightarrow> bool" where
  "port_ready c os h attr tmo s \<longleftrightarrow> wf_win c \<and> faithful_port os h attr tmo \<and> spsw_fd (sps s) = h \<and>
     pending s = None \<and> dcb_ok c (attr (world s)) \<and> dcb_speed (attr (world s)) \<noteq> None"

definition port_config :: "winapi \<Rightarrow> ('w \<Rightarrow> dcb) \<Rightarrow> 'w wstate \<Rightarrow> config" where
  "port_config c attr s = (the (dcb_speed (attr (world s))), abs_dcb c (attr (world s)))"

lemma port_reads:
  assumes "port_ready c os h attr tmo s"
  shows "wp (getParameters_win c os (params_to_read (encode_params p)))
    (\<lambda>x s'. x = encode_params (answer (port_config c attr s) p) \<and> port_ready c os h attr tmo s' \<and>
      port_config c attr s' = port_config c attr s) s"
proof -
  note r = assms [unfolded port_ready_def]
  let ?d = "attr (world s)"
  have "decode_win c ?d (params_to_read (encode_params p)) = Some (encode_params (answer (port_config c attr s) p))"
    using r by (auto simp: windows.decode_fields dcb_ok_shows collect_answer port_config_def)
  then show ?thesis
    unfolding getParameters_win_def wp_bind
    by (intro getParams_win_wp) (use r in \<open>auto simp: wp_return port_ready_def port_config_def dest!: faithful_portD(1)\<close>)
qed

lemma port_writes:
  assumes ready: "port_ready c os h attr tmo s"
  shows "wp (setParameters_win c os (encode_params p))
    (\<lambda>_ s'. case apply_config False p (port_config c attr s) of
        None \<Rightarrow> is_pending s' \<and> port_ready c os h attr tmo (s'\<lparr>pending := None\<rparr>) \<and>
          port_config c attr (s'\<lparr>pending := None\<rparr>) = port_config c attr s
      | Some cfg \<Rightarrow> port_ready c os h attr tmo s' \<and> port_config c attr s' = cfg) s"
proof -
  note r = ready [unfolded port_ready_def]
  obtain x obj w where get: "os (GetCommState (spsw_fd (sps s))) (sps s, world s) = (x, obj, w)" by (metis prod_cases3)
  have g: "w_ret x \<noteq> 0 \<and> w_dcb x = attr (world s) \<and> obj = sps s \<and> attr w = attr (world s) \<and> tmo w = tmo (world s)"
    using faithful_portD(1) get r by metis
  then have nz: "(w_ret x = 0) = False" by simp
  let ?s1 = "wanswered (GetCommState (spsw_fd (sps s))) x obj w s"
  have port: "faithful_port os (spsw_fd (sps ?s1)) attr tmo" using r g by simp
  show ?thesis
    unfolding setParameters_win_def wp_bind wp_GetField wp_wincall get
    unfolding prod.case nz if_False wp_bind
    by (rule wp_mono [OF setParams_win_refines [OF _ _ port, of c "w_dcb x" p]])
      (use r g in \<open>auto simp: wp_return port_ready_def port_config_def apply_config_def shows_win_def agrees_def
        dcb_speed_def split: option.splits\<close>)
qed

interpretation tty_line: java_line "TermiosSettings.getParameters c lib os" "TermiosSettings.setParameters c lib os"
    "tty_ready c lib os fd attr" "tty_config c lib attr" True "tty_supports c"
  for c lib os fd attr
  by unfold_locales (simp add: tty_ready_def, rule tty_reads, assumption, rule tty_writes)

interpretation port_line: java_line "getParameters_win c os" "setParameters_win c os"
    "port_ready c os h attr tmo" "port_config c attr" False "\<lambda>p. True"
  for c os h attr tmo
  by unfold_locales (simp add: port_ready_def, rule port_reads, assumption, rule port_writes)

section \<open>What a setter changes, as the getters show it\<close>

text \<open>
  A setter is refused when the stop bits do not go with the data bits, and on POSIX also when
  the two directions of RTS/CTS differ. The only other value that can change is the number of stop
  bits when the data bits are set: more than one are one and a half with five data bits, and two
  with more.
\<close>

definition refused :: "bool \<Rightarrow> setting \<Rightarrow> shown \<Rightarrow> bool" where
  "refused both x g = (case g of (v, d, b, q, F) \<Rightarrow> (case x of
       StopBits_is SB_1_5 \<Rightarrow> d \<noteq> DB_5
     | StopBits_is SB_2 \<Rightarrow> d = DB_5
     | FlowControl_is F' \<Rightarrow> both \<and> (RTS_CTS_IN \<in> set F') \<noteq> (RTS_CTS_OUT \<in> set F')
     | _ \<Rightarrow> False))"

definition changed :: "setting \<Rightarrow> shown \<Rightarrow> shown" where
  "changed x g = (case g of (v, d, b, q, F) \<Rightarrow> (case x of
       Speed_is v' \<Rightarrow> (v', d, b, q, F)
     | DataBits_is d' \<Rightarrow> (v, d', if b = SB_1 then SB_1 else if d' = DB_5 then SB_1_5 else SB_2, q, F)
     | StopBits_is b' \<Rightarrow> (v, d, b', q, F)
     | Parity_is q' \<Rightarrow> (v, d, b, q', F)
     | FlowControl_is F' \<Rightarrow> (v, d, b, q, set F')))"

lemma set_line_flow: "x \<in> set (line_flow l) \<longleftrightarrow> (case x of RTS_CTS_IN \<Rightarrow> l_rts l | RTS_CTS_OUT \<Rightarrow> l_cts l
    | XON_XOFF_IN \<Rightarrow> l_xin l | XON_XOFF_OUT \<Rightarrow> l_xout l)"
  by (cases x) (simp_all add: line_flow_def)

lemma set_line_flow_of:
  "set (line_flow (l\<lparr>l_rts := RTS_CTS_IN \<in> F, l_cts := RTS_CTS_OUT \<in> F, l_xin := XON_XOFF_IN \<in> F, l_xout := XON_XOFF_OUT \<in> F\<rparr>)) = F"
  by (rule set_eqI) (simp add: set_line_flow split: FlowControl.splits)

lemma refused_shown: "apply_config both (request x) cfg = None \<longleftrightarrow> refused both x (shown_config cfg)"
  by (cases x) (auto simp: apply_config_def apply_params_def apply_dataBits_def apply_stopBits_def apply_parity_def
      apply_flow_def refused_def shown_config_def split: StopBits.splits)

lemma changed_flow:
  assumes "apply_config both (request (FlowControl_is F)) cfg = Some cfg'"
  shows "shown_config cfg' = changed (FlowControl_is F) (shown_config cfg)"
proof -
  have cfg': "cfg' = (fst cfg, (snd cfg)\<lparr>l_rts := RTS_CTS_IN \<in> set F, l_cts := RTS_CTS_OUT \<in> set F,
      l_xin := XON_XOFF_IN \<in> set F, l_xout := XON_XOFF_OUT \<in> set F\<rparr>)"
    using assms by (simp add: apply_config_def apply_params_def apply_dataBits_def apply_stopBits_def apply_parity_def
        apply_flow_def split: if_splits)
  show ?thesis
    unfolding shown_config_def changed_def cfg' fst_conv snd_conv set_line_flow_of by (simp add: line_stop_def)
qed

lemma line_flow_upd:
  "line_flow (l\<lparr>l_dataBits := d\<rparr>) = line_flow l" "line_flow (l\<lparr>l_two := t\<rparr>) = line_flow l"
  "line_flow (l\<lparr>l_parity := q\<rparr>) = line_flow l"
  by (simp_all add: line_flow_def)

lemmas apply_one_simps = apply_config_def apply_params_def apply_dataBits_def apply_stopBits_def apply_parity_def
  apply_flow_def changed_def shown_config_def line_stop_def line_flow_upd

lemma changed_shown:
  assumes "apply_config both (request x) cfg = Some cfg'"
  shows "shown_config cfg' = changed x (shown_config cfg)"
proof (cases x)
  case (Speed_is v)
  then show ?thesis using assms by (auto simp: apply_one_simps)
next
  case (DataBits_is d)
  then show ?thesis using assms by (auto simp: apply_one_simps)
next
  case (StopBits_is b)
  then show ?thesis using assms by (cases b) (auto simp: apply_one_simps split: if_splits)
next
  case (Parity_is q)
  then show ?thesis using assms by (auto simp: apply_one_simps)
next
  case (FlowControl_is F)
  then show ?thesis using assms changed_flow by metis
qed

definition get_set_get :: "(jint \<Rightarrow> (('w, 'c) jni, jint) state) \<Rightarrow> (jint \<Rightarrow> (('w, 'c) jni, unit) state) \<Rightarrow>
    string \<Rightarrow> setting \<Rightarrow> (('w, 'c) jni, shown option \<times> (throwable + unit) \<times> shown option) state" where
  "get_set_get getp setp portName x = do {
     before \<leftarrow> java_get getp;
     r \<leftarrow> java_set getp setp portName x;
     after \<leftarrow> java_get getp;
     State_Monad.return (before, r, after)
   }"

context java_line
begin

lemma get_set_get_wp:
  assumes r: "ready s" and sup: "supported (request x)"
  shows "wp (get_set_get getp setp portName x) (\<lambda>(before, r, after) s'. pending s' = None \<and>
    (case before of None \<Rightarrow> False | Some g \<Rightarrow> isl r = refused both x g \<and> after = Some (if refused both x g then g else changed x g))) s"
  unfolding get_set_get_def wp_bind
proof (rule java_get_wp [OF r])
  fix s1 assume s1: "ready s1" "config s1 = config s"
  show "wp (java_set getp setp portName x) (\<lambda>r. wp (java_get getp) (\<lambda>after. wp (State_Monad.return (Some (shown_config (config s)), r, after))
      (\<lambda>(before, r, after) s'. pending s' = None \<and>
        (case before of None \<Rightarrow> False | Some g \<Rightarrow> isl r = refused both x g \<and> after = Some (if refused both x g then g else changed x g))))) s1"
  proof (rule wp_mono [OF java_set_wp [OF s1(1) sup]])
    fix r2 s2 assume out: "set_outcome x s1 r2 s2"
    then have "shown_config (config s2) = (if refused both x (shown_config (config s)) then shown_config (config s)
        else changed x (shown_config (config s)))"
      using s1(2) changed_shown refused_shown [of both x "config s"]
      by (auto simp: set_outcome_def apply_setting_def split: option.splits)
    then show "wp (java_get getp) (\<lambda>after. wp (State_Monad.return (Some (shown_config (config s)), r2, after))
        (\<lambda>(before, r, after) s'. pending s' = None \<and>
          (case before of None \<Rightarrow> False | Some g \<Rightarrow> isl r = refused both x g \<and> after = Some (if refused both x g then g else changed x g)))) s2"
      using out s1(2) by (intro java_get_wp) (auto simp: wp_return set_outcome_def refused_shown calm)
  qed
qed

lemma java_sets_get_wp:
  assumes "ready s" and "\<forall>x \<in> set xs. supported (request x)"
  shows "wp (do { rs \<leftarrow> java_sets getp setp portName xs; g \<leftarrow> java_get getp; State_Monad.return (rs, g) })
    (\<lambda>(rs, g) s'. g = Some (shown_config (fold (apply_setting both) xs (config s))) \<and>
      map isl rs = refusals both xs (config s) \<and> pending s' = None) s"
  unfolding wp_bind
  by (rule wp_mono [OF java_sets_wp [OF assms]]) (auto intro!: java_get_wp simp: wp_return calm)

end

section \<open>The life of a Windows port\<close>

text \<open>\<open>GenericWinSerialPortSocket\<close>: its cleaner holds the handle of the port.\<close>

definition java_open_win :: "winapi \<Rightarrow> 'w wos \<Rightarrow> string \<Rightarrow> jint \<Rightarrow> int \<Rightarrow> ('w wstate, int) state" where
  "java_open_win c os portName paramBitSet fdCleaner_fd = do {
     open0_win c os portName paramBitSet;
     s \<leftarrow> State_Monad.get;
     State_Monad.return (if is_pending s then fdCleaner_fd else spsw_fd (sps s))
   }"

definition implCloseChannel_win :: "winapi \<Rightarrow> 'w wos \<Rightarrow> int \<Rightarrow> ('w wstate, int) state" where
  "implCloseChannel_win c os fdCleaner_fd = do {
     close0_win c os;
     s \<leftarrow> State_Monad.get;
     State_Monad.return (if is_pending s then fdCleaner_fd else INVALID_HANDLE_VALUE)
   }"

definition FdCleaner_run_win :: "'w wos \<Rightarrow> int \<Rightarrow> ('w wstate, unit) state" where
  "FdCleaner_run_win os fdCleaner_fd = closeFd_win os fdCleaner_fd"

lemma FdCleaner_run_win_wp:
  assumes q: "wquiet os"
  shows "wp (FdCleaner_run_win os h) (\<lambda>_ s'. whandles s' = whandles s - {#h#} \<and> pending s' = pending s) s"
  unfolding FdCleaner_run_win_def closeFd_win_def wp_bind wp_return
  by (intro wincall_wp) (simp add: whold_def)

lemma diff_absent: "h \<notin># M \<Longrightarrow> M - {#h#} = M"
  by (simp add: diff_single_trivial)

lemma win_life_wp:
  assumes q: "wquiet os" and closed: "spsw_fd (sps s) = INVALID_HANDLE_VALUE" "\<not> is_pending s"
    and invalid: "INVALID_HANDLE_VALUE \<notin># whandles s"
  shows "wp (java_open_win c os portName p cl) (\<lambda>h s1. is_pending s1 \<or> h \<in># whandles s \<or>
    wp (do { cl2 \<leftarrow> implCloseChannel_win c os h; FdCleaner_run_win os cl2 }) (\<lambda>_ s2. whandles s2 = whandles s) s1 \<and>
    wp (FdCleaner_run_win os h) (\<lambda>_ s2. whandles s2 = whandles s) s1) s"
  unfolding java_open_win_def wp_bind
proof (rule wp_mono [OF open0_win_outcome [OF q closed(1)]], unfold wp_get wp_return, goal_cases)
  case (1 u s1)
  let ?h = "spsw_fd (sps s1)"
  show ?case
  proof (cases "is_pending s1 \<or> ?h \<in># whandles s")
    case False
    then have o: "opened_win s s1" using 1 by (simp add: not_opened_win_def)
    have held: "whandles s1 = add_mset ?h (whandles s)" using o by (simp add: opened_win_def)
    have clean: "wp (FdCleaner_run_win os h) (\<lambda>_ s2. whandles s2 = whandles s) s'"
      if "whandles s' = add_mset h (whandles s) \<or> whandles s' = whandles s \<and> h \<notin># whandles s" for h s'
      by (rule wp_mono [OF FdCleaner_run_win_wp [OF q]]) (use that diff_absent [of h "whandles s"] in auto)
    have "wp (implCloseChannel_win c os ?h) (\<lambda>cl2. wp (FdCleaner_run_win os cl2) (\<lambda>_ s2. whandles s2 = whandles s)) s1"
      unfolding implCloseChannel_win_def wp_bind
      by (rule wp_mono [OF close0_win_outcome [OF q]], unfold wp_get wp_return, rule clean)
        (use held False invalid in \<open>auto simp: close_outcome_def Let_def whandles_def whold_def\<close>)
    then show ?thesis using clean [of s1 ?h] held False by (simp add: wp_bind)
  qed auto
qed

section \<open>Properties\<close>

text \<open>
  C21: on a terminal that keeps its settings each of the five setters of the Java class either
  throws, exactly when the stop bits do not go with the data bits or only one direction of
  RTS/CTS is asked for, and then all getters return what they returned before; or it returns,
  its getter returns the new value, and all others return what they returned before, but for the
  stop bits when the data bits are set: two stop bits become one and a half with five data bits,
  and one and a half become two with more.
\<close>

theorem set_then_get:
  assumes "tty_ready c lib os fd attr s" and "tty_supports c (request x)"
  shows "case run_state (get_set_get (getParameters c lib os) (setParameters c lib os) portName x) s of
    ((before, r, after), s') \<Rightarrow> pending s' = None \<and> (case before of None \<Rightarrow> False
      | Some g \<Rightarrow> isl r = refused True x g \<and> after = Some (if refused True x g then g else changed x g))"
  using tty_line.get_set_get_wp [OF assms, of portName] unfolding wp_run by (simp add: case_prod_unfold)

lemma tty_example:
  assumes "attr = (\<lambda>t. t)"
  shows "tty_ready linux_consts plain_lib tty_device 3 attr (example_state no_termios)"
    and "tty_config linux_consts plain_lib attr (example_state no_termios) =
      (BPS_0, \<lparr>l_dataBits = DB_5, l_two = False, l_parity = NONE, l_rts = False, l_cts = False, l_xin = False, l_xout = False\<rparr>)"
proof -
  have "tty_speed linux_consts plain_lib no_termios = Some BPS_0 \<and> get_dataBits linux_consts no_termios \<noteq> None \<and>
      spsw_fd open_sps = 3"
    by code_simp
  moreover have "abs_line linux_consts no_termios =
      \<lparr>l_dataBits = DB_5, l_two = False, l_parity = NONE, l_rts = False, l_cts = False, l_xin = False, l_xout = False\<rparr>"
    by code_simp
  ultimately show "tty_ready linux_consts plain_lib tty_device 3 attr (example_state no_termios)"
    and "tty_config linux_consts plain_lib attr (example_state no_termios) =
      (BPS_0, \<lparr>l_dataBits = DB_5, l_two = False, l_parity = NONE, l_rts = False, l_cts = False, l_xin = False, l_xout = False\<rparr>)"
    by (auto simp: tty_ready_def tty_config_def assms)
qed

lemma tty_supports_example: "tty_supports linux_consts (request (StopBits_is b))"
  "tty_supports linux_consts (request (DataBits_is d))" "tty_supports linux_consts (request (FlowControl_is F))"
  by (simp_all add: tty_supports_def parity_supported_def speed_supported_def)

lemma two_bits_refused:
  "case run_state (get_set_get (getParameters linux_consts plain_lib tty_device) (setParameters linux_consts plain_lib tty_device)
      ''/dev/ttyS0'' (StopBits_is SB_2)) (example_state no_termios) of ((before, r, after), s') \<Rightarrow>
    before = Some (BPS_0, DB_5, SB_1, NONE, {})"
  by code_simp

theorem set_then_get_witness:
  "case run_state (get_set_get (getParameters linux_consts plain_lib tty_device) (setParameters linux_consts plain_lib tty_device)
      ''/dev/ttyS0'' (StopBits_is SB_2)) (example_state no_termios) of ((before, r, after), s') \<Rightarrow>
    before = Some (BPS_0, DB_5, SB_1, NONE, {}) \<and> isl r \<and> after = before \<and> pending s' = None"
  using set_then_get [OF tty_example(1) [OF refl] tty_supports_example(1) [of SB_2], where portName = "''/dev/ttyS0''"] two_bits_refused
  by (auto simp: refused_def split: prod.splits)

text \<open>
  The same on Windows, where the two directions of RTS/CTS are set apart and every speed is
  known.
\<close>

theorem set_then_get_win:
  assumes "port_ready c os h attr tmo s"
  shows "case run_state (get_set_get (getParameters_win c os) (setParameters_win c os) portName x) s of
    ((before, r, after), s') \<Rightarrow> pending s' = None \<and> (case before of None \<Rightarrow> False
      | Some g \<Rightarrow> isl r = refused False x g \<and> after = Some (if refused False x g then g else changed x g))"
  using port_line.get_set_get_wp [OF assms TrueI, of portName] unfolding wp_run by (simp add: case_prod_unfold)

definition dcb_9600 :: dcb where
  "dcb_9600 = no_dcb\<lparr>BaudRate := 9600\<rparr>"

lemma port_example:
  assumes "attr = fst" "tmo = snd"
  shows "port_ready windows_consts port_device 8 attr tmo (windows_state (dcb_9600, no_timeouts))"
proof -
  have "dcb_speed dcb_9600 = Some BPS_9600" by code_simp
  then show ?thesis
    using dcb_ok_no_dcb by (simp add: port_ready_def assms dcb_9600_def windows_sps_def)
qed

lemma one_direction_run:
  "case run_state (get_set_get (getParameters_win windows_consts port_device) (setParameters_win windows_consts port_device)
      ''COM3'' (FlowControl_is [RTS_CTS_IN])) (windows_state (dcb_9600, no_timeouts)) of ((before, r, after), s') \<Rightarrow>
    before = Some (BPS_9600, DB_8, SB_1, NONE, {})"
  by code_simp

theorem set_then_get_win_witness:
  "case run_state (get_set_get (getParameters_win windows_consts port_device) (setParameters_win windows_consts port_device)
      ''COM3'' (FlowControl_is [RTS_CTS_IN])) (windows_state (dcb_9600, no_timeouts)) of ((before, r, after), s') \<Rightarrow>
    \<not> isl r \<and> after = Some (BPS_9600, DB_8, SB_1, NONE, {RTS_CTS_IN}) \<and> pending s' = None"
  using set_then_get_win [OF port_example [OF refl refl], where portName = "''COM3''" and x = "FlowControl_is [RTS_CTS_IN]"] one_direction_run
  by (auto simp: refused_def changed_def split: prod.splits)

text \<open>
  C12: any sequence of setter calls, the failing ones included, refines the abstract line:
  the calls that throw are those the line refuses, and afterwards the getters show the line that
  all other calls lead to.
\<close>

theorem java_setters_refine:
  assumes "tty_ready c lib os fd attr s" and "\<forall>x \<in> set xs. tty_supports c (request x)"
  shows "case run_state (do { rs \<leftarrow> java_sets (getParameters c lib os) (setParameters c lib os) portName xs;
      g \<leftarrow> java_get (getParameters c lib os); State_Monad.return (rs, g) }) s of ((rs, g), s') \<Rightarrow>
    map isl rs = refusals True xs (tty_config c lib attr s) \<and>
    g = Some (shown_config (fold (apply_setting True) xs (tty_config c lib attr s))) \<and> pending s' = None"
  using tty_line.java_sets_get_wp [OF assms, of portName] by (simp add: wp_def split: prod.splits)

theorem java_setters_refine_witness:
  "case run_state (do { rs \<leftarrow> java_sets (getParameters linux_consts plain_lib tty_device)
        (setParameters linux_consts plain_lib tty_device) ''/dev/ttyS0''
        [StopBits_is SB_2, DataBits_is DB_8, StopBits_is SB_2, DataBits_is DB_5];
      g \<leftarrow> java_get (getParameters linux_consts plain_lib tty_device); State_Monad.return (rs, g) }) (example_state no_termios) of
    ((rs, g), s') \<Rightarrow> map isl rs = [True, False, False, False] \<and> g = Some (BPS_0, DB_5, SB_1_5, NONE, {}) \<and> pending s' = None"
proof -
  let ?xs = "[StopBits_is SB_2, DataBits_is DB_8, StopBits_is SB_2, DataBits_is DB_5]"
  let ?cfg = "(BPS_0, \<lparr>l_dataBits = DB_5, l_two = False, l_parity = NONE, l_rts = False, l_cts = False, l_xin = False, l_xout = False\<rparr>)"
  have sup: "\<forall>x \<in> set ?xs. tty_supports linux_consts (request x)"
    by (simp add: tty_supports_def parity_supported_def speed_supported_def)
  have line: "refusals True ?xs ?cfg = [True, False, False, False]"
      "shown_config (fold (apply_setting True) ?xs ?cfg) = (BPS_0, DB_5, SB_1_5, NONE, {})"
    by code_simp+
  show ?thesis
    using java_setters_refine [OF tty_example(1) [OF refl] sup, where portName = "''/dev/ttyS0''"]
    unfolding tty_example(2) [OF refl] line .
qed

text \<open>
  C31: the life of a Windows port with its cleaner. Once \<open>open\<close> has returned with a handle that
  the process did not hold before, that handle is given back and nothing else is closed: when the
  cleaner runs without the port having been closed, and when the port is closed and the cleaner
  runs after that, also when \<open>close0\<close> throws; then the cleaner still has the handle.
\<close>

theorem java_lifecycle_win:
  assumes "wquiet os" and "spsw_fd (sps s) = INVALID_HANDLE_VALUE" and "\<not> is_pending s"
    and "INVALID_HANDLE_VALUE \<notin># whandles s"
  shows "case run_state (java_open_win c os portName p cl) s of (h, s1) \<Rightarrow> is_pending s1 \<or> h \<in># whandles s \<or>
    (case run_state (do { cl2 \<leftarrow> implCloseChannel_win c os h; FdCleaner_run_win os cl2 }) s1 of (_, s2) \<Rightarrow>
      whandles s2 = whandles s) \<and>
    (case run_state (FdCleaner_run_win os h) s1 of (_, s2) \<Rightarrow> whandles s2 = whandles s)"
  using win_life_wp [OF assms, of c portName p cl] by (simp add: wp_def split: prod.splits)

lemma java_life_win_run:
  "case run_state (java_open_win windows_consts handle_device ''COM3'' 0 (- 1)) (closed_windows_state (8, no_dcb, no_timeouts)) of
    (h, s1) \<Rightarrow> h = 8 \<and> \<not> is_pending s1"
  by code_simp

theorem java_lifecycle_win_witness:
  "case run_state (java_open_win windows_consts handle_device ''COM3'' 0 (- 1)) (closed_windows_state (8, no_dcb, no_timeouts)) of
    (h, s1) \<Rightarrow> h = 8 \<and> \<not> is_pending s1 \<and>
      (case run_state (do { cl2 \<leftarrow> implCloseChannel_win windows_consts handle_device h; FdCleaner_run_win handle_device cl2 }) s1 of
        (_, s2) \<Rightarrow> whandles s2 = {#}) \<and>
      (case run_state (FdCleaner_run_win handle_device h) s1 of (_, s2) \<Rightarrow> whandles s2 = {#})"
  using java_lifecycle_win [OF wquiet_handle_device, of "closed_windows_state (8, no_dcb, no_timeouts)" windows_consts "''COM3''" 0 "- 1"]
    java_life_win_run
  by (auto simp: INVALID_HANDLE_VALUE_def is_pending_def split: prod.splits)

end
