(* ===== verification/PortNames.thy ===== *)
theory PortNames
  imports PortOrder JavaPort
begin

text \<open>
  \<open>SerialPortSocketFactoryImpl\<close>: the names of the serial ports of a system. On the
  POSIX systems the entries of the device directory are filtered by a pattern, on Windows the
  names come from the registry (\<open>WinApiCommon\<close>); busy ports are found by opening and closing
  each port; the result is sorted with \<open>PortnamesComparator\<close>.

  The directory, and what the file system says of its entries, are arguments. The native
  library has been loaded (\<open>JniLoad\<close>).
\<close>

section \<open>Platforms and patterns\<close>

datatype java_os = DARWIN | FREE_BSD | LINUX | OPEN_BSD | SOLARIS | WINDOWS

definition getPortnamesPath :: "java_os \<Rightarrow> string" where
  "getPortnamesPath os = (case os of
       DARWIN \<Rightarrow> ''/dev/'' | FREE_BSD \<Rightarrow> ''/dev/'' | LINUX \<Rightarrow> ''/dev/'' | OPEN_BSD \<Rightarrow> ''/dev/''
     | SOLARIS \<Rightarrow> ''/dev/term/'' | WINDOWS \<Rightarrow> '''')"

text \<open>A pattern that \<open>find\<close> looks for at every place of the name.\<close>

definition starts_with :: "string \<Rightarrow> string \<Rightarrow> bool" where
  "starts_with p s \<longleftrightarrow> take (length p) s = p"

definition find_at :: "(string \<Rightarrow> bool) \<Rightarrow> string \<Rightarrow> bool" where
  "find_at matches s \<longleftrightarrow> list_ex (\<lambda>i. matches (drop i s)) [0..<length s + 1]"

text \<open>\<open>(a|b|...)[0-9]{1,3}\<close>: one digit behind the prefix is enough for \<open>find\<close>.\<close>

definition prefix_digit :: "string list \<Rightarrow> string \<Rightarrow> bool" where
  "prefix_digit heads s \<longleftrightarrow> list_ex (\<lambda>p. starts_with p s \<and> (case drop (length p) s of [] \<Rightarrow> False
     | c # _ \<Rightarrow> isDigit c)) heads"

text \<open>
  The patterns of \<open>SerialPortSocketFactory\<close>. The dot of the one for Darwin is any character
  but the end of a line; the one for Solaris matches the empty text, so it is found everywhere.
\<close>

definition portname_find :: "java_os \<Rightarrow> string \<Rightarrow> bool" where
  "portname_find os name = (case os of
       DARWIN \<Rightarrow> find_at (\<lambda>s. starts_with ''tty'' s \<and> (case drop 3 s of [] \<Rightarrow> False
         | c # r \<Rightarrow> c \<noteq> CHR 0x0A \<and> c \<noteq> CHR 0x0D \<and> c \<noteq> CHR 0x85 \<and>
             list_ex (\<lambda>p. starts_with p r) [''serial'', ''usbserial'', ''usbmodem''])) name
     | FREE_BSD \<Rightarrow> find_at (prefix_digit [''cua'', ''cuaU'']) name
     | OPEN_BSD \<Rightarrow> find_at (prefix_digit [''cua'', ''cuaU'']) name
     | LINUX \<Rightarrow> find_at (prefix_digit [''ttyS'', ''ttyUSB'', ''ttyACM'', ''ttyAMA'', ''rfcomm'', ''ttyO'']) name
     | SOLARIS \<Rightarrow> True
     | WINDOWS \<Rightarrow> find_at (prefix_digit [''COM'']) name)"

section \<open>Probing a port\<close>

text \<open>
  The \<open>switch\<close> of both \<open>open\<close> methods: four systems open a \<open>GenericTermiosSerialPortSocket\<close>,
  Windows a \<open>GenericWinSerialPortSocket\<close>, and the others refuse with this exception.
\<close>

definition os_name :: "java_os \<Rightarrow> string" where
  "os_name jos = (case jos of DARWIN \<Rightarrow> ''DARWIN'' | FREE_BSD \<Rightarrow> ''FREE_BSD'' | LINUX \<Rightarrow> ''LINUX''
     | OPEN_BSD \<Rightarrow> ''OPEN_BSD'' | SOLARIS \<Rightarrow> ''SOLARIS'' | WINDOWS \<Rightarrow> ''WINDOWS'')"

definition open_refused :: "java_os \<Rightarrow> java_exc option" where
  "open_refused jos = (case jos of DARWIN \<Rightarrow> None | FREE_BSD \<Rightarrow> None | LINUX \<Rightarrow> None | OPEN_BSD \<Rightarrow> None
     | WINDOWS \<Rightarrow> None
     | _ \<Rightarrow> Some (UnsupportedOperationException (os_name jos @ '' is currently not supported yet'' @ [CHR 0x0A] @
         ''System.properties:'' @ [CHR 0x0A])))"

text \<open>
  \<open>try (SerialPortSocket sp = open(portName)) {...}\<close>: a new object is opened without
  parameters and closed again. The result says whether the body between the two ran, and what the
  opening or the closing threw. The cleaner of the object runs some time later.
\<close>

definition new_socket :: sps where
  "new_socket = \<lparr>spsw_fd = - 1, spsw_closeEventReadFd = - 1, spsw_closeEventWriteFd = - 1,
     spsw_interByteReadTimeout = 100, spsw_pollReadTimeout = - 1, spsw_pollWriteTimeout = - 1\<rparr>"

definition new_cleaner :: cleaner where
  "new_cleaner = \<lparr>cleaner_fd = - 1, cleaner_write_fd = - 1, cleaner_read_fd = - 1\<rparr>"

type_synonym 's probe = "string \<Rightarrow> ('s, bool \<times> java_exc option) state"

definition try_open :: "java_os \<Rightarrow> posix \<Rightarrow> termios_lib \<Rightarrow> 'w os \<Rightarrow> 'w pstate probe" where
  "try_open jos c lib os portName = (case open_refused jos of
       Some e \<Rightarrow> State_Monad.return (False, Some e)
     | None \<Rightarrow> do {
         SetField (\<lambda>_. new_socket);
         cl \<leftarrow> java_open c lib os portName 0 new_cleaner;
         thrown \<leftarrow> take_pending;
         case thrown of Some e \<Rightarrow> State_Monad.return (False, Some (Native e))
         | None \<Rightarrow> do {
             _ \<leftarrow> implCloseChannel c os cl;
             closing \<leftarrow> take_pending;
             State_Monad.return (True, map_option Native closing)
           }
       })"

section \<open>Listing the ports\<close>

text \<open>An entry of the device directory.\<close>

record dev_entry =
  dev_name :: string
  dev_isDirectory :: bool
  dev_isFile :: bool

definition device_path :: "java_os \<Rightarrow> dev_entry \<Rightarrow> string" where
  "device_path os e = getPortnamesPath os @ dev_name e"

text \<open>
  The filter \<open>listFiles\<close> calls for each entry: what is added to the result, or an exception
  that is no \<open>IOException\<close>. The name is added before the port is closed, so a close that fails
  takes the way of a busy port once more.
\<close>

definition nix_entry ::
  "java_os \<Rightarrow> 's probe \<Rightarrow> string \<Rightarrow> bool \<Rightarrow> dev_entry \<Rightarrow> ('s, java_exc + string list) state" where
  "nix_entry jos probe portToInclude hideBusyPorts e =
     (let deviceName = device_path jos e in
      if portname_find jos (dev_name e) \<and> \<not> dev_isDirectory e \<and> \<not> dev_isFile e then
        (if hideBusyPorts then do {
           (ran, thrown) \<leftarrow> probe deviceName;
           let added = (if ran then [deviceName] else []);
           State_Monad.return (case thrown of None \<Rightarrow> Inr added
             | Some ex \<Rightarrow> if is_IOException ex
                 then Inr (added @ (if portToInclude \<noteq> [] \<and> portToInclude = deviceName then [deviceName] else []))
                 else Inl ex)
         } else State_Monad.return (Inr [deviceName]))
      else State_Monad.return (Inr []))"

text \<open>The filter \<open>getWindowsPortNames\<close> applies to each name of the registry.\<close>

definition win_entry ::
  "'s probe \<Rightarrow> string \<Rightarrow> bool \<Rightarrow> string \<Rightarrow> ('s, java_exc + string list) state" where
  "win_entry probe portToInclude hideBusyPorts portName =
     (if portname_find WINDOWS portName \<and> hideBusyPorts then do {
        (ran, thrown) \<leftarrow> probe portName;
        State_Monad.return (case thrown of None \<Rightarrow> Inr [portName]
          | Some ex \<Rightarrow> if is_IOException ex then Inr (if portName \<noteq> portToInclude then [] else [portName])
              else Inl ex)
      } else State_Monad.return (Inr [portName]))"

fun for_each :: "('e \<Rightarrow> ('s, 'x + 'a list) state) \<Rightarrow> 'e list \<Rightarrow> ('s, 'x + 'a list) state" where
  "for_each f [] = State_Monad.return (Inr [])"
| "for_each f (e # es) = do {
     r \<leftarrow> f e;
     case r of Inl ex \<Rightarrow> State_Monad.return (Inl ex)
     | Inr xs \<Rightarrow> do {
         rs \<leftarrow> for_each f es;
         State_Monad.return (map_sum id (\<lambda>ys. xs @ ys) rs)
       }
   }"

definition getUnixBasedPortNames ::
  "java_os \<Rightarrow> 's probe \<Rightarrow> dev_entry list \<Rightarrow> string \<Rightarrow> bool \<Rightarrow> ('s, java_exc + string list) state" where
  "getUnixBasedPortNames jos probe dir portToInclude hideBusyPorts = do {
     result \<leftarrow> for_each (nix_entry jos probe portToInclude hideBusyPorts) dir;
     State_Monad.return (map_sum id sort_names result)
   }"

definition getWindowsPortNames ::
  "'s probe \<Rightarrow> string list \<Rightarrow> string \<Rightarrow> bool \<Rightarrow> ('s, java_exc + string list) state" where
  "getWindowsPortNames probe names portToInclude hideBusyPorts = do {
     result \<leftarrow> for_each (win_entry probe portToInclude hideBusyPorts) names;
     State_Monad.return (map_sum id sort_names result)
   }"

text \<open>
  The methods of the interface. \<open>names\<close> are those of the registry, \<open>dir\<close> is the directory of
  \<open>getPortnamesPath\<close>; a missing argument is \<open>None\<close>.
\<close>

definition getPortNames ::
  "java_os \<Rightarrow> 's probe \<Rightarrow> string list \<Rightarrow> dev_entry list \<Rightarrow> bool \<Rightarrow> ('s, java_exc + string list) state" where
  "getPortNames jos probe names dir hideBusyPorts =
     (if jos = WINDOWS then getWindowsPortNames probe names [] hideBusyPorts
      else getUnixBasedPortNames jos probe dir [] hideBusyPorts)"

definition getPortNames_including ::
  "java_os \<Rightarrow> 's probe \<Rightarrow> string list \<Rightarrow> dev_entry list \<Rightarrow> string option \<Rightarrow> bool \<Rightarrow> ('s, java_exc + string list) state" where
  "getPortNames_including jos probe names dir portToInclude hideBusyPorts =
     (case portToInclude of
        None \<Rightarrow> State_Monad.return (Inl (Native (IllegalArgumentException ''portToInclude is null or empty'')))
      | Some port \<Rightarrow>
          if port = [] then State_Monad.return (Inl (Native (IllegalArgumentException ''portToInclude is null or empty'')))
          else if jos = WINDOWS then getWindowsPortNames probe names port hideBusyPorts
          else getUnixBasedPortNames jos probe dir port hideBusyPorts)"

text \<open>
  The method that reports every port to a consumer. An entry gives the call the consumer was made
  with; what the consumer throws ends the enumeration. On Windows the \<open>case\<close> has no \<open>break\<close>: the
  entries of the directory follow the names of the registry.
\<close>

type_synonym 's portNameConsumer = "string \<Rightarrow> bool \<Rightarrow> ('s, java_exc option) state"

definition report :: "'s probe \<Rightarrow> 's portNameConsumer \<Rightarrow> string \<Rightarrow> ('s, java_exc + (string \<times> bool) list) state" where
  "report probe accept portName = do {
     (ran, thrown) \<leftarrow> probe portName;
     let busy = \<not> ran;
     case thrown of Some ex \<Rightarrow>
         if is_IOException ex then do {
           stop \<leftarrow> accept portName busy;
           State_Monad.return (case stop of Some e \<Rightarrow> Inl e | None \<Rightarrow> Inr [(portName, busy)])
         } else State_Monad.return (Inl ex)
     | None \<Rightarrow> do {
         stop \<leftarrow> accept portName busy;
         State_Monad.return (case stop of Some e \<Rightarrow> Inl e | None \<Rightarrow> Inr [(portName, busy)])
       }
   }"

definition report_name ::
  "'s probe \<Rightarrow> 's portNameConsumer \<Rightarrow> string \<Rightarrow> ('s, java_exc + (string \<times> bool) list) state" where
  "report_name probe accept portName =
     (if portname_find WINDOWS portName then report probe accept portName else State_Monad.return (Inr []))"

definition report_entry ::
  "java_os \<Rightarrow> 's probe \<Rightarrow> 's portNameConsumer \<Rightarrow> dev_entry \<Rightarrow> ('s, java_exc + (string \<times> bool) list) state" where
  "report_entry jos probe accept e =
     (if portname_find jos (dev_name e) \<and> \<not> dev_isDirectory e \<and> \<not> dev_isFile e
      then report probe accept (device_path jos e) else State_Monad.return (Inr []))"

definition getPortNames_reported ::
  "java_os \<Rightarrow> 's probe \<Rightarrow> 's portNameConsumer \<Rightarrow> string list \<Rightarrow> dev_entry list \<Rightarrow> ('s, java_exc + (string \<times> bool) list) state" where
  "getPortNames_reported jos probe accept names dir = do {
     r \<leftarrow> (if jos = WINDOWS then for_each (report_name probe accept) names else State_Monad.return (Inr []));
     case r of Inl ex \<Rightarrow> State_Monad.return (Inl ex)
     | Inr xs \<Rightarrow> do {
         rs \<leftarrow> for_each (report_entry jos probe accept) dir;
         State_Monad.return (map_sum id (\<lambda>ys. xs @ ys) rs)
       }
   }"

text \<open>\<open>openAsync\<close> is not there yet, with or without parameters.\<close>

definition openAsync :: "java_exc" where
  "openAsync = UnsupportedOperationException ''Not supported yet.''"

text \<open>Which entries can be ports, and which names are listed when \<open>busy\<close> names the busy ones.\<close>

definition is_device :: "java_os \<Rightarrow> dev_entry \<Rightarrow> bool" where
  "is_device jos e \<longleftrightarrow> portname_find jos (dev_name e) \<and> \<not> dev_isDirectory e \<and> \<not> dev_isFile e"

definition listed :: "(string \<Rightarrow> bool) \<Rightarrow> string \<Rightarrow> bool \<Rightarrow> string \<Rightarrow> bool" where
  "listed busy portToInclude hideBusyPorts name \<longleftrightarrow>
     \<not> hideBusyPorts \<or> \<not> busy name \<or> portToInclude \<noteq> [] \<and> name = portToInclude"

section \<open>A healthy system\<close>

text \<open>The descriptors of a close event.\<close>

definition event_fds :: "posix \<Rightarrow> nat" where
  "event_fds c = (if HAVE_SYS_EVENTFD_H c then 1 else 2)"

text \<open>
  A kernel on which \<open>open\<close> fails exactly for the busy ports, and nothing else fails that
  opening and closing a port calls.
\<close>

definition answer_ok :: "(string \<Rightarrow> bool) \<Rightarrow> pcall \<Rightarrow> presp \<Rightarrow> bool" where
  "answer_ok busy c r = (case c of
       Open name flags \<Rightarrow> (r_ret r = - 1) = busy name
     | Eventfd n flags \<Rightarrow> r_ret r \<noteq> - 1
     | Pipe \<Rightarrow> r_ret r = 0
     | Tcgetattr fd \<Rightarrow> r_ret r = 0
     | Tcsetattr fd act t \<Rightarrow> r_ret r = 0
     | Tcflush fd q \<Rightarrow> r_ret r = 0
     | Ioctl fd req \<Rightarrow> r_ret r = 0
     | Close fd \<Rightarrow> r_ret r = 0
     | _ \<Rightarrow> True)"

lemma answer_ok_simps [simp]:
  "answer_ok busy (Open name flags) r \<longleftrightarrow> (r_ret r = - 1) = busy name"
  "answer_ok busy (Eventfd n flags) r \<longleftrightarrow> r_ret r \<noteq> - 1" "answer_ok busy Pipe r \<longleftrightarrow> r_ret r = 0"
  "answer_ok busy (Tcgetattr fd) r \<longleftrightarrow> r_ret r = 0" "answer_ok busy (Tcsetattr fd act t) r \<longleftrightarrow> r_ret r = 0"
  "answer_ok busy (Tcflush fd q) r \<longleftrightarrow> r_ret r = 0" "answer_ok busy (Ioctl fd req) r \<longleftrightarrow> r_ret r = 0"
  "answer_ok busy (Close fd) r \<longleftrightarrow> r_ret r = 0"
  by (simp_all add: answer_ok_def)

definition healthy :: "'w os \<Rightarrow> (string \<Rightarrow> bool) \<Rightarrow> bool" where
  "healthy os busy \<longleftrightarrow> quiet os \<and> (\<forall>c x. answer_ok busy c (fst (os c x)))"

lemma healthy_quiet: "healthy os busy \<Longrightarrow> quiet os"
  by (simp add: healthy_def)

lemma healthy_syscall:
  assumes h: "healthy os busy" and Q: "\<And>r w. answer_ok busy c r \<Longrightarrow> Q r (answered c r (sps s) w s)"
  shows "wp (syscall os c) Q s"
proof (rule syscall_wp)
  fix r obj w assume call: "os c (sps s, world s) = (r, obj, w)"
  have "answer_ok busy c (fst (os c (sps s, world s)))" using h by (simp add: healthy_def)
  then show "Q r (answered c r obj w s)"
    using Q [of r w] call quietD [OF healthy_quiet [OF h] call] by simp
qed

lemma open_error_wp:
  assumes "\<And>m. Q () (s\<lparr>pending := Some (IOException m)\<rparr>)"
  shows "wp (open_error c portName) Q s"
  using assms by (simp add: open_error_def wp_simps throw_IOException_withPortName_def throw_IOException_NativeError_def)

lemma open0_busy:
  assumes h: "healthy os busy" and s: "spsw_fd (sps s) = INVALID_FD" and busy: "busy name"
  shows "wp (open0 c lib os name p) (\<lambda>_ s'. (\<exists>m. pending s' = Some (IOException m)) \<and> held s' = held s) s"
  unfolding open0_def wp_bind wp_GetField wp_if
  by (simp add: s, rule healthy_syscall [OF h])
    (use busy in \<open>auto simp: wp_simps INVALID_FD_def intro!: open_error_wp\<close>)

lemma no_params: "SPSW_NO_PARAMS_TO_SET = 0"
  by (simp add: bits_simps)

lemma open0_free:
  assumes h: "healthy os busy" and s: "spsw_fd (sps s) = INVALID_FD" "pending s = None" and free: "\<not> busy name"
  shows "wp (open0 c lib os name 0) (\<lambda>_ s'. pending s' = None) s"
  unfolding open0_def wp_bind wp_GetField wp_if configure_def open_params_def open_events_def
  by (simp add: s, rule healthy_syscall [OF h])
    (use free in \<open>auto simp: wp_bind wp_if wp_return wp_SetField INVALID_FD_def no_params s intro!: healthy_syscall [OF h]\<close>)


text \<open>
  Probing a port changes what the process holds only by the close event of the object, which
  the cleaner will close, and gives an exception exactly for a busy port.
\<close>

lemma close0_healthy:
  assumes h: "healthy os busy"
  shows "wp (close0 c os) (\<lambda>_ s'. pending s' = pending s \<and> held s' = held s - {#spsw_fd (sps s)#}) s"
  unfolding close0_def wp_bind wp_GetField wp_SetField
  by (auto simp: wp_bind wp_if wp_return wp_SetField intro!: healthy_syscall [OF h])

lemma try_open_wp:
  assumes h: "healthy os busy" and p: "pending s = None" and jos: "open_refused jos = None"
  shows "wp (try_open jos c lib os name) (\<lambda>r s'. pending s' = None \<and>
    (if busy name then (\<exists>m. r = (False, Some (Native (IOException m)))) \<and> held s' = held s
     else r = (True, None) \<and> (\<exists>E. held s' = held s + E \<and> size E = event_fds c))) s"
proof -
  let ?s = "s\<lparr>sps := new_socket\<rparr>"
  have s: "spsw_fd (sps ?s) = INVALID_FD" "pending ?s = None" using p by (simp_all add: new_socket_def INVALID_FD_def)
  note q = healthy_quiet [OF h]
  show ?thesis
  proof (cases "busy name")
    case True
    show ?thesis
      unfolding try_open_def jos option.case java_open_def wp_bind wp_SetField
      by (rule wp_mono [OF open0_busy [where s = ?s, OF h s(1) True]])
        (auto simp: True wp_simps take_pending_def is_pending_def)
  next
    case False
    have "wp (open0 c lib os name 0) (\<lambda>_ s1. pending s1 = None \<and> opened c os ?s s1) ?s"
      using open0_free [where s = ?s and lib = lib and c = c, OF h s False] open0_outcome [OF q s(1), of c lib name 0]
      by (auto simp: wp_run not_opened_def dangling_def is_pending_def)
    then show ?thesis
      unfolding try_open_def jos option.case java_open_def implCloseChannel_def wp_bind wp_SetField
      by (rule wp_mono) (auto simp: wp_get wp_return wp_take_pending wp_bind is_pending_def opened_def event_fds_def False
          split: if_splits intro!: wp_mono [OF close0_healthy [OF h]])
  qed
qed

section \<open>What a listing gives\<close>

text \<open>A loop whose steps give \<open>g e\<close> and add \<open>k e\<close> to what \<open>H\<close> observes.\<close>

lemma for_each_wp:
  fixes f :: "'e \<Rightarrow> ('s, 'x + 'a list) state" and H :: "'s \<Rightarrow> 'm multiset"
  assumes step: "\<And>e s. I s \<Longrightarrow>
      wp (f e) (\<lambda>r s'. r = Inr (g e) \<and> I s' \<and> (\<exists>E. H s' = H s + E \<and> size E = k e)) s"
    and I: "I s"
  shows "wp (for_each f es) (\<lambda>r s'. r = Inr (concat (map g es)) \<and> I s' \<and>
    (\<exists>E. H s' = H s + E \<and> size E = sum_list (map k es))) s"
  using I
proof (induction es arbitrary: s)
  case (Cons e es)
  show ?case
    unfolding for_each.simps wp_bind
  proof (rule wp_mono [OF step [OF Cons.prems]], elim conjE exE)
    fix r :: "'x + 'a list" and s1 E assume r: "r = Inr (g e)" "I s1" "H s1 = H s + E" "size E = k e"
    show "wp (case r of Inl ex \<Rightarrow> State_Monad.return (Inl ex)
         | Inr xs \<Rightarrow> State_Monad.bind (for_each f es) (\<lambda>rs. State_Monad.return (map_sum id (\<lambda>ys. xs @ ys) rs)))
      (\<lambda>r s'. r = Inr (concat (map g (e # es))) \<and> I s' \<and>
        (\<exists>E. H s' = H s + E \<and> size E = sum_list (map k (e # es)))) s1"
      unfolding r(1) sum.case wp_bind wp_return
    proof (rule wp_mono [OF Cons.IH [OF r(2)]], elim conjE exE)
      fix rs :: "'x + 'a list" and s2 F
      assume "rs = Inr (concat (map g es))" "I s2" "H s2 = H s1 + F" "size F = sum_list (map k es)"
      then show "map_sum id (\<lambda>ys. g e @ ys) rs = Inr (concat (map g (e # es))) \<and> I s2 \<and>
          (\<exists>E. H s2 = H s + E \<and> size E = sum_list (map k (e # es)))"
        using r by (auto intro!: exI [of _ "E + F"])
    qed
  qed
qed (simp add: wp_return)

lemma nix_entry_wp:
  assumes h: "healthy os busy" and p: "pending s = None" and jos: "open_refused jos = None"
  shows "wp (nix_entry jos (try_open jos c lib os) incl hide e) (\<lambda>r s'.
    r = Inr (if is_device jos e \<and> listed busy incl hide (device_path jos e) then [device_path jos e] else []) \<and>
    pending s' = None \<and> (\<exists>E. held s' = held s + E \<and>
      size E = (if is_device jos e \<and> hide \<and> \<not> busy (device_path jos e) then event_fds c else 0))) s"
proof (cases "is_device jos e \<and> hide")
  case True
  then have entry: "portname_find jos (dev_name e) \<and> \<not> dev_isDirectory e \<and> \<not> dev_isFile e" and hide
    by (simp_all add: is_device_def)
  show ?thesis
    unfolding nix_entry_def Let_def if_P [OF entry] if_P [OF \<open>hide\<close>] wp_bind
    by (rule wp_mono [OF try_open_wp [OF h p jos]])
      (use True in \<open>auto simp: wp_return wp_case_prod listed_def is_IOException_def split: if_splits intro: exI [of _ "{#_#}"]\<close>)
next
  case False
  then show ?thesis
    using p by (auto simp: nix_entry_def is_device_def listed_def Let_def wp_return)
qed

lemma concat_singletons: "concat (map (\<lambda>e. if P e then [h e] else []) es) = map h (filter P es)"
  by (induction es) auto

lemma sum_list_count: "sum_list (map (\<lambda>e. if P e then n else 0) es) = n * length (filter P es)"
  by (induction es) auto

section \<open>The same on Windows\<close>

definition try_open_win :: "winapi \<Rightarrow> 'w wos \<Rightarrow> 'w wstate probe" where
  "try_open_win c os portName = do {
     SetField (spsw_fd_update (\<lambda>_. - 1));
     open0_win c os portName 0;
     thrown \<leftarrow> take_pending;
     case thrown of Some e \<Rightarrow> State_Monad.return (False, Some (Native e))
     | None \<Rightarrow> do {
         close0_win c os;
         closing \<leftarrow> take_pending;
         State_Monad.return (True, map_option Native closing)
       }
   }"

definition wanswer_ok :: "(string \<Rightarrow> bool) \<Rightarrow> wcall \<Rightarrow> wresp \<Rightarrow> bool" where
  "wanswer_ok busy c r = (case c of
       CreateFile name \<Rightarrow> (w_ret r = - 1) = busy name
     | GetCommState h \<Rightarrow> w_ret r \<noteq> 0
     | GetCommTimeouts h \<Rightarrow> w_ret r \<noteq> 0
     | SetCommTimeouts h t \<Rightarrow> w_ret r \<noteq> 0
     | CancelIo h \<Rightarrow> w_ret r \<noteq> 0
     | CloseHandle h \<Rightarrow> w_ret r \<noteq> 0
     | _ \<Rightarrow> True)"

lemma wanswer_ok_simps [simp]:
  "wanswer_ok busy (CreateFile name) r \<longleftrightarrow> (w_ret r = - 1) = busy name"
  "wanswer_ok busy (GetCommState h) r \<longleftrightarrow> w_ret r \<noteq> 0" "wanswer_ok busy (GetCommTimeouts h) r \<longleftrightarrow> w_ret r \<noteq> 0"
  "wanswer_ok busy (SetCommTimeouts h t) r \<longleftrightarrow> w_ret r \<noteq> 0" "wanswer_ok busy (CancelIo h) r \<longleftrightarrow> w_ret r \<noteq> 0"
  "wanswer_ok busy (CloseHandle h) r \<longleftrightarrow> w_ret r \<noteq> 0"
  by (simp_all add: wanswer_ok_def)

definition healthy_win :: "'w wos \<Rightarrow> (string \<Rightarrow> bool) \<Rightarrow> bool" where
  "healthy_win os busy \<longleftrightarrow> wquiet os \<and> (\<forall>c x. wanswer_ok busy c (fst (os c x)))"

lemma healthy_win_quiet: "healthy_win os busy \<Longrightarrow> wquiet os"
  by (simp add: healthy_win_def)

lemma healthy_wincall:
  assumes h: "healthy_win os busy" and Q: "\<And>r w. wanswer_ok busy c r \<Longrightarrow> Q r (wanswered c r (sps s) w s)"
  shows "wp (wincall os c) Q s"
proof (rule wincall_wp)
  fix r obj w assume call: "os c (sps s, world s) = (r, obj, w)"
  have "wanswer_ok busy c (fst (os c (sps s, world s)))" using h by (simp add: healthy_win_def)
  then show "Q r (wanswered c r obj w s)"
    using Q [of r w] call wquietD [OF healthy_win_quiet [OF h] call] by simp
qed

lemma open_error_win_wp:
  assumes "\<And>m. Q () (s\<lparr>pending := Some (IOException m)\<rparr>)"
  shows "wp (open_error_win c portName) Q s"
  using assms by (simp add: open_error_win_def wp_simps throw_IOException_withPortName_def throw_IOException_NativeError_def)

lemma try_open_win_wp:
  assumes h: "healthy_win os busy" and p: "pending s = None"
  shows "wp (try_open_win c os name) (\<lambda>r s'. pending s' = None \<and> whandles s' = whandles s \<and>
    (if busy (device_name name) then (\<exists>m. r = (False, Some (Native (IOException m)))) else r = (True, None))) s"
  unfolding try_open_win_def open0_win_def configure_win_def open_timeouts_def close0_win_def close_handle_def
    wp_bind wp_SetField wp_GetField wp_if
  by (auto simp: wp_bind wp_if wp_return wp_SetField wp_GetField wp_take_pending wp_GetLastError INVALID_HANDLE_VALUE_def no_params p
      intro!: healthy_wincall [OF h] open_error_win_wp)

section \<open>The names that are listed\<close>

lemma getUnixBasedPortNames_wp:
  assumes h: "healthy os busy" and p: "pending s = None" and jos: "open_refused jos = None"
  shows "wp (getUnixBasedPortNames jos (try_open jos c lib os) dir incl hide) (\<lambda>r s'.
    r = Inr (sort_names (map (device_path jos)
      (filter (\<lambda>e. is_device jos e \<and> listed busy incl hide (device_path jos e)) dir))) \<and> pending s' = None \<and>
    (\<exists>E. held s' = held s + E \<and>
      size E = event_fds c * length (filter (\<lambda>e. is_device jos e \<and> hide \<and> \<not> busy (device_path jos e)) dir))) s"
  unfolding getUnixBasedPortNames_def wp_bind wp_return
  by (rule wp_mono [OF for_each_wp [where I = "\<lambda>s. pending s = None" and H = held, OF nix_entry_wp [OF h _ jos] p]])
    (auto simp: concat_singletons sum_list_count)

lemma getWindowsPortNames_wp:
  assumes h: "healthy_win os busy" and p: "pending s = None"
  shows "wp (getWindowsPortNames (try_open_win c os) names incl hide) (\<lambda>r s'.
    r = Inr (sort_names (filter (\<lambda>n. portname_find WINDOWS n \<longrightarrow> \<not> hide \<or> \<not> busy (device_name n) \<or> n = incl) names)) \<and>
    pending s' = None \<and> whandles s' = whandles s) s"
proof -
  let ?g = "\<lambda>n. if portname_find WINDOWS n \<longrightarrow> \<not> hide \<or> \<not> busy (device_name n) \<or> n = incl then [id n] else []"
  have step: "wp (win_entry (try_open_win c os) incl hide n) (\<lambda>r s'. r = Inr (?g n) \<and>
      (pending s' = None \<and> whandles s' = whandles s) \<and>
      (\<exists>E. (\<lambda>s. {#} :: unit multiset) s' = {#} + E \<and> size E = 0)) s1"
    if "pending s1 = None \<and> whandles s1 = whandles s" for n s1
    using that by (auto simp: win_entry_def wp_bind wp_return wp_case_prod is_IOException_def split: if_splits option.splits
      intro!: wp_mono [OF try_open_win_wp [OF h]])
  show ?thesis
    unfolding getWindowsPortNames_def wp_bind wp_return
    by (rule wp_mono [OF for_each_wp [where H = "\<lambda>s. {#} :: unit multiset" and g = ?g, OF step]])
      (use p in \<open>auto simp: concat_singletons\<close>)
qed

section \<open>Ports reported to a consumer\<close>

text \<open>A consumer that does its work somewhere else.\<close>

definition harmless :: "'w pstate portNameConsumer \<Rightarrow> bool" where
  "harmless accept \<longleftrightarrow> (\<forall>n b s. case run_state (accept n b) s of (r, s') \<Rightarrow>
     r = None \<and> pending s' = pending s \<and> held s' = held s)"

lemma harmless_wp:
  assumes "harmless accept" and "\<And>s'. pending s' = pending s \<Longrightarrow> held s' = held s \<Longrightarrow> Q None s'"
  shows "wp (accept n b) Q s"
  using assms unfolding harmless_def wp_def by (metis (mono_tags, lifting) case_prod_unfold)

lemma report_entry_wp:
  assumes h: "healthy os busy" and p: "pending s = None" and jos: "open_refused jos = None" and a: "harmless accept"
  shows "wp (report_entry jos (try_open jos c lib os) accept e) (\<lambda>r s'.
    r = Inr (if is_device jos e then [(device_path jos e, busy (device_path jos e))] else []) \<and>
    pending s' = None \<and> (\<exists>E. held s' = held s + E \<and>
      size E = (if is_device jos e \<and> \<not> busy (device_path jos e) then event_fds c else 0))) s"
proof (cases "is_device jos e")
  case True
  then have entry: "portname_find jos (dev_name e) \<and> \<not> dev_isDirectory e \<and> \<not> dev_isFile e"
    by (simp add: is_device_def)
  show ?thesis
    unfolding report_entry_def report_def Let_def if_P [OF entry] wp_bind
    by (rule wp_mono [OF try_open_wp [OF h p jos]])
      (use True in \<open>auto simp: wp_return wp_case_prod wp_bind is_IOException_def split: if_splits
        intro: exI [of _ "{#_#}"] intro!: harmless_wp [OF a]\<close>)
next
  case False
  then show ?thesis using p by (auto simp: report_entry_def is_device_def wp_return)
qed

lemma getPortNames_reported_wp:
  assumes h: "healthy os busy" and p: "pending s = None" and jos: "open_refused jos = None" "jos \<noteq> WINDOWS"
    and a: "harmless accept"
  shows "wp (getPortNames_reported jos (try_open jos c lib os) accept names dir) (\<lambda>r s'.
    r = Inr (map (\<lambda>e. (device_path jos e, busy (device_path jos e))) (filter (is_device jos) dir)) \<and> pending s' = None \<and>
    (\<exists>E. held s' = held s + E \<and>
      size E = event_fds c * length (filter (\<lambda>e. is_device jos e \<and> \<not> busy (device_path jos e)) dir))) s"
  unfolding getPortNames_reported_def wp_bind if_not_P [OF jos(2)] wp_return sum.case
  by (rule wp_mono [OF for_each_wp [where I = "\<lambda>s. pending s = None" and H = held, OF report_entry_wp [OF h _ jos(1) a] p]])
    (auto simp: concat_singletons sum_list_count)

section \<open>Properties\<close>

text \<open>
  C23: \<open>getUnixBasedPortNames\<close> gives every device of the directory whose name has the pattern and
  that is neither a directory nor a plain file, once for each entry: all of them, or, when busy
  ports are hidden, those that can be opened and the one to include. The names are in the order
  of \<open>PortnamesComparator\<close>. Probing leaves no exception behind and closes each port again, but
  the descriptors of the close event of each free port stay open until a cleaner runs.
\<close>

theorem getUnixBasedPortNames_lists:
  assumes "jos \<in> {DARWIN, FREE_BSD, LINUX, OPEN_BSD}" and "healthy os busy" and "pending s = None"
  shows "case run_state (getUnixBasedPortNames jos (try_open jos c lib os) dir portToInclude hideBusyPorts) s of (r, s') \<Rightarrow>
    (\<exists>names. r = Inr names \<and>
       mset names = mset (map (device_path jos)
         (filter (\<lambda>e. is_device jos e \<and> listed busy portToInclude hideBusyPorts (device_path jos e)) dir)) \<and>
       sorted_wrt (\<lambda>a b. portname_key a \<le> portname_key b) names) \<and>
    pending s' = None \<and>
    (\<exists>E. held s' = held s + E \<and> size E = (if HAVE_SYS_EVENTFD_H c then 1 else 2) *
       length (filter (\<lambda>e. is_device jos e \<and> hideBusyPorts \<and> \<not> busy (device_path jos e)) dir))"
proof -
  have "open_refused jos = None" using assms(1) by (auto simp: open_refused_def)
  then show ?thesis
    using getUnixBasedPortNames_wp [OF assms(2,3), of jos c lib dir portToInclude hideBusyPorts]
    by (auto simp: wp_def event_fds_def sorted_sort_names simp del: mset_map)
qed

text \<open>A kernel on which the ports with a given name are busy.\<close>

definition busy_device :: "(string \<Rightarrow> bool) \<Rightarrow> unit os" where
  "busy_device busy c x = (resp0\<lparr>r_ret := (case c of Open name _ \<Rightarrow> if busy name then - 1 else 3
     | Eventfd _ _ \<Rightarrow> 4 | _ \<Rightarrow> 0)\<rparr>, x)"

lemma healthy_busy_device: "healthy (busy_device busy) busy"
  by (simp add: healthy_def quiet_def busy_device_def answer_ok_def resp0_def split: pcall.splits)

definition dev_directory :: "dev_entry list" where
  "dev_directory = map (\<lambda>(n, d, f). \<lparr>dev_name = n, dev_isDirectory = d, dev_isFile = f\<rparr>)
     [(''ttyS10'', False, False), (''ttyS1'', False, False), (''tty'', False, False), (''ttyUSB0'', True, False),
      (''ttyS9'', False, False), (''ttyS3'', False, True)]"

lemma dev_directory_listed:
  "map (device_path LINUX) (filter (\<lambda>e. is_device LINUX e \<and>
     listed (\<lambda>n. n = ''/dev/ttyS1'') [] True (device_path LINUX e)) dev_directory) = [''/dev/ttyS10'', ''/dev/ttyS9'']"
  "length (filter (\<lambda>e. is_device LINUX e \<and> True \<and> \<not> device_path LINUX e = ''/dev/ttyS1'') dev_directory) = 2"
  by code_simp+

lemma two_names:
  assumes "mset names = {#a, b#}" and "sorted_wrt (\<lambda>a b. portname_key a \<le> portname_key b) names"
    and "\<not> portname_key a \<le> portname_key b"
  shows "names = [b, a]"
proof -
  have "length names = 2" using arg_cong [OF assms(1), of size] by simp
  then obtain x y where names: "names = [x, y]" by (auto simp: numeral_2_eq_2 length_Suc_conv)
  then have "x = a \<and> y = b \<or> x = b \<and> y = a" using assms(1) by (auto simp: add_eq_conv_ex)
  then show ?thesis using assms(2,3) names by auto
qed

theorem getUnixBasedPortNames_lists_witness:
  "case run_state (getUnixBasedPortNames LINUX (try_open LINUX linux_consts plain_lib (busy_device (\<lambda>n. n = ''/dev/ttyS1'')))
     dev_directory [] True) (closed_state ()) of (r, s') \<Rightarrow>
   r = Inr [''/dev/ttyS9'', ''/dev/ttyS10''] \<and> pending s' = None \<and> size (held s') = 2"
proof -
  have order: "\<not> portname_key ''/dev/ttyS10'' \<le> portname_key ''/dev/ttyS9''" by code_simp
  have ev: "HAVE_SYS_EVENTFD_H linux_consts" by code_simp
  show ?thesis
    using getUnixBasedPortNames_lists [where jos = LINUX and s = "closed_state ()" and c = linux_consts and lib = plain_lib
        and dir = dev_directory and portToInclude = "[]" and hideBusyPorts = True,
        OF _ healthy_busy_device [of "\<lambda>n. n = ''/dev/ttyS1''"]]
    unfolding dev_directory_listed
    by (auto simp: ev dest!: two_names [OF _ _ order] split: prod.splits)
qed

text \<open>
  C39: \<open>getWindowsPortNames\<close> gives the names of the registry in the order of
  \<open>PortnamesComparator\<close>. Only a name with the pattern of a port is probed, so a busy port whose
  name does not have it is kept. No handle is left open, not even until a cleaner runs.
\<close>

theorem getWindowsPortNames_lists:
  assumes "healthy_win os busy" and "pending s = None"
  shows "case run_state (getWindowsPortNames (try_open_win c os) names portToInclude hideBusyPorts) s of (r, s') \<Rightarrow>
    (\<exists>result. r = Inr result \<and>
       mset result = mset (filter (\<lambda>n. portname_find WINDOWS n \<longrightarrow>
         \<not> hideBusyPorts \<or> \<not> busy (device_name n) \<or> n = portToInclude) names) \<and>
       sorted_wrt (\<lambda>a b. portname_key a \<le> portname_key b) result) \<and>
    pending s' = None \<and> whandles s' = whandles s"
  using getWindowsPortNames_wp [OF assms, of c names portToInclude hideBusyPorts]
  by (auto simp: wp_def sorted_sort_names simp del: mset_filter)

definition busy_port :: "(string \<Rightarrow> bool) \<Rightarrow> unit wos" where
  "busy_port busy c x = (wresp0\<lparr>w_ret := (case c of CreateFile name \<Rightarrow> if busy name then - 1 else 3 | _ \<Rightarrow> 1)\<rparr>, x)"

lemma healthy_busy_port: "healthy_win (busy_port busy) busy"
  by (simp add: healthy_win_def wquiet_def busy_port_def wanswer_ok_def wresp0_def split: wcall.splits)

lemma registry_names_listed:
  "filter (\<lambda>n. portname_find WINDOWS n \<longrightarrow> \<not> True \<or> \<not> device_name n \<in> {device_name ''COM2'', device_name ''CNCA0''} \<or> n = [])
     [''COM3'', ''COM2'', ''CNCA0''] = [''COM3'', ''CNCA0'']"
  by code_simp

theorem getWindowsPortNames_lists_witness:
  "case run_state (getWindowsPortNames (try_open_win windows_consts
      (busy_port (\<lambda>n. n \<in> {device_name ''COM2'', device_name ''CNCA0''}))) [''COM3'', ''COM2'', ''CNCA0''] [] True)
     (closed_windows_state ()) of (r, s') \<Rightarrow>
   r = Inr [''CNCA0'', ''COM3''] \<and> pending s' = None \<and> whandles s' = {#}"
proof -
  have order: "\<not> portname_key ''COM3'' \<le> portname_key ''CNCA0''" by code_simp
  show ?thesis
    using getWindowsPortNames_lists [where s = "closed_windows_state ()" and c = windows_consts
        and names = "[''COM3'', ''COM2'', ''CNCA0'']" and portToInclude = "[]" and hideBusyPorts = True, OF healthy_busy_port [of "\<lambda>n. n \<in> {device_name ''COM2'', device_name ''CNCA0''}"]]
    unfolding registry_names_listed
    by (auto dest!: two_names [OF _ _ order] split: prod.splits)
qed

text \<open>
  C36: the two ways to enumerate the ports of a POSIX system agree: the consumer is called once for
  each device of the directory, in its order, and the names it gets as not busy are, in another
  order, those \<open>getPortNames\<close> lists when busy ports are hidden.
\<close>

theorem getPortNames_agree:
  assumes "jos \<in> {DARWIN, FREE_BSD, LINUX, OPEN_BSD}" and "healthy os busy" and "pending s = None" and "harmless accept"
  shows "case (fst (run_state (getPortNames jos (try_open jos c lib os) names dir True) s),
      fst (run_state (getPortNames_reported jos (try_open jos c lib os) accept names dir) s)) of
    (Inr listing, Inr reports) \<Rightarrow> map fst reports = map (device_path jos) (filter (is_device jos) dir) \<and>
      mset listing = mset (map fst (filter (\<lambda>(name, busy). \<not> busy) reports))
  | _ \<Rightarrow> False"
proof -
  have jos: "open_refused jos = None" "jos \<noteq> WINDOWS" using assms(1) by (auto simp: open_refused_def)
  have names: "map fst (filter (\<lambda>(name, busy). \<not> busy) (map (\<lambda>e. (device_path jos e, busy (device_path jos e))) es)) =
      map (device_path jos) (filter (\<lambda>e. \<not> busy (device_path jos e)) es)" for es
    by (induction es) auto
  show ?thesis
    using getUnixBasedPortNames_wp [OF assms(2,3) jos(1), of c lib dir "[]" True]
      getPortNames_reported_wp [OF assms(2,3) jos assms(4), of c lib names dir]
    by (simp add: wp_run getPortNames_def jos(2) names listed_def comp_def conj_commute sorted_sort_names
        del: mset_map flip: filter_filter)
qed

theorem getPortNames_agree_witness:
  "case (fst (run_state (getPortNames LINUX (try_open LINUX linux_consts plain_lib (busy_device (\<lambda>n. n = ''/dev/ttyS1'')))
        [] dev_directory True) (closed_state ())),
      fst (run_state (getPortNames_reported LINUX (try_open LINUX linux_consts plain_lib (busy_device (\<lambda>n. n = ''/dev/ttyS1'')))
        (\<lambda>name busy. State_Monad.return None) [] dev_directory) (closed_state ()))) of
    (Inr listing, Inr reports) \<Rightarrow> map fst reports = [''/dev/ttyS10'', ''/dev/ttyS1'', ''/dev/ttyS9''] \<and>
      mset listing = mset (map fst (filter (\<lambda>(name, busy). \<not> busy) reports))
  | _ \<Rightarrow> False"
proof -
  have devices: "map (device_path LINUX) (filter (is_device LINUX) dev_directory) = [''/dev/ttyS10'', ''/dev/ttyS1'', ''/dev/ttyS9'']"
    by code_simp
  show ?thesis
    using getPortNames_agree [where jos = LINUX and s = "closed_state ()" and c = linux_consts and lib = plain_lib
        and accept = "\<lambda>name busy. State_Monad.return None" and names = "[]" and dir = dev_directory,
        OF _ healthy_busy_device [of "\<lambda>n. n = ''/dev/ttyS1''"]]
    unfolding devices by (simp add: harmless_def)
qed

text \<open>
  A port whose \<open>close\<close> fails has been added before; when it is the one to include it is listed a
  second time.
\<close>

theorem include_listed_twice:
  assumes "is_device jos e" and "device_path jos e \<noteq> []"
    and "run_state (probe (device_path jos e)) s = ((True, Some (Native (IOException m))), s')"
  shows "run_state (nix_entry jos probe (device_path jos e) True e) s = (Inr [device_path jos e, device_path jos e], s')"
  using assms by (simp add: nix_entry_def is_device_def Let_def is_IOException_def)

text \<open>
  On Solaris there is a directory and a pattern, but a listing that hides busy ports throws at the
  first device: no port can be opened.
\<close>

theorem solaris_listing_throws:
  assumes "is_device SOLARIS e"
  shows "fst (run_state (getPortNames SOLARIS (try_open SOLARIS c lib os) names (e # dir) True) s) =
    Inl (UnsupportedOperationException (os_name SOLARIS @ '' is currently not supported yet'' @ [CHR 0x0A] @
         ''System.properties:'' @ [CHR 0x0A]))"
  using assms by (simp add: getPortNames_def getUnixBasedPortNames_def nix_entry_def is_device_def Let_def try_open_def
      open_refused_def is_IOException_def)

end
