(* ===== verification/OpenPort.thy ===== *)
theory OpenPort
  imports JavaPort
begin

text \<open>
  Opening a port with parameters, put together with the getters and setters: what
  \<open>open(speed, dataBits, stopBits, parity, flowControls)\<close> asks of \<open>open0\<close> is what the getters show,
  from then on through any sequence of setters. The interface \<open>java_port\<close> extends \<open>java_line\<close> by
  the call that opens; both native builds provide it.
\<close>

section \<open>A request for all parameters\<close>

definition all_params :: "Speed \<Rightarrow> DataBits \<Rightarrow> StopBits \<Rightarrow> Parity \<Rightarrow> FlowControl list \<Rightarrow> params" where
  "all_params v d b q F = \<lparr>p_speed = Some v, p_dataBits = Some d, p_stopBits = Some b, p_parity = Some q, p_flow = Some F\<rparr>"

lemma all_params_sel [simp]:
  "p_speed (all_params v d b q F) = Some v" "p_dataBits (all_params v d b q F) = Some d"
  "p_stopBits (all_params v d b q F) = Some b" "p_parity (all_params v d b q F) = Some q"
  "p_flow (all_params v d b q F) = Some F"
  by (simp_all add: all_params_def)

text \<open>The line it leads to, whatever the line was before, and when there is none.\<close>

definition asked_config :: "Speed \<Rightarrow> DataBits \<Rightarrow> StopBits \<Rightarrow> Parity \<Rightarrow> FlowControl list \<Rightarrow> config" where
  "asked_config v d b q F = (v, \<lparr>l_dataBits = d, l_two = (b \<noteq> SB_1), l_parity = q, l_rts = RTS_CTS_IN \<in> set F,
     l_cts = RTS_CTS_OUT \<in> set F, l_xin = XON_XOFF_IN \<in> set F, l_xout = XON_XOFF_OUT \<in> set F\<rparr>)"

definition contradictory :: "bool \<Rightarrow> DataBits \<Rightarrow> StopBits \<Rightarrow> FlowControl list \<Rightarrow> bool" where
  "contradictory both d b F \<longleftrightarrow> b = SB_1_5 \<and> d \<noteq> DB_5 \<or> b = SB_2 \<and> d = DB_5 \<or>
     both \<and> (RTS_CTS_IN \<in> set F) \<noteq> (RTS_CTS_OUT \<in> set F)"

lemma apply_all_params:
  "apply_params both (all_params v d b q F) l =
     (if contradictory both d b F then None else Some (snd (asked_config v d b q F)))"
  by (cases b) (auto simp: apply_params_def apply_dataBits_def apply_stopBits_def apply_parity_def apply_flow_def
      contradictory_def asked_config_def)

lemma shown_asked:
  "\<not> contradictory both d b F \<Longrightarrow> shown_config (asked_config v d b q F) = (v, d, b, q, set F)"
  by (cases b) (auto simp: shown_config_def asked_config_def line_stop_def contradictory_def set_line_flow
      split: FlowControl.splits)

lemma open_bitset_all: "open_bitset v d b q F = encode_params (all_params v d b q F)"
  by (simp add: open_bitset_encode all_params_def)

lemma all_params_some: "encode_params (all_params v d b q F) \<noteq> SPSW_NO_PARAMS_TO_SET"
proof
  assume "encode_params (all_params v d b q F) = SPSW_NO_PARAMS_TO_SET"
  moreover have "SPSW_NO_PARAMS_TO_SET = 0" by (simp add: bits_simps)
  ultimately have "encode_params (all_params v d b q F) AND SPSW_SPEED_MASK = 0" by simp
  then show False by (simp add: encode_fields field_def)
qed

section \<open>The interface of a port that can be opened\<close>

text \<open>A port that is opened with parameters, set in turn and read; \<open>Inl\<close> when it cannot be opened.\<close>

definition java_session :: "(jint \<Rightarrow> (('w, 'c) jni, 'h) state) \<Rightarrow> (jint \<Rightarrow> (('w, 'c) jni, jint) state) \<Rightarrow>
    (jint \<Rightarrow> (('w, 'c) jni, unit) state) \<Rightarrow> string \<Rightarrow> jint \<Rightarrow> setting list \<Rightarrow>
    (('w, 'c) jni, throwable + bool list \<times> shown option) state" where
  "java_session opn getp setp portName paramBitSet xs = do {
     r \<leftarrow> java_call (opn paramBitSet);
     case r of Inl e \<Rightarrow> State_Monad.return (Inl e)
     | Inr _ \<Rightarrow> do {
         rs \<leftarrow> java_sets getp setp portName xs;
         g \<leftarrow> java_get getp;
         State_Monad.return (Inr (map isl rs, g))
       }
   }"

locale java_port = java_line getp setp ready config both supported
  for getp :: "jint \<Rightarrow> (('w, 'c) jni, jint) state" and setp ready config both supported +
  fixes opn :: "jint \<Rightarrow> (('w, 'c) jni, 'h) state"
    and openable :: "('w, 'c) jni \<Rightarrow> bool"
    and gone :: "('w, 'c) jni \<Rightarrow> ('w, 'c) jni \<Rightarrow> bool"
  assumes opens: "openable s \<Longrightarrow> supported (all_params v d b q F) \<Longrightarrow>
    wp (opn (encode_params (all_params v d b q F))) (\<lambda>_ s'.
      if contradictory both d b F then is_pending s' \<and> gone s (s'\<lparr>pending := None\<rparr>)
      else ready s' \<and> config s' = asked_config v d b q F) s"
begin

lemma session_wp:
  assumes o: "openable s" and sup: "supported (all_params v d b q F)" "\<forall>x \<in> set xs. supported (request x)"
  shows "wp (java_session opn getp setp portName (open_bitset v d b q F) xs) (\<lambda>r s'. pending s' = None \<and>
    (if contradictory both d b F then isl r \<and> gone s s'
     else r = Inr (refusals both xs (asked_config v d b q F),
       Some (shown_config (fold (apply_setting both) xs (asked_config v d b q F)))))) s"
  unfolding java_session_def wp_bind wp_java_call open_bitset_all
proof (rule wp_mono [OF opens [OF o sup(1)]], goal_cases)
  case (1 h s1)
  show ?case
  proof (cases "contradictory both d b F")
    case True
    then show ?thesis using 1 by (auto simp: is_pending_def wp_return)
  next
    case False
    then have s1: "ready s1" "config s1 = asked_config v d b q F" using 1 by simp_all
    have "wp (do { rs \<leftarrow> java_sets getp setp portName xs; g \<leftarrow> java_get getp; State_Monad.return (Inr (map isl rs, g)) })
      (\<lambda>r s'. pending s' = None \<and> r = Inr (refusals both xs (asked_config v d b q F),
       Some (shown_config (fold (apply_setting both) xs (asked_config v d b q F))))) s1"
      unfolding wp_bind
      by (rule wp_mono [OF java_sets_wp [OF s1(1) sup(2)]]) (use s1 in \<open>auto intro!: java_get_wp simp: wp_return calm\<close>)
    then show ?thesis
      unfolding calm [OF s1(1)] option.case sum.case calm_same [OF s1(1)] using False by simp
  qed
qed

end

section \<open>Opening a terminal that works\<close>

text \<open>
  The calls that \<open>open0\<close> makes beside those for the settings succeed and leave the settings alone.
\<close>

definition serviceable :: "posix \<Rightarrow> 'w os \<Rightarrow> int \<Rightarrow> ('w \<Rightarrow> termios) \<Rightarrow> bool" where
  "serviceable c os fd attr \<longleftrightarrow> (\<forall>call \<in> {Ioctl fd TIOCEXCL, Tcflush fd (TCIOFLUSH c), Eventfd 0 (EFD_NONBLOCK c), Pipe}.
     \<forall>x. case os call x of (r, x') \<Rightarrow> attr (snd x') = attr (snd x) \<and>
       (if call = Eventfd 0 (EFD_NONBLOCK c) then r_ret r \<noteq> - 1 else r_ret r = 0))"

lemma serviceable_call:
  assumes q: "quiet os" and ok: "serviceable c os fd attr"
    and call: "call \<in> {Ioctl fd TIOCEXCL, Tcflush fd (TCIOFLUSH c), Eventfd 0 (EFD_NONBLOCK c), Pipe}"
    and Q: "\<And>r w. attr w = attr (world s) \<Longrightarrow>
      (if call = Eventfd 0 (EFD_NONBLOCK c) then r_ret r \<noteq> - 1 else r_ret r = 0) \<Longrightarrow> Q r (answered call r (sps s) w s)"
  shows "wp (syscall os call) Q s"
proof (rule syscall_wp)
  fix r obj w
  assume os: "os call (sps s, world s) = (r, obj, w)"
  show "Q r (answered call r obj w s)"
    unfolding quietD [OF q os]
    using ok [unfolded serviceable_def, rule_format, OF call, of "(sps s, world s)"] os by (intro Q) simp_all
qed

text \<open>
  Raw mode: no line editing, echo or signals, no output processing, and reads that neither wait
  for a number of bytes nor for a time.
\<close>

definition is_raw :: "posix \<Rightarrow> termios \<Rightarrow> bool" where
  "is_raw c t \<longleftrightarrow> c_lflag t AND (ECHO c OR ECHONL c OR ICANON c OR ISIG c OR IEXTEN c) = 0 \<and>
     c_oflag t AND OPOST c = 0 \<and>
     (c_iflag t AND NOT (input_mask c)) AND (IGNBRK c OR BRKINT c OR PARMRK c OR ISTRIP c OR INLCR c OR IGNCR c OR ICRNL c) = 0 \<and>
     (\<forall>i \<in> {VMIN c, VTIME c}. i < length (c_cc t) \<longrightarrow> c_cc t ! i = 0)"

lemma is_raw_raw_mode: "is_raw c (raw_mode c t)"
proof -
  have clear: "((x AND NOT m) AND n) AND f = 0" if "f AND m = f" for x m n f :: "32 word"
    using that by (auto simp: bit_eq_iff bit_simps)
  have zero: "xs[VMIN c := 0, VTIME c := 0] ! i = 0" if "i \<in> {VMIN c, VTIME c}" "i < length xs" for xs :: "byte list" and i
    using that by (cases "VMIN c = VTIME c") auto
  have sub: "(a OR b OR d OR e OR f OR g OR h) AND (a OR b OR d OR e OR f OR g OR h OR k) =
      a OR b OR d OR e OR f OR g OR h" for a b d e f g h k :: "32 word"
    by (auto simp: bit_eq_iff bit_simps)
  show ?thesis
    unfolding is_raw_def raw_mode_def by (simp add: clear sub zero flag_clear_same del: bit.de_Morgan_disj)
qed

lemma is_raw_kept: "rest_kept c t t' \<Longrightarrow> is_raw c t \<Longrightarrow> is_raw c t'"
  by (simp add: is_raw_def rest_kept_def)

lemma open_params_sets:
  assumes wf: "wf_posix c" and lib: "speed_lib c lib" and tty: "faithful_tty os fd attr" and fd: "spsw_fd (sps s) = fd"
    and sup: "tty_supports c p" and some: "encode_params p \<noteq> SPSW_NO_PARAMS_TO_SET"
  shows "wp (open_params c lib os fd (raw_mode c t) (encode_params p)) (\<lambda>ok s'.
    case apply_params True p (abs_line c (raw_mode c t)) of
      None \<Rightarrow> \<not> ok \<and> is_pending s' \<and> spsw_fd (sps s') = INVALID_FD
    | Some l \<Rightarrow> ok \<and> pending s' = pending s \<and> sps s' = sps s \<and> abs_line c (attr (world s')) = l \<and>
        shows_params c lib (attr (world s')) p \<and> is_raw c (attr (world s'))) s"
proof -
  note set = setParams_refines [OF wf lib tty [folded fd] sup [unfolded tty_supports_def, THEN conjunct1]
    sup [unfolded tty_supports_def, THEN conjunct2], of "raw_mode c t"]
  show ?thesis
  proof (cases "apply_params True p (abs_line c (raw_mode c t))")
    case None
    have "wp (close_again os fd) (\<lambda>_. wp (State_Monad.return False) (\<lambda>ok s'. \<not> ok \<and> is_pending s' \<and> spsw_fd (sps s') = INVALID_FD)) s'"
      if "is_pending s'" for s' :: "'a pstate"
      unfolding close_again_def wp_bind by (rule syscall_wp) (simp add: that wp_SetField wp_return)
    then show ?thesis
      unfolding open_params_def wp_if wp_bind using set some None
      by (auto simp: wp_if wp_bind wp_return elim!: wp_mono)
  next
    case (Some l)
    then show ?thesis
      unfolding open_params_def wp_if wp_bind using set some is_raw_kept [OF _ is_raw_raw_mode]
      by (auto simp: wp_if wp_bind wp_return elim!: wp_mono)
  qed
qed

lemma open_events_done:
  assumes q: "quiet os" and ok: "serviceable c os fd attr"
  shows "wp (open_events c os fd) (\<lambda>_ s'. pending s' = pending s \<and> spsw_fd (sps s') = spsw_fd (sps s) \<and>
    attr (world s') = attr (world s)) s"
  unfolding open_events_def wp_if wp_bind
  by (auto simp: wp_if wp_bind wp_return wp_SetField INVALID_FD_def intro!: serviceable_call [OF q ok])

lemma configure_sets:
  assumes wf: "wf_posix c" and lib: "speed_lib c lib" and q: "quiet os" and tty: "faithful_tty os fd attr"
    and ok: "serviceable c os fd attr" and fd: "spsw_fd (sps s) = fd"
    and sup: "tty_supports c p" and some: "encode_params p \<noteq> SPSW_NO_PARAMS_TO_SET"
  shows "wp (configure c lib os portName fd (encode_params p)) (\<lambda>_ s'.
    case apply_params True p (abs_line c (raw_mode c (attr (world s)))) of
      None \<Rightarrow> is_pending s' \<and> spsw_fd (sps s') = INVALID_FD
    | Some l \<Rightarrow> pending s' = pending s \<and> spsw_fd (sps s') = fd \<and> abs_line c (attr (world s')) = l \<and>
        shows_params c lib (attr (world s')) p \<and> is_raw c (attr (world s'))) s"
  unfolding configure_def wp_bind
proof (rule syscall_wp, goal_cases)
  case (1 g obj w)
  note g = faithful_get [OF tty 1]
  have flush: "wp (syscall os (Tcflush fd (TCIOFLUSH c))) (\<lambda>f. wp (if r_ret f \<noteq> 0 then do {
          close_again os fd;
          throw_IOException_NativeError ''Can't flush device''
        } else open_events c os fd) Q) t"
    if "\<And>s'. pending s' = pending t \<Longrightarrow> spsw_fd (sps s') = spsw_fd (sps t) \<Longrightarrow> attr (world s') = attr (world t) \<Longrightarrow> Q () s'"
    for t Q
    by (rule serviceable_call [OF q ok]) (auto intro!: wp_mono [OF open_events_done [OF q ok]] that)
  show ?case
    unfolding wp_if using g
    by (simp add: wp_bind, intro serviceable_call [OF q ok])
      (auto simp: wp_if wp_bind wp_return fd intro!: wp_mono [OF open_params_sets [OF wf lib tty _ sup some]]
        flush split: option.splits)
qed

text \<open>
  A port that is closed and that the driver opens with the descriptor \<open>fd\<close>, as a terminal that
  keeps its settings.
\<close>

definition tty_openable :: "posix \<Rightarrow> termios_lib \<Rightarrow> 'w os \<Rightarrow> string \<Rightarrow> int \<Rightarrow> ('w \<Rightarrow> termios) \<Rightarrow> 'w pstate \<Rightarrow> bool" where
  "tty_openable c lib os portName fd attr s \<longleftrightarrow> wf_posix c \<and> speed_lib c lib \<and> quiet os \<and> faithful_tty os fd attr \<and>
     serviceable c os fd attr \<and> spsw_fd (sps s) = INVALID_FD \<and> pending s = None \<and> fd \<noteq> INVALID_FD \<and>
     r_ret (fst (os (Open portName (O_RDWR c OR O_NOCTTY c OR O_NONBLOCK c)) (sps s, world s))) = fd"

text \<open>The settings the driver has for the port just opened.\<close>

definition fresh_attr :: "posix \<Rightarrow> 'w os \<Rightarrow> string \<Rightarrow> ('w \<Rightarrow> termios) \<Rightarrow> 'w pstate \<Rightarrow> termios" where
  "fresh_attr c os portName attr s =
     attr (snd (snd (os (Open portName (O_RDWR c OR O_NOCTTY c OR O_NONBLOCK c)) (sps s, world s))))"

lemma open0_sets:
  assumes ok: "tty_openable c lib os portName fd attr s" and sup: "tty_supports c p"
    and some: "encode_params p \<noteq> SPSW_NO_PARAMS_TO_SET"
  shows "wp (open0 c lib os portName (encode_params p)) (\<lambda>_ s'.
    case apply_params True p (abs_line c (raw_mode c (fresh_attr c os portName attr s))) of
      None \<Rightarrow> not_opened s s'
    | Some l \<Rightarrow> opened c os s s' \<and> spsw_fd (sps s') = fd \<and> abs_line c (attr (world s')) = l \<and>
        shows_params c lib (attr (world s')) p \<and> is_raw c (attr (world s'))) s"
proof -
  note k = ok [unfolded tty_openable_def]
  let ?c = "Open portName (O_RDWR c OR O_NOCTTY c OR O_NONBLOCK c)"
  have pend: "pending s = None" using k by simp
  obtain r obj w where call: "os ?c (sps s, world s) = (r, obj, w)" by (metis prod_cases3)
  have ret: "r_ret (fst (os ?c (sps s, world s))) = fd" "quiet os" using k by simp_all
  have r: "obj = sps s" "r_ret r = fd" "fresh_attr c os portName attr s = attr w"
    using quietD [OF ret(2) call] ret(1) by (simp_all add: fresh_attr_def call)
  let ?s1 = "(answered ?c r (sps s) w s)\<lparr>sps := (sps s)\<lparr>spsw_fd := fd\<rparr>\<rparr>"
  have s1: "half_open s fd ?s1" using k by (simp add: half_open_def INVALID_FD_def r(2))
  have conf: "wp (configure c lib os portName fd (encode_params p)) (\<lambda>_ s'.
      (opened c os s s' \<or> not_opened s s' \<or> dangling c s s') \<and>
      (case apply_params True p (abs_line c (raw_mode c (attr w))) of
        None \<Rightarrow> is_pending s' \<and> spsw_fd (sps s') = INVALID_FD
      | Some l \<Rightarrow> pending s' = pending s \<and> spsw_fd (sps s') = fd \<and> abs_line c (attr (world s')) = l \<and>
          shows_params c lib (attr (world s')) p \<and> is_raw c (attr (world s')))) ?s1"
    unfolding wp_conj using k some sup
    by (intro conjI configure_outcome s1) (auto intro!: wp_mono [OF configure_sets] split: option.splits)
  show ?thesis
    unfolding open0_def wp_bind wp_GetField wp_if wp_syscall call r prod.case
    by (simp add: k wp_SetField, intro wp_mono [OF conf])
      (auto simp: opened_def not_opened_def dangling_def is_pending_def pend split: option.splits)
qed

text \<open>What a failed \<open>open\<close> leaves: a closed object, and no descriptor more than before.\<close>

definition tty_gone :: "'w pstate \<Rightarrow> 'w pstate \<Rightarrow> bool" where
  "tty_gone s s' \<longleftrightarrow> spsw_fd (sps s') = INVALID_FD \<and> held s' = held s"

lemma tty_opens:
  assumes ok: "tty_openable c lib os portName fd attr s" and sup: "tty_supports c (all_params v d b q F)"
  shows "wp (java_open c lib os portName (encode_params (all_params v d b q F)) cl) (\<lambda>_ s'.
    if contradictory True d b F then is_pending s' \<and> tty_gone s (s'\<lparr>pending := None\<rparr>)
    else tty_ready c lib os fd attr s' \<and> tty_config c lib attr s' = asked_config v d b q F) s"
proof -
  note k = ok [unfolded tty_openable_def]
  have speed: "tty_speed c lib t = Some v" if "line_speed c lib t = Some (toBitSet_Speed v)" for t
    using that decode_speed [OF speed_field(1)] by (simp add: tty_speed_def)
  show ?thesis
    unfolding java_open_def wp_bind wp_get wp_return
    by (rule wp_mono [OF open0_sets [OF ok sup all_params_some]])
      (use k in \<open>auto simp: apply_all_params not_opened_def opened_def tty_gone_def tty_ready_def tty_config_def shows_params_def
        speed asked_config_def split: if_splits\<close>)
qed

interpretation tty_port: java_port "TermiosSettings.getParameters c lib os" "TermiosSettings.setParameters c lib os"
    "tty_ready c lib os fd attr" "tty_config c lib attr" True "tty_supports c"
    "\<lambda>p. java_open c lib os portName p cl" "tty_openable c lib os portName fd attr" tty_gone
  for c lib os fd attr portName cl
  by unfold_locales (rule tty_opens)

section \<open>Opening a Windows port that works\<close>

definition port_openable :: "winapi \<Rightarrow> 'w wos \<Rightarrow> string \<Rightarrow> int \<Rightarrow> ('w \<Rightarrow> dcb) \<Rightarrow> ('w \<Rightarrow> commtimeouts) \<Rightarrow> 'w wstate \<Rightarrow> bool" where
  "port_openable c os portName h attr tmo s \<longleftrightarrow> wf_win c \<and> wquiet os \<and> faithful_port os h attr tmo \<and>
     spsw_fd (sps s) = INVALID_HANDLE_VALUE \<and> pending s = None \<and> h \<noteq> INVALID_HANDLE_VALUE \<and>
     (case os (CreateFile (device_name portName)) (sps s, world s) of (f, _, w) \<Rightarrow> w_ret f = h \<and> dcb_ok c (attr w))"

definition port_gone :: "'w wstate \<Rightarrow> 'w wstate \<Rightarrow> bool" where
  "port_gone s s' \<longleftrightarrow> spsw_fd (sps s') = INVALID_HANDLE_VALUE \<and> whandles s' = whandles s"

lemma configure_win_refused:
  assumes wf: "wf_win c" and fd: "spsw_fd (sps s) = h" and port: "faithful_port os h attr tmo"
    and ok: "dcb_ok c (attr (world s))" and l: "apply_params False p (abs_dcb c (attr (world s))) = None"
    and some: "encode_params p \<noteq> SPSW_NO_PARAMS_TO_SET"
  shows "wp (configure_win c os portName h (encode_params p)) (\<lambda>_. is_pending) s"
  unfolding configure_win_def wp_bind
proof (rule wincall_wp, goal_cases)
  case (1 g obj w)
  note g = faithful_portD(1) [OF port 1]
  let ?s1 = "wanswered (GetCommState h) g obj w s"
  have close: "wp (close_again_win os h) (\<lambda>_. is_pending) t" if "is_pending t" for t :: "'a wstate"
    unfolding close_again_win_def wp_bind by (rule wincall_wp) (simp add: that wp_SetField)
  have "wp (setParams_win c os (w_dcb g) (encode_params p)) (\<lambda>ret.
      wp (if ret \<noteq> 0 then close_again_win os h else open_timeouts os h) (\<lambda>_. is_pending)) ?s1"
    by (rule wp_mono [OF setParams_win_refines [OF wf, where attr = attr and tmo = tmo]]) (use g fd port ok l in \<open>simp_all add: close\<close>)
  then show ?case using g some by (simp add: wp_bind)
qed

lemma shows_all_ok:
  assumes "shows_win c t (all_params v d b q F)" and "\<not> contradictory False d b F" and "wf_win c"
  shows "dcb_ok c t"
  using assms unfolding shows_win_def agrees_def dcb_ok_def contradictory_def
  by (auto simp: dcb_stopBits_def dcb_dataBits_def wf_win_def split: if_splits)

lemma port_opens:
  assumes o: "port_openable c os portName h attr tmo s"
  shows "wp (java_open_win c os portName (encode_params (all_params v d b q F)) cl) (\<lambda>_ s'.
    if contradictory False d b F then is_pending s' \<and> port_gone s (s'\<lparr>pending := None\<rparr>)
    else port_ready c os h attr tmo s' \<and> port_config c attr s' = asked_config v d b q F) s"
proof -
  let ?p = "all_params v d b q F"
  obtain f obj w where call: "os (CreateFile (device_name portName)) (sps s, world s) = (f, obj, w)" by (metis prod_cases3)
  have k: "wf_win c" "wquiet os" "faithful_port os h attr tmo" "spsw_fd (sps s) = INVALID_HANDLE_VALUE" "pending s = None"
      "h \<noteq> INVALID_HANDLE_VALUE" "w_ret f = h" "dcb_ok c (attr w)"
    using o by (simp_all add: port_openable_def call)
  have obj: "obj = sps s" by (rule wquietD [OF k(2) call])
  note outcome = open0_win_outcome [where os = os and s = s, OF k(2,4), of c portName "encode_params ?p"]
  have "wp (open0_win c os portName (encode_params ?p)) (\<lambda>_ s'. if contradictory False d b F then is_pending s'
      else pending s' = None \<and> spsw_fd (sps s') = h \<and> abs_dcb c (attr (world s')) = snd (asked_config v d b q F) \<and>
        dcb_ok c (attr (world s')) \<and> shows_win c (attr (world s')) ?p) s"
  proof (cases "contradictory False d b F")
    case True
    let ?s1 = "(wanswered (CreateFile (device_name portName)) f (sps s) w s)\<lparr>sps := (sps s)\<lparr>spsw_fd := h\<rparr>\<rparr>"
    have "wp (configure_win c os portName h (encode_params ?p)) (\<lambda>_. is_pending) ?s1"
      by (rule configure_win_refused) (use k True in \<open>simp_all add: apply_all_params all_params_some\<close>)
    then show ?thesis
      unfolding open0_win_def wp_bind wp_GetField wp_if wp_wincall call obj prod.case
      using True k by (simp add: wp_SetField)
  next
    case False
    have call': "os (CreateFile (device_name portName)) (sps s, world s) = (f, sps s, w)" using call obj by simp
    have l: "apply_params False ?p (abs_dcb c (attr w)) = Some (snd (asked_config v d b q F))"
      using False by (simp add: apply_all_params)
    show ?thesis
      by (rule wp_mono [OF open0_win_configures [where os = os and s = s and attr = attr and tmo = tmo, OF k(1,4) call' _ _ k(8) l all_params_some]])
        (use k False shows_all_ok [OF _ False k(1)] in auto)
  qed
  then show ?thesis
    unfolding java_open_win_def wp_bind wp_get wp_return
    using outcome k
    by (auto simp: wp_run port_gone_def not_opened_win_def opened_win_def port_ready_def port_config_def shows_win_def agrees_def
      is_pending_def asked_config_def split: if_splits)
qed

interpretation java_win_port: java_port "getParameters_win c os" "setParameters_win c os"
    "port_ready c os h attr tmo" "port_config c attr" False "\<lambda>p. True"
    "\<lambda>p. java_open_win c os portName p cl" "port_openable c os portName h attr tmo" port_gone
  for c os h attr tmo portName cl
  by unfold_locales (rule port_opens)

section \<open>Properties\<close>

text \<open>A kernel that numbers descriptors and keeps the settings of one terminal.\<close>

definition terminal_device :: "(nat \<times> termios) os" where
  "terminal_device c x = (case x of (obj, n, t) \<Rightarrow> (case c of
       Open _ _ \<Rightarrow> (resp0\<lparr>r_ret := int n\<rparr>, obj, n + 1, t)
     | Eventfd _ _ \<Rightarrow> (resp0\<lparr>r_ret := int n\<rparr>, obj, n + 1, t)
     | _ \<Rightarrow> (case tty_device c (obj, t) of (r, obj', t') \<Rightarrow> (r, obj', n, t'))))"

lemma terminal_openable:
  "tty_openable linux_consts plain_lib terminal_device name 3 snd (closed_state (3, t))"
  by (simp add: tty_openable_def serviceable_def faithful_tty_def quiet_def terminal_device_def tty_device_def resp0_def
      INVALID_FD_def split: pcall.splits)

text \<open>
  C3: opening a terminal with parameters refines the abstract line: a request the line can take
  leaves the port open with settings that show it, in raw mode, all descriptors recorded; any other
  request throws, and the port is closed again with no descriptor left over.
\<close>

theorem open0_refinement:
  assumes "tty_openable c lib os portName fd attr s" and "tty_supports c p" and "encode_params p \<noteq> SPSW_NO_PARAMS_TO_SET"
  shows "case run_state (open0 c lib os portName (encode_params p)) s of (_, s') \<Rightarrow>
    (case apply_params True p (abs_line c (raw_mode c (fresh_attr c os portName attr s))) of
      None \<Rightarrow> not_opened s s'
    | Some l \<Rightarrow> opened c os s s' \<and> spsw_fd (sps s') = fd \<and> abs_line c (attr (world s')) = l \<and>
        shows_params c lib (attr (world s')) p \<and> is_raw c (attr (world s')))"
  using open0_sets [OF assms] by (simp add: wp_def split: prod.splits)

lemma tty_supports_8N1: "tty_supports linux_consts request_8N1" "encode_params request_8N1 \<noteq> SPSW_NO_PARAMS_TO_SET"
  using all_params_some [of BPS_9600 DB_8 SB_1 NONE "[RTS_CTS_IN, RTS_CTS_OUT]"]
  by (simp_all add: tty_supports_def) (simp add: request_8N1_def all_params_def)

theorem open0_refinement_witness:
  "case run_state (open0 linux_consts plain_lib terminal_device ''/dev/ttyS0'' (encode_params request_8N1))
      (closed_state (3, no_termios)) of (_, s') \<Rightarrow>
    opened linux_consts terminal_device (closed_state (3, no_termios)) s' \<and> spsw_fd (sps s') = 3 \<and>
    shows_params linux_consts plain_lib (snd (world s')) request_8N1 \<and> is_raw linux_consts (snd (world s'))"
  using open0_refinement [OF terminal_openable [where t = no_termios] tty_supports_8N1, where portName = "''/dev/ttyS0''"]
  by (simp split: prod.splits)

text \<open>
  C2: a whole session of a Java port over POSIX: opened with five parameters, set by any sequence
  of setters, the failing ones included, and read. Contradictory parameters throw and leave the
  object closed with no descriptor left over; otherwise the calls that throw are those the abstract
  line refuses, and the getters show what the line is then, starting with the parameters of \<open>open\<close>.
\<close>

theorem open_session:
  assumes "tty_openable c lib os portName fd attr s" and "tty_supports c (all_params v d b q F)"
    and "\<forall>x \<in> set xs. tty_supports c (request x)"
  shows "case run_state (java_session (\<lambda>p. java_open c lib os portName p cl) (TermiosSettings.getParameters c lib os)
      (TermiosSettings.setParameters c lib os) portName (open_bitset v d b q F) xs) s of (r, s') \<Rightarrow> pending s' = None \<and>
    (if contradictory True d b F then isl r \<and> spsw_fd (sps s') = INVALID_FD \<and> held s' = held s
     else r = Inr (refusals True xs (asked_config v d b q F),
       Some (shown_config (fold (apply_setting True) xs (asked_config v d b q F)))))"
  using tty_port.session_wp [where xs = xs and portName = portName and cl = cl, OF assms(1) assms(2) assms(3)]
  by (auto simp: wp_def tty_gone_def split: prod.splits if_splits)

lemma supports_plain: "tty_supports linux_consts (all_params BPS_9600 d b EVEN F)"
  by (simp add: tty_supports_def parity_supported_def speed_supported_def linux_9600)

theorem open_session_witness:
  "case run_state (java_session (\<lambda>p. java_open linux_consts plain_lib terminal_device ''/dev/ttyS0'' p
        \<lparr>cleaner_fd = - 1, cleaner_write_fd = - 1, cleaner_read_fd = - 1\<rparr>)
      (TermiosSettings.getParameters linux_consts plain_lib terminal_device)
      (TermiosSettings.setParameters linux_consts plain_lib terminal_device) ''/dev/ttyS0''
      (open_bitset BPS_9600 DB_7 SB_2 EVEN [XON_XOFF_IN]) [StopBits_is SB_1_5, DataBits_is DB_5])
      (closed_state (3, no_termios)) of (r, s') \<Rightarrow>
    pending s' = None \<and> r = Inr ([True, False], Some (BPS_9600, DB_5, SB_1_5, EVEN, {XON_XOFF_IN}))"
proof -
  let ?xs = "[StopBits_is SB_1_5, DataBits_is DB_5]"
  let ?cfg = "asked_config BPS_9600 DB_7 SB_2 EVEN [XON_XOFF_IN]"
  have sup: "\<forall>x \<in> set ?xs. tty_supports linux_consts (request x)"
    by (simp add: tty_supports_def parity_supported_def speed_supported_def)
  have line: "\<not> contradictory True DB_7 SB_2 [XON_XOFF_IN]" "refusals True ?xs ?cfg = [True, False]"
      "shown_config (fold (apply_setting True) ?xs ?cfg) = (BPS_9600, DB_5, SB_1_5, EVEN, {XON_XOFF_IN})"
    by code_simp+
  show ?thesis
    using open_session [OF terminal_openable [where t = no_termios] supports_plain [of DB_7 SB_2 "[XON_XOFF_IN]"] sup, where portName = "''/dev/ttyS0''" and cl = "\<lparr>cleaner_fd = - 1, cleaner_write_fd = - 1, cleaner_read_fd = - 1\<rparr>"]
    unfolding line if_not_P [OF line(1)] .
qed

text \<open>
  C19: the same on Windows, for every speed and parity, and with the two directions of RTS/CTS apart.
\<close>

theorem open_session_win:
  assumes "port_openable c os portName h attr tmo s"
  shows "case run_state (java_session (\<lambda>p. java_open_win c os portName p cl) (getParameters_win c os)
      (setParameters_win c os) portName (open_bitset v d b q F) xs) s of (r, s') \<Rightarrow> pending s' = None \<and>
    (if contradictory False d b F then isl r \<and> spsw_fd (sps s') = INVALID_HANDLE_VALUE \<and> whandles s' = whandles s
     else r = Inr (refusals False xs (asked_config v d b q F),
       Some (shown_config (fold (apply_setting False) xs (asked_config v d b q F)))))"
  using java_win_port.session_wp [where xs = xs and portName = portName and cl = cl and v = v and d = d and b = b and q = q and F = F, OF assms] by (auto simp: wp_def port_gone_def split: prod.splits if_splits)

lemma handle_openable:
  "port_openable windows_consts handle_device name 8 (\<lambda>w. fst (snd w)) (\<lambda>w. snd (snd w)) (closed_windows_state (8, no_dcb, t))"
  by (simp add: port_openable_def INVALID_HANDLE_VALUE_def dcb_ok_no_dcb) (simp add: handle_device_def dcb_ok_no_dcb)

theorem open_session_win_witness:
  "case run_state (java_session (\<lambda>p. java_open_win windows_consts handle_device ''COM3'' p (- 1))
      (getParameters_win windows_consts handle_device) (setParameters_win windows_consts handle_device) ''COM3''
      (open_bitset BPS_9600 DB_8 SB_2 MARK [RTS_CTS_OUT]) [DataBits_is DB_5, StopBits_is SB_2])
      (closed_windows_state (8, no_dcb, no_timeouts)) of (r, s') \<Rightarrow>
    pending s' = None \<and> r = Inr ([False, True], Some (BPS_9600, DB_5, SB_1_5, MARK, {RTS_CTS_OUT}))"
proof -
  let ?xs = "[DataBits_is DB_5, StopBits_is SB_2]"
  let ?cfg = "asked_config BPS_9600 DB_8 SB_2 MARK [RTS_CTS_OUT]"
  have line: "\<not> contradictory False DB_8 SB_2 [RTS_CTS_OUT]" "refusals False ?xs ?cfg = [False, True]"
      "shown_config (fold (apply_setting False) ?xs ?cfg) = (BPS_9600, DB_5, SB_1_5, MARK, {RTS_CTS_OUT})"
    by code_simp+
  show ?thesis
    using open_session_win [OF handle_openable [where t = no_timeouts], where portName = "''COM3''" and cl = "- 1" and v = BPS_9600 and d = DB_8 and b = SB_2
      and q = MARK and F = "[RTS_CTS_OUT]" and xs = ?xs]
    unfolding line if_not_P [OF line(1)] .
qed

end
