(* ===== verification/NullModem.thy ===== *)
theory NullModem
  imports AbstractIO
begin

text \<open>
  Two ports joined by a line: the one end writes with \<open>writeBuffer\<close>, the other reads with
  \<open>readBuffer\<close>, in any order. The two ends are two port objects over one world; between their
  drivers the line keeps what was written and has not been read. The interfaces \<open>line_sender\<close> and
  \<open>line_receiver\<close> say what a transfer does to the line; both native builds provide both of them.
\<close>

section \<open>The ends of a line\<close>

text \<open>How much of what was to be written the driver took, by the exception that was thrown.\<close>

definition may_take :: "string \<Rightarrow> bytes \<times> throwable option \<Rightarrow> bytes \<Rightarrow> bool" where
  "may_take timeout_text e x \<longleftrightarrow> (case snd e of None \<Rightarrow> x = fst e
     | Some (TimeoutIOException m k) \<Rightarrow> (if m = timeout_text then x = take (nat k) (fst e)
         else \<exists>n. x = take n (fst e))
     | Some _ \<Rightarrow> \<exists>n. x = take n (fst e))"

lemma may_take_Some:
  assumes "\<forall>k. e = TimeoutIOException timeout_text k \<longrightarrow> k = n"
  shows "may_take timeout_text (d, Some e) (take (nat n) d)"
  using assms by (cases e) (auto simp: may_take_def)

locale line_sender =
  fixes wr :: "('w, 'c) jni writer" and can_send :: "('w, 'c) jni \<Rightarrow> bool" and wire :: "'w \<Rightarrow> bytes"
    and timeout_text :: string
  assumes send_plugged: "can_send s \<Longrightarrow> can_send (s\<lparr>world := w\<rparr>)"
    and sends: "can_send s \<Longrightarrow> 0 < n \<Longrightarrow> n \<le> int (length d) \<Longrightarrow> n < 2 ^ 31 \<Longrightarrow>
      \<exists>x s' y. wr d n s = Some (x, s') \<and> may_take timeout_text (take (nat n) d, pending s') y \<and>
        wire (world s') = wire (world s) @ y \<and> can_send (s'\<lparr>pending := None\<rparr>)"

locale line_receiver =
  fixes rd :: "('w, 'c) jni reader" and can_receive :: "('w, 'c) jni \<Rightarrow> bool" and wire :: "'w \<Rightarrow> bytes"
  assumes receive_plugged: "can_receive s \<Longrightarrow> can_receive (s\<lparr>world := w\<rparr>)"
    and receives: "can_receive s \<Longrightarrow> 0 < n \<Longrightarrow> n < 2 ^ 31 \<Longrightarrow>
      \<exists>k b s'. rd (replicate n 0) (int n) s = Some ((k, b), s') \<and>
        (pending s' = None \<longrightarrow> wire (world s) = take (nat k) b @ wire (world s')) \<and>
        (\<forall>m i. pending s' = Some (TimeoutIOException m i) \<longrightarrow> wire (world s') = wire (world s)) \<and>
        can_receive (s'\<lparr>pending := None\<rparr>)"

section \<open>Any sequence of transfers\<close>

text \<open>
  A write of given bytes at the one end, a read of at most so many at the other, and what came of
  it: the exception, if any, and the bytes that were to be written or that the reader got.
\<close>

datatype line_op = Transmit bytes | Fetch nat

datatype line_event = Transmitted bytes "throwable option" | Fetched bytes "throwable option"

fun line_op_ok :: "line_op \<Rightarrow> bool" where
  "line_op_ok (Transmit d) \<longleftrightarrow> 0 < length d \<and> length d < 2 ^ 31"
| "line_op_ok (Fetch n) \<longleftrightarrow> 0 < n \<and> n < 2 ^ 31"

fun exchange :: "('w, 'c) jni writer \<Rightarrow> ('w, 'd) jni reader \<Rightarrow> line_op list \<Rightarrow> ('w, 'c) jni \<Rightarrow> ('w, 'd) jni \<Rightarrow>
    (line_event list \<times> ('w, 'c) jni \<times> ('w, 'd) jni) option" where
  "exchange wr rd [] a b = Some ([], a, b)"
| "exchange wr rd (Transmit d # ops) a b =
     (case wr d (int (length d)) a of None \<Rightarrow> None
      | Some (x, a') \<Rightarrow> map_option (\<lambda>(es, t). (Transmitted d (pending a') # es, t))
          (exchange wr rd ops (a'\<lparr>pending := None\<rparr>) (b\<lparr>world := world a'\<rparr>)))"
| "exchange wr rd (Fetch n # ops) a b =
     (case rd (replicate n 0) (int n) b of None \<Rightarrow> None
      | Some ((k, buf), b') \<Rightarrow>
          map_option (\<lambda>(es, t). (Fetched (if pending b' = None then take (nat k) buf else []) (pending b') # es, t))
          (exchange wr rd ops (a\<lparr>world := world b'\<rparr>) (b'\<lparr>pending := None\<rparr>)))"

fun transmitted :: "line_event list \<Rightarrow> (bytes \<times> throwable option) list" where
  "transmitted [] = []"
| "transmitted (Transmitted d e # es) = (d, e) # transmitted es"
| "transmitted (Fetched d e # es) = transmitted es"

fun bytes_fetched :: "line_event list \<Rightarrow> bytes" where
  "bytes_fetched [] = []"
| "bytes_fetched (Transmitted d e # es) = bytes_fetched es"
| "bytes_fetched (Fetched d e # es) = d @ bytes_fetched es"

text \<open>A read that throws anything but the timeout can lose bytes.\<close>

fun lost :: "line_event \<Rightarrow> bool" where
  "lost (Fetched d (Some (TimeoutIOException m k))) = False"
| "lost (Fetched d (Some e)) = True"
| "lost _ = False"

lemma lost_Fetched: "lost (Fetched d e) \<longleftrightarrow> e \<noteq> None \<and> (\<forall>m k. e \<noteq> Some (TimeoutIOException m k))"
  by (cases "(Fetched d e)" rule: lost.cases) auto

definition in_order :: "string \<Rightarrow> ('w \<Rightarrow> bytes) \<Rightarrow> 'w \<Rightarrow> line_event list \<Rightarrow> 'w \<Rightarrow> bool" where
  "in_order txt wire w es w' \<longleftrightarrow> ((\<forall>e \<in> set es. \<not> lost e) \<longrightarrow>
     (\<exists>xs. list_all2 (may_take txt) (transmitted es) xs \<and> wire w @ concat xs = bytes_fetched es @ wire w'))"

lemma in_order_Transmitted:
  assumes "may_take txt (d, e) y" and "wire w1 = wire w @ y" and "in_order txt wire w1 es w'"
  shows "in_order txt wire w (Transmitted d e # es) w'"
proof -
  have "\<exists>xs. list_all2 (may_take txt) ((d, e) # transmitted es) xs \<and> wire w @ concat xs = bytes_fetched es @ wire w'"
    if "list_all2 (may_take txt) (transmitted es) xs" "wire w1 @ concat xs = bytes_fetched es @ wire w'" for xs
    using that assms(1,2) by (intro exI [of _ "y # xs"]) simp
  then show ?thesis using assms(3) by (auto simp: in_order_def)
qed

lemma in_order_Fetched:
  assumes "\<not> lost (Fetched d e) \<Longrightarrow> wire w = d @ wire w1" and "in_order txt wire w1 es w'"
  shows "in_order txt wire w (Fetched d e # es) w'"
  using assms by (auto simp: in_order_def)

locale line = line_sender wr can_send wire timeout_text + line_receiver rd can_receive wire
  for wr :: "('w, 'c) jni writer" and can_send wire timeout_text and rd :: "('w, 'd) jni reader" and can_receive
begin

lemma exchange_keeps:
  assumes "can_send a" and "can_receive b" and "world a = world b" and "\<forall>x \<in> set ops. line_op_ok x"
  shows "\<exists>es a' b'. exchange wr rd ops a b = Some (es, a', b') \<and> world a' = world b' \<and>
    in_order timeout_text wire (world a) es (world a')"
  using assms
proof (induction ops arbitrary: a b)
  case Nil
  then show ?case by (simp add: in_order_def)
next
  case (Cons op ops)
  show ?case
  proof (cases op)
    case (Transmit d)
    then have d: "0 < int (length d)" "int (length d) \<le> int (length d)" "int (length d) < 2 ^ 31"
      using Cons.prems(4) by simp_all
    obtain x a1 y where w: "wr d (int (length d)) a = Some (x, a1)" "may_take timeout_text (d, pending a1) y"
        "wire (world a1) = wire (world a) @ y" "can_send (a1\<lparr>pending := None\<rparr>)"
      using sends [OF Cons.prems(1) d] by auto
    have "\<exists>es a' b'. exchange wr rd ops (a1\<lparr>pending := None\<rparr>) (b\<lparr>world := world a1\<rparr>) = Some (es, a', b') \<and>
        world a' = world b' \<and> in_order timeout_text wire (world (a1\<lparr>pending := None\<rparr>)) es (world a')"
      by (rule Cons.IH) (use w(4) Cons.prems in \<open>simp_all add: receive_plugged\<close>)
    then show ?thesis
      using in_order_Transmitted [where wire = wire, OF w(2,3)] by (auto simp: Transmit w(1))
  next
    case (Fetch n)
    then have n: "0 < n" "n < 2 ^ 31" using Cons.prems(4) by simp_all
    obtain k buf b1 where r: "rd (replicate n 0) (int n) b = Some ((k, buf), b1)"
        "pending b1 = None \<longrightarrow> wire (world b) = take (nat k) buf @ wire (world b1)"
        "\<forall>m i. pending b1 = Some (TimeoutIOException m i) \<longrightarrow> wire (world b1) = wire (world b)"
        "can_receive (b1\<lparr>pending := None\<rparr>)"
      using receives [OF Cons.prems(2) n] by (elim exE conjE)
    let ?d = "if pending b1 = None then take (nat k) buf else []"
    have line: "wire (world a) = ?d @ wire (world b1)" if "\<not> lost (Fetched ?d (pending b1))"
      using that r(2,3) Cons.prems(3) by (cases "pending b1") (auto simp: lost_Fetched)
    have "\<exists>es a' b'. exchange wr rd ops (a\<lparr>world := world b1\<rparr>) (b1\<lparr>pending := None\<rparr>) = Some (es, a', b') \<and>
        world a' = world b' \<and> in_order timeout_text wire (world (a\<lparr>world := world b1\<rparr>)) es (world a')"
      by (rule Cons.IH) (use r(4) Cons.prems in \<open>simp_all add: send_plugged\<close>)
    then show ?thesis
      using in_order_Fetched [where wire = wire, OF line] by (auto simp: Fetch r(1))
  qed
qed

end

section \<open>The ends over POSIX\<close>

text \<open>
  What a driver accepts is put on the line, what it gives is taken from it; nothing else changes
  the line.
\<close>

definition sends_to :: "'w os \<Rightarrow> int \<Rightarrow> ('w \<Rightarrow> bytes) \<Rightarrow> bool" where
  "sends_to os fd wire \<longleftrightarrow> (\<forall>c x. case os c x of (r, y) \<Rightarrow> wire (snd y) = wire (snd x) @ write_data fd c r)"

definition gives_from :: "'w os \<Rightarrow> int \<Rightarrow> ('w \<Rightarrow> bytes) \<Rightarrow> bool" where
  "gives_from os fd wire \<longleftrightarrow> (\<forall>c x. case os c x of (r, y) \<Rightarrow> wire (snd x) = read_data fd c r @ wire (snd y))"

lemma sends_toD: "sends_to os fd wire \<Longrightarrow> os c (obj, w) = (r, obj', w') \<Longrightarrow> wire w' = wire w @ write_data fd c r"
  unfolding sends_to_def by (metis (mono_tags, lifting) case_prod_conv snd_conv)

lemma gives_fromD: "gives_from os fd wire \<Longrightarrow> os c (obj, w) = (r, obj', w') \<Longrightarrow> wire w = read_data fd c r @ wire w'"
  unfolding gives_from_def by (metis (mono_tags, lifting) case_prod_conv snd_conv)

text \<open>What two lists have before a common end, from the other side: adding to both does not change it.\<close>

fun cancel :: "'a list \<Rightarrow> 'a list \<Rightarrow> 'a list \<times> 'a list" where
  "cancel (x # xs) (y # ys) = (if x = y then cancel xs ys else (x # xs, y # ys))"
| "cancel xs ys = (xs, ys)"

lemma cancel_append: "cancel (zs @ xs) (zs @ ys) = cancel xs ys"
  by (induction zs) simp_all

lemma cancel_common: "\<exists>us. xs = us @ fst (cancel xs ys) \<and> ys = us @ snd (cancel xs ys)"
proof (induction xs ys rule: cancel.induct)
  case (1 x xs y ys)
  then show ?case
    by (cases "x = y") (auto intro: exI [of _ "x # us" for us])
qed simp_all

lemma cancel_added:
  assumes "cancel xs' (zs @ ys) = cancel xs ys"
  shows "xs' = zs @ xs"
proof -
  let ?p = "fst (cancel xs ys)" and ?q = "snd (cancel xs ys)"
  obtain us where "xs' = us @ ?p" "zs @ ys = us @ ?q" using cancel_common [of xs' "zs @ ys"] assms by auto
  moreover obtain vs where "xs = vs @ ?p" "ys = vs @ ?q" using cancel_common [of xs ys] by auto
  ultimately show ?thesis by (metis append.assoc append_same_eq)
qed

lemma sender_observer:
  assumes "sends_to os fd wire"
  shows "transfer_observer os (\<lambda>s. cancel (rev (wire (world s))) (rev (sent fd s)))"
  by unfold_locales (simp_all add: sends_toD [OF assms] cancel_append)

lemma receiver_observer:
  assumes "gives_from os fd wire"
  shows "transfer_observer os (\<lambda>s. received fd s @ wire (world s))"
  by unfold_locales (simp_all add: gives_fromD [OF assms])

lemma object_observer:
  assumes "quiet os"
  shows "transfer_observer os sps"
  by unfold_locales (auto simp: quietD [OF assms])

definition ready_to_send :: "posix \<Rightarrow> 'w os \<Rightarrow> ('w \<Rightarrow> bytes) \<Rightarrow> 'w pstate \<Rightarrow> bool" where
  "ready_to_send c os wire s \<longleftrightarrow> posix_write os \<and> quiet os \<and> sends_to os (spsw_fd (sps s)) wire \<and>
     writable_after_poll c os (spsw_fd (sps s)) \<and> pending s = None"

definition ready_to_receive :: "posix \<Rightarrow> 'w os \<Rightarrow> ('w \<Rightarrow> bytes) \<Rightarrow> 'w pstate \<Rightarrow> bool" where
  "ready_to_receive c os wire s \<longleftrightarrow> posix_read os \<and> quiet os \<and> gives_from os (spsw_fd (sps s)) wire \<and>
     readable_after_poll c os (spsw_fd (sps s)) \<and> pending s = None"

lemma ready_upd [simp]:
  "ready_to_send c os wire (s\<lparr>world := w\<rparr>) = ready_to_send c os wire s"
  "ready_to_receive c os wire (s\<lparr>world := w\<rparr>) = ready_to_receive c os wire s"
  by (simp_all add: ready_to_send_def ready_to_receive_def)

lemma transmit_step:
  assumes ready: "ready_to_send c os wire s" and n: "0 < n" "n \<le> int (length d)" "n < 2 ^ 31"
  obtains x s' y where "writeBuffer c os junk d n s = Some (x, s')"
    "may_take ''writeBuffer poll timeout'' (take (nat n) d, pending s') y" "wire (world s') = wire (world s) @ y" "ready_to_send c os wire (s'\<lparr>pending := None\<rparr>)"
proof -
  let ?fd = "spsw_fd (sps s)"
  note r = ready [unfolded ready_to_send_def]
  obtain x s' where w: "writeBuffer c os junk d n s = Some (x, s')"
    using writeBuffer_returns [OF _ n, of os c s junk] r by blast
  have obj: "sps s' = sps s" by (rule transfer_observer.writeBuffer_observed [OF object_observer w]) (use r in simp)
  obtain y where y: "sent ?fd s' = sent ?fd s @ y" "may_take ''writeBuffer poll timeout'' (take (nat n) d, pending s') y"
  proof -
    have "write_result ?fd (sent ?fd s) d n s x s'"
      using writeBuffer_result [OF _ n w] r by blast
    then consider (all) "pending s' = None" "put ?fd (sent ?fd s) d n n s'"
      | (some) e m where "pending s' = Some e" "put ?fd (sent ?fd s) d n m s'"
        "\<forall>k. e = TimeoutIOException ''writeBuffer poll timeout'' k \<longrightarrow> k = m"
      using r unfolding write_result_def is_pending_def by auto
    then show thesis
    proof cases
      case all
      then show thesis by (intro that) (simp_all add: may_take_def put_def)
    next
      case some
      then show thesis
        using may_take_Some [where d = "take (nat n) d", OF some(3)] by (intro that) (simp_all add: put_def min_absorb1 nat_mono)
    qed
  qed
  have "cancel (rev (wire (world s'))) (rev (sent ?fd s')) = cancel (rev (wire (world s))) (rev (sent ?fd s))"
    by (rule transfer_observer.writeBuffer_observed [OF sender_observer w]) (use r in simp)
  then have "rev (wire (world s')) = rev y @ rev (wire (world s))"
    unfolding y(1) rev_append by (rule cancel_added)
  then have "wire (world s') = wire (world s) @ y" by (metis rev_append rev_rev_ident)
  then show ?thesis using that [OF w y(2)] r obj by (simp add: ready_to_send_def)
qed

lemma fetch_step:
  assumes ready: "ready_to_receive c os wire s" and n: "0 < n" "n < 2 ^ 31"
  shows "\<exists>k b s'. readBuffer c os junk (replicate n 0) (int n) s = Some ((k, b), s') \<and>
    (pending s' = None \<longrightarrow> wire (world s) = take (nat k) b @ wire (world s')) \<and>
    (\<forall>m i. pending s' = Some (TimeoutIOException m i) \<longrightarrow> wire (world s') = wire (world s)) \<and>
    ready_to_receive c os wire (s'\<lparr>pending := None\<rparr>)"
proof -
  let ?fd = "spsw_fd (sps s)"
  note r = ready [unfolded ready_to_receive_def]
  have len: "0 < int n" "int n \<le> int (length (replicate n (0 :: byte)))" "int n < 2 ^ 31" using n by simp_all
  obtain k b s' where w: "readBuffer c os junk (replicate n 0) (int n) s = Some ((k, b), s')"
    using readBuffer_returns [OF _ len, of os c s junk] r by fast
  have obj: "sps s' = sps s" by (rule transfer_observer.readBuffer_observed [OF object_observer w]) (use r in simp)
  have "read_result ?fd (received ?fd s) (replicate n 0) (int n) (readable_after_poll c os ?fd) s (k, b) s'"
    using readBuffer_result [OF _ len w] r by blast
  then have ok: "pending s' = None \<Longrightarrow> received ?fd s' = received ?fd s @ take (nat k) b"
    and timeout: "pending s' = Some (TimeoutIOException m i) \<Longrightarrow> received ?fd s' = received ?fd s" for m i
    using r by (auto simp: read_result_def got_def is_pending_def)
  have line: "received ?fd s' @ wire (world s') = received ?fd s @ wire (world s)"
    by (rule transfer_observer.readBuffer_observed [OF receiver_observer w]) (use r in simp)
  show ?thesis
  proof (intro exI conjI impI allI, rule w)
    show "wire (world s) = take (nat k) b @ wire (world s')" if "pending s' = None"
      using line ok [OF that] by simp
    show "wire (world s') = wire (world s)" if "pending s' = Some (TimeoutIOException m i)" for m i
      using line timeout [OF that] by simp
    show "ready_to_receive c os wire (s'\<lparr>pending := None\<rparr>)"
      using r obj by (simp add: ready_to_receive_def)
  qed
qed

interpretation posix_line: line "writeBuffer c osA junk" "ready_to_send c osA wire" wire "''writeBuffer poll timeout''"
    "readBuffer c osB junk" "ready_to_receive c osB wire"
  for c osA osB junk wire
proof (unfold_locales, goal_cases)
  case (2 s n d)
  then show ?case by (rule transmit_step) blast
next
  case (4 s n)
  then show ?case by (rule fetch_step)
qed simp_all

section \<open>The ends on Windows\<close>

text \<open>
  What is written with \<open>WriteFile\<close> is on the line when its result is fetched, as many bytes as
  the result says; a read takes from the line the bytes its result says, no more than were asked
  for. Nothing else changes the line, or which operation is under way.
\<close>

definition win_sends :: "('w \<Rightarrow> bytes) \<Rightarrow> ('w \<Rightarrow> bytes) \<Rightarrow> wcall \<Rightarrow> wresp \<Rightarrow> 'w \<Rightarrow> 'w \<Rightarrow> bool" where
  "win_sends wire writing c r w w' \<longleftrightarrow> (case c of
       WriteFile h bs e \<Rightarrow> wire w' = wire w \<and> writing w' = bs
     | GetOverlappedResult h e \<Rightarrow> unat (w_dword r) \<le> length (writing w) \<and> wire w' = wire w @ take (unat (w_dword r)) (writing w)
     | _ \<Rightarrow> wire w' = wire w \<and> writing w' = writing w)"

definition win_gives :: "('w \<Rightarrow> bytes) \<Rightarrow> ('w \<Rightarrow> int) \<Rightarrow> wcall \<Rightarrow> wresp \<Rightarrow> 'w \<Rightarrow> 'w \<Rightarrow> bool" where
  "win_gives wire asking c r w w' \<longleftrightarrow> (case c of
       ReadFile h n e \<Rightarrow> wire w' = wire w \<and> asking w' = n
     | GetOverlappedResult h e \<Rightarrow> int (length (w_data r)) = uint (w_dword r) \<and> uint (w_dword r) \<le> asking w \<and>
         wire w = w_data r @ wire w'
     | _ \<Rightarrow> wire w' = wire w \<and> asking w' = asking w)"

lemma win_line_simps [simp]:
  "win_sends wire writing (WriteFile h bs e) r w w' \<longleftrightarrow> wire w' = wire w \<and> writing w' = bs"
  "win_sends wire writing (GetOverlappedResult h e) r w w' \<longleftrightarrow> unat (w_dword r) \<le> length (writing w) \<and>
     wire w' = wire w @ take (unat (w_dword r)) (writing w)"
  "win_sends wire writing CreateEventA r w w' \<longleftrightarrow> wire w' = wire w \<and> writing w' = writing w"
  "win_sends wire writing (WaitForSingleObject e) r w w' \<longleftrightarrow> wire w' = wire w \<and> writing w' = writing w"
  "win_sends wire writing (CloseHandle e) r w w' \<longleftrightarrow> wire w' = wire w \<and> writing w' = writing w"
  "win_gives wire asking (ReadFile h n e) r w w' \<longleftrightarrow> wire w' = wire w \<and> asking w' = n"
  "win_gives wire asking (GetOverlappedResult h e) r w w' \<longleftrightarrow> int (length (w_data r)) = uint (w_dword r) \<and>
     uint (w_dword r) \<le> asking w \<and> wire w = w_data r @ wire w'"
  "win_gives wire asking CreateEventA r w w' \<longleftrightarrow> wire w' = wire w \<and> asking w' = asking w"
  "win_gives wire asking (WaitForSingleObject e) r w w' \<longleftrightarrow> wire w' = wire w \<and> asking w' = asking w"
  "win_gives wire asking (CloseHandle e) r w w' \<longleftrightarrow> wire w' = wire w \<and> asking w' = asking w"
  by (simp_all add: win_sends_def win_gives_def)

definition obeys :: "'w wos \<Rightarrow> (wcall \<Rightarrow> wresp \<Rightarrow> 'w \<Rightarrow> 'w \<Rightarrow> bool) \<Rightarrow> bool" where
  "obeys os law \<longleftrightarrow> wquiet os \<and> (\<forall>c obj w. case os c (obj, w) of (r, obj', w') \<Rightarrow> law c r w w')"

lemma obeys_call:
  assumes "obeys os law" and "\<And>r w. law c r (world s) w \<Longrightarrow> Q r (wanswered c r (sps s) w s)"
  shows "wp (wincall os c) Q s"
proof (rule wincall_wp)
  fix r obj w assume call: "os c (sps s, world s) = (r, obj, w)"
  have "wquiet os" "case os c (sps s, world s) of (r, obj', w') \<Rightarrow> law c r (world s) w'"
    using assms(1) by (auto simp: obeys_def)
  then show "Q r (wanswered c r obj w s)"
    using assms(2) call wquietD [of os c "sps s" "world s" r obj w] by simp
qed

lemmas closed_or_throws = closed_or_def throw_AsynchronousCloseException_def throw_IOException_NativeError_def
  throw_InterruptedIOExceptionWithError_def throw_TimeoutIOException_def

lemma small_dword:
  fixes d :: "32 word"
  assumes "uint d < 2 ^ 31"
  shows "sint d = uint d" "int32 (uint d) = uint d" "nat (uint d) = unat d"
  using assms order_trans [OF _ uint_ge_0, of "- 2147483648" d]
  by (simp_all add: sint_uint signed_take_bit_int_eq_self int32_def)

text \<open>How many bytes a write has put on the line.\<close>

definition put_on_line :: "('w \<Rightarrow> bytes) \<Rightarrow> bytes \<Rightarrow> 'w wstate \<Rightarrow> 'w wstate \<Rightarrow> bool" where
  "put_on_line wire d s s' \<longleftrightarrow> sps s' = sps s \<and> (\<exists>k \<le> length d. wire (world s') = wire (world s) @ take k d \<and>
     (pending s' = None \<longrightarrow> k = length d) \<and>
     (\<forall>i. pending s' = Some (TimeoutIOException ''Timeout writeBuffer overlapped'' i) \<longrightarrow> i = int k))"

lemma put_on_line_may_take:
  assumes "put_on_line wire d s s'"
  shows "\<exists>y. may_take ''Timeout writeBuffer overlapped'' (d, pending s') y \<and> wire (world s') = wire (world s) @ y"
proof -
  obtain k where k: "wire (world s') = wire (world s) @ take k d" "pending s' = None \<longrightarrow> k = length d"
      "\<forall>i. pending s' = Some (TimeoutIOException ''Timeout writeBuffer overlapped'' i) \<longrightarrow> i = int k"
    using assms by (auto simp: put_on_line_def)
  have "may_take ''Timeout writeBuffer overlapped'' (d, pending s') (take k d)"
    using may_take_Some [of _ "''Timeout writeBuffer overlapped''" "int k" d] k(2,3)
    by (cases "pending s'") (auto simp: may_take_def)
  then show ?thesis using k(1) by blast
qed

lemma write_started_line:
  assumes os: "obeys os (win_sends wire writing)" and p: "pending s = None"
  shows "wp (write_started c os ev f) (\<lambda>ready s'. sps s' = sps s \<and> wire (world s') = wire (world s) \<and>
    writing (world s') = writing (world s) \<and>
    (if ready then pending s' = None else is_pending s' \<and> (\<forall>m i. pending s' \<noteq> Some (TimeoutIOException m i)))) s"
  unfolding write_started_def closed_or_throws
  by (auto intro!: obeys_call [OF os]
      simp: wp_bind wp_if wp_return wp_GetField wp_GetLastError wp_Throw wp_let wp_get p is_pending_def)

lemma overlapped_write_line:
  assumes os: "obeys os (win_sends wire writing)" and p: "pending s = None" and d: "writing (world s) = d" "length d < 2 ^ 31"
  shows "wp (overlapped_write c os h ev (int (length d))) (\<lambda>_. put_on_line wire d s) s"
proof -
  have put: "put_on_line wire d s s'" if "sps s' = sps s" "unat k \<le> length d" "wire (world s') = wire (world s) @ take (unat k) d"
      "pending s' = None \<longrightarrow> uint k = int (length d)"
      "\<forall>i. pending s' = Some (TimeoutIOException ''Timeout writeBuffer overlapped'' i) \<longrightarrow> i = int32 (uint k)"
    for s' and k :: "32 word"
  proof -
    have "uint k = int (unat k)" by simp
    moreover have "uint k < 2 ^ 31"
      unfolding uint_nat using order.strict_trans1 [OF that(2) d(2)] by (metis of_nat_less_iff of_nat_numeral of_nat_power)
    moreover have "uint k = int (length d) \<Longrightarrow> unat k = length d" by (simp add: unat_eq_nat_uint)
    ultimately show ?thesis
      using that small_dword(2) [of k] unfolding put_on_line_def by (intro conjI exI [of _ "unat k"]) auto
  qed
  have u: "uint32 (int (length d)) = int (length d)" using d by (simp add: uint32_id)
  show ?thesis
    unfolding overlapped_write_def closed_or_throws
    by (simp only: wp_bind, intro obeys_call [OF os])
      (auto intro!: obeys_call [OF os] put simp: wp_bind wp_if wp_return wp_GetField wp_GetLastError wp_Throw wp_let wp_get p u d)
qed

lemma transmit_win_wp:
  assumes os: "obeys os (win_sends wire writing)" and d: "length d < 2 ^ 31" and p: "pending s = None"
  shows "wp (writeBuffer_win c os d (int (length d))) (\<lambda>_. put_on_line wire d s) s"
proof -
  have u: "nat (uint32 (int (length d))) = length d" using d by (simp add: uint32_id)
  have rest: "wp (write_started c os ev f) (\<lambda>ready. wp (if \<not> ready then State_Monad.return 0
      else overlapped_write c os h ev (int (length d))) (\<lambda>_. put_on_line wire d s)) t"
    if t: "sps t = sps s" "wire (world t) = wire (world s)" "writing (world t) = d" "pending t = None" for t ev f h
  proof (rule wp_mono [OF write_started_line [OF os t(4)]], elim conjE)
    fix ready and t' :: "'a wstate"
    assume t': "sps t' = sps t" "wire (world t') = wire (world t)" "writing (world t') = writing (world t)"
      and r: "if ready then pending t' = None else is_pending t' \<and> (\<forall>m i. pending t' \<noteq> Some (TimeoutIOException m i))"
    show "wp (if \<not> ready then State_Monad.return 0 else overlapped_write c os h ev (int (length d))) (\<lambda>_. put_on_line wire d s) t'"
    proof (cases ready)
      case True
      have "wp (overlapped_write c os h ev (int (length d))) (\<lambda>_. put_on_line wire d t') t'"
        by (rule overlapped_write_line [OF os]) (use True r t t' d in simp_all)
      moreover have "put_on_line wire d t' = put_on_line wire d s"
        by (rule ext) (simp add: put_on_line_def t t')
      ultimately show ?thesis using True by simp
    next
      case False
      then show ?thesis using r t t' by (auto simp: wp_return put_on_line_def is_pending_def intro: exI [of _ 0])
    qed
  qed
  show ?thesis
    unfolding writeBuffer_win_def
    by (simp only: wp_bind wp_GetField, rule obeys_call [OF os], simp only: wp_bind, rule obeys_call [OF os],
        simp only: wp_bind, rule rest) (simp_all add: p u)
qed

lemma fetch_win_wp:
  assumes os: "obeys os (win_gives wire asking)" and n: "0 < n" "n < 2 ^ 31" and p: "pending s = None"
  shows "wp (readBuffer_win c os (replicate n 0) (int n)) (\<lambda>(k, b) s'. sps s' = sps s \<and>
    (pending s' = None \<longrightarrow> wire (world s) = take (nat k) b @ wire (world s')) \<and>
    (\<forall>m i. pending s' = Some (TimeoutIOException m i) \<longrightarrow> wire (world s') = wire (world s))) s"
proof -
  have u: "uint32 (int n) = int n" using n by (simp add: uint32_id)
  have data: "x = take (nat (sint d)) (store (replicate n 0) 0 x)"
    if "int (length x) = uint d" "uint d \<le> int n" for x :: bytes and d :: "32 word"
  proof -
    have "nat (sint d) = length x" using that n small_dword(1) [of d] by (metis nat_int of_nat_less_iff of_nat_numeral of_nat_power order.strict_trans1)
    then show ?thesis by (simp add: store_def)
  qed
  have none: "x = []" if "int (length x) = uint d" "\<not> 0 < d" for x :: bytes and d :: "32 word"
    using that by (simp add: word_gt_0)
  show ?thesis
    unfolding readBuffer_win_def read_started_def overlapped_read_def closed_or_throws
    by (simp only: wp_bind wp_GetField, intro obeys_call [OF os])
      (auto intro!: obeys_call [OF os]
        simp: wp_bind wp_if wp_return wp_GetField wp_GetLastError wp_Throw wp_let wp_get p u; (rule data | rule none); assumption)
qed

lemma writeBuffer_win_take:
  assumes "0 < n" and "n \<le> int (length d)" and "n < 2 ^ 31"
  shows "writeBuffer_win c os (take (nat n) d) (int (min (length d) (nat n))) = writeBuffer_win c os d n"
  using assms by (simp add: writeBuffer_win_def uint32_id min_absorb2)

definition can_send_win :: "'w wos \<Rightarrow> ('w \<Rightarrow> bytes) \<Rightarrow> ('w \<Rightarrow> bytes) \<Rightarrow> 'w wstate \<Rightarrow> bool" where
  "can_send_win os wire writing s \<longleftrightarrow> obeys os (win_sends wire writing) \<and> pending s = None"

definition can_receive_win :: "'w wos \<Rightarrow> ('w \<Rightarrow> bytes) \<Rightarrow> ('w \<Rightarrow> int) \<Rightarrow> 'w wstate \<Rightarrow> bool" where
  "can_receive_win os wire asking s \<longleftrightarrow> obeys os (win_gives wire asking) \<and> pending s = None"

interpretation win_line: line "windows_write c osA" "can_send_win osA wire writing" wire "''Timeout writeBuffer overlapped''"
    "windows_read c osB" "can_receive_win osB wire asking"
  for c osA osB wire writing asking
proof (unfold_locales, goal_cases)
  case (2 s n d)
  then have "wp (writeBuffer_win c osA (take (nat n) d) (int (length (take (nat n) d)))) (\<lambda>_. put_on_line wire (take (nat n) d) s) s"
    by (intro transmit_win_wp [where writing = writing]) (simp_all add: can_send_win_def)
  then obtain x s' where w: "windows_write c osA d n s = Some (x, s')" "put_on_line wire (take (nat n) d) s s'"
    using writeBuffer_win_take [OF 2(2-4), of c osA] 2(2) by (auto simp: wp_def windows_write_def split: prod.splits)
  obtain y where "may_take ''Timeout writeBuffer overlapped'' (take (nat n) d, pending s') y" "wire (world s') = wire (world s) @ y"
    using put_on_line_may_take [OF w(2)] by blast
  then show ?case
    using w(1) 2(1) by (intro exI [of _ x] exI [of _ s'] exI [of _ y]) (simp add: can_send_win_def)
next
  case (4 s n)
  then have "wp (readBuffer_win c osB (replicate n 0) (int n)) (\<lambda>(k, b) s'. sps s' = sps s \<and>
    (pending s' = None \<longrightarrow> wire (world s) = take (nat k) b @ wire (world s')) \<and>
    (\<forall>m i. pending s' = Some (TimeoutIOException m i) \<longrightarrow> wire (world s') = wire (world s))) s"
    by (intro fetch_win_wp [where asking = asking]) (simp_all add: can_receive_win_def)
  then show ?case
    using 4(1) by (auto simp: wp_def windows_read_def can_receive_win_def split: prod.splits)
qed (simp_all add: can_send_win_def can_receive_win_def)

text \<open>The two systems at the two ends.\<close>

interpretation win_posix_line: line "windows_write cw osA" "can_send_win osA wire writing" wire "''Timeout writeBuffer overlapped''"
    "readBuffer c osB junk" "ready_to_receive c osB wire"
  for cw osA wire writing c osB junk
  by unfold_locales

interpretation posix_win_line: line "writeBuffer c osA junk" "ready_to_send c osA wire" wire "''writeBuffer poll timeout''"
    "windows_read cw osB" "can_receive_win osB wire asking"
  for c osA junk wire cw osB asking
  by unfold_locales

section \<open>Properties\<close>

text \<open>The two ends of a line: it takes four bytes at a time, and gives what it has.\<close>

definition writing_end :: "bytes os" where
  "writing_end c x = (case x of (obj, q) \<Rightarrow> (case c of
       Write fd bs \<Rightarrow> (if fd = 3 then (resp0\<lparr>r_ret := int (min 4 (length bs))\<rparr>, obj, q @ take 4 bs) else (resp0, obj, q))
     | Poll fds t \<Rightarrow> (resp0\<lparr>r_ret := 1, r_revents0 := snd (hd fds)\<rparr>, obj, q)
     | _ \<Rightarrow> (resp0, obj, q)))"

definition reading_end :: "bytes os" where
  "reading_end c x = (case x of (obj, q) \<Rightarrow> (case c of
       Read fd n \<Rightarrow> (if fd = 3 then (resp0\<lparr>r_ret := int (min n (length q)), r_data := take n q\<rparr>, obj, drop n q) else (resp0, obj, q))
     | Poll fds t \<Rightarrow> (resp0\<lparr>r_ret := (if q = [] then 0 else 1), r_revents0 := snd (hd fds)\<rparr>, obj, q)
     | _ \<Rightarrow> (resp0, obj, q)))"

lemma line_ends:
  "ready_to_send linux_consts writing_end (\<lambda>q. q) (example_state q)"
  "ready_to_receive linux_consts reading_end (\<lambda>q. q) (example_state q)"
proof -
  have "posix_write writing_end" "quiet writing_end" "writable_after_poll linux_consts writing_end 3"
    by (auto simp: posix_write_def quiet_def writable_after_poll_def writing_end_def resp0_def Let_def split: pcall.splits)
  moreover have "sends_to writing_end 3 (\<lambda>q. q)"
    by (auto simp: sends_to_def writing_end_def write_data_def resp0_def min_def split: pcall.splits)
  ultimately show "ready_to_send linux_consts writing_end (\<lambda>q. q) (example_state q)"
    by (simp add: ready_to_send_def open_sps_def)
  have "posix_read reading_end" "quiet reading_end" "readable_after_poll linux_consts reading_end 3"
    by (auto simp: posix_read_def quiet_def readable_after_poll_def reading_end_def resp0_def Let_def split: pcall.splits)
  moreover have "gives_from reading_end 3 (\<lambda>q. q)"
    by (auto simp: gives_from_def reading_end_def read_data_def resp0_def split: pcall.splits)
  ultimately show "ready_to_receive linux_consts reading_end (\<lambda>q. q) (example_state q)"
    by (simp add: ready_to_receive_def open_sps_def)
qed

text \<open>
  C6: two ports joined by a line that keeps what it is given, over any sequence of writes at the
  one end and reads at the other. Every transfer returns, and unless a read has thrown something
  else than its timeout, the bytes the reads gave, and then those still on the line, are those that
  were on the line and then what the writes have put on it, in order: all of a write that returned, as many bytes
  as its exception says when it ran into the timeout of \<open>poll\<close>, and some of the first bytes of one that
  failed otherwise.
\<close>

theorem line_in_order:
  assumes "ready_to_send c osA wire a" and "ready_to_receive c osB wire b" and "world a = world b"
    and "\<forall>x \<in> set ops. line_op_ok x"
  shows "\<exists>es a' b'. exchange (writeBuffer c osA junk) (readBuffer c osB junk) ops a b = Some (es, a', b') \<and> world a' = world b' \<and>
    ((\<forall>e \<in> set es. \<not> lost e) \<longrightarrow> (\<exists>xs. list_all2 (may_take ''writeBuffer poll timeout'') (transmitted es) xs \<and>
      wire (world a) @ concat xs = bytes_fetched es @ wire (world a')))"
  using posix_line.exchange_keeps [OF assms, of junk] unfolding in_order_def .

lemma line_run:
  "case exchange (writeBuffer linux_consts writing_end (0, 0)) (readBuffer linux_consts reading_end (0, 0)) [Transmit [1, 2, 3, 4, 5, 6], Fetch 4, Transmit [7], Fetch 9, Fetch 1]
      (example_state []) (example_state []) of None \<Rightarrow> False
    | Some (es, a', b') \<Rightarrow> \<not> list_ex lost es \<and>
      transmitted es = [([1, 2, 3, 4, 5, 6], None), ([7], None)] \<and> world a' = []"
  by code_simp

theorem line_in_order_witness:
  "case exchange (writeBuffer linux_consts writing_end (0, 0)) (readBuffer linux_consts reading_end (0, 0)) [Transmit [1, 2, 3, 4, 5, 6], Fetch 4, Transmit [7], Fetch 9, Fetch 1]
      (example_state []) (example_state []) of None \<Rightarrow> False
    | Some (es, a', b') \<Rightarrow> bytes_fetched es = [1, 2, 3, 4, 5, 6, 7]"
proof -
  let ?ops = "[Transmit [1, 2, 3, 4, 5, 6], Fetch 4, Transmit [7], Fetch 9, Fetch 1]"
  have ops: "\<forall>x \<in> set ?ops. line_op_ok x" by simp
  note line = line_in_order [OF line_ends refl ops, where junk = "(0, 0)"]
  obtain es a' b' where run: "exchange (writeBuffer linux_consts writing_end (0, 0)) (readBuffer linux_consts reading_end (0, 0)) ?ops (example_state []) (example_state []) = Some (es, a', b')"
    and order: "(\<forall>e \<in> set es. \<not> lost e) \<longrightarrow> (\<exists>xs. list_all2 (may_take ''writeBuffer poll timeout'') (transmitted es) xs \<and>
      [] @ concat xs = bytes_fetched es @ world a')"
    using line [unfolded example_state_sel] by blast
  have "\<not> list_ex lost es" "transmitted es = [([1, 2, 3, 4, 5, 6], None), ([7], None)]" "world a' = []"
    using line_run unfolding run by simp_all
  then have "bytes_fetched es = [1, 2, 3, 4, 5, 6, 7]"
    using order by (auto simp: may_take_def list_all2_Cons1 list_ex_iff)
  then show ?thesis unfolding run by simp
qed

text \<open>
  C25: the same with a Windows port at the writing end and a POSIX port at the other: no byte is
  lost, doubled or out of order between the two systems.
\<close>

theorem line_between_systems:
  assumes "can_send_win osA wire writing a" and "ready_to_receive c osB wire b" and "world a = world b"
    and "\<forall>x \<in> set ops. line_op_ok x"
  shows "\<exists>es a' b'. exchange (windows_write cw osA) (readBuffer c osB junk) ops a b = Some (es, a', b') \<and> world a' = world b' \<and>
    ((\<forall>e \<in> set es. \<not> lost e) \<longrightarrow> (\<exists>xs. list_all2 (may_take ''Timeout writeBuffer overlapped'') (transmitted es) xs \<and>
      wire (world a) @ concat xs = bytes_fetched es @ wire (world a')))"
  using win_posix_line.exchange_keeps [OF assms, of cw junk] unfolding in_order_def .

text \<open>A Windows port that takes what it is given when the result is fetched, and the other end.\<close>

definition writing_port :: "(bytes \<times> bytes) wos" where
  "writing_port c x = (case x of (obj, q, d) \<Rightarrow> (case c of
       CreateEventA \<Rightarrow> (wresp0\<lparr>w_ret := 7\<rparr>, obj, q, d)
     | WriteFile h bs e \<Rightarrow> (wresp0\<lparr>w_ret := 0, w_error := 997\<rparr>, obj, q, bs)
     | WaitForSingleObject e \<Rightarrow> (wresp0\<lparr>w_ret := 0\<rparr>, obj, q, d)
     | GetOverlappedResult h e \<Rightarrow>
         (wresp0\<lparr>w_dword := of_nat (length d)\<rparr>, obj, q @ take (unat (of_nat (length d) :: 32 word)) d, d)
     | _ \<Rightarrow> (wresp0, obj, q, d)))"

definition reading_end2 :: "(bytes \<times> bytes) os" where
  "reading_end2 c x = (case x of (obj, q, d) \<Rightarrow> (case reading_end c (obj, q) of (r, obj', q') \<Rightarrow> (r, obj', q', d)))"

lemma mixed_ends:
  "can_send_win writing_port fst snd (windows_state w)"
  "ready_to_receive linux_consts reading_end2 fst (example_state w)"
proof -
  have "unat (of_nat n :: 32 word) \<le> n" for n
    by (simp add: unat_of_nat)
  then have "obeys writing_port (win_sends fst snd)"
    by (auto simp: obeys_def wquiet_def win_sends_def writing_port_def wresp0_def split: wcall.splits)
  then show "can_send_win writing_port fst snd (windows_state w)" by (simp add: can_send_win_def)
  have "posix_read reading_end2" "quiet reading_end2" "readable_after_poll linux_consts reading_end2 3"
    by (auto simp: posix_read_def quiet_def readable_after_poll_def reading_end2_def reading_end_def resp0_def Let_def split: pcall.splits)
  moreover have "gives_from reading_end2 3 fst"
    by (auto simp: gives_from_def reading_end2_def reading_end_def read_data_def resp0_def split: pcall.splits)
  ultimately show "ready_to_receive linux_consts reading_end2 fst (example_state w)"
    by (simp add: ready_to_receive_def open_sps_def)
qed

lemma mixed_run:
  "case exchange (windows_write windows_consts writing_port) (readBuffer linux_consts reading_end2 (0, 0))
      [Transmit [1, 2, 3], Fetch 2, Transmit [4], Fetch 9] (windows_state ([], [])) (example_state ([], [])) of None \<Rightarrow> False
    | Some (es, a', b') \<Rightarrow> \<not> list_ex lost es \<and> transmitted es = [([1, 2, 3], None), ([4], None)] \<and> fst (world a') = []"
  by code_simp

theorem line_between_systems_witness:
  "case exchange (windows_write windows_consts writing_port) (readBuffer linux_consts reading_end2 (0, 0))
      [Transmit [1, 2, 3], Fetch 2, Transmit [4], Fetch 9] (windows_state ([], [])) (example_state ([], [])) of None \<Rightarrow> False
    | Some (es, a', b') \<Rightarrow> bytes_fetched es = [1, 2, 3, 4]"
proof -
  let ?ops = "[Transmit [1, 2, 3], Fetch 2, Transmit [4], Fetch 9]"
  have ops: "\<forall>x \<in> set ?ops. line_op_ok x" by simp
  have w: "world (windows_state w) = world (example_state w)" for w :: "bytes \<times> bytes" by simp
  note line = line_between_systems [OF mixed_ends w ops, where cw = windows_consts and junk = "(0, 0)"]
  obtain es a' b' where run: "exchange (windows_write windows_consts writing_port) (readBuffer linux_consts reading_end2 (0, 0))
      ?ops (windows_state ([], [])) (example_state ([], [])) = Some (es, a', b')"
    and order: "(\<forall>e \<in> set es. \<not> lost e) \<longrightarrow> (\<exists>xs. list_all2 (may_take ''Timeout writeBuffer overlapped'') (transmitted es) xs \<and>
      fst (world (windows_state ([] :: bytes, [] :: bytes))) @ concat xs = bytes_fetched es @ fst (world a'))"
    using line by blast
  have "\<not> list_ex lost es" "transmitted es = [([1, 2, 3], None), ([4], None)]" "fst (world a') = []"
    using mixed_run unfolding run by simp_all
  then have "bytes_fetched es = [1, 2, 3, 4]"
    using order by (auto simp: may_take_def list_all2_Cons1 list_ex_iff)
  then show ?thesis unfolding run by simp
qed

end
