(* ===== verification/AsyncPort.thy ===== *)
theory AsyncPort
  imports JavaChannel NullModem
begin

text \<open>
  \<open>AsyncSerialPortSocketThreadPoolWrapper\<close>: the asynchronous methods over a port. A method checks
  its buffer and hands a task to the executor; the task makes the transfer of \<open>JavaChannel\<close> and
  tells what came of it to callbacks or a \<open>Future\<close>.

  A task is data here, a \<open>job\<close>: the transfer to make, the buffer, and what to do with the outcome. This
  theory runs a job alone; threads that run several of them at once are in \<open>AsyncPool\<close>.
\<close>

section \<open>Telling the caller\<close>

text \<open>What a callback gets: the exception itself, or a new one with this cause.\<close>

datatype failure = Thrown java_exc | Caused_by java_exc

definition as_IOException :: "java_exc \<Rightarrow> failure" where
  "as_IOException e = (if is_IOException e then Thrown e else Caused_by e)"

definition is_Error :: "java_exc \<Rightarrow> bool" where
  "is_Error e = (case e of
       Native t \<Rightarrow> (case t of OutOfMemoryError m \<Rightarrow> True | NoClassDefFoundError m \<Rightarrow> True
         | NoSuchMethodError m \<Rightarrow> True | NoSuchFieldError m \<Rightarrow> True | _ \<Rightarrow> False)
     | UnsatisfiedLinkError \<Rightarrow> True
     | _ \<Rightarrow> False)"

definition as_Exception :: "java_exc \<Rightarrow> failure" where
  "as_Exception e = (if is_Error e then Caused_by e else Thrown e)"

text \<open>
  A callback works on the state and the buffer, and may throw. \<open>'b told\<close> is one call: the buffer at
  that moment and the failure, if that is what it was called with. A missing callback is None.
\<close>

type_synonym 's callback = "('s, java_exc option) state"
type_synonym 'b told = "'b \<times> failure option"
type_synonym ('s, 'b) telling = "('s \<times> 'b, java_exc option \<times> 'b told list) state"

definition accept :: "('s \<times> 'b) callback option \<Rightarrow> failure option \<Rightarrow> ('s, 'b) telling" where
  "accept cb e = (case cb of None \<Rightarrow> State_Monad.return (None, [])
     | Some f \<Rightarrow> do {
         (s, b) \<leftarrow> State_Monad.get;
         thrown \<leftarrow> f;
         State_Monad.return (thrown, [(b, e)])
       })"

text \<open>
  The body of a task behind the transfer: the two \<open>catch\<close> blocks also get what the callback for the
  success throws.
\<close>

definition tell :: "java_exc + 'v \<Rightarrow> ('s, 'b) telling \<Rightarrow> (failure \<Rightarrow> ('s, 'b) telling) \<Rightarrow> ('s, 'b) telling" where
  "tell r ok failed = do {
     (thrown, told) \<leftarrow> (case r of Inl e \<Rightarrow> State_Monad.return (Some e, []) | Inr _ \<Rightarrow> ok);
     case thrown of None \<Rightarrow> State_Monad.return (None, told)
     | Some e \<Rightarrow> do {
         (thrown', told') \<leftarrow> failed (as_IOException e);
         State_Monad.return (thrown', told @ told')
       }
   }"

definition tell_consumers ::
  "('s \<times> 'b) callback option \<Rightarrow> (failure \<Rightarrow> ('s \<times> 'b) callback) option \<Rightarrow> java_exc + 'v \<Rightarrow> ('s, 'b) telling" where
  "tell_consumers callbackOnSuccess callbackOnFailure r = tell r (accept callbackOnSuccess None)
     (\<lambda>e. accept (map_option (\<lambda>f. f e) callbackOnFailure) (Some e))"

definition tell_biconsumer :: "(failure option \<Rightarrow> ('s \<times> 'b) callback) option \<Rightarrow> java_exc + 'v \<Rightarrow> ('s, 'b) telling" where
  "tell_biconsumer callback r = tell r (accept (map_option (\<lambda>f. f None) callback) None)
     (\<lambda>e. accept (map_option (\<lambda>f. f (Some e)) callback) (Some e))"

text \<open>What a \<open>Future\<close> gets.\<close>

definition future_result :: "java_exc + 'v \<Rightarrow> ('s \<times> 'b, failure + 'b) state" where
  "future_result r = (case r of Inl e \<Rightarrow> State_Monad.return (Inl (as_Exception e))
     | Inr _ \<Rightarrow> do {
         (s, b) \<leftarrow> State_Monad.get;
         State_Monad.return (Inr b)
       })"

section \<open>The methods\<close>

text \<open>A task, and where it runs.\<close>

datatype direction = Reading | Writing

datatype ('s, 'b, 'r) job = Job (job_direction: direction) (job_buffer: 'b) (job_tell: "java_exc + int \<Rightarrow> ('s \<times> 'b, 'r) state")

datatype runner = Executor | New_thread

type_synonym ('s, 'b, 'r) submission = "java_exc + runner \<times> ('s, 'b, 'r) job"

definition readAsync_consumers ::
  "('s \<times> 'b) callback option \<Rightarrow> (failure \<Rightarrow> ('s \<times> 'b) callback) option \<Rightarrow> 'b option
     \<Rightarrow> ('s, 'b, java_exc option \<times> 'b told list) submission" where
  "readAsync_consumers callbackOnSuccess callbackOnFailure dst = (case dst of None \<Rightarrow> Inl NullPointerException
     | Some b \<Rightarrow> Inr (Executor, Job Reading b (tell_consumers callbackOnSuccess callbackOnFailure)))"

definition readAsync_biconsumer ::
  "(failure option \<Rightarrow> ('s \<times> 'b) callback) option \<Rightarrow> 'b option
     \<Rightarrow> ('s, 'b, java_exc option \<times> 'b told list) submission" where
  "readAsync_biconsumer callback dst = (case dst of None \<Rightarrow> Inl NullPointerException
     | Some b \<Rightarrow> Inr (Executor, Job Reading b (tell_biconsumer callback)))"

definition readAsync :: "'b option \<Rightarrow> ('s, 'b, failure + 'b) submission" where
  "readAsync dst = (case dst of None \<Rightarrow> Inl NullPointerException
     | Some b \<Rightarrow> Inr (Executor, Job Reading b future_result))"

definition writeAsync :: "'b option \<Rightarrow> ('s, 'b, failure + 'b) submission" where
  "writeAsync src = (case src of None \<Rightarrow> Inl NullPointerException
     | Some b \<Rightarrow> Inr (Executor, Job Writing b future_result))"

definition writeAsync_consumers ::
  "('s \<times> 'b) callback option \<Rightarrow> (failure \<Rightarrow> ('s \<times> 'b) callback) option \<Rightarrow> 'b option
     \<Rightarrow> ('s, 'b, java_exc option \<times> 'b told list) submission" where
  "writeAsync_consumers callbackOnSuccess callbackOnFailure src = (case src of None \<Rightarrow> Inl NullPointerException
     | Some b \<Rightarrow> Inr (New_thread, Job Writing b (tell_consumers callbackOnSuccess callbackOnFailure)))"

definition writeAsync_biconsumer ::
  "(failure option \<Rightarrow> ('s \<times> 'b) callback) option \<Rightarrow> 'b option
     \<Rightarrow> ('s, 'b, java_exc option \<times> 'b told list) submission" where
  "writeAsync_biconsumer callback src = (case src of None \<Rightarrow> Inl NullPointerException
     | Some b \<Rightarrow> Inr (Executor, Job Writing b (tell_biconsumer callback)))"

text \<open>A job that runs alone; its transfer is \<open>read\<close> or \<open>write\<close> of the port.\<close>

definition run_job ::
  "('b \<Rightarrow> ('s, int, 'b) call) \<Rightarrow> ('b \<Rightarrow> ('s, int, 'b) call) \<Rightarrow> ('s, 'b, 'r) job \<Rightarrow> 's \<Rightarrow> ('r \<times> 's \<times> 'b) option" where
  "run_job rd wr j s = (case (case job_direction j of Reading \<Rightarrow> rd | Writing \<Rightarrow> wr) (job_buffer j) s of None \<Rightarrow> None
     | Some ((r, b), s') \<Rightarrow> Some (run_state (job_tell j r) (s', b)))"

section \<open>Who is told what\<close>

text \<open>A callback that does not touch the port; it may change the buffer, and it may throw.\<close>

definition leaves_port :: "('s \<times> 'b) callback \<Rightarrow> bool" where
  "leaves_port f \<longleftrightarrow> (\<forall>s b. fst (snd (run_state f (s, b))) = s)"

text \<open>
  The calls of a callback of two arguments after a transfer with result \<open>r\<close> that has left the buffer
  \<open>b\<close>. The first call tells the outcome. There is a second one exactly when that was a success and the
  callback has thrown, and it is told its own exception.
\<close>

definition told_biconsumer ::
  "(failure option \<Rightarrow> ('s \<times> 'b) callback) \<Rightarrow> java_exc + 'v \<Rightarrow> 's \<times> 'b \<Rightarrow> 'b told list" where
  "told_biconsumer callback r x = (case r of Inl e \<Rightarrow> [(snd x, Some (as_IOException e))]
     | Inr _ \<Rightarrow> (case run_state (callback None) x of (thrown, y) \<Rightarrow>
         (snd x, None) # (case thrown of None \<Rightarrow> [] | Some e \<Rightarrow> [(snd y, Some (as_IOException e))])))"

lemma tell_biconsumer_told:
  "snd (fst (run_state (tell_biconsumer (Some callback) r) x)) = told_biconsumer callback r x"
  by (cases r) (auto simp: tell_biconsumer_def tell_def accept_def told_biconsumer_def split: prod.splits option.splits)

lemma tell_biconsumer_port:
  assumes "\<forall>e. leaves_port (callback e)"
  shows "fst (snd (run_state (tell_biconsumer (Some callback) r) x)) = fst x"
proof -
  have cb: "fst (snd (run_state (callback e) y)) = fst y" for e y
    using assms by (cases y) (simp add: leaves_port_def)
  show ?thesis
    by (cases r) (simp_all add: tell_biconsumer_def tell_def accept_def cb case_prod_beta split: option.split)
qed

section \<open>Writes over a line\<close>

definition buffer_ok :: "byte_buffer \<Rightarrow> bool" where
  "buffer_ok b \<longleftrightarrow> 0 \<le> bb_position b \<and> bb_position b \<le> bb_limit b \<and> bb_limit b \<le> int (length (bb_bytes b)) \<and> bb_limit b < 2 ^ 31"

definition bb_data :: "byte_buffer \<Rightarrow> bytes" where
  "bb_data b = take (nat (bb_remaining b)) (drop (nat (bb_position b)) (bb_bytes b))"

definition nobody_interrupts :: "'s java_env \<Rightarrow> bool" where
  "nobody_interrupts env \<longleftrightarrow> (\<forall>s ch. ch_status (je_others env s ch) \<longrightarrow> ch_status ch)"

lemma may_take_prefix: "may_take txt (d, e) y \<Longrightarrow> \<exists>n. y = take n d"
  by (auto simp: may_take_def split: option.splits throwable.splits if_splits intro: exI [of _ "length d"])

text \<open>What a write has put on the line: all of the buffer if it returned, else some first bytes.\<close>

definition has_put :: "byte_buffer \<Rightarrow> java_exc + 'v \<Rightarrow> bytes \<Rightarrow> bool" where
  "has_put b r y \<longleftrightarrow> (case r of Inr _ \<Rightarrow> y = bb_data b | Inl _ \<Rightarrow> \<exists>n. y = take n (bb_data b))"

lemma end_io_status: "end_io completed ch = (thrown, ch') \<Longrightarrow> ch_status ch' = ch_status ch"
  by (auto simp: end_io_def split: if_splits)

context line_sender
begin

lemma channel_write_sends:
  assumes s: "can_send s" and env: "nobody_interrupts env" and ch: "\<not> ch_status ch" and b: "buffer_ok b"
  shows "\<exists>r b' s' ch' y. channel_write env wr b (s, ch) = Some ((r, b'), (s', ch')) \<and> can_send s' \<and> \<not> ch_status ch' \<and>
    wire (world s') = wire (world s) @ y \<and> has_put b r y"
proof (cases "0 < bb_remaining b")
  case False
  then show ?thesis using s ch b
    by (auto simp: channel_write_def has_put_def bb_data_def buffer_ok_def bb_remaining_def)
next
  case True
  let ?d = "drop (nat (bb_position b)) (bb_bytes b)" and ?n = "bb_remaining b"
  have n: "?n \<le> int (length ?d)" "?n < 2 ^ 31" using b True by (auto simp: buffer_ok_def bb_remaining_def)
  obtain x s1 y where w: "wr ?d ?n s = Some (x, s1)" "may_take timeout_text (bb_data b, pending s1) y"
      "wire (world s1) = wire (world s) @ y" "can_send (s1\<lparr>pending := None\<rparr>)"
    using sends [OF s True n] unfolding bb_data_def by blast
  let ?s = "s1\<lparr>pending := None\<rparr>"
  have "\<exists>r u ch'. blocking_io env rethrow (native (no_array (write_ArgsOK wr (bb_bytes b) (bb_position b) ?n))) (s, ch) =
      Some ((r, u), (?s, ch')) \<and> \<not> ch_status ch' \<and> (\<forall>v. r = Inr v \<longrightarrow> pending s1 = None)"
    using env ch end_io_status unfolding nobody_interrupts_def
    by (fastforce simp: blocking_io_def native_def no_array_def write_ArgsOK_def w(1) rethrow_def Let_def split: prod.splits option.splits)
  then obtain r u ch' where io: "blocking_io env rethrow (native (no_array (write_ArgsOK wr (bb_bytes b) (bb_position b) ?n))) (s, ch) =
      Some ((r, u), (?s, ch'))" "\<not> ch_status ch'" "\<forall>v. r = Inr v \<longrightarrow> pending s1 = None" by blast
  obtain r' b' where run: "channel_write env wr b (s, ch) = Some ((r', b'), (?s, ch'))" "\<forall>v. r' = Inr v \<longrightarrow> isl r = False"
    using True io(1) by (cases r; cases "set_position (bb_position b + projr r) b") (auto simp: channel_write_def)
  have "has_put b r' y"
  proof (cases r')
    case (Inr v)
    then have "pending s1 = None" using run(2) io(3) by (cases r) auto
    then show ?thesis using w(2) Inr by (simp add: has_put_def may_take_def)
  qed (use may_take_prefix [OF w(2)] in \<open>simp add: has_put_def\<close>)
  then show ?thesis using run(1) w(3,4) io(2) by (intro exI [of _ r'] exI [of _ b'] exI [of _ ?s] exI [of _ ch'] exI [of _ y]) simp
qed

end

section \<open>Reads\<close>

text \<open>
  Asynchronous reads from a POSIX port: what the callback is told is the outcome of the read, and after a
  success the buffer it gets has the bytes that were received behind the old position, and the position
  behind them.
\<close>

theorem readAsync_delivers:
  assumes posix: "posix_read os" "posix_write os" and ch: "\<not> ch_status ch" and b: "buffer_ok b" "0 < bb_remaining b"
    and cb: "\<forall>e. leaves_port (callback e)"
    and job: "readAsync_biconsumer (Some callback) (Some b) = Inr (w, j)"
    and run: "run_job (channel_read env (readBuffer c os junk)) wr j (s, ch) = Some ((thrown, told), ((s', ch'), b'))"
  shows "\<exists>r b1. told = told_biconsumer callback r ((s', ch'), b1) \<and> (\<forall>n. r = Inr n \<longrightarrow> (\<exists>d. length d = nat n \<and>
    received (spsw_fd (sps s)) s' = received (spsw_fd (sps s)) s @ d \<and>
    bb_position b1 = bb_position b + n \<and> bb_bytes b1 = store (bb_bytes b) (nat (bb_position b)) d))"
proof -
  have j: "j = Job Reading b (tell_biconsumer (Some callback))" using job by (simp add: readAsync_biconsumer_def)
  obtain r b1 x where io: "channel_read env (readBuffer c os junk) b (s, ch) = Some ((r, b1), x)"
    and tell: "run_state (tell_biconsumer (Some callback) r) (x, b1) = ((thrown, told), ((s', ch'), b'))"
    using run by (auto simp: run_job_def j split: option.splits)
  have x: "x = (s', ch')" using tell_biconsumer_port [OF cb, of r "(x, b1)"] by (simp add: tell)
  have told: "told = told_biconsumer callback r ((s', ch'), b1)"
    using tell_biconsumer_told [of callback r "(x, b1)", unfolded tell] x by simp
  have bb: "0 \<le> bb_position b" "bb_limit b \<le> int (length (bb_bytes b))" "bb_limit b < 2 ^ 31"
    using b(1) by (auto simp: buffer_ok_def)
  have ready: "termios_ready os (spsw_fd (sps s)) (bb_remaining b) s" using posix by (simp add: termios_ready_def)
  have "\<exists>d. length d = nat n \<and> received (spsw_fd (sps s)) s' = received (spsw_fd (sps s)) s @ d \<and>
      bb_position b1 = bb_position b + n \<and> bb_bytes b1 = store (bb_bytes b) (nat (bb_position b)) d" if "r = Inr n" for n
    using termios_in.channel_read_law [OF io [unfolded that x] ch ready bb b(2)] by auto
  then show ?thesis using told by blast
qed

section \<open>A callback that throws\<close>

text \<open>
  What the callback throws for a transfer that has succeeded comes back to it as the failure of this
  transfer.
\<close>

theorem callback_told_twice:
  assumes "wr b s = Some ((Inr v, b1), s1)" and "run_state (callback None) (s1, b1) = (Some e, (s2, b2))"
  shows "\<exists>j thrown y. writeAsync_biconsumer (Some callback) (Some b) = Inr (Executor, j) \<and>
    run_job rd wr j s = Some ((thrown, [(b1, None), (b2, Some (as_IOException e))]), y)"
  using assms by (auto simp: writeAsync_biconsumer_def run_job_def tell_biconsumer_def tell_def accept_def split: prod.splits)

text \<open>The same with two callbacks: the one for failures follows the one for success.\<close>

theorem success_then_failure:
  assumes "rd b s = Some ((Inr v, b1), s1)" and "run_state callbackOnSuccess (s1, b1) = (Some e, (s2, b2))"
  shows "\<exists>j thrown y. readAsync_consumers (Some callbackOnSuccess) (Some callbackOnFailure) (Some b) = Inr (Executor, j) \<and>
    run_job rd wr j s = Some ((thrown, [(b1, None), (b2, Some (as_IOException e))]), y)"
  using assms by (auto simp: readAsync_consumers_def run_job_def tell_consumers_def tell_def accept_def split: prod.splits)

end
