(* ===== verification/AsyncPool.thy ===== *)
theory AsyncPool
  imports AsyncPort
begin

text \<open>
  Threads that write at the same time. Each runs one job of \<open>AsyncPort\<close>: it enters the block of
  \<open>AbstractSerialPortSocket.write\<close> that is synchronized on the lock of the writers, makes the native
  transfer, leaves the block and tells the outcome. The transfer is cut at the rounds of the loop of
  \<open>writeBuffer\<close>, each with one \<open>poll\<close> and one \<open>write\<close>: between two rounds any other thread may take a step.

  Only the lock keeps the rounds of two transfers apart. A synchronous \<open>write\<close> is a job too, one that tells
  nobody. The pending exception and \<open>errno\<close> in the state are those of the thread inside the block.
\<close>

section \<open>The threads\<close>

text \<open>
  Where a thread is: not yet in the block, inside of it, in the loop of the native method, behind it
  with the result, out of the block, or at its end with what it told.
\<close>

datatype ('p, 'a, 'r) phase = Submitted | Entered | Transferring 'p 'a | Returned "java_exc + int"
  | Unlocked "java_exc + int" | Ended 'r

text \<open>A transfer in steps: its start, and a round of its loop.\<close>

type_synonym ('w, 'c, 'p, 'a) starter = "bytes \<Rightarrow> int \<Rightarrow> ('w, 'c) jni \<Rightarrow> (int + 'p \<times> 'a) \<times> ('w, 'c) jni"
type_synonym ('w, 'c, 'p, 'a) rounds = "bytes \<Rightarrow> int \<Rightarrow> 'p \<Rightarrow> 'a \<Rightarrow> ('w, 'c) jni \<Rightarrow> (int + 'a) \<times> ('w, 'c) jni"

text \<open>
  The way back from the native method: the pending exception is thrown, \<open>end\<close> may throw another, and
  the position of the buffer is advanced.
\<close>

definition write_returns ::
  "('w, 'c) jni java_env \<Rightarrow> byte_buffer \<Rightarrow> int \<Rightarrow> ('w, 'c) jni \<times> channel
     \<Rightarrow> ((java_exc + int) \<times> byte_buffer) \<times> ('w, 'c) jni \<times> channel" where
  "write_returns env b n = (\<lambda>(s, ch).
     (let s' = s\<lparr>pending := None\<rparr>;
          thrown = map_option Native (pending s);
          completed = (case thrown of None \<Rightarrow> True | Some e \<Rightarrow> is_IOException e)
      in case end_io completed (je_others env s' ch) of (ended, ch') \<Rightarrow>
        (case ended of Some e \<Rightarrow> ((Inl e, b), (s', ch'))
         | None \<Rightarrow> (case thrown of Some e \<Rightarrow> ((Inl e, b), (s', ch'))
             | None \<Rightarrow> (case set_position (bb_position b + n) b of
                 Inl e \<Rightarrow> ((Inl e, b), (s', ch')) | Inr b' \<Rightarrow> ((Inr n, b'), (s', ch')))))))"

text \<open>A step inside the block.\<close>

definition enter_write ::
  "('w, 'c) jni java_env \<Rightarrow> ('w, 'c, 'p, 'a) starter \<Rightarrow> byte_buffer \<Rightarrow> ('w, 'c) jni \<times> channel
     \<Rightarrow> (byte_buffer \<times> ('p, 'a, 'r) phase) \<times> ('w, 'c) jni \<times> channel" where
  "enter_write env start b x =
     (if \<not> 0 < bb_remaining b then ((b, Returned (Inr 0)), x)
      else (case begin_io env x of (s, ch) \<Rightarrow>
        (case start (drop (nat (bb_position b)) (bb_bytes b)) (bb_remaining b) s of
           (Inl n, s') \<Rightarrow> (case write_returns env b n (s', ch) of ((r, b'), y) \<Rightarrow> ((b', Returned r), y))
         | (Inr (p, a), s') \<Rightarrow> ((b, Transferring p a), (s', ch)))))"

definition continue_write ::
  "('w, 'c) jni java_env \<Rightarrow> ('w, 'c, 'p, 'a) rounds \<Rightarrow> byte_buffer \<Rightarrow> 'p \<Rightarrow> 'a \<Rightarrow> ('w, 'c) jni \<times> channel
     \<Rightarrow> (byte_buffer \<times> ('p, 'a, 'r) phase) \<times> ('w, 'c) jni \<times> channel" where
  "continue_write env round b p a = (\<lambda>(s, ch).
     (case round (drop (nat (bb_position b)) (bb_bytes b)) (bb_remaining b) p a s of
        (Inl n, s') \<Rightarrow> (case write_returns env b n (s', ch) of ((r, b'), y) \<Rightarrow> ((b', Returned r), y))
      | (Inr a', s') \<Rightarrow> ((b, Transferring p a'), (s', ch))))"

record ('w, 'c, 'p, 'a, 'r) pool =
  pool_port :: "('w, 'c) jni \<times> channel"
  pool_lock :: "nat option"
  pool_threads :: "(byte_buffer \<times> ('p, 'a, 'r) phase) list"

type_synonym ('w, 'c, 'r) port_job = "(('w, 'c) jni \<times> channel, byte_buffer, 'r) job"

text \<open>
  The next step of the thread \<open>i\<close>, None when it has ended or waits for the lock, which a thread gets
  with the block and gives back behind it, also when an exception leaves the block.
\<close>

definition thread_step ::
  "('w, 'c) jni java_env \<Rightarrow> ('w, 'c, 'p, 'a) starter \<Rightarrow> ('w, 'c, 'p, 'a) rounds \<Rightarrow> ('w, 'c, 'r) port_job list \<Rightarrow> nat
     \<Rightarrow> ('w, 'c, 'p, 'a, 'r) pool \<Rightarrow> ('w, 'c, 'p, 'a, 'r) pool option" where
  "thread_step env start round jobs i q =
     (let go = (\<lambda>(t, x). q\<lparr>pool_port := x, pool_threads := (pool_threads q)[i := t]\<rparr>) in
      case pool_threads q ! i of (b, ph) \<Rightarrow> (case ph of
        Submitted \<Rightarrow> if pool_lock q = None then Some ((go ((b, Entered), pool_port q))\<lparr>pool_lock := Some i\<rparr>) else None
      | Entered \<Rightarrow> Some (go (enter_write env start b (pool_port q)))
      | Transferring p a \<Rightarrow> Some (go (continue_write env round b p a (pool_port q)))
      | Returned r \<Rightarrow> Some ((go ((b, Unlocked r), pool_port q))\<lparr>pool_lock := None\<rparr>)
      | Unlocked r \<Rightarrow> (case run_state (job_tell (jobs ! i) r) (pool_port q, b) of
          (told, (x, b')) \<Rightarrow> Some (go ((b', Ended told), x)))
      | Ended told \<Rightarrow> None))"

inductive pool_step ::
  "('w, 'c) jni java_env \<Rightarrow> ('w, 'c, 'p, 'a) starter \<Rightarrow> ('w, 'c, 'p, 'a) rounds \<Rightarrow> ('w, 'c, 'r) port_job list
     \<Rightarrow> ('w, 'c, 'p, 'a, 'r) pool \<Rightarrow> ('w, 'c, 'p, 'a, 'r) pool \<Rightarrow> bool"
  for env start round jobs where
  step: "i < length (pool_threads q) \<Longrightarrow> thread_step env start round jobs i q = Some q' \<Longrightarrow> pool_step env start round jobs q q'"

inductive_cases pool_stepE: "pool_step env start round jobs q q'"

text \<open>The jobs have been submitted, and every one has its thread.\<close>

fun accepted :: "('s, 'b, 'r) submission list \<Rightarrow> ('s, 'b, 'r) job list" where
  "accepted [] = []"
| "accepted (Inl e # xs) = accepted xs"
| "accepted (Inr (w, j) # xs) = j # accepted xs"

definition submitted :: "('w, 'c, 'r) port_job list \<Rightarrow> ('w, 'c) jni \<times> channel \<Rightarrow> ('w, 'c, 'p, 'a, 'r) pool" where
  "submitted jobs x = \<lparr>pool_port = x, pool_lock = None, pool_threads = map (\<lambda>j. (job_buffer j, Submitted)) jobs\<rparr>"


section \<open>A loop that ends\<close>

text \<open>How many rounds a loop takes until it ends.\<close>

fun ends_in :: "nat \<Rightarrow> ('a \<Rightarrow> 's \<Rightarrow> ('r + 'a) \<times> 's) \<Rightarrow> 'a \<Rightarrow> 's \<Rightarrow> bool" where
  "ends_in 0 body a s = False"
| "ends_in (Suc k) body a s = (case body a s of (x, t) \<Rightarrow> (case x of Inl r \<Rightarrow> True | Inr b \<Rightarrow> ends_in k body b t))"

lemma do_while_ends:
  assumes "do_while body a s = Some y"
  shows "\<exists>k. ends_in k body a s"
proof (rule ccontr)
  assume "\<nexists>k. ends_in k body a s"
  then have "do_while body a s = None"
  proof (intro do_while_diverges [where I = "\<lambda>a s. \<nexists>k. ends_in k body a s"])
    fix a s assume "\<nexists>k. ends_in k body a s"
    then have "\<not> ends_in (Suc k) body a s" for k by blast
    then show "\<exists>b t. body a s = (Inr b, t) \<and> (\<nexists>k. ends_in k body b t)"
      by (cases "body a s"; cases "fst (body a s)") auto
  qed
  then show False using assms by simp
qed

definition rounds_left :: "('a \<Rightarrow> 's \<Rightarrow> ('r + 'a) \<times> 's) \<Rightarrow> 'a \<Rightarrow> 's \<Rightarrow> nat" where
  "rounds_left body a s = (LEAST k. ends_in k body a s)"

lemma rounds_left_less:
  assumes "do_while body a s = Some y" and "body a s = (Inr b, t)"
  shows "rounds_left body b t < rounds_left body a s"
proof -
  have "ends_in (rounds_left body a s) body a s"
    unfolding rounds_left_def using do_while_ends [OF assms(1)] by (rule LeastI_ex)
  then obtain k where k: "rounds_left body a s = Suc k" "ends_in k body b t"
    using assms(2) by (cases "rounds_left body a s") auto
  then have "rounds_left body b t \<le> k"
    unfolding rounds_left_def by (intro Least_le)
  then show ?thesis using k by simp
qed

section \<open>A transfer in steps is the transfer\<close>

lemma channel_write_returns:
  "channel_write env wr b x = (if \<not> 0 < bb_remaining b then Some ((Inr 0, b), x)
     else (case begin_io env x of (s, ch) \<Rightarrow> map_option (\<lambda>(n, s'). write_returns env b n (s', ch))
       (wr (drop (nat (bb_position b)) (bb_bytes b)) (bb_remaining b) s)))"
  by (auto simp: channel_write_def blocking_io_def native_def no_array_def write_ArgsOK_def write_returns_def rethrow_def Let_def
      split: option.splits prod.splits sum.splits)

definition inside :: "('p, 'a, 'r) phase \<Rightarrow> bool" where
  "inside ph \<longleftrightarrow> (case ph of Entered \<Rightarrow> True | Transferring p a \<Rightarrow> True | Returned r \<Rightarrow> True | _ \<Rightarrow> False)"

lemma inside_simps [simp]:
  "\<not> inside Submitted" "inside Entered" "inside (Transferring p a)" "inside (Returned r)" "\<not> inside (Unlocked r)" "\<not> inside (Ended told)"
  by (simp_all add: inside_def)

locale stepwise_writer =
  fixes wr :: "('w, 'c) jni writer" and start :: "('w, 'c, 'p, 'a) starter" and round :: "('w, 'c, 'p, 'a) rounds"
  assumes stepwise: "wr d n s = (case start d n s of (x, s1) \<Rightarrow> (case x of Inl r \<Rightarrow> Some (r, s1)
      | Inr (p, a) \<Rightarrow> do_while (round d n p) a s1))"
begin

text \<open>What a thread inside the block has still to do.\<close>

definition rest ::
  "('w, 'c) jni java_env \<Rightarrow> byte_buffer \<times> ('p, 'a, 'r) phase \<Rightarrow> (('w, 'c) jni \<times> channel, int, byte_buffer) call" where
  "rest env t x = (case t of (b, ph) \<Rightarrow> (case ph of
       Entered \<Rightarrow> channel_write env wr b x
     | Transferring p a \<Rightarrow> (case x of (s, ch) \<Rightarrow> map_option (\<lambda>(n, s'). write_returns env b n (s', ch))
         (do_while (round (drop (nat (bb_position b)) (bb_bytes b)) (bb_remaining b) p) a s))
     | Returned r \<Rightarrow> Some ((r, b), x)
     | _ \<Rightarrow> None))"

lemma rest_simps [simp]:
  "rest env (b, Entered) x = channel_write env wr b x"
  "rest env (b, Transferring p a) (s, ch) = map_option (\<lambda>(n, s'). write_returns env b n (s', ch))
     (do_while (round (drop (nat (bb_position b)) (bb_bytes b)) (bb_remaining b) p) a s)"
  "rest env (b, Returned r) x = Some ((r, b), x)"
  by (simp_all add: rest_def)

lemma rest_enter:
  assumes "enter_write env start b x = (t, y)"
  shows "rest env t y = channel_write env wr b x \<and> inside (snd t)"
  using assms by (auto simp: enter_write_def channel_write_returns stepwise split: if_splits prod.splits sum.splits option.splits)

lemma rest_continue:
  fixes t :: "byte_buffer \<times> ('p, 'a, 'r) phase"
  assumes "continue_write env round b p a x = (t, y)"
  shows "rest env t y = rest env (b, Transferring p a :: ('p, 'a, 'r) phase) x \<and> inside (snd t)"
  using assms by (cases x) (auto simp: continue_write_def do_while_done do_while_more split: prod.splits sum.splits)

end

section \<open>The threads take turns\<close>

text \<open>Whole writes one after the other: who, with which result, and the buffer then.\<close>

type_synonym turn = "nat \<times> (java_exc + int) \<times> byte_buffer"

fun serial ::
  "('w, 'c) jni java_env \<Rightarrow> ('w, 'c) jni writer \<Rightarrow> byte_buffer list \<Rightarrow> turn list \<Rightarrow> ('w, 'c) jni \<times> channel
     \<Rightarrow> ('w, 'c) jni \<times> channel \<Rightarrow> bool" where
  "serial env wr bs [] x y \<longleftrightarrow> x = y"
| "serial env wr bs ((i, r, b) # h) x y \<longleftrightarrow> (\<exists>z. channel_write env wr (bs ! i) x = Some ((r, b), z) \<and> serial env wr bs h z y)"

lemma serial_append:
  "serial env wr bs (h @ h') x y \<longleftrightarrow> (\<exists>z. serial env wr bs h x z \<and> serial env wr bs h' z y)"
proof (induction h arbitrary: x)
  case (Cons t h)
  then show ?case by (cases t) (simp, blast)
qed simp

text \<open>Jobs that do not touch the port once they have left the block.\<close>

definition discreet :: "('w, 'c, 'r) port_job \<Rightarrow> bool" where
  "discreet j \<longleftrightarrow> (\<forall>r x. fst (snd (run_state (job_tell j r) x)) = fst x)"

text \<open>A thread that has left the block with this result.\<close>

definition has_left :: "('w, 'c, 'r) port_job \<Rightarrow> (java_exc + int) \<times> byte_buffer \<Rightarrow> byte_buffer \<times> ('p, 'a, 'r) phase \<Rightarrow> bool" where
  "has_left j out t \<longleftrightarrow> (case out of (r, b) \<Rightarrow> t = (b, Unlocked r) \<or>
     (\<exists>x. snd t = Ended (fst (run_state (job_tell j r) (x, b)))))"

context stepwise_writer
begin

text \<open>
  The invariant: the port is where the turns so far have brought it, but for the thread that holds
  the lock, which has still to do what leads from there to the end of its own write.
\<close>

definition turns ::
  "('w, 'c) jni java_env \<Rightarrow> ('w, 'c, 'r) port_job list \<Rightarrow> ('w, 'c) jni \<times> channel \<Rightarrow> ('w, 'c, 'p, 'a, 'r) pool
     \<Rightarrow> turn list \<Rightarrow> ('w, 'c) jni \<times> channel \<Rightarrow> bool" where
  "turns env jobs x q h y \<longleftrightarrow> length (pool_threads q) = length jobs \<and>
     serial env wr (map job_buffer jobs) h x y \<and> distinct (map fst h) \<and>
     (\<forall>(i, out) \<in> set h. i < length jobs \<and> has_left (jobs ! i) out (pool_threads q ! i)) \<and>
     (\<forall>i < length jobs. i \<notin> fst ` set h \<longrightarrow> pool_lock q \<noteq> Some i \<longrightarrow>
        pool_threads q ! i = (job_buffer (jobs ! i), Submitted)) \<and>
     (case pool_lock q of None \<Rightarrow> pool_port q = y
      | Some i \<Rightarrow> i < length jobs \<and> i \<notin> fst ` set h \<and> inside (snd (pool_threads q ! i)) \<and>
          rest env (pool_threads q ! i) (pool_port q) = channel_write env wr (job_buffer (jobs ! i)) y)"

lemma turns_submitted: "turns env jobs x (submitted jobs x) [] x"
  by (simp add: turns_def submitted_def)

text \<open>A thread that is inside the block holds the lock.\<close>

lemma turns_inside:
  assumes "turns env jobs x q h y" and "i < length jobs" and "inside (snd (pool_threads q ! i))"
  shows "pool_lock q = Some i"
proof (rule ccontr)
  assume "pool_lock q \<noteq> Some i"
  then consider "pool_threads q ! i = (job_buffer (jobs ! i), Submitted)"
    | out where "has_left (jobs ! i) out (pool_threads q ! i)"
    using assms(1,2) unfolding turns_def by (cases "i \<in> fst ` set h") (fastforce, blast)
  then show False using assms(3) by cases (auto simp: has_left_def split: prod.splits)
qed

lemma turns_work:
  assumes inv: "turns env jobs x q h y" and i: "pool_lock q = Some i"
    and "inside (snd t)" and "rest env t z = rest env (pool_threads q ! i) (pool_port q)"
  shows "turns env jobs x (q\<lparr>pool_port := z, pool_threads := (pool_threads q)[i := t]\<rparr>) h y"
proof -
  have "i \<notin> fst ` set h" using inv i by (simp add: turns_def)
  then have "\<forall>(k, out) \<in> set h. k \<noteq> i" by force
  then show ?thesis using assms by (auto simp: turns_def nth_list_update split: prod.splits)
qed

lemma turns_step:
  assumes inv: "turns env jobs x q h y" and jobs: "\<forall>j \<in> set jobs. discreet j" and "pool_step env start round jobs q q'"
  shows "\<exists>h' y'. turns env jobs x q' h' y'"
  using assms(3)
proof (rule pool_stepE)
  fix i assume i: "i < length (pool_threads q)" and step: "thread_step env start round jobs i q = Some q'"
  have n: "i < length jobs" "length (pool_threads q) = length jobs" using inv i by (simp_all add: turns_def)
  obtain b ph where t: "pool_threads q ! i = (b, ph)" by fastforce
  note inv' = inv [unfolded turns_def]
  have lock: "pool_lock q = Some i" if "inside ph" using turns_inside [OF inv n(1)] that t by simp
  show ?thesis
  proof (cases ph)
    case Submitted
    then have free: "pool_lock q = None" and q': "q' = q\<lparr>pool_lock := Some i, pool_threads := (pool_threads q)[i := (b, Entered)]\<rparr>"
      using step by (auto simp: thread_step_def t Let_def split: if_splits)
    have out: "i \<notin> fst ` set h" using inv' Submitted t by (force simp: has_left_def)
    then have "\<forall>(k, out) \<in> set h. k \<noteq> i" by force
    moreover have "b = job_buffer (jobs ! i)" using inv' free out n(1) t by simp
    ultimately have "turns env jobs x q' h y"
      using inv' free out n by (auto simp: turns_def q' nth_list_update split: prod.splits)
    then show ?thesis by blast
  next
    case Entered
    obtain u z where e: "enter_write env start b (pool_port q) = (u, z)"
      and q': "q' = q\<lparr>pool_port := z, pool_threads := (pool_threads q)[i := u]\<rparr>"
      using step Entered by (auto simp: thread_step_def t Let_def split: prod.splits)
    have "turns env jobs x q' h y"
      unfolding q' using turns_work [OF inv lock] rest_enter [OF e] Entered t by simp
    then show ?thesis by blast
  next
    case (Transferring p a)
    obtain u z where e: "continue_write env round b p a (pool_port q) = (u, z)"
      and q': "q' = q\<lparr>pool_port := z, pool_threads := (pool_threads q)[i := u]\<rparr>"
      using step Transferring by (auto simp: thread_step_def t Let_def split: prod.splits)
    have "turns env jobs x q' h y"
      unfolding q' using turns_work [OF inv lock] rest_continue [OF e] Transferring t by simp
    then show ?thesis by blast
  next
    case (Returned r)
    have q': "q' = q\<lparr>pool_lock := None, pool_threads := (pool_threads q)[i := (b, Unlocked r)]\<rparr>"
      using step Returned by (auto simp: thread_step_def t Let_def)
    have h: "i \<notin> fst ` set h" "channel_write env wr (job_buffer (jobs ! i)) y = Some ((r, b), pool_port q)"
      using inv' lock Returned t by auto
    then have "\<forall>(k, out) \<in> set h. k \<noteq> i" by force
    moreover have "serial env wr (map job_buffer jobs) (h @ [(i, r, b)]) x (pool_port q)"
      unfolding serial_append using inv' h(2) n(1) by (intro exI [of _ y]) simp
    ultimately have "turns env jobs x q' (h @ [(i, r, b)]) (pool_port q)"
      using inv' h(1) n lock Returned by (auto simp: turns_def q' nth_list_update has_left_def split: prod.splits)
    then show ?thesis by blast
  next
    case (Unlocked r)
    obtain told b' where q': "q' = q\<lparr>pool_threads := (pool_threads q)[i := (b', Ended told)]\<rparr>"
      and told: "told = fst (run_state (job_tell (jobs ! i) r) (pool_port q, b))"
    proof -
      obtain told z b' where run: "run_state (job_tell (jobs ! i) r) (pool_port q, b) = (told, (z, b'))" by (metis prod.collapse)
      then have "z = pool_port q" using jobs n(1) by (metis discreet_def fst_conv nth_mem snd_conv)
      then show thesis using that step Unlocked run by (auto simp: thread_step_def t Let_def)
    qed
    have "pool_lock q \<noteq> Some i" using inv' Unlocked t by (auto split: option.splits)
    moreover have "i \<in> fst ` set h" using inv' calculation n(1) Unlocked t by auto
    moreover have "\<forall>(k, out) \<in> set h. k < length jobs \<and> has_left (jobs ! k) out ((pool_threads q)[i := (b', Ended told)] ! k)"
    proof safe
      fix k r' bk assume k: "(k, r', bk) \<in> set h"
      then show "k < length jobs" using inv' by auto
      have "has_left (jobs ! k) (r', bk) (pool_threads q ! k)" using inv' k by auto
      then show "has_left (jobs ! k) (r', bk) ((pool_threads q)[i := (b', Ended told)] ! k)"
        using n Unlocked t told by (cases "k = i") (auto simp: has_left_def simp del: split_paired_Ex)
    qed
    ultimately have "turns env jobs x q' h y"
      using inv' n by (auto simp: turns_def q' nth_list_update split: option.splits)
    then show ?thesis by blast
  next
    case (Ended told)
    then show ?thesis using step by (simp add: thread_step_def t)
  qed
qed

lemma turns_reachable:
  assumes "(pool_step env start round jobs)\<^sup>*\<^sup>* (submitted jobs x) q" and "\<forall>j \<in> set jobs. discreet j"
  shows "\<exists>h y. turns env jobs x q h y"
  using assms(1)
proof (induction rule: rtranclp_induct)
  case base
  show ?case using turns_submitted by blast
next
  case (step q q')
  then show ?case using turns_step [OF _ assms(2)] by blast
qed

text \<open>No thread waits for ever: when none can take a step, all have ended.\<close>

lemma turns_stuck:
  assumes inv: "turns env jobs x q h y" and stuck: "\<And>q'. \<not> pool_step env start round jobs q q'" and i: "i < length jobs"
  shows "\<exists>b told. pool_threads q ! i = (b, Ended told)"
proof -
  have blocked: "thread_step env start round jobs k q = None" if "k < length jobs" for k
    using stuck pool_step.step [of k q env start round jobs] that inv by (cases "thread_step env start round jobs k q") (auto simp: turns_def)
  have free: "pool_lock q = None"
  proof (cases "pool_lock q")
    case (Some k)
    then have "k < length jobs" "inside (snd (pool_threads q ! k))" using inv by (simp_all add: turns_def)
    then show ?thesis
      using blocked [of k] by (auto simp: thread_step_def Let_def inside_def split: prod.splits phase.splits)
  qed
  show ?thesis
    using blocked [OF i] free by (auto simp: thread_step_def Let_def split: prod.splits phase.splits)
qed

text \<open>Every step brings a thread further, or its loop.\<close>

fun todo :: "('p, 'a, 'r) phase \<Rightarrow> nat" where
  "todo Submitted = 5"
| "todo Entered = 4"
| "todo (Transferring p a) = 3"
| "todo (Returned r) = 2"
| "todo (Unlocked r) = 1"
| "todo (Ended told) = 0"

definition effort :: "('w, 'c, 'p, 'a, 'r) pool \<Rightarrow> nat" where
  "effort q = sum_list (map (\<lambda>t. todo (snd t)) (pool_threads q))"

definition loop_left :: "('w, 'c, 'p, 'a, 'r) pool \<Rightarrow> nat" where
  "loop_left q = (case pool_lock q of None \<Rightarrow> 0 | Some i \<Rightarrow> (case pool_threads q ! i of (b, ph) \<Rightarrow> (case ph of
     Transferring p a \<Rightarrow> rounds_left (round (drop (nat (bb_position b)) (bb_bytes b)) (bb_remaining b) p) a (fst (pool_port q))
   | _ \<Rightarrow> 0)))"

lemma effort_less:
  assumes "i < length (pool_threads q)" and "pool_threads q' = (pool_threads q)[i := t]" and "todo (snd t) < todo (snd (pool_threads q ! i))"
  shows "effort q' < effort q"
proof -
  have "todo (snd (pool_threads q ! i)) \<le> sum_list (map (\<lambda>t. todo (snd t)) (pool_threads q))"
    using elem_le_sum_list [of i "map (\<lambda>t. todo (snd t)) (pool_threads q)"] assms(1) by simp
  then show ?thesis
    using assms by (simp add: effort_def map_update sum_list_update)
qed

lemma step_less:
  assumes step: "pool_step env start round jobs q q'"
    and lock: "\<And>i. i < length (pool_threads q) \<Longrightarrow> inside (snd (pool_threads q ! i)) \<Longrightarrow>
      pool_lock q = Some i \<and> rest env (pool_threads q ! i) (pool_port q) \<noteq> None"
  shows "((effort q', loop_left q'), (effort q, loop_left q)) \<in> less_than <*lex*> less_than"
  using step
proof (rule pool_stepE)
  fix i assume i: "i < length (pool_threads q)" and step: "thread_step env start round jobs i q = Some q'"
  obtain b ph where t: "pool_threads q ! i = (b, ph)" by fastforce
  note less = effort_less [OF i]
  show ?thesis
  proof (cases ph)
    case (Transferring p a)
    obtain s ch where x: "pool_port q = (s, ch)" by fastforce
    let ?body = "round (drop (nat (bb_position b)) (bb_bytes b)) (bb_remaining b) p"
    obtain z where loop: "do_while ?body a s = Some z" and l: "pool_lock q = Some i"
      using lock [OF i] by (auto simp: t Transferring x)
    show ?thesis
    proof (cases "fst (?body a s)")
      case (Inl n)
      then have "effort q' < effort q"
        using step Transferring by (auto simp: thread_step_def t x Let_def continue_write_def split: prod.splits intro!: less)
      then show ?thesis by simp
    next
      case (Inr a')
      then obtain s' where r: "?body a s = (Inr a', s')" by (metis prod.collapse)
      then have q': "q' = q\<lparr>pool_port := (s', ch), pool_threads := (pool_threads q)[i := (b, Transferring p a')]\<rparr>"
        using step Transferring by (simp add: thread_step_def t x Let_def continue_write_def)
      have "effort q' = effort q"
        using i elem_le_sum_list [of i "map (\<lambda>t. todo (snd t)) (pool_threads q)"]
        by (simp add: effort_def q' map_update sum_list_update t Transferring)
      moreover have "loop_left q' < loop_left q"
        using rounds_left_less [OF loop r] i by (simp add: loop_left_def q' l t Transferring x)
      ultimately show ?thesis by simp
    qed
  qed (use step in \<open>auto simp: thread_step_def t Let_def enter_write_def split: prod.splits if_splits sum.splits intro!: less\<close>)
qed

end

section \<open>Jobs over a line\<close>

context line_sender
begin

lemma serial_sends:
  assumes "serial env wr bs h x z" and "can_send (fst x)" and "\<not> ch_status (snd x)" and env: "nobody_interrupts env"
    and "\<forall>i \<in> fst ` set h. i < length bs" and bs: "\<forall>b \<in> set bs. buffer_ok b" and "distinct (map fst h)"
  shows "can_send (fst z) \<and> \<not> ch_status (snd z) \<and> (\<exists>y. wire (world (fst z)) = wire (world (fst x)) @ concat (map y (map fst h)) \<and>
    (\<forall>(i, r, b) \<in> set h. has_put (bs ! i) r (y i)))"
  using assms(1-3,5,7)
proof (induction h arbitrary: x)
  case (Cons t h)
  obtain i r b where t: "t = (i, r, b)" by (cases t)
  obtain x1 where run: "channel_write env wr (bs ! i) x = Some ((r, b), x1)" and h: "serial env wr bs h x1 z"
    using Cons.prems(1) by (auto simp: t)
  obtain s ch where x: "x = (s, ch)" by fastforce
  have "buffer_ok (bs ! i)" using Cons.prems(4) bs by (simp add: t)
  then obtain y0 where first: "can_send (fst x1)" "\<not> ch_status (snd x1)" "wire (world (fst x1)) = wire (world (fst x)) @ y0"
      "has_put (bs ! i) r y0"
    using channel_write_sends [of s env ch "bs ! i"] Cons.prems(2,3) env run by (auto simp: x)
  obtain y where rest: "can_send (fst z)" "\<not> ch_status (snd z)" "wire (world (fst z)) = wire (world (fst x1)) @ concat (map y (map fst h))"
      "\<forall>(i, r, b) \<in> set h. has_put (bs ! i) r (y i)"
    using Cons.IH [OF h first(1,2)] Cons.prems(4,5) by auto
  have i: "i \<notin> fst ` set h" using Cons.prems(5) by (simp add: t)
  then have "map (y(i := y0)) (map fst h) = map y (map fst h)" and other: "\<forall>(k, r, b) \<in> set h. k \<noteq> i" by force+
  then have "concat (map (y(i := y0)) (map fst (t # h))) = y0 @ concat (map y (map fst h))"
    by (simp only: t list.map fst_conv fun_upd_same concat.simps)
  moreover have "\<forall>(k, r, b) \<in> set (t # h). has_put (bs ! k) r ((y(i := y0)) k)"
    using first(4) rest(4) other by (auto simp: t)
  ultimately obtain f where "concat (map f (map fst (t # h))) = y0 @ concat (map y (map fst h))"
      "\<forall>(k, r, b) \<in> set (t # h). has_put (bs ! k) r (f k)" by blast
  then show ?case
    using first(3) rest(1-3) by (intro conjI exI [of _ f]) simp_all
qed (auto intro!: exI [of _ "\<lambda>_. []"])

end

locale stepwise_sender = stepwise_writer wr start round + line_sender wr can_send wire timeout_text
  for wr :: "('w, 'c) jni writer" and start :: "('w, 'c, 'p, 'a) starter" and round and can_send wire timeout_text
begin

lemma pool_lock_rest:
  assumes inv: "turns env jobs x q h y" and x: "can_send (fst x)" "\<not> ch_status (snd x)" and env: "nobody_interrupts env"
    and bs: "\<forall>j \<in> set jobs. buffer_ok (job_buffer j)" and i: "i < length (pool_threads q)" "inside (snd (pool_threads q ! i))"
  shows "pool_lock q = Some i \<and> rest env (pool_threads q ! i) (pool_port q) \<noteq> None"
proof
  have n: "i < length jobs" using inv i(1) by (simp add: turns_def)
  show lock: "pool_lock q = Some i" using turns_inside [OF inv n i(2)] .
  obtain s ch where y: "y = (s, ch)" by fastforce
  have "can_send (fst y) \<and> \<not> ch_status (snd y)"
    using serial_sends [where h = h and x = x and z = y and bs = "map job_buffer jobs", OF _ x env] inv bs
    by (fastforce simp: turns_def)
  then show "rest env (pool_threads q ! i) (pool_port q) \<noteq> None"
    using channel_write_sends [of s env ch "job_buffer (jobs ! i)"] env bs n inv lock by (auto simp: turns_def y)
qed

text \<open>Every run ends, whichever thread takes the next step.\<close>

lemma pool_terminates:
  assumes x: "can_send (fst x)" "\<not> ch_status (snd x)" and env: "nobody_interrupts env"
    and bs: "\<forall>j \<in> set jobs. buffer_ok (job_buffer j)" and jobs: "\<forall>j \<in> set jobs. discreet j"
  shows "termip (pool_step env start round jobs) (submitted jobs x)"
proof -
  have "termip (pool_step env start round jobs) q" if "\<exists>h y. turns env jobs x q h y" for q
    using that
  proof (induction "(effort q, loop_left q)" arbitrary: q rule: wf_induct_rule [OF wf_lex_prod [OF wf_less_than wf_less_than]])
    case less: 1
    show ?case
    proof (rule accpI)
      fix q' assume "(pool_step env start round jobs)\<inverse>\<inverse> q' q"
      then have step: "pool_step env start round jobs q q'" by simp
      obtain h y where inv: "turns env jobs x q h y" using less.prems by blast
      have "((effort q', loop_left q'), (effort q, loop_left q)) \<in> less_than <*lex*> less_than"
        by (rule step_less [OF step pool_lock_rest [OF inv x env bs]])
      then show "termip (pool_step env start round jobs) q'"
        using less.hyps turns_step [OF inv jobs step] by blast
    qed
  qed
  then show ?thesis using turns_submitted by blast
qed

text \<open>And when it has ended, the writes have taken turns.\<close>

lemma pool_outcome:
  assumes reach: "(pool_step env start round jobs)\<^sup>*\<^sup>* (submitted jobs x) q" and stuck: "\<And>q'. \<not> pool_step env start round jobs q q'"
    and x: "can_send (fst x)" "\<not> ch_status (snd x)" and env: "nobody_interrupts env"
    and bs: "\<forall>j \<in> set jobs. buffer_ok (job_buffer j)" and jobs: "\<forall>j \<in> set jobs. discreet j"
  shows "\<exists>order y. mset order = mset [0..<length jobs] \<and>
    wire (world (fst (pool_port q))) = wire (world (fst x)) @ concat (map y order) \<and>
    (\<forall>i < length jobs. \<exists>r b z. snd (pool_threads q ! i) = Ended (fst (run_state (job_tell (jobs ! i) r) (z, b))) \<and>
      has_put (job_buffer (jobs ! i)) r (y i))"
proof -
  obtain h y where inv: "turns env jobs x q h y" using turns_reachable [OF reach jobs] by blast
  note inv' = inv [unfolded turns_def]
  have ended: "\<exists>b told. pool_threads q ! i = (b, Ended told)" if "i < length jobs" for i
    using turns_stuck [OF inv stuck that] .
  then have free: "pool_lock q = None" using inv' by (cases "pool_lock q") fastforce+
  have h: "i \<in> fst ` set h" if "i < length jobs" for i
    using inv' ended [OF that] free that by (cases "i \<in> fst ` set h") auto
  then have "set (map fst h) = set [0..<length jobs]" using inv' by auto
  then have order: "mset (map fst h) = mset [0..<length jobs]" using inv' by (metis distinct_upt set_eq_iff_mset_eq_distinct)
  obtain y' where y': "wire (world (fst y)) = wire (world (fst x)) @ concat (map y' (map fst h))"
      "\<forall>(i, r, b) \<in> set h. has_put (map job_buffer jobs ! i) r (y' i)"
    using serial_sends [where h = h and x = x and z = y and bs = "map job_buffer jobs", OF _ x env] inv' bs by fastforce
  have "\<exists>r b z. snd (pool_threads q ! i) = Ended (fst (run_state (job_tell (jobs ! i) r) (z, b))) \<and>
      has_put (job_buffer (jobs ! i)) r (y' i)" if i: "i < length jobs" for i
  proof -
    obtain r b where "(i, r, b) \<in> set h" using h [OF i] by force
    then have "has_left (jobs ! i) (r, b) (pool_threads q ! i)" "has_put (job_buffer (jobs ! i)) r (y' i)"
      using inv' y'(2) i by fastforce+
    then show ?thesis using ended [OF i] by (auto simp: has_left_def)
  qed
  then show ?thesis using order y'(1) inv' free by (intro exI [of _ "map fst h"] exI [of _ y']) auto
qed

end

section \<open>The two builds\<close>




text \<open>On Windows the operation is started, and waited for in one round.\<close>

definition win_start :: "'w wos \<Rightarrow> ('w, wcall \<times> wresp, int \<times> int, wresp) starter" where
  "win_start os d n = run_state (do {
     hFile \<leftarrow> GetField spsw_fd;
     e \<leftarrow> wincall os CreateEventA;
     f \<leftarrow> wincall os (WriteFile hFile (take (nat (uint32 n)) d) (w_ret e));
     State_Monad.return (Inr ((hFile, w_ret e), f))
   })"

definition win_round :: "winapi \<Rightarrow> 'w wos \<Rightarrow> ('w, wcall \<times> wresp, int \<times> int, wresp) rounds" where
  "win_round c os d n = (\<lambda>(hFile, hEvent) f. run_state (do {
     ready \<leftarrow> write_started c os hEvent f;
     ret \<leftarrow> (if \<not> ready then State_Monad.return 0 else overlapped_write c os hFile hEvent n);
     State_Monad.return (Inl ret)
   }))"

interpretation win_writer: stepwise_sender "windows_write c os" "win_start os" "win_round c os"
    "can_send_win os wire writing" wire "''Timeout writeBuffer overlapped''"
  for c os wire writing
  by unfold_locales (auto simp: windows_write_def writeBuffer_win_def win_start_def win_round_def do_while.simps Let_def
      split: prod.splits)

section \<open>Properties\<close>




text \<open>
  The futures of asynchronous writes to a Windows port: a future with a buffer means that all of it has been
  handed over, and no buffer is in another.
\<close>

theorem async_futures_win:
  assumes "can_send_win os wire writing s" and "nobody_interrupts env" and "\<not> ch_status ch" and "\<forall>b \<in> set bs. buffer_ok b"
    and "jobs = accepted (map (\<lambda>b. writeAsync (Some b)) bs)"
    and "(pool_step env (win_start os) (win_round c os) jobs)\<^sup>*\<^sup>* (submitted jobs (s, ch)) q"
    and "\<forall>q'. \<not> pool_step env (win_start os) (win_round c os) jobs q q'"
  shows "\<exists>order y. mset order = mset [0..<length bs] \<and> wire (world (fst (pool_port q))) = wire (world s) @ concat (map y order) \<and>
    (\<forall>i < length bs. \<exists>(r :: java_exc + int) b. has_put (bs ! i) r (y i) \<and>
      snd (pool_threads q ! i) = Ended (case r of Inl e \<Rightarrow> Inl (as_Exception e) | Inr _ \<Rightarrow> Inr b))"
proof -
  have jobs: "jobs = map (\<lambda>b. Job Writing b future_result) bs"
    unfolding assms(5) by (induction bs) (simp_all add: writeAsync_def)
  have future: "run_state (future_result r) (z, b) = (case r of Inl e \<Rightarrow> Inl (as_Exception e) | Inr _ \<Rightarrow> Inr b, (z, b))"
    for r :: "java_exc + int" and z :: "'a wstate \<times> channel" and b :: byte_buffer
    by (cases r) (simp_all add: future_result_def)
  have "\<forall>j \<in> set jobs. buffer_ok (job_buffer j)" "\<forall>j \<in> set jobs. discreet j"
    using assms(4) by (auto simp: jobs discreet_def future)
  from win_writer.pool_outcome [OF assms(6) _ _ _ assms(2) this, of wire writing] assms(1,3,7)
  have out: "\<exists>order y. mset order = mset [0..<length jobs] \<and> wire (world (fst (pool_port q))) = wire (world s) @ concat (map y order) \<and>
      (\<forall>i < length jobs. \<exists>r b z. snd (pool_threads q ! i) = Ended (fst (run_state (job_tell (jobs ! i) r) (z, b))) \<and>
        has_put (job_buffer (jobs ! i)) r (y i))" by simp
  then obtain order y where order: "mset order = mset [0..<length jobs]"
      "wire (world (fst (pool_port q))) = wire (world s) @ concat (map y order)"
    and ended: "\<forall>i < length jobs. \<exists>r b z. snd (pool_threads q ! i) = Ended (fst (run_state (job_tell (jobs ! i) r) (z, b))) \<and>
      has_put (job_buffer (jobs ! i)) r (y i)" by blast
  have "\<exists>(r :: java_exc + int) b. has_put (bs ! i) r (y i) \<and>
      snd (pool_threads q ! i) = Ended (case r of Inl e \<Rightarrow> Inl (as_Exception e) | Inr _ \<Rightarrow> Inr b)" if i: "i < length bs" for i
  proof -
    have job: "jobs ! i = Job Writing (bs ! i) future_result" "length jobs = length bs" using i by (simp_all add: jobs)
    show ?thesis using ended [rule_format, of i] i unfolding job job.sel future fst_conv by blast
  qed
  then show ?thesis using order by (intro exI [of _ order] exI [of _ y]) (simp add: jobs)
qed











end
