(* ===== verification/Spec2Isabelle.thy ===== *)
theory Spec2Isabelle
  imports CloseRace JniLoad NativeNames TermiosDeadline PortNames OpenPort AsyncPool
begin

text \<open>
  A verification library for the native provider of \<open>spsw\<close>, a Java library for serial ports.
  The provider is the C code under \<open>de.ibapl.spsw.jniprovider/src/main/native\<close> with the Java
  classes of the package \<open>de.ibapl.spsw.jniprovider\<close>; file names below are relative to these.

  \<^bold>\<open>The program.\<close> A Java object stands for a port. It holds a file descriptor (POSIX) or a handle
  (Windows), and its native methods read and write it through field ids that were looked up when the
  library was loaded. There are two builds. \<open>TermiosSettings.c\<close>, \<open>TermiosCommon.c\<close> and
  \<open>TermiosIO.c\<close> work on a terminal, \<open>WinApiSettings.c\<close>, \<open>WinApiCommon.c\<close> and \<open>WinApiIO.c\<close>
  on a Windows port. Both throw through \<open>Exceptions.c\<close>, are loaded by \<open>spsw-jni.c\<close>, take the line
  parameters as one bit set of \<open>spsw-jni.h\<close>, and give \<open>AbstractSerialPortSocketIO.c\<close> a
  \<open>readBuffer\<close> and a \<open>writeBuffer\<close>. A port may be closed by another thread while a transfer
  waits: a close event (POSIX) or \<open>CancelIo\<close> (Windows) ends the wait. On top of the native methods
  \<open>AbstractSerialPortSocket.java\<close> is an \<open>InterruptibleChannel\<close> with two streams and a getter and a
  setter for each line parameter, and \<open>SerialPortSocketFactoryImpl.java\<close> lists the ports of a system,
  in the order of \<open>PortnamesComparator.java\<close> (package \<open>de.ibapl.spsw.api\<close>). Around a port
  \<open>AsyncSerialPortSocketThreadPoolWrapper.java\<close> (package \<open>de.ibapl.spsw.wrapper\<close>) adds asynchronous
  transfers.

  \<^bold>\<open>How the code is modelled.\<close> A C function is a value of the state monad over the record \<open>jni\<close>:
  the fields of the Java object, the world, \<open>errno\<close>, the last Windows error, the pending
  exception, and as ghost fields the calls made to the system with their answers, the native memory
  blocks allocated, and whether something was read uninitialised. The operating system is an
  argument, a function \<open>os\<close> from a call and the current world to an answer. It may change the fields
  of the Java object while it answers, which is how other threads appear. The constants of the
  system headers are records (\<open>posix\<close>, \<open>winapi\<close>), so that every theorem holds for any platform whose
  constants are well formed (\<open>wf_posix\<close>, \<open>wf_win\<close>). Integers have their width: \<open>jint\<close> and the
  flag words are 32-bit words, and an \<open>int32_t\<close> or a \<open>size_t\<close> that the code converts goes through
  \<open>int32\<close>, \<open>uint32\<close> and \<open>size_t\<close>, which wrap. An exception does not stop C code, so throwing only
  sets the field \<open>pending\<close>. The loops of the transfers and of the registry are \<open>do_while\<close>, a
  \<open>partial_function\<close> into an option whose \<open>None\<close> is a call that never returns. No fuel is used: that a
  loop ends is a theorem (\<open>readBuffer_total\<close>, \<open>writeBuffer_total\<close>, \<open>readBuffer_in_time\<close>, \<open>writeBuffer_in_time\<close>,
  \<open>getWindowsBasedPortNames_lists\<close>, \<open>compare_names_key\<close>), and so is that one does not (\<open>readBuffer_endless\<close>, \<open>getWindowsBasedPortNames_endless\<close>).
  In Java a pending exception is thrown when the native method returns: \<open>java_call\<close> and \<open>native\<close> turn
  it into the left part of a sum. A blocking method (\<open>blocking_io\<close>) runs between \<open>begin\<close> and \<open>end\<close> of
  \<open>AbstractInterruptibleChannel\<close>, whose state is the record \<open>channel\<close>; what other threads do to it
  meanwhile is an argument.

  \<^bold>\<open>The theories.\<close>
  \<^item> \<open>Prelude\<close>: C conversions, \<open>snprintf\<close>, stores into a buffer, the weakest-precondition calculus
    \<open>wp\<close> of the state monad, the frame calculus, and \<open>do_while\<close> with its rules.
  \<^item> \<open>JniEnv\<close>: the state, the Java VM and the throwing functions of \<open>Exceptions.c\<close>.
  \<^item> \<open>ParamBits\<close>: the bit set of \<open>spsw-jni.h\<close> and its Java encoding and decoding in
    \<open>AbstractSerialPortSocket.java\<close>.
  \<^item> \<open>LineSpec\<close>: the abstract line both builds refine: \<open>line\<close>, what a request makes of it
    (\<open>apply_params\<close>), what reading says of it (\<open>collect\<close>, \<open>agrees\<close>), and the locale
    \<open>parameter_reader\<close> with the lemmas the two \<open>getParams\<close> share.
  \<^item> \<open>PosixApi\<close>: constants, library functions and system calls of POSIX, and devices for examples.
  \<^item> \<open>TermiosSettings\<close>, \<open>TermiosLine\<close>, \<open>TermiosParams\<close>: the functions of \<open>TermiosSettings.c\<close>, their
    meaning on the abstract line (interpretation \<open>termios\<close>), and their properties.
  \<^item> \<open>TermiosCommon\<close>: \<open>TermiosCommon.c\<close> with the life cycle in \<open>GenericTermiosSerialPortSocket.java\<close>;
    its lemmas count the descriptors the process holds.
  \<^item> \<open>TermiosIO\<close>: \<open>TermiosIO.c\<close>; its lemmas follow the bytes received and sent.
  \<^item> \<open>TermiosDeadline\<close>: the overall timeouts of the two transfers on a system with a clock (\<open>timely\<close>).
  \<^item> \<open>CloseRace\<close>: the statements of \<open>close0\<close> as a step relation of a second thread, its invariant, and
    what it does to a transfer that waits.
  \<^item> \<open>WinApi\<close>, \<open>WinApiSettings\<close>, \<open>WinApiLine\<close>, \<open>WinApiCommon\<close>, \<open>WinApiIO\<close>: the same for Windows. A
    function that both builds have carries the suffix \<open>_win\<close> here (interpretation \<open>windows\<close>).
  \<^item> \<open>AbstractIO\<close>: \<open>AbstractSerialPortSocketIO.c\<close> over the locales \<open>byte_source\<close>, \<open>byte_sink\<close> and
    \<open>byte_channel\<close>, the contract of \<open>readBuffer\<close> and \<open>writeBuffer\<close>; both builds interpret it
    (\<open>termios_io\<close>, \<open>windows_io\<close>). The locale \<open>transfer_observer\<close> carries what no system call
    changes through a whole POSIX transfer.
  \<^item> \<open>NullModem\<close>: two ports joined by a line. The locales \<open>line_sender\<close> and \<open>line_receiver\<close> say what a
    transfer does to the line, \<open>line\<close> runs any sequence of transfers over it; the builds interpret it in
    all four ways to join them (\<open>posix_line\<close>, \<open>win_line\<close>, \<open>win_posix_line\<close>, \<open>posix_win_line\<close>).
  \<^item> \<open>JavaChannel\<close>: the streams and the channel methods of \<open>AbstractSerialPortSocket.java\<close> over the
    locales \<open>java_source\<close> and \<open>java_sink\<close>, which extend those of \<open>AbstractIO\<close>; both builds interpret
    them (\<open>termios_in\<close>, \<open>termios_out\<close>, \<open>windows_in\<close>, \<open>windows_out\<close>).
  \<^item> \<open>JavaPort\<close>: the getters and setters of \<open>AbstractSerialPortSocket.java\<close> over the locale \<open>java_line\<close>,
    the contract of \<open>getParameters\<close> and \<open>setParameters\<close> on the abstract line (\<open>tty_line\<close>, \<open>port_line\<close>), and
    the life cycle in \<open>GenericWinSerialPortSocket.java\<close>.
  \<^item> \<open>OpenPort\<close>: opening with parameters against the abstract line, and whole sessions of a Java port over the
    locale \<open>java_port\<close>, which extends \<open>java_line\<close> by the contract of opening (\<open>tty_port\<close>, \<open>java_win_port\<close>).
  \<^item> \<open>AsyncPort\<close>: \<open>AsyncSerialPortSocketThreadPoolWrapper.java\<close> over the channel methods of \<open>JavaChannel\<close>: the
    tasks of the six methods, what each tells its callbacks, also when these throw, and what one task does
    when it runs alone.
  \<^item> \<open>AsyncPool\<close>: threads that run write tasks at the same time, with the lock of the writers in
    \<open>AbstractSerialPortSocket.write\<close>, as a step relation. A transfer is cut at the rounds of its loop; the locale
    \<open>stepwise_writer\<close> says that the rounds make up the transfer and has the invariant (\<open>turns\<close>), the locale
    \<open>stepwise_sender\<close> adds the line and that every run ends (\<open>posix_writer\<close>, \<open>win_writer\<close>).
  \<^item> \<open>PortOrder\<close>: \<open>PortnamesComparator.java\<close>, the key it compares by (\<open>portname_key\<close>), and sorting with it
    (interpretation \<open>portnames\<close> of the library's \<open>comparator\<close>).
  \<^item> \<open>PortNames\<close>: \<open>SerialPortSocketFactoryImpl.java\<close>: which class opens a port, the two listings with their
    probing of busy ports, the methods \<open>getPortNames\<close> over them, and the one that calls a consumer.
  \<^item> \<open>JniLoad\<close>: \<open>spsw-jni.c\<close> and the caches of \<open>Exceptions.c\<close>: loading and unloading.
  \<^item> \<open>NativeNames\<close>: the native methods of the Java classes, the generated headers under \<open>include\<close>, the
    functions the C files export and the constants of both sides as tables, compared by the naming
    rules of JNI.
  \<^item> This theory: the two builds side by side.

  \<^bold>\<open>What is shown.\<close> Line parameters: \<open>setParams\<close> reports success only when the driver shows what was
  asked, refines the abstract line on a driver that keeps its settings, does so alike on both
  platforms, and what was encoded in Java is decoded again. Life cycle: \<open>open0\<close> leaks no descriptor
  or handle, and opening, closing and the cleaner give everything back; a port opened with parameters is
  the abstract line with them, in raw mode, and a session of setters and getters behaves as on that line.
  Transfers: without an
  exception the bytes read are the bytes received, in order, and the bytes written are the bytes of the
  buffer; no time is used uninitialised; the event of a Windows transfer is closed on every path. A thread
  that closes the port wakes a waiting reader however the two interleave, and a waiting writer but for
  one window in which the wake-up is lost. With an overall timeout a transfer returns in time whatever
  the device does. Composition: over a line between two ports of either build no byte is lost, doubled or
  out of order while no read fails; threads that write at the same time never mix their buffers, whatever
  the interleaving, because of the lock, none waits for ever, and every callback is told the outcome of its write,
  once unless it throws. Java
  arrays: only the range asked for changes, native memory is given back but for one early return, and
  a single byte comes out as 0 to 255. Loading: success means that everything is cached. The seam:
  names, types and constants of the two languages agree, but for one method without a C function.
  Java: the streams check their ranges, deliver what the port delivered and turn an interrupt into an
  exception; any sequence of setter calls acts as on the abstract line, and a setter that throws
  changes nothing. Names: the comparison is a total preorder given by a key and puts numbers in order, and
  a listing is complete, sorted and free of busy ports when asked to be, and agrees with what a consumer is
  told.

  \<^bold>\<open>What is assumed.\<close> A handle is a 64-bit number. \<open>GetByteArrayElements\<close> succeeds and the address of a
  direct buffer is not NULL. Answers of the system that a property needs are stated as its hypotheses:
  \<open>faithful_tty\<close> and \<open>faithful_port\<close> (a driver keeps the settings it accepted), \<open>speed_lib\<close> (the POSIX
  speed functions), \<open>quiet\<close> and \<open>wquiet\<close> (no other thread changes the object), \<open>delivers\<close> (a driver
  reports the number of bytes it delivered, at most the number asked for), \<open>registry\<close>,
  \<open>silent_port\<close> (a port without data beside a closing thread), \<open>timely\<close> (a clock that goes on, and calls
  that end within a delay of what they were asked to wait), \<open>healthy\<close> and \<open>healthy_win\<close> (only opening a
  busy port fails), \<open>tty_openable\<close> and \<open>port_openable\<close> (a port that can be opened on such a driver),
  \<open>sends_to\<close>, \<open>gives_from\<close>, \<open>win_sends\<close> and \<open>win_gives\<close> (a line keeps what its one end has taken until its other
  end has given it), \<open>harmless\<close> (a consumer that does not touch the port and does not throw), \<open>leaves_port\<close> (a callback that
  does not touch the port; it may throw), \<open>nobody_interrupts\<close> (the thread of a task). Each has a concrete instance. Another
  thread is seen at system calls only: fields read without a call between them are read together.

  \<^bold>\<open>Not modelled.\<close> The interface package, the mock, logging, \<open>ser2net\<close> and the streams of the package
  \<open>spi\<close> (Java with no native part, most of it methods that call the one of the same name; of the package
  the enumerations of the parameters, the order of the names and the asynchronous wrapper appear), of the
  Java classes of the provider the lock of the readers, the security manager and logging, the provider over the external
  library \<open>jnhw\<close>, tests and demos, build files, and the copies of \<open>jni.h\<close>, which only declare the interface
  of the VM. Of the C code of the provider every function is modelled. The tables
  of \<open>NativeNames\<close> hold what the VM and the compiler see, not comments or annotations.
\<close>

section \<open>The two builds side by side\<close>

text \<open>RTS/CTS is asked for in both directions or in none: what POSIX has a flag for.\<close>

definition both_directions :: "params \<Rightarrow> bool" where
  "both_directions p \<longleftrightarrow> (case p_flow p of None \<Rightarrow> True
     | Some F \<Rightarrow> (RTS_CTS_IN \<in> set F) = (RTS_CTS_OUT \<in> set F))"

lemma apply_params_both:
  "apply_params True p l = (if both_directions p then apply_params False p l else None)"
  by (auto simp: both_directions_def apply_params_def apply_flow_def split: option.splits)

text \<open>
  C5: the two builds of the library configure a port alike. Started from settings that mean the
  same line, with a request both headers have constants for, \<open>setParams\<close> of the Termios
  build and of the Windows build return the same value, and after a success the settings
  they stored again mean the same line; after a failure both have an exception pending. The
  one difference: RTS/CTS in one direction only, which the Termios build always refuses.
\<close>

theorem platforms_agree:
  assumes "wf_posix c" and "speed_lib c lib" and "faithful_tty os (spsw_fd (sps s)) attr"
    and "parity_supported c p" and "speed_supported c p"
    and "wf_win wc" and "dcb_ok wc d" and "faithful_port wos (spsw_fd (sps ws)) wattr tmo"
    and "abs_line c t = abs_dcb wc d"
  shows "case run_state (setParams c lib os t (encode_params p)) s of (ret, s') \<Rightarrow>
    case run_state (setParams_win wc wos d (encode_params p)) ws of (wret, ws') \<Rightarrow>
      if both_directions p
      then wret = ret \<and> (if ret = 0 then abs_line c (attr (world s')) = abs_dcb wc (wattr (world ws'))
             \<and> pending s' = pending s \<and> pending ws' = pending ws
           else is_pending s' \<and> is_pending ws')
      else ret = - 1 \<and> is_pending s' \<and> world s' = world s"
  using setParams_refines [OF assms(1-5), of t] setParams_win_refines [OF assms(6-8), of p] assms(9)
  by (cases "both_directions p"; cases "apply_params False p (abs_dcb wc d)")
    (simp_all add: wp_def apply_params_both split: prod.splits)

lemma five_bit_port:
  "dcb_ok windows_consts (no_dcb\<lparr>ByteSize := 5\<rparr>)"
  "abs_line linux_consts no_termios = abs_dcb windows_consts (no_dcb\<lparr>ByteSize := 5\<rparr>)"
  by (simp_all add: dcb_ok_def abs_dcb_def abs_line_def no_dcb_def no_termios_def windows_consts_def linux_consts_def
      dcb_dataBits_def dcb_stopBits_def dcb_parity_def)

lemma request_8N1_both [simp]: "both_directions request_8N1"
  by (simp add: both_directions_def request_8N1_def)

lemma request_run:
  "case run_state (setParams linux_consts plain_lib tty_device no_termios (encode_params request_8N1))
      (example_state no_termios) of (ret, s') \<Rightarrow> ret = 0"
  by code_simp

theorem platforms_agree_witness:
  "case run_state (setParams linux_consts plain_lib tty_device no_termios (encode_params request_8N1))
      (example_state no_termios) of (ret, s') \<Rightarrow>
    case run_state (setParams_win windows_consts port_device (no_dcb\<lparr>ByteSize := 5\<rparr>) (encode_params request_8N1))
      (windows_state (no_dcb\<lparr>ByteSize := 5\<rparr>, no_timeouts)) of (wret, ws') \<Rightarrow>
    ret = 0 \<and> wret = 0 \<and> abs_line linux_consts (world s') = abs_dcb windows_consts (fst (world ws'))"
  using platforms_agree [OF wf_linux speed_lib_plain _ _ _ wf_windows five_bit_port(1) _ five_bit_port(2),
      of tty_device "example_state no_termios" "\<lambda>t. t" request_8N1 port_device
      "windows_state (no_dcb\<lparr>ByteSize := 5\<rparr>, no_timeouts)" fst snd] request_run
  by (auto split: prod.splits if_splits)

end
